(* ===== verification/Private_Write.thy ===== *)
theory Private_Write
  imports Prelude
begin

section \<open>Writing private state through a temporary file (\<open>storage/mod.rs\<close>)\<close>

text \<open>
  \<open>write_private\<close> as the sequence of its system calls, each of which may fail, on the two files
  involved: open (create, truncate, mode 0600 for a new file), writes that append any part of
  what is left, sync, chmod, rename. Any state of the relation is one the process may be killed
  in. Permissions are the low nine mode bits. \<open>tighten\<close> is the start-up pass over files that an
  earlier version left readable.
\<close>

record disk_file =
  f_content :: bytes
  f_mode :: nat

definition file_mode :: nat where "file_mode = 384"
definition dir_mode :: nat where "dir_mode = 448"

datatype write_pc = Opening | Writing | Chmod | Renaming | Finished | Failed

record write_state =
  w_pc :: write_pc
  w_left :: bytes
  w_tmp :: "disk_file option"
  w_target :: "disk_file option"

inductive write_step :: "bytes \<Rightarrow> write_state \<Rightarrow> write_state \<Rightarrow> bool" for contents :: bytes where
  open_new: "w_pc s = Opening \<Longrightarrow> w_tmp s = None
    \<Longrightarrow> write_step contents s (s\<lparr>w_pc := Writing, w_left := contents,
          w_tmp := Some \<lparr>f_content = [], f_mode = file_mode\<rparr>\<rparr>)"
| open_existing: "w_pc s = Opening \<Longrightarrow> w_tmp s = Some f
    \<Longrightarrow> write_step contents s (s\<lparr>w_pc := Writing, w_left := contents,
          w_tmp := Some (f\<lparr>f_content := []\<rparr>)\<rparr>)"
| write_part: "w_pc s = Writing \<Longrightarrow> w_tmp s = Some f \<Longrightarrow> w_left s = part @ rest
    \<Longrightarrow> write_step contents s (s\<lparr>w_left := rest, w_tmp := Some (f\<lparr>f_content := f_content f @ part\<rparr>)\<rparr>)"
| write_done: "w_pc s = Writing \<Longrightarrow> w_left s = []
    \<Longrightarrow> write_step contents s (s\<lparr>w_pc := Chmod\<rparr>)"
| chmod: "w_pc s = Chmod \<Longrightarrow> w_tmp s = Some f
    \<Longrightarrow> write_step contents s (s\<lparr>w_pc := Renaming, w_tmp := Some (f\<lparr>f_mode := file_mode\<rparr>)\<rparr>)"
| rename: "w_pc s = Renaming
    \<Longrightarrow> write_step contents s (s\<lparr>w_pc := Finished, w_target := w_tmp s, w_tmp := None\<rparr>)"
| io_error: "w_pc s \<notin> {Finished, Failed}
    \<Longrightarrow> write_step contents s (s\<lparr>w_pc := Failed\<rparr>)"

inductive_cases write_stepE: "write_step contents s s'"
inductive_simps write_step_finished: "write_step contents \<lparr>w_pc = Finished, w_left = l, w_tmp = t, w_target = f\<rparr> s'"

definition write_start :: "disk_file option \<Rightarrow> disk_file option \<Rightarrow> write_state" where
  "write_start tmp target = \<lparr>w_pc = Opening, w_left = [], w_tmp = tmp, w_target = target\<rparr>"

text \<open>The tightening pass: what the directory lists, and whether each chmod succeeds.\<close>

record dir_entry =
  de_is_file :: bool
  de_file :: disk_file

definition tighten_entry :: "bool \<Rightarrow> dir_entry \<Rightarrow> dir_entry" where
  "tighten_entry chmod_ok e =
     (if \<not> de_is_file e then e
      else if f_mode (de_file e) = file_mode then e
      else if chmod_ok then e\<lparr>de_file := (de_file e)\<lparr>f_mode := file_mode\<rparr>\<rparr>
      else e)"

definition tighten_existing :: "(dir_entry \<times> bool) list \<Rightarrow> dir_entry list" where
  "tighten_existing es = map (\<lambda>(e, ok). tighten_entry ok e) es"

subsection \<open>The target at every moment\<close>

definition write_inv :: "bytes \<Rightarrow> disk_file option \<Rightarrow> write_state \<Rightarrow> bool" where
  "write_inv contents old s =
     (case w_pc s of
        Finished \<Rightarrow> w_target s = Some \<lparr>f_content = contents, f_mode = file_mode\<rparr>
      | Writing \<Rightarrow> w_target s = old \<and> (\<exists>f. w_tmp s = Some f \<and> f_content f @ w_left s = contents)
      | Chmod \<Rightarrow> w_target s = old \<and> (\<exists>f. w_tmp s = Some f \<and> f_content f = contents)
      | Renaming \<Rightarrow> w_target s = old \<and> w_tmp s = Some \<lparr>f_content = contents, f_mode = file_mode\<rparr>
      | _ \<Rightarrow> w_target s = old)"

lemma write_inv_start: "write_inv contents old (write_start tmp old)"
  by (simp add: write_inv_def write_start_def)

lemma write_inv_step: "write_step contents s s' \<Longrightarrow> write_inv contents old s \<Longrightarrow> write_inv contents old s'"
  by (erule write_stepE) (auto simp: write_inv_def split: write_pc.splits)

lemma write_inv_steps:
  "(write_step contents)\<^sup>*\<^sup>* s s' \<Longrightarrow> write_inv contents old s \<Longrightarrow> write_inv contents old s'"
  by (induction rule: rtranclp_induct) (auto intro: write_inv_step)

subsection \<open>Properties\<close>

text \<open>C2: an interrupted write cannot damage what was there: in every state the write may be
  killed in, whatever failed and whatever an earlier attempt left in the temporary file, the
  target is the old file untouched, until the moment it is the new contents in full, readable by
  the owner only; an error return means the old file.\<close>

theorem write_is_atomic:
  assumes "(write_step contents)\<^sup>*\<^sup>* (write_start tmp old) s"
  shows "w_target s = (if w_pc s = Finished then Some \<lparr>f_content = contents, f_mode = file_mode\<rparr> else old)"
  using write_inv_steps [OF assms write_inv_start [of contents old tmp]]
  by (auto simp: write_inv_def split: write_pc.splits)

lemma write_example:
  "(write_step [1])\<^sup>*\<^sup>* (write_start (Some \<lparr>f_content = [9, 9], f_mode = 420\<rparr>) old)
     \<lparr>w_pc = Finished, w_left = [], w_tmp = None, w_target = Some \<lparr>f_content = [1], f_mode = file_mode\<rparr>\<rparr>"
proof -
  let ?st = "\<lambda>pc l m. \<lparr>w_pc = pc, w_left = l, w_tmp = m, w_target = old\<rparr>"
  let ?f = "\<lambda>c m. Some \<lparr>f_content = c, f_mode = m\<rparr>"
  have 1: "write_step [1] (write_start (?f [9, 9] 420) old) (?st Writing [1] (?f [] 420))"
    using open_existing [of "write_start (?f [9, 9] 420) old" _ "[1]"] by (simp add: write_start_def)
  have 2: "write_step [1] (?st Writing [1] (?f [] 420)) (?st Writing [] (?f [1] 420))"
    using write_part [of "?st Writing [1] (?f [] 420)" _ "[1]" "[]" "[1]"] by simp
  have 3: "write_step [1] (?st Writing [] (?f [1] 420)) (?st Chmod [] (?f [1] 420))"
    using write_done [of "?st Writing [] (?f [1] 420)" "[1]"] by simp
  have 4: "write_step [1] (?st Chmod [] (?f [1] 420)) (?st Renaming [] (?f [1] file_mode))"
    using chmod [of "?st Chmod [] (?f [1] 420)" _ "[1]"] by simp
  have 5: "write_step [1] (?st Renaming [] (?f [1] file_mode))
     \<lparr>w_pc = Finished, w_left = [], w_tmp = None, w_target = ?f [1] file_mode\<rparr>"
    using rename [of "?st Renaming [] (?f [1] file_mode)" "[1]"] by simp
  show ?thesis
    by (rule converse_rtranclp_into_rtranclp [where r = "write_step [1]", OF 1],
        rule converse_rtranclp_into_rtranclp [where r = "write_step [1]", OF 2],
        rule converse_rtranclp_into_rtranclp [where r = "write_step [1]", OF 3],
        rule converse_rtranclp_into_rtranclp [where r = "write_step [1]", OF 4],
        rule converse_rtranclp_into_rtranclp [where r = "write_step [1]", OF 5],
        rule rtranclp.rtrancl_refl)
qed

theorem write_is_atomic_witness:
  "\<exists>s :: write_state. w_pc s = Finished \<and> w_target s = Some \<lparr>f_content = [1], f_mode = file_mode\<rparr>"
  by (rule exI [of _ "\<lparr>w_pc = Finished, w_left = [], w_tmp = None,
        w_target = Some \<lparr>f_content = [1], f_mode = file_mode\<rparr>\<rparr>"])
     (use write_is_atomic [OF write_example [of None]] in simp)

text \<open>After the start-up pass a regular file is owner-only unless its chmod failed, no content
  and no directory or other entry is changed, and a second pass changes nothing more.\<close>

theorem tighten_exact:
  "length (tighten_existing es) = length es
   \<and> list_all2 (\<lambda>(e, ok) e'. f_content (de_file e') = f_content (de_file e)
        \<and> de_is_file e' = de_is_file e
        \<and> f_mode (de_file e') = (if de_is_file e \<and> ok then file_mode else f_mode (de_file e))) es (tighten_existing es)
   \<and> tighten_existing (zip (tighten_existing es) (map snd es)) = tighten_existing es"
proof (intro conjI)
  show "length (tighten_existing es) = length es" by (simp add: tighten_existing_def)
  show "list_all2 (\<lambda>(e, ok) e'. f_content (de_file e') = f_content (de_file e)
        \<and> de_is_file e' = de_is_file e
        \<and> f_mode (de_file e') = (if de_is_file e \<and> ok then file_mode else f_mode (de_file e))) es (tighten_existing es)"
    by (auto simp: tighten_existing_def list_all2_map2 list_all2_same tighten_entry_def split: if_splits)
  have "tighten_entry ok (tighten_entry ok e) = tighten_entry ok e" for ok e
    by (simp add: tighten_entry_def)
  then show "tighten_existing (zip (tighten_existing es) (map snd es)) = tighten_existing es"
    unfolding tighten_existing_def by (induction es) (auto simp: split_def)
qed

end
