(* ===== verification/Rust_Str.thy ===== *)
theory Rust_Str
  imports Prelude
begin

section \<open>Rust strings\<close>

text \<open>
  A Rust \<open>String\<close> is its UTF-8 byte sequence, so it is modelled as an Isabelle \<open>string\<close> whose
  characters are those bytes: equality, \<open>len\<close>, \<open>split('/')\<close>, \<open>strip_prefix\<close>, \<open>starts_with\<close>
  and ASCII case folding act on bytes in Rust too. The operations that count Unicode
  characters (\<open>trim\<close>, \<open>chars().take(n)\<close>) go through \<open>chars\<close>, which cuts the bytes into the
  encodings of the single characters. Number parsing is the standard library's
  \<open>from_str_radix\<close>: an optional \<open>+\<close>, at least one digit, no overflow.
\<close>

subsection \<open>Characters of a UTF-8 string\<close>

definition byte_of :: "char \<Rightarrow> nat" where
  "byte_of c = of_char c"

definition utf8_tail :: "char \<Rightarrow> nat" where
  "utf8_tail c = (let b = byte_of c in
     if b < 0xC0 then 0 else if b < 0xE0 then 1 else if b < 0xF0 then 2 else 3)"

fun chars :: "string \<Rightarrow> string list" where
  "chars [] = []"
| "chars (c # cs) = (c # take (utf8_tail c) cs) # chars (drop (utf8_tail c) cs)"

lemma concat_chars [simp]: "concat (chars s) = s"
  by (induction s rule: chars.induct) simp_all

text \<open>A complete character is a lead byte followed by exactly its continuation bytes.\<close>

definition full_char :: "string \<Rightarrow> bool" where
  "full_char g = (case g of [] \<Rightarrow> False | c # cs \<Rightarrow> length cs = utf8_tail c)"

lemma chars_append_full: "full_char g \<Longrightarrow> chars (g @ s) = g # chars s"
  by (auto simp: full_char_def split: list.splits)

lemma chars_concat_full: "list_all full_char gs \<Longrightarrow> chars (concat gs) = gs"
  by (induction gs) (simp_all add: chars_append_full)

text \<open>A string is whole if no character is cut short at its end, as in every valid UTF-8 string.\<close>

definition whole :: "string \<Rightarrow> bool" where
  "whole s = list_all full_char (chars s)"

definition is_ascii :: "string \<Rightarrow> bool" where
  "is_ascii s = list_all (\<lambda>c. byte_of c < 0x80) s"

lemma chars_ascii: "is_ascii s \<Longrightarrow> chars s = map (\<lambda>c. [c]) s"
  by (induction s) (auto simp: is_ascii_def utf8_tail_def)

lemma whole_ascii: "is_ascii s \<Longrightarrow> whole s"
  by (auto simp: whole_def chars_ascii list_all_iff full_char_def is_ascii_def utf8_tail_def)

lemma whole_concat: "list_all full_char gs \<Longrightarrow> whole (concat gs)"
  by (simp add: whole_def chars_concat_full)

subsection \<open>Trimming\<close>

text \<open>The characters with the Unicode property \<open>White_Space\<close>, in UTF-8.\<close>

definition ascii_space :: string where
  "ascii_space = [CHR 0x09, CHR 0x0A, CHR 0x0B, CHR 0x0C, CHR 0x0D, CHR 0x20]"

definition wide_space :: "string list" where
  "wide_space = map (map char_of)
     ([[0xC2, 0x85], [0xC2, 0xA0], [0xE1, 0x9A, 0x80],
       [0xE2, 0x80, 0x80], [0xE2, 0x80, 0x81], [0xE2, 0x80, 0x82], [0xE2, 0x80, 0x83],
       [0xE2, 0x80, 0x84], [0xE2, 0x80, 0x85], [0xE2, 0x80, 0x86], [0xE2, 0x80, 0x87],
       [0xE2, 0x80, 0x88], [0xE2, 0x80, 0x89], [0xE2, 0x80, 0x8A], [0xE2, 0x80, 0xA8],
       [0xE2, 0x80, 0xA9], [0xE2, 0x80, 0xAF], [0xE2, 0x81, 0x9F], [0xE3, 0x80, 0x80]] :: nat list list)"

definition is_whitespace :: "string \<Rightarrow> bool" where
  "is_whitespace g = (g \<in> set (map (\<lambda>c. [c]) ascii_space @ wide_space))"

text \<open>For evaluation: a single byte needs no look at the wide table.\<close>

lemma wide_space_length: "g \<in> set wide_space \<Longrightarrow> length g \<noteq> 1"
  by (auto simp: wide_space_def)

lemma is_whitespace_code [code]:
  "is_whitespace [] = False"
  "is_whitespace [c] = (c \<in> set ascii_space)"
  "is_whitespace (c # d # g) = (c # d # g \<in> set wide_space)"
  using wide_space_length [of "[c]"] by (auto simp: is_whitespace_def wide_space_def)

lemma utf8_tail_code [code]:
  "utf8_tail (Char b0 b1 b2 b3 b4 b5 b6 b7) =
     (if \<not> b7 \<or> \<not> b6 then 0 else if \<not> b5 then 1 else if \<not> b4 then 2 else 3)"
  by (cases b4; cases b5; cases b6; cases b7) (auto simp: utf8_tail_def byte_of_def of_bool_def)

definition trim_chars :: "string list \<Rightarrow> string list" where
  "trim_chars gs = rev (dropWhile is_whitespace (rev (dropWhile is_whitespace gs)))"

definition trim :: "string \<Rightarrow> string" where
  "trim s = concat (trim_chars (chars s))"

definition take_chars :: "nat \<Rightarrow> string \<Rightarrow> string" where
  "take_chars n s = concat (take n (chars s))"

lemma set_dropWhile_subset: "set (dropWhile p xs) \<subseteq> set xs"
  by (meson set_dropWhileD subsetI)

lemma set_trim_chars: "set (trim_chars gs) \<subseteq> set gs"
  unfolding trim_chars_def by (metis set_dropWhile_subset set_rev subset_trans)

lemma dropWhile_id: "(xs = [] \<or> \<not> p (hd xs)) \<Longrightarrow> dropWhile p xs = xs"
  by (cases xs) auto

lemma hd_rev_dropWhile_rev:
  assumes "ys = rev (dropWhile p (rev xs))" and "ys \<noteq> []"
  shows "hd ys = hd xs"
proof -
  have "xs = ys @ rev (takeWhile p (rev xs))"
    using assms(1) by (metis rev_append rev_rev_ident takeWhile_dropWhile_id)
  with assms(2) show ?thesis by (metis hd_append2)
qed

lemma trim_chars_hd: "trim_chars gs \<noteq> [] \<Longrightarrow> \<not> is_whitespace (hd (trim_chars gs))"
  by (metis hd_dropWhile hd_rev_dropWhile_rev rev.simps(1) dropWhile.simps(1) trim_chars_def)

lemma trim_chars_last: "trim_chars gs \<noteq> [] \<Longrightarrow> \<not> is_whitespace (last (trim_chars gs))"
  unfolding trim_chars_def by (simp add: last_rev hd_dropWhile)

lemma trim_chars_idem [simp]: "trim_chars (trim_chars gs) = trim_chars gs"
proof (cases "trim_chars gs = []")
  case True
  have "trim_chars [] = []" by (simp add: trim_chars_def)
  then show ?thesis by (simp only: True)
next
  case False
  then have "\<not> is_whitespace (hd (trim_chars gs))" and "\<not> is_whitespace (hd (rev (trim_chars gs)))"
    using trim_chars_hd trim_chars_last by (simp_all add: hd_rev)
  then show ?thesis by (subst trim_chars_def) (simp add: dropWhile_id)
qed

lemma list_all_subset: "list_all p xs \<Longrightarrow> set ys \<subseteq> set xs \<Longrightarrow> list_all p ys"
  by (auto simp: list_all_iff)

lemma chars_trim: "whole s \<Longrightarrow> chars (trim s) = trim_chars (chars s)"
  unfolding trim_def whole_def by (rule chars_concat_full) (metis list_all_subset set_trim_chars)

lemma whole_trim: "whole s \<Longrightarrow> whole (trim s)"
  unfolding whole_def by (simp add: chars_trim whole_def) (metis list_all_subset set_trim_chars)

lemma trim_trim [str_simps]: "whole s \<Longrightarrow> trim (trim s) = trim s"
  by (metis chars_trim trim_chars_idem trim_def)

lemma chars_take_chars: "whole s \<Longrightarrow> chars (take_chars n s) = take n (chars s)"
  unfolding take_chars_def whole_def
  by (rule chars_concat_full) (meson list_all_subset set_take_subset)

lemma length_take_chars: "whole s \<Longrightarrow> length (chars (take_chars n s)) \<le> n"
  by (simp add: chars_take_chars)

lemma take_chars_ne: "0 < n \<Longrightarrow> s \<noteq> [] \<Longrightarrow> take_chars n s \<noteq> []"
  by (cases n; cases s) (auto simp: take_chars_def)

subsection \<open>ASCII case folding and classes\<close>

definition is_upper :: "char \<Rightarrow> bool" where
  "is_upper c = (0x41 \<le> byte_of c \<and> byte_of c \<le> 0x5A)"

definition is_lower :: "char \<Rightarrow> bool" where
  "is_lower c = (0x61 \<le> byte_of c \<and> byte_of c \<le> 0x7A)"

definition is_digit :: "char \<Rightarrow> bool" where
  "is_digit c = (0x30 \<le> byte_of c \<and> byte_of c \<le> 0x39)"

definition is_alphabetic :: "char \<Rightarrow> bool" where
  "is_alphabetic c = (is_upper c \<or> is_lower c)"

definition is_alphanumeric :: "char \<Rightarrow> bool" where
  "is_alphanumeric c = (is_alphabetic c \<or> is_digit c)"

definition lower_char :: "char \<Rightarrow> char" where
  "lower_char c = (if is_upper c then char_of (byte_of c + 32) else c)"

definition to_ascii_lowercase :: "string \<Rightarrow> string" where
  "to_ascii_lowercase s = map lower_char s"

definition eq_ignore_ascii_case :: "string \<Rightarrow> string \<Rightarrow> bool" where
  "eq_ignore_ascii_case a b = (to_ascii_lowercase a = to_ascii_lowercase b)"

lemma byte_of_char_of: "n < 256 \<Longrightarrow> byte_of (char_of n) = n"
  by (simp add: byte_of_def)

lemma byte_of_less: "byte_of c < 256"
  by (simp add: byte_of_def)

text \<open>The classes on the bits of a character, for evaluation.\<close>

lemma ascii_class_code [code]:
  "is_upper (Char b0 b1 b2 b3 b4 b5 b6 b7) \<longleftrightarrow>
     \<not> b7 \<and> b6 \<and> \<not> b5 \<and> (b0 \<or> b1 \<or> b2 \<or> b3 \<or> b4) \<and> \<not> (b4 \<and> b3 \<and> (b2 \<or> b1 \<and> b0))"
  "is_lower (Char b0 b1 b2 b3 b4 b5 b6 b7) \<longleftrightarrow>
     \<not> b7 \<and> b6 \<and> b5 \<and> (b0 \<or> b1 \<or> b2 \<or> b3 \<or> b4) \<and> \<not> (b4 \<and> b3 \<and> (b2 \<or> b1 \<and> b0))"
  "is_digit (Char b0 b1 b2 b3 b4 b5 b6 b7) \<longleftrightarrow>
     \<not> b7 \<and> \<not> b6 \<and> b5 \<and> b4 \<and> \<not> (b3 \<and> (b2 \<or> b1))"
  by (cases b0; cases b1; cases b2; cases b3; cases b4; cases b5; cases b6; cases b7;
      simp add: is_upper_def is_lower_def is_digit_def byte_of_def)+

lemma lower_char_code [code]:
  "lower_char (Char b0 b1 b2 b3 b4 b5 b6 b7) =
     (if is_upper (Char b0 b1 b2 b3 b4 b5 b6 b7) then Char b0 b1 b2 b3 b4 True b6 b7
      else Char b0 b1 b2 b3 b4 b5 b6 b7)"
proof (cases "is_upper (Char b0 b1 b2 b3 b4 b5 b6 b7)")
  case True
  then have b: "\<not> b7" "b6" "\<not> b5" by (simp_all add: ascii_class_code)
  have "of_char (Char b0 b1 b2 b3 b4 True b6 b7) = byte_of (Char b0 b1 b2 b3 b4 b5 b6 b7) + 32"
    using b by (simp add: byte_of_def)
  then have "char_of (byte_of (Char b0 b1 b2 b3 b4 b5 b6 b7) + 32) = Char b0 b1 b2 b3 b4 True b6 b7"
    by (metis char_of_char)
  with True show ?thesis by (simp add: lower_char_def)
qed (simp add: lower_char_def)

lemma lower_char_lower [simp]: "lower_char (lower_char c) = lower_char c"
  by (auto simp: lower_char_def is_upper_def byte_of_char_of)

lemma to_ascii_lowercase_idem [simp]: "to_ascii_lowercase (to_ascii_lowercase s) = to_ascii_lowercase s"
  by (simp add: to_ascii_lowercase_def)

lemma length_to_ascii_lowercase [simp]: "length (to_ascii_lowercase s) = length s"
  by (simp add: to_ascii_lowercase_def)

lemma eq_ic_refl [simp]: "eq_ignore_ascii_case a a"
  by (simp add: eq_ignore_ascii_case_def)

lemma eq_ic_sym: "eq_ignore_ascii_case a b = eq_ignore_ascii_case b a"
  by (auto simp: eq_ignore_ascii_case_def)

lemma eq_ic_trans: "eq_ignore_ascii_case a b \<Longrightarrow> eq_ignore_ascii_case b c \<Longrightarrow> eq_ignore_ascii_case a c"
  by (simp add: eq_ignore_ascii_case_def)

subsection \<open>Splitting and prefixes\<close>

fun split_on :: "char \<Rightarrow> string \<Rightarrow> string list" where
  "split_on c [] = [[]]"
| "split_on c (x # xs) =
     (if x = c then [] # split_on c xs else (x # hd (split_on c xs)) # tl (split_on c xs))"

lemma split_on_ne [simp]: "split_on c s \<noteq> []"
  by (induction s) auto

lemma split_on_no_sep: "w \<in> set (split_on c s) \<Longrightarrow> c \<notin> set w"
proof (induction s arbitrary: w)
  case (Cons x xs)
  then show ?case
    by (auto split: if_splits) (metis list.set_sel(1) list.set_sel(2) split_on_ne)+
qed simp

lemma split_on_free: "c \<notin> set w \<Longrightarrow> split_on c w = [w]"
  by (induction w) auto

lemma split_on_append: "c \<notin> set w \<Longrightarrow> split_on c (w @ c # s) = w # split_on c s"
  by (induction w) auto

fun split_once :: "char \<Rightarrow> string \<Rightarrow> (string \<times> string) option" where
  "split_once c [] = None"
| "split_once c (x # xs) =
     (if x = c then Some ([], xs) else map_option (\<lambda>(a, b). (x # a, b)) (split_once c xs))"

lemma split_once_Some: "split_once c s = Some (a, b) \<longleftrightarrow> s = a @ c # b \<and> c \<notin> set a"
proof (induction s arbitrary: a)
  case (Cons x xs)
  then show ?case by (cases a) (auto split: if_splits)
qed simp

fun strip_prefix :: "string \<Rightarrow> string \<Rightarrow> string option" where
  "strip_prefix [] s = Some s"
| "strip_prefix (p # ps) [] = None"
| "strip_prefix (p # ps) (x # xs) = (if p = x then strip_prefix ps xs else None)"

definition starts_with :: "string \<Rightarrow> string \<Rightarrow> bool" where
  "starts_with p s = (strip_prefix p s \<noteq> None)"

lemma strip_prefix_Some: "strip_prefix p s = Some r \<longleftrightarrow> s = p @ r"
  by (induction p s rule: strip_prefix.induct) auto

lemma strip_prefix_append [simp]: "strip_prefix p (p @ r) = Some r"
  by (simp add: strip_prefix_Some)

definition strip_suffix :: "string \<Rightarrow> string \<Rightarrow> string option" where
  "strip_suffix suf s = map_option rev (strip_prefix (rev suf) (rev s))"

lemma strip_suffix_append [simp]: "strip_suffix suf (s @ suf) = Some s"
  by (simp add: strip_suffix_def)

lemma strip_suffix_Some: "strip_suffix suf s = Some r \<longleftrightarrow> s = r @ suf"
proof -
  have "strip_prefix (rev suf) (rev s) = Some (rev r) \<longleftrightarrow> s = r @ suf"
    by (simp add: strip_prefix_Some) (metis rev_append rev_rev_ident)
  then show ?thesis by (auto simp: strip_suffix_def)
qed

definition ends_with :: "string \<Rightarrow> string \<Rightarrow> bool" where
  "ends_with suf s = (strip_suffix suf s \<noteq> None)"

definition ends_with_char :: "char \<Rightarrow> string \<Rightarrow> bool" where
  "ends_with_char c s = (s \<noteq> [] \<and> last s = c)"

end
