(* ===== verification/Rust_Num.thy ===== *)
theory Rust_Num
  imports Rust_Str
begin

section \<open>Numbers and bytes in text\<close>

text \<open>
  The standard library's number parsing and printing, hexadecimal bytes, and UTF-8 validity,
  as the sources use them: \<open>str::parse\<close> and \<open>from_str_radix\<close> for unsigned types (an optional
  \<open>+\<close>, then at least one digit, with overflow an error), \<open>to_string\<close>, \<open>{:02X}\<close>, and
  \<open>std::str::from_utf8\<close>.
\<close>

definition digit_val :: "nat \<Rightarrow> char \<Rightarrow> nat option" where
  "digit_val radix c =
     (let b = byte_of c;
          v = (if is_digit c then b - 0x30 else if is_lower c then b - 0x61 + 10
               else if is_upper c then b - 0x41 + 10 else 99)
      in if v < radix then Some v else None)"

fun digits_acc :: "nat \<Rightarrow> nat \<Rightarrow> string \<Rightarrow> nat option" where
  "digits_acc radix acc [] = Some acc"
| "digits_acc radix acc (c # cs) =
     (case digit_val radix c of None \<Rightarrow> None | Some d \<Rightarrow> digits_acc radix (acc * radix + d) cs)"

definition parse_uint :: "nat \<Rightarrow> nat \<Rightarrow> string \<Rightarrow> nat option" where
  "parse_uint radix limit s =
     (let ds = (case s of [] \<Rightarrow> [] | c # cs \<Rightarrow> if c = CHR ''+'' \<and> cs \<noteq> [] then cs else s)
      in if ds = [] then None
         else opt_filter (\<lambda>n. n \<le> limit) (digits_acc radix 0 ds))"

abbreviation u8_max :: nat where "u8_max \<equiv> 0xFF"
abbreviation u16_max :: nat where "u16_max \<equiv> 0xFFFF"
abbreviation u32_max :: nat where "u32_max \<equiv> 0xFFFFFFFF"
abbreviation u64_max :: nat where "u64_max \<equiv> 0xFFFFFFFFFFFFFFFF"

lemma parse_uint_le: "parse_uint radix limit s = Some n \<Longrightarrow> n \<le> limit"
  by (auto simp: parse_uint_def Let_def res_simps split: if_splits)

subsection \<open>Printing\<close>

fun show_nat :: "nat \<Rightarrow> string" where
  "show_nat n = (if n < 10 then [char_of (0x30 + n)]
                 else show_nat (n div 10) @ [char_of (0x30 + n mod 10)])"

declare show_nat.simps [simp del]

lemma show_nat_ne [simp]: "show_nat n \<noteq> []"
  by (subst show_nat.simps) simp

lemma digit_val_char: "d < 10 \<Longrightarrow> digit_val 10 (char_of (0x30 + d)) = Some d"
  by (simp add: digit_val_def is_digit_def byte_of_char_of Let_def)

lemma digits_acc_append:
  "digits_acc r a (s @ t) = (case digits_acc r a s of None \<Rightarrow> None | Some b \<Rightarrow> digits_acc r b t)"
  by (induction s arbitrary: a) (auto split: option.splits)

lemma digits_acc_show: "digits_acc 10 0 (show_nat n) = Some n"
proof (induction n rule: show_nat.induct)
  case (1 n)
  show ?case
    by (subst show_nat.simps) (use 1 in \<open>simp add: digits_acc_append digit_val_char\<close>)
qed

lemma show_nat_digits: "c \<in> set (show_nat n) \<Longrightarrow> is_digit c"
proof (induction n rule: show_nat.induct)
  case (1 n)
  then show ?case
    by (subst (asm) (2) show_nat.simps)
       (auto simp: is_digit_def byte_of_char_of split: if_splits)
qed

lemma digit_not: "is_digit c \<Longrightarrow> c \<noteq> CHR ''+'' \<and> c \<noteq> CHR ''/'' \<and> c \<noteq> CHR ''*'' \<and> c \<noteq> CHR ''-''"
  by (auto simp: is_digit_def byte_of_def)

lemma show_nat_no [simp]:
  "CHR ''+'' \<notin> set (show_nat n)" "CHR ''/'' \<notin> set (show_nat n)" "CHR ''*'' \<notin> set (show_nat n)"
  using show_nat_digits digit_not by blast+

lemma parse_show [str_simps]: "n \<le> limit \<Longrightarrow> parse_uint 10 limit (show_nat n) = Some n"
proof -
  assume n: "n \<le> limit"
  obtain c cs where s: "show_nat n = c # cs" by (cases "show_nat n") auto
  then have "c \<noteq> CHR ''+''" using show_nat_no(1) [of n] by auto
  with n s digits_acc_show [of n] show ?thesis by (simp add: parse_uint_def)
qed

lemma show_nat_inj: "show_nat m = show_nat n \<longleftrightarrow> m = n"
  by (metis digits_acc_show option.inject)

definition show_u :: "'a::len word \<Rightarrow> string" where
  "show_u w = show_nat (unat w)"

lemma show_u_inj [simp]: "show_u v = show_u w \<longleftrightarrow> v = w"
  by (simp add: show_u_def show_nat_inj word_unat_eq_iff)

text \<open>\<open>str::parse\<close> into an unsigned type, with the limit of its width.\<close>

definition parse_dec :: "string \<Rightarrow> 'a::len word option" where
  "parse_dec s = map_option of_nat (parse_uint 10 (2 ^ LENGTH('a) - 1) s)"

lemma parse_dec_show [str_simps]: "parse_dec (show_u w) = Some (w :: 'a::len word)"
proof -
  have "unat w \<le> 2 ^ LENGTH('a) - 1" using unat_bound [of w] by linarith
  then show ?thesis by (simp add: parse_dec_def show_u_def parse_show)
qed

subsection \<open>Hexadecimal bytes\<close>

definition hex_digit :: "nat \<Rightarrow> char" where
  "hex_digit d = (if d < 10 then char_of (0x30 + d) else char_of (0x41 + (d - 10)))"

definition hex_byte :: "u8 \<Rightarrow> string" where
  "hex_byte b = [hex_digit (unat b div 16), hex_digit (unat b mod 16)]"

definition to_hex_upper :: "bytes \<Rightarrow> string" where
  "to_hex_upper bs = concat (map hex_byte bs)"

definition is_hexdigit :: "char \<Rightarrow> bool" where
  "is_hexdigit c = (is_digit c \<or> (0x41 \<le> byte_of c \<and> byte_of c \<le> 0x46)
                              \<or> (0x61 \<le> byte_of c \<and> byte_of c \<le> 0x66))"

lemma hex_digit_hexdigit: "d < 16 \<Longrightarrow> is_hexdigit (hex_digit d)"
  by (auto simp: hex_digit_def is_hexdigit_def is_digit_def byte_of_char_of)

lemma digit_val_hex: "d < 16 \<Longrightarrow> digit_val 16 (hex_digit d) = Some d"
  by (auto simp: hex_digit_def digit_val_def is_digit_def is_lower_def is_upper_def
        byte_of_char_of Let_def)

lemma hexdigit_val: "is_hexdigit c \<Longrightarrow> \<exists>d < 16. digit_val 16 c = Some d"
  by (auto simp: is_hexdigit_def digit_val_def is_digit_def is_lower_def is_upper_def Let_def)

lemma hexdigit_not_plus: "is_hexdigit c \<Longrightarrow> c \<noteq> CHR ''+''"
  by (auto simp: is_hexdigit_def is_digit_def byte_of_def)

definition parse_hex_byte :: "string \<Rightarrow> u8 option" where
  "parse_hex_byte s = map_option of_nat (parse_uint 16 u8_max s)"

lemma unat_u8: "unat (b :: u8) < 256"
  using unsigned_less [of b, where 'a = nat] by simp

lemma unat_div16: "unat (b :: u8) div 16 < 16"
  using unat_u8 [of b] by simp

lemma parse_hex_byte_hex: "parse_hex_byte (hex_byte b) = Some b"
proof -
  have d: "digit_val 16 (hex_digit (unat b div 16)) = Some (unat b div 16)"
    by (rule digit_val_hex [OF unat_div16])
  have m: "digit_val 16 (hex_digit (unat b mod 16)) = Some (unat b mod 16)"
    by (rule digit_val_hex) simp
  have p: "hex_digit (unat b div 16) \<noteq> CHR ''+''"
    by (rule hexdigit_not_plus [OF hex_digit_hexdigit [OF unat_div16]])
  have l: "unat b \<le> 255" using unat_u8 [of b] by simp
  have e: "unat b div 16 * 16 + unat b mod 16 = unat b" by simp
  show ?thesis
    using d m p l e by (simp add: parse_hex_byte_def parse_uint_def hex_byte_def)
qed

text \<open>Both hex decoders of the program cut the text into pairs; a pair is two hex digits, or,
  as \<open>from_str_radix\<close> has it, a \<open>+\<close> and one hex digit.\<close>

fun pairs :: "string \<Rightarrow> string list" where
  "pairs (a # b # s) = [a, b] # pairs s"
| "pairs [a] = [[a]]"
| "pairs [] = []"

lemma pairs_to_hex: "pairs (to_hex_upper bs) = map hex_byte bs"
  by (induction bs) (simp_all add: to_hex_upper_def hex_byte_def)

lemma collect_hex: "collect_opt parse_hex_byte (pairs (to_hex_upper bs)) = Some bs"
  by (simp add: pairs_to_hex) (induction bs, simp_all add: parse_hex_byte_hex)

lemma length_to_hex [simp]: "length (to_hex_upper bs) = 2 * length bs"
  by (induction bs) (simp_all add: to_hex_upper_def hex_byte_def)

lemma to_hex_hexdigits: "list_all is_hexdigit (to_hex_upper bs)"
  by (induction bs) (auto simp: to_hex_upper_def hex_byte_def hex_digit_hexdigit unat_div16)

lemma length_pairs: "even (length s) \<Longrightarrow> length (pairs s) = length s div 2"
  by (induction s rule: pairs.induct) auto

text \<open>\<open>T::try_from(u64)\<close> for a narrower width.\<close>

definition to_width :: "u64 \<Rightarrow> 'a::len word option" where
  "to_width n = (if unat n < 2 ^ LENGTH('a) then Some (ucast n) else None)"

text \<open>\<open>{:016X}\<close> of a 64-bit value.\<close>

definition hex16 :: "64 word \<Rightarrow> string" where
  "hex16 v = map (\<lambda>i. hex_digit (unat v div 16 ^ i mod 16)) (rev [0..<16])"

subsection \<open>UTF-8 validity\<close>

definition cont_byte :: "nat \<Rightarrow> bool" where
  "cont_byte b = (0x80 \<le> b \<and> b \<le> 0xBF)"

fun utf8_ok :: "nat list \<Rightarrow> bool" where
  "utf8_ok [] = True"
| "utf8_ok (b # bs) =
     (if b < 0x80 then utf8_ok bs
      else if 0xC2 \<le> b \<and> b \<le> 0xDF then
        (case bs of c # cs \<Rightarrow> cont_byte c \<and> utf8_ok cs | [] \<Rightarrow> False)
      else if 0xE0 \<le> b \<and> b \<le> 0xEF then
        (case bs of c # d # cs \<Rightarrow>
           cont_byte c \<and> (b = 0xE0 \<longrightarrow> 0xA0 \<le> c) \<and> (b = 0xED \<longrightarrow> c \<le> 0x9F) \<and> cont_byte d \<and> utf8_ok cs
         | _ \<Rightarrow> False)
      else if 0xF0 \<le> b \<and> b \<le> 0xF4 then
        (case bs of c # d # e # cs \<Rightarrow>
           cont_byte c \<and> (b = 0xF0 \<longrightarrow> 0x90 \<le> c) \<and> (b = 0xF4 \<longrightarrow> c \<le> 0x8F)
           \<and> cont_byte d \<and> cont_byte e \<and> utf8_ok cs
         | _ \<Rightarrow> False)
      else False)"

definition str_of_bytes :: "bytes \<Rightarrow> string" where
  "str_of_bytes bs = map (\<lambda>b. char_of (unat b)) bs"

definition bytes_of_str :: "string \<Rightarrow> bytes" where
  "bytes_of_str s = map (\<lambda>c. of_nat (byte_of c)) s"

definition from_utf8 :: "bytes \<Rightarrow> string option" where
  "from_utf8 bs = (if utf8_ok (map unat bs) then Some (str_of_bytes bs) else None)"

lemma str_of_bytes_of_str [simp]: "str_of_bytes (bytes_of_str s) = s"
proof -
  have "char_of (unat (of_nat (byte_of c) :: u8)) = c" for c
    using byte_of_less [of c] by (simp add: unat_of_nat byte_of_def)
  then show ?thesis by (induction s) (simp_all add: str_of_bytes_def bytes_of_str_def)
qed

lemma unat_bytes_of_str: "map unat (bytes_of_str s) = map byte_of s"
  using byte_of_less by (simp add: bytes_of_str_def unat_of_nat)

lemma utf8_ok_ascii: "is_ascii s \<Longrightarrow> utf8_ok (map byte_of s)"
  by (induction s) (simp_all add: is_ascii_def)

lemma from_utf8_bytes_of_str: "utf8_ok (map byte_of s) \<Longrightarrow> from_utf8 (bytes_of_str s) = Some s"
  by (simp add: from_utf8_def unat_bytes_of_str)

end
