(* ===== verification/Btree.thy ===== *)
theory Btree
  imports Prelude "HOL-Library.Char_ord" "HOL-Library.List_Lexorder"
begin

section \<open>\<open>BTreeMap\<close> and the keyed-store interface\<close>

text \<open>
  The standard library's \<open>BTreeMap\<close> as an association list kept strictly sorted by key, so
  that iteration order (which the program exposes: node lists, JSON objects, event order) is
  part of the model. String keys compare bytewise, as Rust's do.

  The locale \<open>keyed_store\<close> is the interface its clients rely on: what a lookup returns after
  an insertion or a removal, and the invariant every operation keeps. The generic lemmas are
  proved in it once and obtained for \<open>BTreeMap\<close> by the interpretation \<open>bt\<close> below.
\<close>

type_synonym ('k, 'v) btree = "('k \<times> 'v) list"

definition bt_ok :: "('k::linorder, 'v) btree \<Rightarrow> bool" where
  "bt_ok m = sorted_wrt (<) (map fst m)"

definition bt_get :: "('k, 'v) btree \<Rightarrow> 'k \<Rightarrow> 'v option" where
  "bt_get m k = map_of m k"

fun bt_insert :: "'k::linorder \<Rightarrow> 'v \<Rightarrow> ('k, 'v) btree \<Rightarrow> ('k, 'v) btree" where
  "bt_insert k v [] = [(k, v)]"
| "bt_insert k v ((k', v') # m) =
     (if k < k' then (k, v) # (k', v') # m
      else if k = k' then (k, v) # m
      else (k', v') # bt_insert k v m)"

definition bt_remove :: "'k \<Rightarrow> ('k, 'v) btree \<Rightarrow> ('k, 'v) btree" where
  "bt_remove k m = filter (\<lambda>(k', _). k' \<noteq> k) m"

definition bt_retain :: "('k \<Rightarrow> 'v \<Rightarrow> bool) \<Rightarrow> ('k, 'v) btree \<Rightarrow> ('k, 'v) btree" where
  "bt_retain p m = filter (\<lambda>(k, v). p k v) m"

definition bt_keys :: "('k, 'v) btree \<Rightarrow> 'k list" where
  "bt_keys m = map fst m"

definition bt_values :: "('k, 'v) btree \<Rightarrow> 'v list" where
  "bt_values m = map snd m"

definition bt_contains :: "('k, 'v) btree \<Rightarrow> 'k \<Rightarrow> bool" where
  "bt_contains m k = (bt_get m k \<noteq> None)"

text \<open>\<open>extend\<close> and \<open>collect\<close>: insert the pairs in order, so that a later one wins.\<close>

definition bt_extend :: "('k::linorder, 'v) btree \<Rightarrow> ('k \<times> 'v) list \<Rightarrow> ('k, 'v) btree" where
  "bt_extend m kvs = fold (\<lambda>(k, v). bt_insert k v) kvs m"

definition bt_collect :: "('k::linorder \<times> 'v) list \<Rightarrow> ('k, 'v) btree" where
  "bt_collect kvs = bt_extend [] kvs"

text \<open>\<open>get_mut\<close> followed by an assignment: the entry is changed in place, if there is one.\<close>

definition bt_update :: "'k \<Rightarrow> ('v \<Rightarrow> 'v) \<Rightarrow> ('k, 'v) btree \<Rightarrow> ('k, 'v) btree" where
  "bt_update k f m = map (\<lambda>(k', v). (k', if k' = k then f v else v)) m"

subsection \<open>The interface\<close>

locale keyed_store =
  fixes get :: "'s \<Rightarrow> 'k \<Rightarrow> 'v option"
    and put :: "'k \<Rightarrow> 'v \<Rightarrow> 's \<Rightarrow> 's"
    and del :: "'k \<Rightarrow> 's \<Rightarrow> 's"
    and ok :: "'s \<Rightarrow> bool"
  assumes get_put: "ok s \<Longrightarrow> get (put k v s) = (get s)(k \<mapsto> v)"
    and get_del: "ok s \<Longrightarrow> get (del k s) = (get s)(k := None)"
    and ok_put: "ok s \<Longrightarrow> ok (put k v s)"
    and ok_del: "ok s \<Longrightarrow> ok (del k s)"
begin

lemma get_put_same: "ok s \<Longrightarrow> get (put k v s) k = Some v"
  by (simp add: get_put)

lemma get_put_other: "ok s \<Longrightarrow> k' \<noteq> k \<Longrightarrow> get (put k v s) k' = get s k'"
  by (simp add: get_put)

lemma get_del_same: "ok s \<Longrightarrow> get (del k s) k = None"
  by (simp add: get_del)

lemma get_del_other: "ok s \<Longrightarrow> k' \<noteq> k \<Longrightarrow> get (del k s) k' = get s k'"
  by (simp add: get_del)

lemma del_put: "ok s \<Longrightarrow> get (del k (put k v s)) = (get s)(k := None)"
  by (simp add: get_put get_del ok_put)

definition put_all :: "('k \<times> 'v) list \<Rightarrow> 's \<Rightarrow> 's" where
  "put_all kvs s = fold (\<lambda>(k, v). put k v) kvs s"

lemma put_all_ok: "ok s \<Longrightarrow> ok (put_all kvs s)"
  unfolding put_all_def by (induction kvs arbitrary: s) (auto simp: ok_put)

lemma get_put_all: "ok s \<Longrightarrow> get (put_all kvs s) = get s ++ map_of (rev kvs)"
proof (induction kvs arbitrary: s)
  case Nil
  then show ?case by (simp add: put_all_def)
next
  case (Cons kv kvs)
  obtain k v where kv: "kv = (k, v)" by (cases kv)
  have "get (put_all (kv # kvs) s) = get (put_all kvs (put k v s))"
    by (simp add: put_all_def kv)
  also have "\<dots> = (get s)(k \<mapsto> v) ++ map_of (rev kvs)"
    using Cons.IH [OF ok_put [OF Cons.prems]] get_put [OF Cons.prems] by metis
  also have "\<dots> = get s ++ map_of (rev (kv # kvs))"
    by (rule ext) (simp add: kv map_add_def split: option.split)
  finally show ?case .
qed

end

subsection \<open>\<open>BTreeMap\<close> implements it\<close>

lemma bt_ok_Nil [simp]: "bt_ok []"
  by (simp add: bt_ok_def)

lemma bt_ok_Cons: "bt_ok ((k, v) # m) \<longleftrightarrow> (\<forall>k' \<in> fst ` set m. k < k') \<and> bt_ok m"
  by (simp add: bt_ok_def)

lemma bt_insert_keys: "fst ` set (bt_insert k v m) = insert k (fst ` set m)"
  by (induction k v m rule: bt_insert.induct) auto

lemma bt_ok_insert: "bt_ok m \<Longrightarrow> bt_ok (bt_insert k v m)"
  by (induction k v m rule: bt_insert.induct)
     (auto simp: bt_ok_Cons bt_insert_keys less_imp_neq dest: order.strict_trans)

lemma bt_get_notin: "k \<notin> fst ` set m \<Longrightarrow> bt_get m k = None"
  by (simp add: bt_get_def map_of_eq_None_iff)

lemma bt_get_insert_raw: "bt_get (bt_insert k v m) k' = (if k' = k then Some v else bt_get m k')"
  by (induction k v m rule: bt_insert.induct) (auto simp: bt_get_def)

lemma bt_get_insert: "bt_ok m \<Longrightarrow> bt_get (bt_insert k v m) = (bt_get m)(k \<mapsto> v)"
  by (simp add: bt_get_insert_raw fun_eq_iff)

lemma bt_ok_filter: "bt_ok m \<Longrightarrow> bt_ok (filter p m)"
  unfolding bt_ok_def by (simp add: sorted_wrt_map sorted_wrt_filter)

lemma bt_get_remove: "bt_get (bt_remove k m) k' = (if k' = k then None else bt_get m k')"
  by (induction m) (auto simp: bt_remove_def bt_get_def)

lemma bt_ok_remove: "bt_ok m \<Longrightarrow> bt_ok (bt_remove k m)"
  by (simp add: bt_remove_def bt_ok_filter)

lemma bt_ok_retain: "bt_ok m \<Longrightarrow> bt_ok (bt_retain p m)"
  by (simp add: bt_retain_def bt_ok_filter)

interpretation bt: keyed_store bt_get bt_insert bt_remove bt_ok
  by unfold_locales (auto simp: bt_get_insert bt_get_remove bt_ok_insert bt_ok_remove)

lemma bt_extend_put_all: "bt_extend m kvs = bt.put_all kvs m"
  by (simp add: bt_extend_def bt.put_all_def)

lemma bt_ok_extend [simp]: "bt_ok m \<Longrightarrow> bt_ok (bt_extend m kvs)"
  by (simp add: bt_extend_put_all bt.put_all_ok)

lemma bt_get_extend: "bt_ok m \<Longrightarrow> bt_get (bt_extend m kvs) = bt_get m ++ map_of (rev kvs)"
  by (simp add: bt_extend_put_all bt.get_put_all)

lemma bt_ok_collect [simp]: "bt_ok (bt_collect kvs)"
  by (simp add: bt_collect_def)

lemma bt_get_collect: "bt_get (bt_collect kvs) = map_of (rev kvs)"
proof -
  have "bt_get (bt_collect kvs) = bt_get [] ++ map_of (rev kvs)"
    by (simp add: bt_collect_def bt_get_extend)
  also have "\<dots> = map_of (rev kvs)"
    by (rule ext) (simp add: bt_get_def map_add_def split: option.split)
  finally show ?thesis .
qed

subsection \<open>More lookup laws\<close>

lemma bt_ok_distinct: "bt_ok m \<Longrightarrow> distinct (bt_keys m)"
  unfolding bt_ok_def bt_keys_def by (simp add: strict_sorted_iff)

lemma bt_keys_sorted: "bt_ok m \<Longrightarrow> sorted_wrt (<) (bt_keys m)"
  by (simp add: bt_ok_def bt_keys_def)

lemma bt_get_in: "bt_get m k = Some v \<Longrightarrow> (k, v) \<in> set m"
  by (simp add: bt_get_def map_of_SomeD)

lemma bt_get_iff: "bt_ok m \<Longrightarrow> bt_get m k = Some v \<longleftrightarrow> (k, v) \<in> set m"
  using bt_ok_distinct [of m] by (simp add: bt_get_def bt_keys_def map_of_eq_Some_iff)

lemma set_bt_keys: "set (bt_keys m) = {k. bt_get m k \<noteq> None}"
  by (auto simp: bt_keys_def bt_get_def map_of_eq_None_iff)

lemma bt_get_retain:
  assumes "bt_ok m"
  shows "bt_get (bt_retain p m) k = opt_filter (p k) (bt_get m k)"
proof (cases "bt_get m k")
  case None
  then have "k \<notin> fst ` set m" by (simp add: bt_get_def map_of_eq_None_iff)
  then have "k \<notin> fst ` set (bt_retain p m)" by (auto simp: bt_retain_def)
  with None show ?thesis by (simp add: bt_get_notin)
next
  case (Some v)
  show ?thesis
  proof (cases "p k v")
    case True
    with Some assms have "(k, v) \<in> set (bt_retain p m)" by (simp add: bt_get_iff bt_retain_def)
    with Some True assms show ?thesis by (simp add: bt_ok_retain bt_get_iff [symmetric])
  next
    case False
    have "bt_get (bt_retain p m) k \<noteq> Some w" for w
    proof
      assume "bt_get (bt_retain p m) k = Some w"
      then have "(k, w) \<in> set m" and "p k w"
        using bt_get_in by (fastforce simp: bt_retain_def)+
      with Some False assms show False by (metis bt_get_iff option.inject)
    qed
    with Some False show ?thesis by (cases "bt_get (bt_retain p m) k") auto
  qed
qed

lemma bt_keys_update [simp]: "bt_keys (bt_update k f m) = bt_keys m"
  by (induction m) (auto simp: bt_keys_def bt_update_def)

lemma bt_ok_update [simp]: "bt_ok (bt_update k f m) = bt_ok m"
  using bt_keys_update [of k f m] by (simp add: bt_ok_def bt_keys_def)

lemma bt_get_update: "bt_get (bt_update k f m) k' = (if k' = k then map_option f (bt_get m k') else bt_get m k')"
  by (induction m) (auto simp: bt_get_def bt_update_def)

lemma bt_rebuild: "bt_ok m \<Longrightarrow> m = map (\<lambda>k. (k, the (bt_get m k))) (bt_keys m)"
proof -
  assume ok: "bt_ok m"
  have "(fst kv, the (bt_get m (fst kv))) = kv" if "kv \<in> set m" for kv
    using that ok by (metis bt_get_iff option.sel prod.collapse)
  then have "map (\<lambda>kv. (fst kv, the (bt_get m (fst kv)))) m = m"
    by (rule map_idI)
  then show ?thesis by (simp add: bt_keys_def comp_def)
qed

lemma bt_equal: "bt_ok m \<Longrightarrow> bt_ok n \<Longrightarrow> bt_get m = bt_get n \<Longrightarrow> m = n"
proof -
  assume m: "bt_ok m" and n: "bt_ok n" and eq: "bt_get m = bt_get n"
  have "set (bt_keys m) = set (bt_keys n)" by (simp add: set_bt_keys eq)
  with m n have "bt_keys m = bt_keys n" by (metis bt_keys_sorted strict_sorted_equal)
  with m n eq show "m = n" by (metis bt_rebuild)
qed

text \<open>Extending by a proper map overrides with it; the lookup laws of a filtered map.\<close>

lemma bt_map_of_rev: "bt_ok n \<Longrightarrow> map_of (rev n) = bt_get n"
proof -
  assume "bt_ok n"
  then have "distinct (map fst n)" using bt_ok_distinct [of n] by (simp add: bt_keys_def)
  then have "map_of (rev n) = map_of n"
    by (simp add: map_of_inject_set rev_map [symmetric])
  moreover have "bt_get n = map_of n" by (simp add: bt_get_def fun_eq_iff)
  ultimately show ?thesis by simp
qed

lemma bt_get_extend_ok: "bt_ok m \<Longrightarrow> bt_ok n \<Longrightarrow> bt_get (bt_extend m n) = bt_get m ++ bt_get n"
  by (simp add: bt_get_extend bt_map_of_rev)

lemma bt_get_filter:
  "bt_ok m \<Longrightarrow> bt_get (filter (\<lambda>(k, v). p k v) m) k = opt_filter (p k) (bt_get m k)"
  using bt_get_retain [of m p k] by (simp add: bt_retain_def)

lemma bt_contains_iff: "bt_contains m k \<longleftrightarrow> k \<in> set (bt_keys m)"
  by (simp add: bt_contains_def set_bt_keys)

end
