(* ===== verification/Json.thy ===== *)
theory Json
  imports Rust_Num Btree
begin

section \<open>JSON values\<close>

text \<open>
  \<open>serde_json::Value\<close>. An object is a \<open>BTreeMap\<close> (the crate is built without
  \<open>preserve_order\<close>), hence a \<open>btree\<close> with string keys. A number is, as in the crate, a
  non-negative integer of 64 bits, a negative integer of 64 bits, or a finite float; a finite
  float is represented by its rational value, which is what comparison of floats observes.
\<close>

datatype number = PosInt u64 | NegInt int | Float rat

datatype json =
    JNull
  | JBool bool
  | JNum number
  | JStr string
  | JArr "json list"
  | JObj "(string \<times> json) list"

type_synonym attributes_data = "(string, json) btree"

subsection \<open>Accessors\<close>

fun num_u64 :: "number \<Rightarrow> u64 option" where
  "num_u64 (PosInt n) = Some n"
| "num_u64 _ = None"

fun num_i64 :: "number \<Rightarrow> int option" where
  "num_i64 (PosInt n) = (if unat n < 2 ^ 63 then Some (uint n) else None)"
| "num_i64 (NegInt i) = Some i"
| "num_i64 (Float _) = None"

fun jget :: "json \<Rightarrow> string \<Rightarrow> json option" where
  "jget (JObj m) k = bt_get m k"
| "jget _ k = None"

fun as_u64 :: "json \<Rightarrow> u64 option" where
  "as_u64 (JNum n) = num_u64 n"
| "as_u64 _ = None"

fun as_i64 :: "json \<Rightarrow> int option" where
  "as_i64 (JNum n) = num_i64 n"
| "as_i64 _ = None"

fun as_str :: "json \<Rightarrow> string option" where
  "as_str (JStr s) = Some s"
| "as_str _ = None"

fun as_bool :: "json \<Rightarrow> bool option" where
  "as_bool (JBool b) = Some b"
| "as_bool _ = None"

fun as_array :: "json \<Rightarrow> json list option" where
  "as_array (JArr xs) = Some xs"
| "as_array _ = None"

fun as_object :: "json \<Rightarrow> (string, json) btree option" where
  "as_object (JObj m) = Some m"
| "as_object _ = None"

subsection \<open>Construction\<close>

definition ju64 :: "u64 \<Rightarrow> json" where
  "ju64 n = JNum (PosInt n)"

definition juint :: "nat \<Rightarrow> json" where
  "juint n = JNum (PosInt (of_nat n))"

definition jword :: "'a::len word \<Rightarrow> json" where
  "jword w = JNum (PosInt (ucast w))"

text \<open>The \<open>json!\<close> object literal.\<close>

definition jobj :: "(string \<times> json) list \<Rightarrow> json" where
  "jobj kvs = JObj (bt_collect kvs)"

definition jopt :: "json option \<Rightarrow> json" where
  "jopt x = unwrap_or x JNull"

lemma jget_jobj: "jget (jobj kvs) k = map_of (rev kvs) k"
  by (simp add: jobj_def bt_get_collect)

lemma as_u64_ju64 [simp]: "as_u64 (ju64 n) = Some n"
  by (simp add: ju64_def)

lemma as_u64_Some: "as_u64 v = Some n \<longleftrightarrow> v = JNum (PosInt n)"
proof (cases v)
  case (JNum x)
  then show ?thesis by (cases x) auto
qed simp_all

lemma as_str_Some: "as_str v = Some s \<longleftrightarrow> v = JStr s"
  by (cases v) auto

lemma as_array_Some: "as_array v = Some xs \<longleftrightarrow> v = JArr xs"
  by (cases v) auto

lemma as_object_Some: "as_object v = Some m \<longleftrightarrow> v = JObj m"
  by (cases v) auto

text \<open>Every object inside a value is a proper \<open>BTreeMap\<close>.\<close>

fun json_ok :: "json \<Rightarrow> bool" where
  "json_ok (JArr xs) = list_all json_ok xs"
| "json_ok (JObj m) = (bt_ok m \<and> list_all (\<lambda>(k, v). json_ok v) m)"
| "json_ok _ = True"

end
