(* ===== verification/Errors.thy ===== *)
theory Errors
  imports Json
begin

section \<open>Protocol errors (\<open>protocol/error.rs\<close>)\<close>

text \<open>
  The error codes with the numbers clients switch on, the error value (a code and a
  human-readable text), its constructors and its rendering. A command handler returns an
  \<open>api_result\<close>: an error or a JSON value.
\<close>

datatype error_code =
    UnknownError | NodeCommissionFailed | NodeInterviewFailed | NodeNotReady | NodeNotResolving
  | NodeNotExists | VersionMismatch | SdkStackError | InvalidArguments | InvalidCommand
  | UpdateCheckError | UpdateError | IcdMultiAdmin | OtaUploadError

fun code_as_i64 :: "error_code \<Rightarrow> int" where
  "code_as_i64 UnknownError = 0"
| "code_as_i64 NodeCommissionFailed = 1"
| "code_as_i64 NodeInterviewFailed = 2"
| "code_as_i64 NodeNotReady = 3"
| "code_as_i64 NodeNotResolving = 4"
| "code_as_i64 NodeNotExists = 5"
| "code_as_i64 VersionMismatch = 6"
| "code_as_i64 SdkStackError = 7"
| "code_as_i64 InvalidArguments = 8"
| "code_as_i64 InvalidCommand = 9"
| "code_as_i64 UpdateCheckError = 10"
| "code_as_i64 UpdateError = 11"
| "code_as_i64 IcdMultiAdmin = 100"
| "code_as_i64 OtaUploadError = 101"

definition quoted :: "string \<Rightarrow> string" where
  "quoted s = [CHR 0x27] @ s @ [CHR 0x27]"

record api_error =
  err_code :: error_code
  err_details :: string

type_synonym api_result = "api_error + json"

definition api_error_new :: "error_code \<Rightarrow> string \<Rightarrow> api_error" where
  "api_error_new c d = \<lparr>err_code = c, err_details = d\<rparr>"

definition err_unknown :: "string \<Rightarrow> api_error" where
  "err_unknown d = api_error_new UnknownError d"

definition err_commission_failed :: "string \<Rightarrow> api_error" where
  "err_commission_failed d = api_error_new NodeCommissionFailed d"

definition err_interview_failed :: "string \<Rightarrow> api_error" where
  "err_interview_failed d = api_error_new NodeInterviewFailed d"

definition err_node_not_ready :: "u64 \<Rightarrow> api_error" where
  "err_node_not_ready n = api_error_new NodeNotReady (''Node '' @ show_u n @ '' is not ready'')"

definition err_node_not_resolving :: "u64 \<Rightarrow> api_error" where
  "err_node_not_resolving n = api_error_new NodeNotResolving (''Node '' @ show_u n @ '' is not resolving'')"

definition err_node_not_exists :: "u64 \<Rightarrow> api_error" where
  "err_node_not_exists n = api_error_new NodeNotExists (''Node '' @ show_u n @ '' does not exist'')"

definition err_sdk :: "string \<Rightarrow> api_error" where
  "err_sdk d = api_error_new SdkStackError d"

definition err_invalid_args :: "string \<Rightarrow> api_error" where
  "err_invalid_args d = api_error_new InvalidArguments d"

definition err_invalid_command :: "string \<Rightarrow> api_error" where
  "err_invalid_command c = api_error_new InvalidCommand (''Unknown command: '' @ c)"

definition err_update_check :: "string \<Rightarrow> api_error" where
  "err_update_check d = api_error_new UpdateCheckError d"

definition err_update :: "string \<Rightarrow> api_error" where
  "err_update d = api_error_new UpdateError d"

definition err_ota_upload :: "string \<Rightarrow> api_error" where
  "err_ota_upload d = api_error_new OtaUploadError d"

fun join_with :: "string \<Rightarrow> string list \<Rightarrow> string" where
  "join_with sep [] = []"
| "join_with sep [x] = x"
| "join_with sep (x # y # xs) = x @ sep @ join_with sep (y # xs)"

text \<open>The JSON document the multi-administrator error carries, keys in map order.\<close>

definition err_icd_multi_admin :: "u16 list \<Rightarrow> api_error" where
  "err_icd_multi_admin ids = api_error_new IcdMultiAdmin
     (''{\"admin_vendor_ids\":['' @ join_with '','' (map show_u ids) @
      ''],\"message\":\"Peer has administrators from other vendors that may not support LIT\"}'')"

definition show_int :: "int \<Rightarrow> string" where
  "show_int i = (if i < 0 then ''-'' @ show_nat (nat (- i)) else show_nat (nat i))"

definition show_error :: "api_error \<Rightarrow> string" where
  "show_error e = ''['' @ show_int (code_as_i64 (err_code e)) @ ''] '' @ err_details e"

lemma api_error_code [simp]: "err_code (api_error_new c d) = c"
  and api_error_details [simp]: "err_details (api_error_new c d) = d"
  by (simp_all add: api_error_new_def)

lemma err_codes [simp]:
  "err_code (err_invalid_args d) = InvalidArguments"
  "err_code (err_sdk d) = SdkStackError"
  "err_code (err_node_not_exists n) = NodeNotExists"
  "err_code (err_node_not_ready n) = NodeNotReady"
  "err_code (err_node_not_resolving n) = NodeNotResolving"
  "err_code (err_invalid_command c) = InvalidCommand"
  "err_code (err_update_check d) = UpdateCheckError"
  "err_code (err_update d) = UpdateError"
  "err_code (err_ota_upload d) = OtaUploadError"
  "err_code (err_icd_multi_admin ids) = IcdMultiAdmin"
  by (simp_all add: err_invalid_args_def err_sdk_def err_node_not_exists_def err_node_not_ready_def
      err_node_not_resolving_def err_invalid_command_def err_update_check_def err_update_def
      err_ota_upload_def err_icd_multi_admin_def)

lemma code_as_i64_inj: "code_as_i64 a = code_as_i64 b \<longleftrightarrow> a = b"
  by (cases a; cases b) simp_all

end
