(* ===== verification/Message.thy ===== *)
theory Message
  imports Errors
begin

section \<open>Requests, envelopes and arguments (\<open>protocol/message.rs\<close>)\<close>

text \<open>
  Decoding a client frame into a request, rendering a handler's result into one of the two
  wire envelopes, and the typed accessors the handlers read their arguments with. \<open>args\<close> is
  the JSON value of the frame's \<open>args\<close> member. The 64-bit accessor takes a number or a
  decimal string; the narrower ones check the bound before they truncate.
\<close>

type_synonym args = json

record request =
  req_message_id :: json
  req_command :: "string option"
  req_args :: args

definition request_from_value :: "json \<Rightarrow> request" where
  "request_from_value raw =
     \<lparr>req_message_id = unwrap_or (jget raw ''message_id'') (JStr []),
      req_command = opt_bind (jget raw ''command'') as_str,
      req_args = unwrap_or (jget raw ''args'') JNull\<rparr>"

definition response_envelope :: "json \<Rightarrow> api_result \<Rightarrow> json" where
  "response_envelope mid r =
     (case r of
        Inr v \<Rightarrow> jobj [(''message_id'', mid), (''result'', v)]
      | Inl e \<Rightarrow> jobj [(''message_id'', mid),
                       (''error_code'', juint (nat (code_as_i64 (err_code e)))),
                       (''details'', JStr (err_details e))])"

subsection \<open>Argument accessors\<close>

definition args_get :: "args \<Rightarrow> string \<Rightarrow> json option" where
  "args_get a name = (case jget a name of Some JNull \<Rightarrow> None | None \<Rightarrow> None | Some v \<Rightarrow> Some v)"

definition args_is_empty :: "args \<Rightarrow> bool" where
  "args_is_empty a = (case a of JNull \<Rightarrow> True | JObj m \<Rightarrow> m = [] | _ \<Rightarrow> False)"

definition must_be_positive :: "string \<Rightarrow> api_error" where
  "must_be_positive name = err_invalid_args (name @ '' must be a positive integer'')"

definition missing :: "string \<Rightarrow> api_error" where
  "missing name = err_invalid_args (''Missing '' @ name)"

definition parse_u64 :: "string \<Rightarrow> u64 option" where
  "parse_u64 s = map_option of_nat (parse_uint 10 u64_max s)"

definition args_u64 :: "args \<Rightarrow> string \<Rightarrow> api_error + u64 option" where
  "args_u64 a name =
     (case args_get a name of
        None \<Rightarrow> Inr None
      | Some (JNum n) \<Rightarrow> map_res Some (ok_or (must_be_positive name) (num_u64 n))
      | Some (JStr s) \<Rightarrow> map_res Some (ok_or (must_be_positive name) (parse_u64 s))
      | Some _ \<Rightarrow> Inl (must_be_positive name))"

definition required :: "string \<Rightarrow> api_error + 'a option \<Rightarrow> api_error + 'a" where
  "required name r = bind_res r (ok_or (missing name))"

definition args_req_u64 :: "args \<Rightarrow> string \<Rightarrow> api_error + u64" where
  "args_req_u64 a name = required name (args_u64 a name)"

definition args_bounded :: "args \<Rightarrow> string \<Rightarrow> u64 \<Rightarrow> api_error + u64 option" where
  "args_bounded a name limit = bind_res (args_u64 a name) (\<lambda>v.
     case v of
       Some n \<Rightarrow> if n > limit
                 then Inl (err_invalid_args (name @ '' must be at most '' @ show_u limit))
                 else Inr (Some n)
     | None \<Rightarrow> Inr None)"

definition args_u32 :: "args \<Rightarrow> string \<Rightarrow> api_error + u32 option" where
  "args_u32 a name = map_res (map_option ucast) (args_bounded a name 0xFFFFFFFF)"

definition args_req_u32 :: "args \<Rightarrow> string \<Rightarrow> api_error + u32" where
  "args_req_u32 a name = required name (args_u32 a name)"

definition args_u16 :: "args \<Rightarrow> string \<Rightarrow> api_error + u16 option" where
  "args_u16 a name = map_res (map_option ucast) (args_bounded a name 0xFFFF)"

definition args_req_u16 :: "args \<Rightarrow> string \<Rightarrow> api_error + u16" where
  "args_req_u16 a name = required name (args_u16 a name)"

definition args_u8 :: "args \<Rightarrow> string \<Rightarrow> api_error + u8 option" where
  "args_u8 a name = map_res (map_option ucast) (args_bounded a name 0xFF)"

definition args_str :: "args \<Rightarrow> string \<Rightarrow> api_error + string option" where
  "args_str a name =
     (case args_get a name of
        None \<Rightarrow> Inr None
      | Some (JStr s) \<Rightarrow> Inr (Some s)
      | Some _ \<Rightarrow> Inl (err_invalid_args (name @ '' must be a string'')))"

definition args_req_str :: "args \<Rightarrow> string \<Rightarrow> api_error + string" where
  "args_req_str a name = required name (args_str a name)"

definition args_bool :: "args \<Rightarrow> string \<Rightarrow> api_error + bool option" where
  "args_bool a name =
     (case args_get a name of
        None \<Rightarrow> Inr None
      | Some (JBool b) \<Rightarrow> Inr (Some b)
      | Some _ \<Rightarrow> Inl (err_invalid_args (name @ '' must be a boolean'')))"

definition args_bool_or :: "args \<Rightarrow> string \<Rightarrow> bool \<Rightarrow> api_error + bool" where
  "args_bool_or a name d = map_res (\<lambda>b. unwrap_or b d) (args_bool a name)"

definition args_array :: "args \<Rightarrow> string \<Rightarrow> api_error + json list option" where
  "args_array a name =
     (case args_get a name of
        None \<Rightarrow> Inr None
      | Some (JArr xs) \<Rightarrow> Inr (Some xs)
      | Some _ \<Rightarrow> Inl (err_invalid_args (name @ '' must be an array'')))"

definition args_req_array :: "args \<Rightarrow> string \<Rightarrow> api_error + json list" where
  "args_req_array a name = required name (args_array a name)"

fun u64_item :: "json \<Rightarrow> u64 option" where
  "u64_item (JNum n) = num_u64 n"
| "u64_item (JStr s) = parse_u64 s"
| "u64_item _ = None"

definition args_u64_array :: "args \<Rightarrow> string \<Rightarrow> api_error + u64 list option" where
  "args_u64_array a name = bind_res (args_array a name) (\<lambda>items.
     case items of
       None \<Rightarrow> Inr None
     | Some xs \<Rightarrow> map_res Some
         (ok_or (err_invalid_args (name @ '' must be an array of integers'')) (collect_opt u64_item xs)))"

definition args_value :: "args \<Rightarrow> string \<Rightarrow> json option" where
  "args_value a name = jget a name"

subsection \<open>Laws of the accessors\<close>

lemma args_get_None_u64: "args_get a name = None \<Longrightarrow> args_u64 a name = Inr None"
  by (simp add: args_u64_def)

lemma u64_le_max: "unat (n :: u64) \<le> u64_max"
  using unat_bound [of n] by simp

lemma parse_u64_show [str_simps]: "parse_u64 (show_u n) = Some n"
  unfolding parse_u64_def show_u_def parse_show [OF u64_le_max]
  by (simp only: option.map of_nat_unat_id)

lemma required_Inr [res_simps]: "required name r = Inr a \<longleftrightarrow> r = Inr (Some a)"
  by (auto simp: required_def res_simps)

lemma args_u64_code: "args_u64 a name = Inl e \<Longrightarrow> err_code e = InvalidArguments"
  by (auto simp: args_u64_def must_be_positive_def ok_or_def split: option.splits json.splits)

lemma args_bounded_cases:
  "args_bounded a name limit =
     (case args_u64 a name of
        Inl e \<Rightarrow> Inl e
      | Inr None \<Rightarrow> Inr None
      | Inr (Some n) \<Rightarrow> if n > limit
          then Inl (err_invalid_args (name @ '' must be at most '' @ show_u limit)) else Inr (Some n))"
  by (simp add: args_bounded_def split: sum.split option.split)

lemma args_bounded_Some [res_simps]:
  "args_bounded a name limit = Inr (Some n) \<longleftrightarrow> args_u64 a name = Inr (Some n) \<and> n \<le> limit"
  unfolding args_bounded_cases by (auto simp: not_less split: sum.split option.split)

lemma args_bounded_None [res_simps]:
  "args_bounded a name limit = Inr None \<longleftrightarrow> args_u64 a name = Inr None"
  unfolding args_bounded_cases by (auto split: sum.split option.split)

lemma args_bounded_code: "args_bounded a name limit = Inl e \<Longrightarrow> err_code e = InvalidArguments"
  unfolding args_bounded_cases
  by (auto dest: args_u64_code split: sum.splits option.splits if_splits)

subsection \<open>Properties\<close>

lemma narrow_iff:
  assumes "LENGTH('a::len) \<le> LENGTH(64)" and "unat limit = 2 ^ LENGTH('a) - 1"
  shows "map_res (map_option (ucast :: u64 \<Rightarrow> 'a word)) (args_bounded a name limit) = Inr (Some w)
    \<longleftrightarrow> (\<exists>v. args_u64 a name = Inr (Some v) \<and> unat v = unat w)"
proof -
  have in_range: "unat v < 2 ^ LENGTH('a)" if "v \<le> limit" for v
  proof -
    have "(0::nat) < 2 ^ LENGTH('a)" by simp
    moreover have "unat v \<le> 2 ^ LENGTH('a) - 1" using that assms(2) by (simp add: word_le_nat_alt)
    ultimately show ?thesis by linarith
  qed
  have bounded: "v \<le> limit" if "unat v = unat w" for v
    using unat_bound [of w] unfolding word_le_nat_alt that assms(2) by linarith
  have cast: "ucast v = w \<longleftrightarrow> unat v = unat w" if "v \<le> limit" for v
    using unat_ucast_down [of v, where 'a = 'a, OF in_range [OF that]] by (metis word_unat_eq_iff)
  show ?thesis
    using bounded cast by (auto simp: map_res_Some args_bounded_Some)
qed

text \<open>The narrow integer accessors never truncate: each returns a value exactly when the 64-bit
  accessor returns that same number and it fits the narrow width.\<close>

theorem narrow_accessors_exact:
  "(args_u32 a name = Inr (Some w32) \<longleftrightarrow> (\<exists>v. args_u64 a name = Inr (Some v) \<and> unat v = unat w32))
   \<and> (args_u16 a name = Inr (Some w16) \<longleftrightarrow> (\<exists>v. args_u64 a name = Inr (Some v) \<and> unat v = unat w16))
   \<and> (args_u8 a name = Inr (Some w8) \<longleftrightarrow> (\<exists>v. args_u64 a name = Inr (Some v) \<and> unat v = unat w8))"
  unfolding args_u32_def args_u16_def args_u8_def by (intro conjI narrow_iff) simp_all

text \<open>A 64-bit id reads the same whether the client sends it as a JSON number or, as
  JavaScript clients must, as a decimal string; a missing or null argument is not an error, and
  any other JSON type is refused as invalid arguments.\<close>

theorem args_u64_number_or_string:
  "args_u64 (jobj [(name, ju64 n)]) name = Inr (Some n)
   \<and> args_u64 (jobj [(name, JStr (show_u n))]) name = Inr (Some n)
   \<and> args_u64 (jobj [(name, JNull)]) name = Inr None
   \<and> args_u64 (jobj []) name = Inr None
   \<and> args_u64 (jobj [(name, JBool b)]) name = Inl (must_be_positive name)
   \<and> args_u64 (jobj [(name, JArr vs)]) name = Inl (must_be_positive name)
   \<and> args_u64 (jobj [(name, JNum (NegInt i))]) name = Inl (must_be_positive name)"
  by (simp add: args_u64_def args_get_def jget_jobj ju64_def parse_u64_show)

text \<open>Every reply carries the request's message id and is exactly one of the two envelopes:
  a result and no error code, or the error's number and text and no result. The number
  determines the error, so a client that switches on it sees the error the handler returned.\<close>

theorem envelope_is_exclusive:
  "jget (response_envelope mid r) ''message_id'' = Some mid
   \<and> (case r of
        Inr v \<Rightarrow> jget (response_envelope mid r) ''result'' = Some v
                 \<and> jget (response_envelope mid r) ''error_code'' = None
      | Inl e \<Rightarrow> jget (response_envelope mid r) ''result'' = None
                 \<and> jget (response_envelope mid r) ''details'' = Some (JStr (err_details e))
                 \<and> (\<forall>c. jget (response_envelope mid r) ''error_code'' = Some (juint (nat (code_as_i64 c)))
                        \<longleftrightarrow> c = err_code e))"
proof -
  have "juint (nat (code_as_i64 c)) = juint (nat (code_as_i64 d)) \<longleftrightarrow> c = d" for c d
    unfolding juint_def by (cases c; cases d) simp_all
  then show ?thesis
    by (cases r) (auto simp: response_envelope_def jget_jobj)
qed

end
