(* ===== verification/Paths.thy ===== *)
theory Paths
  imports Message
begin

section \<open>Attribute paths (\<open>protocol/paths.rs\<close>)\<close>

text \<open>
  The wire form \<open>endpoint/cluster/attribute\<close>, each segment a number within its width or the
  wildcard \<open>*\<close>. Reads take one path or a list and allow wildcards; a write names exactly one
  attribute. \<open>to_attr_path\<close> hands the three segments to rs-matter unchanged, so its result is
  the parsed path itself.
\<close>

record parsed_path =
  pp_endpoint :: "u16 option"
  pp_cluster :: "u32 option"
  pp_attribute :: "u32 option"

definition has_wildcard :: "parsed_path \<Rightarrow> bool" where
  "has_wildcard p = (pp_endpoint p = None \<or> pp_cluster p = None \<or> pp_attribute p = None)"

definition format_path :: "u16 \<Rightarrow> u32 \<Rightarrow> u32 \<Rightarrow> string" where
  "format_path e c a = show_u e @ ''/'' @ show_u c @ ''/'' @ show_u a"

definition invalid_segment :: "string \<Rightarrow> string \<Rightarrow> api_error" where
  "invalid_segment name raw =
     err_invalid_args (''Invalid '' @ name @ '' '' @ [CHR 0x27] @ raw @ [CHR 0x27] @ '' in attribute path'')"

definition segment :: "string \<Rightarrow> string \<Rightarrow> u64 \<Rightarrow> api_error + u64 option" where
  "segment raw name limit =
     (if raw = ''*'' then Inr None
      else bind_res (ok_or (invalid_segment name raw) (parse_u64 raw)) (\<lambda>v.
        if v > limit then Inl (invalid_segment name raw) else Inr (Some v)))"

definition invalid_path :: "string \<Rightarrow> api_error" where
  "invalid_path raw = err_invalid_args
     (''Invalid attribute path '' @ [CHR 0x27] @ raw @ [CHR 0x27] @ '': expected endpoint/cluster/attribute'')"

definition parse_path :: "string \<Rightarrow> api_error + parsed_path" where
  "parse_path raw =
     (case split_on (CHR ''/'') raw of
        [e, c, a] \<Rightarrow>
          bind_res (segment e ''endpoint'' 0xFFFF) (\<lambda>ev.
          bind_res (segment c ''cluster'' 0xFFFFFFFF) (\<lambda>cv.
          bind_res (segment a ''attribute'' 0xFFFFFFFF) (\<lambda>av.
            Inr \<lparr>pp_endpoint = map_option ucast ev,
                 pp_cluster = map_option ucast cv,
                 pp_attribute = map_option ucast av\<rparr>)))
      | _ \<Rightarrow> Inl (invalid_path raw))"

definition path_entry :: "json \<Rightarrow> api_error + parsed_path" where
  "path_entry item =
     bind_res (ok_or (err_invalid_args ''attribute_path entries must be strings'') (as_str item)) parse_path"

definition parse_path_arg :: "args \<Rightarrow> api_error + parsed_path list" where
  "parse_path_arg a =
     bind_res (ok_or (err_invalid_args ''Missing attribute_path'') (args_get a ''attribute_path'')) (\<lambda>v.
     bind_res (case v of
         JStr p \<Rightarrow> map_res (\<lambda>q. [q]) (parse_path p)
       | JArr items \<Rightarrow> collect_res path_entry items
       | _ \<Rightarrow> Inl (err_invalid_args ''attribute_path must be a string or an array of strings''))
     (\<lambda>paths.
       if paths = [] then Inl (err_invalid_args ''At least one attribute path is required'')
       else Inr paths))"

definition write_target :: "parsed_path list \<Rightarrow> api_error + (u16 \<times> u32 \<times> u32)" where
  "write_target paths =
     (case paths of
        [p] \<Rightarrow>
          (case (pp_endpoint p, pp_cluster p, pp_attribute p) of
             (Some e, Some c, Some attr) \<Rightarrow> Inr (e, c, attr)
           | _ \<Rightarrow> Inl (err_invalid_args ''write_attribute does not support wildcards in attribute path''))
      | _ \<Rightarrow> Inl (err_invalid_args ''write_attribute accepts exactly one attribute path''))"

definition parse_write_path :: "args \<Rightarrow> api_error + (u16 \<times> u32 \<times> u32)" where
  "parse_write_path a = bind_res (parse_path_arg a) write_target"

subsection \<open>Round trip and error laws\<close>

lemma show_u_no [simp]: "CHR ''/'' \<notin> set (show_u w)"
  by (simp add: show_u_def)

lemma show_u_not_star [simp]: "show_u w \<noteq> ''*''"
proof
  assume "show_u w = ''*''"
  then have "CHR ''*'' \<in> set (show_nat (unat w))" by (simp add: show_u_def)
  then show False by simp
qed

lemma show_u_ucast:
  "LENGTH('a::len) \<le> LENGTH(64) \<Longrightarrow> show_u (w :: 'a word) = show_u (ucast w :: u64)"
  by (simp only: show_u_def unat_ucast_up)

lemma segment_star [simp]: "segment ''*'' name limit = Inr None"
  by (simp add: segment_def)

lemma segment_show: "n \<le> limit \<Longrightarrow> segment (show_u n) name limit = Inr (Some n)"
  by (simp add: segment_def str_simps)

lemma segment_bound: "segment raw name limit = Inr (Some n) \<Longrightarrow> n \<le> limit"
  by (auto simp: segment_def res_simps split: if_splits)

lemma segment_code: "segment raw name limit = Inl e \<Longrightarrow> err_code e = InvalidArguments"
  by (auto simp: segment_def res_simps invalid_segment_def split: if_splits)

lemma parse_path_code: "parse_path raw = Inl e \<Longrightarrow> err_code e = InvalidArguments"
  by (auto simp: parse_path_def res_simps invalid_path_def dest: segment_code split: list.splits)

lemma path_entry_code: "path_entry v = Inl e \<Longrightarrow> err_code e = InvalidArguments"
  by (auto simp: path_entry_def res_simps dest: parse_path_code)

lemma paths_code: "collect_res path_entry vs = Inl e \<Longrightarrow> err_code e = InvalidArguments"
  by (blast dest: collect_res_Inl path_entry_code)

lemma parse_path_arg_code: "parse_path_arg a = Inl e \<Longrightarrow> err_code e = InvalidArguments"
  unfolding parse_path_arg_def
  by (auto simp: bind_res_Inl bind_res_Inr ok_or_Inl ok_or_Inr map_res_Inl
      dest: parse_path_code paths_code split: if_splits) (auto dest: parse_path_code paths_code simp: map_res_Inl split: json.splits)

text \<open>The wire form of a parsed path, wildcards included.\<close>

definition render_segment :: "'a::len word option \<Rightarrow> string" where
  "render_segment s = (case s of None \<Rightarrow> ''*'' | Some w \<Rightarrow> show_u w)"

definition render_path :: "parsed_path \<Rightarrow> string" where
  "render_path p = render_segment (pp_endpoint p) @ ''/'' @ render_segment (pp_cluster p)
                     @ ''/'' @ render_segment (pp_attribute p)"

lemma render_segment_no_slash: "CHR ''/'' \<notin> set (render_segment s)"
  by (auto simp: render_segment_def split: option.splits)

lemma segment_render:
  assumes "LENGTH('a::len) \<le> LENGTH(64)" and "\<And>w :: 'a word. (ucast w :: u64) \<le> limit"
  shows "segment (render_segment (s :: 'a word option)) name limit = Inr (map_option ucast s)"
proof (cases s)
  case (Some w)
  have "show_u w = show_u (ucast w :: u64)" by (rule show_u_ucast [OF assms(1)])
  then show ?thesis using Some assms(2) by (simp add: render_segment_def segment_show)
qed (simp add: render_segment_def)

lemma ucast_u16_le: "(ucast (w :: u16) :: u64) \<le> 0xFFFF"
  using unat_bound [of w] by (simp add: word_le_nat_alt unat_ucast_up)

lemma ucast_u32_le: "(ucast (w :: u32) :: u64) \<le> 0xFFFFFFFF"
  using unat_bound [of w] by (simp add: word_le_nat_alt unat_ucast_up)

lemma map_ucast_up_down:
  "LENGTH('a::len) \<le> LENGTH(64) \<Longrightarrow>
     map_option (ucast :: u64 \<Rightarrow> 'a word) (map_option ucast (s :: 'a word option)) = s"
  by (cases s) (simp_all add: ucast_up_down)

lemma split_render:
  "split_on (CHR ''/'') (render_path p)
     = [render_segment (pp_endpoint p), render_segment (pp_cluster p), render_segment (pp_attribute p)]"
  by (simp add: render_path_def split_on_append split_on_free render_segment_no_slash)

lemma parse_render: "parse_path (render_path p) = Inr p"
  unfolding parse_path_def split_render
  by (simp add: segment_render ucast_u16_le ucast_u32_le map_ucast_up_down del: option.map_comp)

lemma format_render: "format_path e c a = render_path \<lparr>pp_endpoint = Some e, pp_cluster = Some c, pp_attribute = Some a\<rparr>"
  by (simp add: format_path_def render_path_def render_segment_def)

subsection \<open>Properties\<close>

lemma render_path_inj: "render_path p = render_path q \<longleftrightarrow> p = q"
  by (metis parse_render sum.inject(2))

lemma concrete_path:
  "has_wildcard p \<longleftrightarrow>
     (\<forall>e c a. render_path p \<noteq> render_path \<lparr>pp_endpoint = Some e, pp_cluster = Some c, pp_attribute = Some a\<rparr>)"
  unfolding render_path_inj by (cases p) (auto simp: has_wildcard_def)

text \<open>Parsing the wire form of a path gives that path back, wildcards included, and
  \<open>format_path\<close> produces that wire form for a concrete path.\<close>

theorem path_round_trip:
  "parse_path (render_path p) = Inr p
   \<and> parse_path (format_path e c a) = Inr \<lparr>pp_endpoint = Some e, pp_cluster = Some c, pp_attribute = Some a\<rparr>
   \<and> (has_wildcard p \<longleftrightarrow> (\<forall>e c a. render_path p \<noteq> format_path e c a))"
  using concrete_path [of p] by (simp add: parse_render format_render)

lemma write_target_Inr:
  "write_target ps = Inr (e, c, attr) \<longleftrightarrow> ps = [\<lparr>pp_endpoint = Some e, pp_cluster = Some c, pp_attribute = Some attr\<rparr>]"
proof (cases "\<exists>p. ps = [p]")
  case True
  then obtain p where "ps = [p]" by blast
  then show ?thesis by (cases p) (auto simp: write_target_def split: option.splits)
next
  case False
  then have "\<exists>err. write_target ps = Inl err"
    by (auto simp: write_target_def split: list.split)
  with False show ?thesis by auto
qed

lemma write_target_code: "write_target ps = Inl err \<Longrightarrow> err_code err = InvalidArguments"
  by (auto simp: write_target_def split: list.splits option.splits)

text \<open>A write goes through only when the argument names exactly one path and that path is
  concrete, and then to exactly that attribute; everything else (no path, several, a wildcard,
  a malformed segment) is refused as invalid arguments.\<close>

theorem write_path_exact:
  "(parse_write_path a = Inr (e, c, attr)
      \<longleftrightarrow> parse_path_arg a = Inr [\<lparr>pp_endpoint = Some e, pp_cluster = Some c, pp_attribute = Some attr\<rparr>])
   \<and> (case parse_write_path a of Inl err \<Rightarrow> err_code err = InvalidArguments | Inr _ \<Rightarrow> True)
   \<and> (case parse_path_arg a of Inl err \<Rightarrow> err_code err = InvalidArguments | Inr ps \<Rightarrow> ps \<noteq> [])"
proof (intro conjI)
  show "parse_write_path a = Inr (e, c, attr)
      \<longleftrightarrow> parse_path_arg a = Inr [\<lparr>pp_endpoint = Some e, pp_cluster = Some c, pp_attribute = Some attr\<rparr>]"
    by (auto simp: parse_write_path_def bind_res_Inr write_target_Inr)
  show "case parse_write_path a of Inl err \<Rightarrow> err_code err = InvalidArguments | Inr _ \<Rightarrow> True"
    by (auto simp: parse_write_path_def bind_res_Inl split: sum.split dest: parse_path_arg_code write_target_code)
  have "ps \<noteq> []" if "parse_path_arg a = Inr ps" for ps
    using that by (auto simp: parse_path_arg_def bind_res_Inr split: if_splits)
  then show "case parse_path_arg a of Inl err \<Rightarrow> err_code err = InvalidArguments | Inr ps \<Rightarrow> ps \<noteq> []"
    by (auto split: sum.split dest: parse_path_arg_code)
qed

end
