(* ===== verification/Node_Model.thy ===== *)
theory Node_Model
  imports Paths
begin

section \<open>The wire model of a node (\<open>protocol/model.rs\<close>)\<close>

text \<open>
  A node as clients see it, its endpoints, and what an interview or a report derives from its
  attributes: whether it is a bridge and which specification version it implements
  (\<open>detect_bridge\<close> and \<open>detect_matter_version\<close> of \<open>storage/nodes.rs\<close>).
\<close>

definition test_node_start :: u64 where
  "test_node_start = 0xFFFFFFFE00000000"

definition schema_version :: nat where
  "schema_version = 13"

definition min_supported_schema_version :: nat where
  "min_supported_schema_version = 11"

record matter_node_data =
  nd_node_id :: u64
  nd_date_commissioned :: string
  nd_last_interview :: string
  nd_interview_version :: u64
  nd_available :: bool
  nd_is_bridge :: bool
  nd_attributes :: attributes_data
  nd_attribute_subscriptions :: "json list"
  nd_matter_version :: "string option"

definition node_new :: "u64 \<Rightarrow> string \<Rightarrow> matter_node_data" where
  "node_new n commissioned_at =
     \<lparr>nd_node_id = n, nd_date_commissioned = commissioned_at, nd_last_interview = commissioned_at,
      nd_interview_version = 0, nd_available = True, nd_is_bridge = False, nd_attributes = [],
      nd_attribute_subscriptions = [], nd_matter_version = None\<rparr>"

definition is_test_node :: "matter_node_data \<Rightarrow> bool" where
  "is_test_node d = (nd_node_id d \<ge> test_node_start)"

definition basic_info_string :: "matter_node_data \<Rightarrow> u32 \<Rightarrow> string option" where
  "basic_info_string d a = opt_bind (bt_get (nd_attributes d) (''0/40/'' @ show_u a)) as_str"

definition vendor_name_of :: "matter_node_data \<Rightarrow> string option" where
  "vendor_name_of d = basic_info_string d 1"

definition product_name_of :: "matter_node_data \<Rightarrow> string option" where
  "product_name_of d = basic_info_string d 3"

definition parse_u16 :: "string \<Rightarrow> u16 option" where
  "parse_u16 s = map_option of_nat (parse_uint 10 u16_max s)"

definition path_endpoint :: "string \<Rightarrow> u16 option" where
  "path_endpoint path = parse_u16 (hd (split_on (CHR ''/'') path))"

definition endpoints_of :: "attributes_data \<Rightarrow> u16 list" where
  "endpoints_of attrs = dedup_sorted (filter_map path_endpoint (bt_keys attrs))"

definition nd_endpoints :: "matter_node_data \<Rightarrow> u16 list" where
  "nd_endpoints d = endpoints_of (nd_attributes d)"

text \<open>The JSON a node serializes to; the version is left out when it is not known.\<close>

definition node_to_value :: "matter_node_data \<Rightarrow> json" where
  "node_to_value d = jobj
     ([(''node_id'', ju64 (nd_node_id d)),
       (''date_commissioned'', JStr (nd_date_commissioned d)),
       (''last_interview'', JStr (nd_last_interview d)),
       (''interview_version'', ju64 (nd_interview_version d)),
       (''available'', JBool (nd_available d)),
       (''is_bridge'', JBool (nd_is_bridge d)),
       (''attributes'', JObj (nd_attributes d)),
       (''attribute_subscriptions'', JArr (nd_attribute_subscriptions d))]
      @ (case nd_matter_version d of None \<Rightarrow> [] | Some v \<Rightarrow> [(''matter_version'', JStr v)]))"

subsection \<open>Derived facts about a node\<close>

definition nth_segment :: "nat \<Rightarrow> string \<Rightarrow> string option" where
  "nth_segment n path = (let ws = split_on (CHR ''/'') path in
     if n < length ws then Some (ws ! n) else None)"

definition is_device_type_list :: "string \<Rightarrow> bool" where
  "is_device_type_list path =
     (case (nth_segment 1 path, nth_segment 2 path) of
        (Some c, Some a) \<Rightarrow> c = ''29'' \<and> a = ''0''
      | _ \<Rightarrow> False)"

definition aggregator_entry :: "json \<Rightarrow> bool" where
  "aggregator_entry e =
     (opt_bind (opt_or (jget e ''deviceType'') (jget e ''0'')) as_u64 = Some 0x000E)"

definition detect_bridge :: "attributes_data \<Rightarrow> bool" where
  "detect_bridge attrs = list_ex (\<lambda>(path, value).
     is_device_type_list path \<and>
     (case as_array value of None \<Rightarrow> False | Some entries \<Rightarrow> list_ex aggregator_entry entries)) attrs"

unbundle bit_operations_syntax

definition spec_version :: "u64 \<Rightarrow> string" where
  "spec_version raw =
     (show_u (drop_bit 24 raw AND 0xFF) @ ''.'' @ show_u (drop_bit 16 raw AND 0xFF) @ ''.''
      @ show_u (drop_bit 8 raw AND 0xFF))"

definition detect_matter_version :: "attributes_data \<Rightarrow> string option" where
  "detect_matter_version attrs =
     (case opt_filter (\<lambda>raw. raw > 0) (opt_bind (bt_get attrs ''0/40/21'') as_u64) of
        Some raw \<Rightarrow> Some (spec_version raw)
      | None \<Rightarrow>
          (case opt_bind (bt_get attrs ''0/40/0'') as_u64 of
             Some revision \<Rightarrow> if revision \<le> 16 then Some ''<1.2.0''
                              else if revision = 17 then Some ''1.2.0'' else None
           | None \<Rightarrow> None))"

subsection \<open>Endpoints of an attribute set\<close>

lemma set_endpoints:
  "set (endpoints_of attrs) = {e. \<exists>path. bt_get attrs path \<noteq> None \<and> path_endpoint path = Some e}"
  by (auto simp: endpoints_of_def set_bt_keys)

lemma endpoints_sorted: "sorted_wrt (<) (endpoints_of attrs)"
  by (simp add: endpoints_of_def dedup_sorted_strict)

lemma parse_u16_show: "parse_u16 (show_u (e :: u16)) = Some e"
proof -
  have "unat e \<le> u16_max" using unat_bound [of e] by simp
  then have "parse_uint 10 u16_max (show_nat (unat e)) = Some (unat e)" by (rule parse_show)
  then show ?thesis by (simp only: parse_u16_def show_u_def option.map of_nat_unat_id)
qed

lemma path_endpoint_format: "path_endpoint (format_path e c a) = Some e"
proof -
  have "split_on (CHR ''/'') (format_path e c a) = show_u e # split_on (CHR ''/'') (show_u c @ ''/'' @ show_u a)"
    by (simp add: format_path_def split_on_append)
  then show ?thesis by (simp add: path_endpoint_def parse_u16_show)
qed

end
