(* ===== verification/Node_Store.thy ===== *)
theory Node_Store
  imports Node_Model
begin

section \<open>The node store's data operations (\<open>storage/nodes.rs\<close>)\<close>

text \<open>
  The commissioned nodes, keyed by node id in a \<open>BTreeMap\<close>, and every operation on that map:
  lookups, listing, insertion and removal, availability, addresses, and the two ways new
  attribute values are merged (an interview, and a poll or report), each returning what
  changed. The mutex makes each operation atomic, so an operation is a function of the map.
  Persistence is in \<open>Node_Persist\<close>.
\<close>

record stored_node =
  sn_data :: matter_node_data
  sn_ip_addresses :: "string list"
  sn_device_fabric_index :: "u8 option"

type_synonym nodes = "(u64, stored_node) btree"

definition stored_new :: "matter_node_data \<Rightarrow> stored_node" where
  "stored_new d = \<lparr>sn_data = d, sn_ip_addresses = [], sn_device_fabric_index = None\<rparr>"

definition ns_len :: "nodes \<Rightarrow> nat" where
  "ns_len s = length s"

definition ns_contains :: "nodes \<Rightarrow> u64 \<Rightarrow> bool" where
  "ns_contains s n = bt_contains s n"

definition ns_get :: "nodes \<Rightarrow> u64 \<Rightarrow> matter_node_data option" where
  "ns_get s n = map_option sn_data (bt_get s n)"

definition ns_get_stored :: "nodes \<Rightarrow> u64 \<Rightarrow> stored_node option" where
  "ns_get_stored s n = bt_get s n"

definition ns_all :: "nodes \<Rightarrow> matter_node_data list" where
  "ns_all s = map sn_data (bt_values s)"

definition ns_all_filtered :: "nodes \<Rightarrow> bool \<Rightarrow> matter_node_data list" where
  "ns_all_filtered s only_available =
     map sn_data (filter (\<lambda>n. \<not> only_available \<or> nd_available (sn_data n)) (bt_values s))"

definition ns_highest_node_id :: "nodes \<Rightarrow> u64 option" where
  "ns_highest_node_id s = find (\<lambda>i. i < test_node_start) (rev (bt_keys s))"

definition ns_awaiting_first_interview :: "nodes \<Rightarrow> u64 \<Rightarrow> bool" where
  "ns_awaiting_first_interview s n =
     unwrap_or (map_option (\<lambda>node. nd_attributes (sn_data node) = []
                                    \<and> nd_interview_version (sn_data node) = 0) (bt_get s n)) False"

definition ns_upsert :: "nodes \<Rightarrow> stored_node \<Rightarrow> nodes" where
  "ns_upsert s node = bt_insert (nd_node_id (sn_data node)) node s"

definition ns_remove :: "nodes \<Rightarrow> u64 \<Rightarrow> nodes \<times> bool" where
  "ns_remove s n = (bt_remove n s, bt_contains s n)"

definition ns_update :: "nodes \<Rightarrow> u64 \<Rightarrow> (stored_node \<Rightarrow> stored_node) \<Rightarrow> nodes \<times> matter_node_data option" where
  "ns_update s n f =
     (case bt_get s n of
        None \<Rightarrow> (s, None)
      | Some node \<Rightarrow> (bt_update n f s, Some (sn_data (f node))))"

definition with_data :: "(matter_node_data \<Rightarrow> matter_node_data) \<Rightarrow> stored_node \<Rightarrow> stored_node" where
  "with_data g node = node\<lparr>sn_data := g (sn_data node)\<rparr>"

definition ns_set_available :: "nodes \<Rightarrow> u64 \<Rightarrow> bool \<Rightarrow> nodes \<times> (matter_node_data \<times> bool) option" where
  "ns_set_available s n avail =
     (case bt_get s n of
        None \<Rightarrow> (s, None)
      | Some node \<Rightarrow>
          (let d = (sn_data node)\<lparr>nd_available := avail\<rparr>
           in (bt_update n (with_data (\<lambda>_. d)) s, Some (d, nd_available (sn_data node) \<noteq> avail))))"

definition ns_set_ip_addresses :: "nodes \<Rightarrow> u64 \<Rightarrow> string list \<Rightarrow> nodes" where
  "ns_set_ip_addresses s n addrs = bt_update n (\<lambda>node. node\<lparr>sn_ip_addresses := addrs\<rparr>) s"

definition ns_ip_addresses :: "nodes \<Rightarrow> u64 \<Rightarrow> string list" where
  "ns_ip_addresses s n = unwrap_or (map_option sn_ip_addresses (bt_get s n)) []"

subsection \<open>Merging attribute values\<close>

datatype coverage = Complete | Partial

record interview_diff =
  df_node :: matter_node_data
  df_changed :: "(string \<times> json) list"
  df_removed :: "string list"
  df_endpoints_added :: "u16 list"
  df_endpoints_removed :: "u16 list"

text \<open>What changed between two attribute sets, in the map's key order.\<close>

definition changed_attrs :: "attributes_data \<Rightarrow> attributes_data \<Rightarrow> (string \<times> json) list" where
  "changed_attrs old new = filter (\<lambda>(path, value). bt_get old path \<noteq> Some value) new"

definition removed_attrs :: "attributes_data \<Rightarrow> attributes_data \<Rightarrow> string list" where
  "removed_attrs old new = filter (\<lambda>path. \<not> bt_contains new path) (bt_keys old)"

definition only_in :: "u16 list \<Rightarrow> u16 list \<Rightarrow> u16 list" where
  "only_in xs ys = filter (\<lambda>e. e \<notin> set ys) xs"

definition interviewed :: "attributes_data \<Rightarrow> string \<Rightarrow> matter_node_data \<Rightarrow> matter_node_data" where
  "interviewed attrs at_time d = d
     \<lparr>nd_attributes := attrs, nd_last_interview := at_time,
      nd_interview_version := nd_interview_version d + 1, nd_available := True,
      nd_is_bridge := detect_bridge attrs, nd_matter_version := detect_matter_version attrs\<rparr>"

definition ns_apply_interview ::
  "nodes \<Rightarrow> u64 \<Rightarrow> attributes_data \<Rightarrow> string \<Rightarrow> nodes \<times> interview_diff option" where
  "ns_apply_interview s n attrs at_time =
     (case bt_get s n of
        None \<Rightarrow> (s, None)
      | Some node \<Rightarrow>
          (let old = sn_data node;
               before = nd_endpoints old;
               d = interviewed attrs at_time old;
               after = nd_endpoints d
           in (bt_update n (with_data (\<lambda>_. d)) s,
               Some \<lparr>df_node = d,
                     df_changed = changed_attrs (nd_attributes old) attrs,
                     df_removed = removed_attrs (nd_attributes old) attrs,
                     df_endpoints_added = only_in after before,
                     df_endpoints_removed = only_in before after\<rparr>)))"

definition merged_attrs :: "coverage \<Rightarrow> attributes_data \<Rightarrow> attributes_data \<Rightarrow> attributes_data" where
  "merged_attrs cov old attrs =
     (case cov of Complete \<Rightarrow> attrs | Partial \<Rightarrow> bt_extend old attrs)"

definition merged :: "coverage \<Rightarrow> attributes_data \<Rightarrow> matter_node_data \<Rightarrow> matter_node_data" where
  "merged cov attrs d =
     (let new = merged_attrs cov (nd_attributes d) attrs
      in d\<lparr>nd_attributes := new, nd_is_bridge := detect_bridge new,
           nd_matter_version := detect_matter_version new\<rparr>)"

definition ns_merge_attributes ::
  "nodes \<Rightarrow> u64 \<Rightarrow> attributes_data \<Rightarrow> coverage \<Rightarrow> nodes \<times> interview_diff option" where
  "ns_merge_attributes s n attrs cov =
     (case bt_get s n of
        None \<Rightarrow> (s, None)
      | Some node \<Rightarrow>
          (let old = sn_data node;
               before = nd_endpoints old;
               d = merged cov attrs old;
               after = nd_endpoints d
           in (bt_update n (with_data (\<lambda>_. d)) s,
               Some \<lparr>df_node = d,
                     df_changed = changed_attrs (nd_attributes old) attrs,
                     df_removed = (case cov of Complete \<Rightarrow> removed_attrs (nd_attributes old) attrs
                                             | Partial \<Rightarrow> []),
                     df_endpoints_added = only_in after before,
                     df_endpoints_removed = only_in before after\<rparr>)))"

definition ns_set_attribute :: "nodes \<Rightarrow> u64 \<Rightarrow> string \<Rightarrow> json \<Rightarrow> nodes \<times> matter_node_data option" where
  "ns_set_attribute s n path value =
     (case bt_get s n of
        None \<Rightarrow> (s, None)
      | Some node \<Rightarrow>
          (if bt_get (nd_attributes (sn_data node)) path = Some value then (s, None)
           else (let d = (sn_data node)\<lparr>nd_attributes := bt_insert path value (nd_attributes (sn_data node))\<rparr>
                 in (bt_update n (with_data (\<lambda>_. d)) s, Some d))))"

subsection \<open>The table invariant and frame laws\<close>

text \<open>Every node is filed under its own id, and its attributes are a proper map.\<close>

definition node_ok :: "u64 \<Rightarrow> stored_node \<Rightarrow> bool" where
  "node_ok n node = (nd_node_id (sn_data node) = n \<and> bt_ok (nd_attributes (sn_data node)))"

definition nodes_ok :: "nodes \<Rightarrow> bool" where
  "nodes_ok s = (bt_ok s \<and> (\<forall>(n, node) \<in> set s. node_ok n node))"

lemma nodes_ok_get: "nodes_ok s \<Longrightarrow> bt_get s n = Some node \<Longrightarrow> node_ok n node"
  by (auto simp: nodes_ok_def dest: bt_get_in)

lemma nodes_okI: "bt_ok s \<Longrightarrow> (\<And>n node. bt_get s n = Some node \<Longrightarrow> node_ok n node) \<Longrightarrow> nodes_ok s"
  by (auto simp: nodes_ok_def bt_get_iff)

lemma nodes_ok_update:
  assumes "nodes_ok s" and "\<And>node. bt_get s n = Some node \<Longrightarrow> node_ok n (f node)"
  shows "nodes_ok (bt_update n f s)"
proof (rule nodes_okI)
  show "bt_ok (bt_update n f s)" using assms(1) by (simp add: nodes_ok_def)
next
  fix k node
  assume "bt_get (bt_update n f s) k = Some node"
  then show "node_ok k node"
    using assms nodes_ok_get [OF assms(1)] by (auto simp: bt_get_update split: if_splits)
qed

lemma with_data_ok [simp]: "node_ok n (with_data (\<lambda>_. d) node) \<longleftrightarrow> nd_node_id d = n \<and> bt_ok (nd_attributes d)"
  by (simp add: node_ok_def with_data_def)

lemma sn_data_with_data [simp]: "sn_data (with_data g node) = g (sn_data node)"
  by (simp add: with_data_def)

lemma interviewed_simps [simp]:
  "nd_node_id (interviewed attrs t d) = nd_node_id d"
  "nd_attributes (interviewed attrs t d) = attrs"
  by (simp_all add: interviewed_def)

lemma merged_simps [simp]:
  "nd_node_id (merged cov attrs d) = nd_node_id d"
  "nd_attributes (merged cov attrs d) = merged_attrs cov (nd_attributes d) attrs"
  "nd_available (merged cov attrs d) = nd_available d"
  "nd_last_interview (merged cov attrs d) = nd_last_interview d"
  "nd_interview_version (merged cov attrs d) = nd_interview_version d"
  by (simp_all add: merged_def Let_def)

lemma merged_attrs_ok: "bt_ok old \<Longrightarrow> bt_ok attrs \<Longrightarrow> bt_ok (merged_attrs cov old attrs)"
  by (simp add: merged_attrs_def split: coverage.split)

lemma upsert_ok: "nodes_ok s \<Longrightarrow> bt_ok (nd_attributes (sn_data node)) \<Longrightarrow> nodes_ok (ns_upsert s node)"
  by (rule nodes_okI)
     (auto simp: ns_upsert_def nodes_ok_def bt_ok_insert bt_get_insert node_ok_def bt_get_iff split: if_splits)

lemma remove_ok: "nodes_ok s \<Longrightarrow> nodes_ok (fst (ns_remove s n))"
  by (rule nodes_okI) (auto simp: ns_remove_def nodes_ok_def bt_ok_remove bt_get_remove bt_get_iff split: if_splits)

lemma set_available_ok: "nodes_ok s \<Longrightarrow> nodes_ok (fst (ns_set_available s n b))"
  by (auto simp: ns_set_available_def Let_def split: option.split
      intro!: nodes_ok_update dest: nodes_ok_get simp: node_ok_def)

lemma set_ip_ok: "nodes_ok s \<Longrightarrow> nodes_ok (ns_set_ip_addresses s n addrs)"
  by (auto simp: ns_set_ip_addresses_def intro!: nodes_ok_update dest: nodes_ok_get simp: node_ok_def)

lemma apply_interview_ok: "nodes_ok s \<Longrightarrow> bt_ok attrs \<Longrightarrow> nodes_ok (fst (ns_apply_interview s n attrs t))"
  by (auto simp: ns_apply_interview_def Let_def split: option.split
      intro!: nodes_ok_update dest: nodes_ok_get simp: node_ok_def)

lemma merge_ok: "nodes_ok s \<Longrightarrow> bt_ok attrs \<Longrightarrow> nodes_ok (fst (ns_merge_attributes s n attrs cov))"
  by (auto simp: ns_merge_attributes_def Let_def split: option.split
      intro!: nodes_ok_update merged_attrs_ok dest: nodes_ok_get simp: node_ok_def)

lemma set_attribute_ok: "nodes_ok s \<Longrightarrow> nodes_ok (fst (ns_set_attribute s n path v))"
  by (auto simp: ns_set_attribute_def Let_def split: option.split
      intro!: nodes_ok_update bt_ok_insert dest: nodes_ok_get simp: node_ok_def)

lemma ns_get_update: "ns_get (bt_update n (with_data (\<lambda>_. d)) s) k =
    (if k = n then map_option (\<lambda>_. d) (ns_get s n) else ns_get s k)"
  by (auto simp: ns_get_def bt_get_update option.map_comp comp_def)

subsection \<open>Differences of attribute sets\<close>

lemma changed_attrs_ok: "bt_ok new \<Longrightarrow> bt_ok (changed_attrs old new)"
  by (simp add: changed_attrs_def bt_ok_filter)

lemma get_changed:
  "bt_ok new \<Longrightarrow> bt_get (changed_attrs old new) p = opt_filter (\<lambda>v. bt_get old p \<noteq> Some v) (bt_get new p)"
  by (simp add: changed_attrs_def bt_get_filter)

lemma set_removed: "set (removed_attrs old new) = {p. bt_get old p \<noteq> None \<and> bt_get new p = None}"
  by (auto simp: removed_attrs_def set_bt_keys bt_contains_def)

lemma replay_diff:
  assumes "bt_ok old" and "bt_ok new"
  shows "bt_extend (bt_retain (\<lambda>p _. p \<notin> set (removed_attrs old new)) old) (changed_attrs old new) = new"
proof (rule bt_equal)
  show "bt_ok (bt_extend (bt_retain (\<lambda>p _. p \<notin> set (removed_attrs old new)) old) (changed_attrs old new))"
    using assms by (simp add: bt_ok_retain)
  show "bt_get (bt_extend (bt_retain (\<lambda>p _. p \<notin> set (removed_attrs old new)) old) (changed_attrs old new)) = bt_get new"
    using assms
    by (intro ext)
       (auto simp: bt_get_extend_ok bt_ok_retain changed_attrs_ok map_add_def get_changed
          bt_get_retain set_removed opt_filter_def split: option.splits)
qed (rule assms)

lemma changed_attrs_self: "bt_ok new \<Longrightarrow> changed_attrs new new = []"
  by (auto simp: changed_attrs_def bt_get_iff filter_empty_conv)

lemma removed_attrs_self: "removed_attrs new new = []"
  by (auto simp: removed_attrs_def filter_empty_conv bt_contains_iff)

lemma only_in_self [simp]: "only_in xs xs = []"
  by (simp add: only_in_def filter_empty_conv)

lemma set_only_in [simp]: "set (only_in xs ys) = set xs - set ys"
  by (auto simp: only_in_def)

lemma endpoints_mono:
  "(\<And>p. bt_get old p \<noteq> None \<Longrightarrow> bt_get new p \<noteq> None) \<Longrightarrow> set (endpoints_of old) \<subseteq> set (endpoints_of new)"
  unfolding set_endpoints by blast

lemma extend_keeps: "bt_ok old \<Longrightarrow> bt_ok new \<Longrightarrow> bt_get old p \<noteq> None \<Longrightarrow> bt_get (bt_extend old new) p \<noteq> None"
  by (auto simp: bt_get_extend_ok map_add_def split: option.splits)

lemma only_in_subset: "set xs \<subseteq> set ys \<Longrightarrow> only_in xs ys = []"
  by (auto simp: only_in_def filter_empty_conv)

subsection \<open>Properties\<close>



text \<open>An operation on one node leaves every other node exactly as it was.\<close>

theorem node_store_frame:
  assumes "bt_ok s" and "k \<noteq> n"
  shows "ns_get_stored (fst (ns_remove s n)) k = ns_get_stored s k
    \<and> ns_get_stored (fst (ns_set_available s n b)) k = ns_get_stored s k
    \<and> ns_get_stored (ns_set_ip_addresses s n addrs) k = ns_get_stored s k
    \<and> ns_get_stored (fst (ns_apply_interview s n attrs t)) k = ns_get_stored s k
    \<and> ns_get_stored (fst (ns_merge_attributes s n attrs cov)) k = ns_get_stored s k
    \<and> ns_get_stored (fst (ns_set_attribute s n path v)) k = ns_get_stored s k
    \<and> (nd_node_id (sn_data node) = n \<longrightarrow> ns_get_stored (ns_upsert s node) k = ns_get_stored s k)"
  using assms bt.get_put_other [OF assms] bt.get_del_other [OF assms]
  by (auto simp: ns_get_stored_def ns_remove_def ns_set_available_def ns_set_ip_addresses_def
      ns_apply_interview_def ns_merge_attributes_def ns_set_attribute_def ns_upsert_def
      bt_get_update Let_def split: option.split)

theorem node_store_frame_witness:
  "ns_get_stored (fst (ns_remove [(3, stored_new (node_new 3 ''t''))] 4)) 3 = Some (stored_new (node_new 3 ''t''))"
proof -
  have a: "bt_ok [(3::u64, stored_new (node_new 3 ''t''))]" and b: "(3::u64) \<noteq> 4"
    by (simp_all add: bt_ok_def)
  show ?thesis using node_store_frame [OF a b] by (simp add: ns_get_stored_def bt_get_def)
qed

text \<open>C6: the difference an interview reports is exact: dropping the reported removals from
  the old attributes and applying the reported changes gives the new ones, and the node it
  returns is the stored one, re-interviewed: one version later, available, with the new values.\<close>

theorem interview_diff_exact:
  assumes "nodes_ok s" and "bt_ok attrs" and "bt_get s n = Some node"
    and "ns_apply_interview s n attrs t = (s', Some d)"
  shows "bt_extend (bt_retain (\<lambda>p _. p \<notin> set (df_removed d)) (nd_attributes (sn_data node))) (df_changed d)
           = nd_attributes (df_node d)
    \<and> ns_get s' n = Some (df_node d)
    \<and> nd_attributes (df_node d) = attrs
    \<and> nd_interview_version (df_node d) = nd_interview_version (sn_data node) + 1
    \<and> nd_available (df_node d) \<and> nd_last_interview (df_node d) = t
    \<and> set (df_endpoints_added d) = set (endpoints_of attrs) - set (endpoints_of (nd_attributes (sn_data node)))
    \<and> set (df_endpoints_removed d) = set (endpoints_of (nd_attributes (sn_data node))) - set (endpoints_of attrs)"
proof -
  have old: "bt_ok (nd_attributes (sn_data node))"
    using nodes_ok_get [OF assms(1,3)] by (simp add: node_ok_def)
  from assms(3,4) have s': "s' = bt_update n (with_data (\<lambda>_. interviewed attrs t (sn_data node))) s"
    and d: "df_node d = interviewed attrs t (sn_data node)"
      "df_changed d = changed_attrs (nd_attributes (sn_data node)) attrs"
      "df_removed d = removed_attrs (nd_attributes (sn_data node)) attrs"
      "df_endpoints_added d = only_in (endpoints_of attrs) (endpoints_of (nd_attributes (sn_data node)))"
      "df_endpoints_removed d = only_in (endpoints_of (nd_attributes (sn_data node))) (endpoints_of attrs)"
    by (auto simp: ns_apply_interview_def Let_def nd_endpoints_def)
  have "ns_get s' n = Some (df_node d)"
    using assms(3) by (simp add: s' ns_get_update d(1)) (simp add: ns_get_def)
  then show ?thesis
    using replay_diff [OF old assms(2)] by (simp add: d) (simp add: interviewed_def)
qed

theorem interview_diff_exact_witness:
  "\<exists>s' d. ns_apply_interview [(3, stored_new (node_new 3 ''a''))] 3 [(''1/6/0'', JBool True)] ''b'' = (s', Some d)
     \<and> nd_interview_version (df_node d) = 1 \<and> nd_attributes (df_node d) = [(''1/6/0'', JBool True)]"
proof -
  let ?s = "[(3::u64, stored_new (node_new 3 ''a''))]" and ?a = "[(''1/6/0'', JBool True)]"
  have a: "nodes_ok ?s" and b: "bt_ok ?a" and c: "bt_get ?s 3 = Some (stored_new (node_new 3 ''a''))"
    by (simp_all add: nodes_ok_def node_ok_def bt_ok_def stored_new_def node_new_def bt_get_def)
  obtain s' d where r: "ns_apply_interview ?s 3 ?a ''b'' = (s', Some d)"
    by (simp add: ns_apply_interview_def c Let_def)
  show ?thesis
    using interview_diff_exact [OF a b c r] r by (auto simp: stored_new_def node_new_def)
qed

text \<open>Applying a report (partial coverage) removes nothing: no attribute path disappears, no
  endpoint is reported removed, a path the report carries takes its value and every other path
  keeps the one it had; the interview version and date and the availability are untouched.\<close>

theorem partial_report_removes_nothing:
  assumes "nodes_ok s" and "bt_ok attrs" and "bt_get s n = Some node"
    and "ns_merge_attributes s n attrs Partial = (s', Some d)"
  shows "df_removed d = [] \<and> df_endpoints_removed d = []
    \<and> (\<forall>p. bt_get (nd_attributes (df_node d)) p
           = (case bt_get attrs p of Some v \<Rightarrow> Some v | None \<Rightarrow> bt_get (nd_attributes (sn_data node)) p))
    \<and> ns_get s' n = Some (df_node d)
    \<and> nd_interview_version (df_node d) = nd_interview_version (sn_data node)
    \<and> nd_last_interview (df_node d) = nd_last_interview (sn_data node)
    \<and> nd_available (df_node d) = nd_available (sn_data node)"
proof -
  have old: "bt_ok (nd_attributes (sn_data node))"
    using nodes_ok_get [OF assms(1,3)] by (simp add: node_ok_def)
  from assms(3,4) have s': "s' = bt_update n (with_data (\<lambda>_. merged Partial attrs (sn_data node))) s"
    and d: "df_node d = merged Partial attrs (sn_data node)" "df_removed d = []"
      "df_endpoints_removed d = only_in (endpoints_of (nd_attributes (sn_data node)))
          (endpoints_of (bt_extend (nd_attributes (sn_data node)) attrs))"
    by (auto simp: ns_merge_attributes_def Let_def nd_endpoints_def merged_attrs_def)
  have "df_endpoints_removed d = []"
    unfolding d(3) by (rule only_in_subset [OF endpoints_mono]) (rule extend_keeps [OF old assms(2)])
  moreover have "ns_get s' n = Some (df_node d)"
    using assms(3) by (simp add: s' ns_get_update d(1)) (simp add: ns_get_def)
  ultimately show ?thesis
    by (simp add: d merged_attrs_def bt_get_extend_ok [OF old assms(2)] map_add_def)
qed

theorem partial_report_removes_nothing_witness:
  "\<exists>s' d. ns_merge_attributes
     [(3, stored_new ((node_new 3 ''a'')\<lparr>nd_attributes := [(''0/40/1'', JStr ''v'')]\<rparr>))] 3
     [(''1/6/0'', JBool True)] Partial = (s', Some d)
     \<and> df_endpoints_removed d = [] \<and> bt_get (nd_attributes (df_node d)) ''0/40/1'' = Some (JStr ''v'')"
proof -
  let ?n = "stored_new ((node_new 3 ''a'')\<lparr>nd_attributes := [(''0/40/1'', JStr ''v'')]\<rparr>)"
  let ?s = "[(3::u64, ?n)]" and ?a = "[(''1/6/0'', JBool True)]"
  have a: "nodes_ok ?s" and b: "bt_ok ?a" and c: "bt_get ?s 3 = Some ?n"
    by (simp_all add: nodes_ok_def node_ok_def bt_ok_def stored_new_def node_new_def bt_get_def)
  obtain s' d where r: "ns_merge_attributes ?s 3 ?a Partial = (s', Some d)"
    by (simp add: ns_merge_attributes_def c Let_def)
  show ?thesis
    using partial_report_removes_nothing [OF a b c r] r
    by (auto simp: stored_new_def node_new_def bt_get_def)
qed

text \<open>A complete read that brings nothing new reports nothing: merging the same values a
  second time changes neither the store nor anything a client is told.\<close>

theorem poll_idempotent:
  assumes "nodes_ok s" and "bt_ok attrs" and "ns_merge_attributes s n attrs Complete = (s1, Some d1)"
  shows "\<exists>d2. ns_merge_attributes s1 n attrs Complete = (s1, Some d2)
    \<and> df_node d2 = df_node d1 \<and> df_changed d2 = [] \<and> df_removed d2 = []
    \<and> df_endpoints_added d2 = [] \<and> df_endpoints_removed d2 = []"
proof -
  from assms(3) obtain node where node: "bt_get s n = Some node"
    by (auto simp: ns_merge_attributes_def split: option.splits)
  let ?d = "merged Complete attrs (sn_data node)"
  have s1: "s1 = bt_update n (with_data (\<lambda>_. ?d)) s" and d1: "df_node d1 = ?d"
    using assms(3) by (auto simp: ns_merge_attributes_def node Let_def)
  have g: "bt_get s1 n = Some (with_data (\<lambda>_. ?d) node)"
    by (simp add: s1 bt_get_update node)
  have again: "merged Complete attrs ?d = ?d"
    by (simp add: merged_def merged_attrs_def)
  have same: "bt_update n (with_data (\<lambda>_. ?d)) s1 = s1"
    by (simp add: s1 bt_update_def with_data_def comp_def split_def)
  show ?thesis
    using assms(2)
    by (simp add: ns_merge_attributes_def g Let_def again same d1 nd_endpoints_def merged_attrs_def
        changed_attrs_self removed_attrs_self)
qed

theorem poll_idempotent_witness:
  "\<exists>s1 d1 d2. ns_merge_attributes [(3, stored_new (node_new 3 ''a''))] 3 [(''1/6/0'', JBool True)] Complete = (s1, Some d1)
     \<and> ns_merge_attributes s1 3 [(''1/6/0'', JBool True)] Complete = (s1, Some d2) \<and> df_changed d2 = []"
proof -
  let ?s = "[(3::u64, stored_new (node_new 3 ''a''))]" and ?a = "[(''1/6/0'', JBool True)]"
  have a: "nodes_ok ?s" and b: "bt_ok ?a"
    by (simp_all add: nodes_ok_def node_ok_def bt_ok_def stored_new_def node_new_def)
  obtain s' d where r: "ns_merge_attributes ?s 3 ?a Complete = (s', Some d)"
    by (simp add: ns_merge_attributes_def bt_get_def Let_def)
  show ?thesis using poll_idempotent [OF a b r] r by blast
qed

end
