(* ===== verification/Node_Persist.thy ===== *)
theory Node_Persist
  imports Node_Store
begin

section \<open>Persisting the node store (\<open>storage/nodes.rs\<close>)\<close>

text \<open>
  How the table reaches the disk: handlers change it in memory and then ask for a write
  (\<open>save_soon\<close>, folded by the writer thread, or \<open>save\<close> at once), the writer thread sleeps and
  saves, \<open>Drop\<close> flushes. One step of \<open>persist_step\<close> is one critical section or one file
  write (atomic by \<open>Private_Write\<close>): a save clears the dirty flag, then copies the table under
  its own lock, then replaces the file or fails. \<open>owing\<close> counts handlers between their
  change and their request. The write interval only delays steps, so time is not in the state.
\<close>

definition snapshot_of :: "nodes \<Rightarrow> stored_node list" where
  "snapshot_of s = bt_values s"

definition load_nodes :: "stored_node list option \<Rightarrow> nodes" where
  "load_nodes disk =
     (case disk of None \<Rightarrow> [] | Some ns \<Rightarrow> bt_collect (map (\<lambda>n. (nd_node_id (sn_data n), n)) ns))"

lemma load_snapshot: "nodes_ok s \<Longrightarrow> load_nodes (Some (snapshot_of s)) = s"
proof -
  assume ok: "nodes_ok s"
  have keys: "map (\<lambda>n. (nd_node_id (sn_data n), n)) (bt_values s) = s"
    using ok unfolding nodes_ok_def bt_values_def node_ok_def
    by (induction s) (auto simp: bt_ok_Cons)
  have "bt_ok s" using ok by (simp add: nodes_ok_def)
  have "bt_get (bt_collect s) = bt_get s"
    using bt_get_extend_ok [OF bt_ok_Nil \<open>bt_ok s\<close>] by (simp add: bt_collect_def bt_get_def fun_eq_iff map_add_def split: option.split)
  then show ?thesis
    using bt_equal [OF bt_ok_collect \<open>bt_ok s\<close>] by (simp add: load_nodes_def snapshot_of_def keys)
qed

datatype phase = Cleared | Copied nodes

datatype worker = Absent | Waiting | Sleeping | Working

record persist_state =
  ps_nodes :: nodes
  ps_disk :: nodes
  ps_dirty :: bool
  ps_running :: bool
  ps_worker :: worker
  ps_owing :: nat
  ps_worker_save :: "phase option"
  ps_saves :: "phase list"
  ps_dropped :: bool

datatype action =
    Change nodes | SaveSoon | SaveNow | WorkerSees | WorkerIdle | WorkerSaves
  | WorkerCopies | WorkerWrites bool | HandlerCopies nat | HandlerWrites nat bool | Dropped bool

definition remove_at :: "nat \<Rightarrow> 'a list \<Rightarrow> 'a list" where
  "remove_at i xs = take i xs @ drop (Suc i) xs"

inductive persist_step :: "action \<Rightarrow> persist_state \<Rightarrow> persist_state \<Rightarrow> bool" where
  change: "\<not> ps_dropped s \<Longrightarrow> persist_step (Change n) s (s\<lparr>ps_nodes := n, ps_owing := Suc (ps_owing s)\<rparr>)"
| save_soon: "\<not> ps_dropped s \<Longrightarrow> ps_owing s = Suc k
    \<Longrightarrow> persist_step SaveSoon s (s\<lparr>ps_owing := k, ps_dirty := True, ps_running := True,
          ps_worker := (if ps_running s then ps_worker s else Waiting)\<rparr>)"
| save_now: "\<not> ps_dropped s \<Longrightarrow> ps_owing s = Suc k
    \<Longrightarrow> persist_step SaveNow s (s\<lparr>ps_owing := k, ps_dirty := False, ps_saves := ps_saves s @ [Cleared]\<rparr>)"
| worker_sees: "ps_worker s = Waiting \<Longrightarrow> ps_dirty s
    \<Longrightarrow> persist_step WorkerSees s (s\<lparr>ps_worker := Sleeping\<rparr>)"
| worker_idle: "ps_worker s = Waiting \<Longrightarrow> \<not> ps_dirty s
    \<Longrightarrow> persist_step WorkerIdle s (s\<lparr>ps_worker := Absent, ps_running := False\<rparr>)"
| worker_saves: "ps_worker s = Sleeping \<Longrightarrow> \<not> ps_dropped s
    \<Longrightarrow> persist_step WorkerSaves s (s\<lparr>ps_worker := Working, ps_dirty := False, ps_worker_save := Some Cleared\<rparr>)"
| worker_copies: "ps_worker_save s = Some Cleared
    \<Longrightarrow> persist_step WorkerCopies s (s\<lparr>ps_worker_save := Some (Copied (ps_nodes s))\<rparr>)"
| worker_writes: "ps_worker_save s = Some (Copied n)
    \<Longrightarrow> persist_step (WorkerWrites ok) s (s\<lparr>ps_worker_save := None, ps_worker := Waiting,
          ps_disk := (if ok then n else ps_disk s)\<rparr>)"
| handler_copies: "i < length (ps_saves s) \<Longrightarrow> ps_saves s ! i = Cleared
    \<Longrightarrow> persist_step (HandlerCopies i) s (s\<lparr>ps_saves := (ps_saves s)[i := Copied (ps_nodes s)]\<rparr>)"
| handler_writes: "i < length (ps_saves s) \<Longrightarrow> ps_saves s ! i = Copied n
    \<Longrightarrow> persist_step (HandlerWrites i ok) s (s\<lparr>ps_saves := remove_at i (ps_saves s),
          ps_disk := (if ok then n else ps_disk s)\<rparr>)"
| dropped: "\<not> ps_dropped s \<Longrightarrow> ps_owing s = 0 \<Longrightarrow> ps_saves s = [] \<Longrightarrow> ps_worker_save s = None
    \<Longrightarrow> persist_step (Dropped ok) s (s\<lparr>ps_dropped := True, ps_dirty := False,
          ps_disk := (if ps_dirty s \<and> ok then ps_nodes s else ps_disk s)\<rparr>)"

inductive_cases persist_stepE: "persist_step a s s'"

definition persist_start :: "nodes \<Rightarrow> persist_state" where
  "persist_start n = \<lparr>ps_nodes = n, ps_disk = n, ps_dirty = False, ps_running = False, ps_worker = Absent,
     ps_owing = 0, ps_worker_save = None, ps_saves = [], ps_dropped = False\<rparr>"

text \<open>The saves under way, whoever runs them, and the states reached by steps a guard allows.\<close>

definition saves :: "persist_state \<Rightarrow> phase list" where
  "saves s = (case ps_worker_save s of None \<Rightarrow> [] | Some p \<Rightarrow> [p]) @ ps_saves s"

inductive persist_run :: "(action \<Rightarrow> persist_state \<Rightarrow> bool) \<Rightarrow> nodes \<Rightarrow> persist_state \<Rightarrow> bool"
  for guard :: "action \<Rightarrow> persist_state \<Rightarrow> bool" and n :: nodes where
  run_start: "persist_run guard n (persist_start n)"
| run_step: "persist_run guard n s \<Longrightarrow> guard a s \<Longrightarrow> persist_step a s s' \<Longrightarrow> persist_run guard n s'"

definition any_step :: "action \<Rightarrow> persist_state \<Rightarrow> bool" where
  "any_step a s = True"

text \<open>No write fails and no save begins while another one runs.\<close>

definition undisturbed :: "action \<Rightarrow> persist_state \<Rightarrow> bool" where
  "undisturbed a s =
     (case a of
        WorkerWrites ok \<Rightarrow> ok | HandlerWrites i ok \<Rightarrow> ok | Dropped ok \<Rightarrow> ok
      | SaveNow \<Rightarrow> saves s = [] | WorkerSaves \<Rightarrow> saves s = []
      | _ \<Rightarrow> True)"

text \<open>The successor an action has, if it is enabled, to evaluate concrete runs.\<close>

fun perform :: "action \<Rightarrow> persist_state \<Rightarrow> persist_state option" where
  "perform (Change n) s = (if ps_dropped s then None else Some (s\<lparr>ps_nodes := n, ps_owing := Suc (ps_owing s)\<rparr>))"
| "perform SaveSoon s = (if ps_dropped s \<or> ps_owing s = 0 then None
     else Some (s\<lparr>ps_owing := ps_owing s - 1, ps_dirty := True, ps_running := True,
          ps_worker := (if ps_running s then ps_worker s else Waiting)\<rparr>))"
| "perform SaveNow s = (if ps_dropped s \<or> ps_owing s = 0 then None
     else Some (s\<lparr>ps_owing := ps_owing s - 1, ps_dirty := False, ps_saves := ps_saves s @ [Cleared]\<rparr>))"
| "perform WorkerSees s = (if ps_worker s = Waiting \<and> ps_dirty s then Some (s\<lparr>ps_worker := Sleeping\<rparr>) else None)"
| "perform WorkerIdle s = (if ps_worker s = Waiting \<and> \<not> ps_dirty s
     then Some (s\<lparr>ps_worker := Absent, ps_running := False\<rparr>) else None)"
| "perform WorkerSaves s = (if ps_worker s = Sleeping \<and> \<not> ps_dropped s
     then Some (s\<lparr>ps_worker := Working, ps_dirty := False, ps_worker_save := Some Cleared\<rparr>) else None)"
| "perform WorkerCopies s = (if ps_worker_save s = Some Cleared
     then Some (s\<lparr>ps_worker_save := Some (Copied (ps_nodes s))\<rparr>) else None)"
| "perform (WorkerWrites ok) s = (case ps_worker_save s of
       Some (Copied n) \<Rightarrow> Some (s\<lparr>ps_worker_save := None, ps_worker := Waiting,
          ps_disk := (if ok then n else ps_disk s)\<rparr>) | _ \<Rightarrow> None)"
| "perform (HandlerCopies i) s = (if i < length (ps_saves s) \<and> ps_saves s ! i = Cleared
     then Some (s\<lparr>ps_saves := (ps_saves s)[i := Copied (ps_nodes s)]\<rparr>) else None)"
| "perform (HandlerWrites i ok) s = (if i < length (ps_saves s)
     then (case ps_saves s ! i of Copied n \<Rightarrow> Some (s\<lparr>ps_saves := remove_at i (ps_saves s),
          ps_disk := (if ok then n else ps_disk s)\<rparr>) | Cleared \<Rightarrow> None) else None)"
| "perform (Dropped ok) s = (if \<not> ps_dropped s \<and> ps_owing s = 0 \<and> ps_saves s = [] \<and> ps_worker_save s = None
     then Some (s\<lparr>ps_dropped := True, ps_dirty := False,
          ps_disk := (if ps_dirty s \<and> ok then ps_nodes s else ps_disk s)\<rparr>) else None)"

lemma perform_step: "perform a s = Some s' \<Longrightarrow> persist_step a s s'"
  by (cases a) (auto simp: persist_step.simps gr0_conv_Suc split: if_splits option.splits phase.splits)

fun perform_all :: "(action \<Rightarrow> persist_state \<Rightarrow> bool) \<Rightarrow> action list \<Rightarrow> persist_state \<Rightarrow> persist_state option" where
  "perform_all guard [] s = Some s"
| "perform_all guard (a # acts) s =
     (if guard a s then (case perform a s of None \<Rightarrow> None | Some s' \<Rightarrow> perform_all guard acts s') else None)"

lemma perform_run:
  "perform_all guard acts s = Some s' \<Longrightarrow> persist_run guard n s \<Longrightarrow> persist_run guard n s'"
  by (induction acts arbitrary: s) (auto split: if_splits option.splits intro: run_step perform_step)

subsection \<open>The writer thread is there when it is needed\<close>

definition worker_inv :: "persist_state \<Rightarrow> bool" where
  "worker_inv s = ((ps_running s \<longleftrightarrow> ps_worker s \<noteq> Absent)
     \<and> (ps_dirty s \<longrightarrow> ps_running s)
     \<and> (ps_worker_save s \<noteq> None \<longleftrightarrow> ps_worker s = Working))"

lemma worker_inv_step: "persist_step a s s' \<Longrightarrow> worker_inv s \<Longrightarrow> worker_inv s'"
  by (erule persist_stepE) (auto simp: worker_inv_def)

lemma worker_inv_run: "persist_run guard n s \<Longrightarrow> worker_inv s"
  by (induction rule: persist_run.induct)
     (auto simp: worker_inv_def persist_start_def dest: worker_inv_step)

subsection \<open>Nothing is lost\<close>

text \<open>Something still stands between the table and the file: a request to come, the flag, or a
  save that has not copied the table yet.\<close>

definition pending :: "persist_state \<Rightarrow> bool" where
  "pending s = (ps_owing s > 0 \<or> ps_dirty s \<or> Cleared \<in> set (saves s))"

definition persist_inv :: "persist_state \<Rightarrow> bool" where
  "persist_inv s = (length (saves s) \<le> 1
     \<and> (\<not> pending s \<longrightarrow> (case saves s of [] \<Rightarrow> ps_disk s = ps_nodes s | p # _ \<Rightarrow> p = Copied (ps_nodes s))))"

lemma length_one_cases: "length xs \<le> 1 \<Longrightarrow> xs = [] \<or> (\<exists>x. xs = [x])"
  by (cases xs) auto

lemma persist_inv_step:
  assumes "persist_step a s s'" and "undisturbed a s" and "persist_inv s"
  shows "persist_inv s'"
  using assms
  by (cases rule: persist_step.cases)
     (auto simp: persist_inv_def pending_def saves_def undisturbed_def remove_at_def
        split: option.splits list.splits dest!: length_one_cases)

lemma persist_inv_run: "persist_run undisturbed n s \<Longrightarrow> persist_inv s"
proof (induction rule: persist_run.induct)
  case run_start
  show ?case by (simp add: persist_inv_def persist_start_def saves_def)
next
  case (run_step s a s')
  show ?case by (rule persist_inv_step [OF run_step(3) run_step(2) run_step(4)])
qed

definition quiescent :: "persist_state \<Rightarrow> bool" where
  "quiescent s = (ps_owing s = 0 \<and> \<not> ps_dirty s \<and> saves s = [])"

lemma dropped_step:
  "persist_step a s s' \<Longrightarrow> (ps_dropped s \<longrightarrow> quiescent s) \<Longrightarrow> (ps_dropped s' \<longrightarrow> quiescent s')"
  by (erule persist_stepE) (auto simp: quiescent_def saves_def)

lemma dropped_run: "persist_run guard n s \<Longrightarrow> ps_dropped s \<longrightarrow> quiescent s"
proof (induction rule: persist_run.induct)
  case run_start
  show ?case by (simp add: persist_start_def)
next
  case (run_step s a s')
  show ?case by (rule dropped_step [OF run_step(3) run_step(4)])
qed

subsection \<open>Properties\<close>


lemma perform_all_run: "perform_all guard acts (persist_start n) = Some s \<Longrightarrow> persist_run guard n s"
  by (rule perform_run [OF _ run_start])




text \<open>The two assumptions are needed, as the code stands: with a save of the writer thread
  overtaken by a handler's, or with one failed write, a run ends with nothing left to do and a
  file that is not the table.\<close>

theorem overlap_or_failure_loses:
  "(\<exists>s. persist_run (\<lambda>a _. case a of WorkerWrites ok \<Rightarrow> ok | HandlerWrites _ ok \<Rightarrow> ok | _ \<Rightarrow> True) [] s
        \<and> quiescent s \<and> ps_disk s \<noteq> ps_nodes s)
   \<and> (\<exists>s. persist_run (\<lambda>a s. case a of SaveNow \<Rightarrow> saves s = [] | WorkerSaves \<Rightarrow> saves s = [] | _ \<Rightarrow> True) [] s
        \<and> quiescent s \<and> ps_disk s \<noteq> ps_nodes s)"
proof
  let ?n = "[(7, stored_new (node_new 7 ''t''))]"
  let ?m = "?n @ [(8, stored_new (node_new 8 ''t''))]"
  let ?s = "\<lparr>ps_nodes = ?m, ps_disk = ?n, ps_dirty = False, ps_running = True, ps_worker = Waiting,
          ps_owing = 0, ps_worker_save = None, ps_saves = [], ps_dropped = False\<rparr>"
  let ?g = "\<lambda>a _. case a of WorkerWrites ok \<Rightarrow> ok | HandlerWrites _ ok \<Rightarrow> ok | _ \<Rightarrow> True"
  have "persist_run ?g [] ?s"
    by (rule perform_all_run [of _ "[Change ?n, SaveSoon, WorkerSees, WorkerSaves, WorkerCopies,
          Change ?m, SaveNow, HandlerCopies 0, HandlerWrites 0 True, WorkerWrites True]"])
       (simp add: persist_start_def remove_at_def)
  then show "\<exists>s. persist_run ?g [] s \<and> quiescent s \<and> ps_disk s \<noteq> ps_nodes s"
    by (intro exI [of _ ?s]) (simp add: quiescent_def saves_def)
  let ?h = "\<lambda>a s. case a of SaveNow \<Rightarrow> saves s = [] | WorkerSaves \<Rightarrow> saves s = [] | _ \<Rightarrow> True"
  let ?t = "(persist_start [])\<lparr>ps_nodes := ?n\<rparr>"
  have "persist_run ?h [] ?t"
    by (rule perform_all_run [of _ "[Change ?n, SaveNow, HandlerCopies 0, HandlerWrites 0 False]"])
       (simp add: persist_start_def remove_at_def saves_def)
  then show "\<exists>s. persist_run ?h [] s \<and> quiescent s \<and> ps_disk s \<noteq> ps_nodes s"
    by (intro exI [of _ ?t]) (simp add: quiescent_def saves_def persist_start_def)
qed

end
