(* ===== verification/Thread_Dataset.thy ===== *)
theory Thread_Dataset
  imports Rust_Num
begin

section \<open>Thread operational datasets (\<open>storage/thread_dataset.rs\<close>)\<close>

text \<open>
  A dataset arrives as hex text and is a flat sequence of MeshCoP TLVs: a type byte, a length
  byte (0xFF introduces a 16-bit length), the value. The decoder's cursor is represented by the
  bytes that remain after it. \<open>frame\<close> writes one TLV in either form of the length; the decoder
  accepts exactly the concatenations of such frames.
\<close>

definition tlv_ext_pan_id :: u8 where "tlv_ext_pan_id = 2"
definition tlv_network_name :: u8 where "tlv_network_name = 3"
definition tlv_pskc :: u8 where "tlv_pskc = 4"
definition tlv_network_key :: u8 where "tlv_network_key = 5"
definition extended_length_marker :: u8 where "extended_length_marker = 0xFF"

record operational_dataset =
  od_network_name :: "string option"
  od_ext_pan_id :: "string option"
  od_has_pskc :: bool
  od_has_network_key :: bool

definition od_default :: operational_dataset where
  "od_default = \<lparr>od_network_name = None, od_ext_pan_id = None, od_has_pskc = False, od_has_network_key = False\<rparr>"

definition supports_meshcop :: "operational_dataset \<Rightarrow> bool" where
  "supports_meshcop d = (od_has_pskc d \<and> od_has_network_key d)"

definition is_valid_hex :: "string \<Rightarrow> bool" where
  "is_valid_hex s = (s \<noteq> [] \<and> even (length s) \<and> list_all is_hexdigit s)"

definition from_hex :: "string \<Rightarrow> bytes option" where
  "from_hex s = (if is_valid_hex s then collect_opt parse_hex_byte (pairs s) else None)"

definition ext_pan_id_bytes :: "operational_dataset \<Rightarrow> bytes option" where
  "ext_pan_id_bytes d = opt_bind (od_ext_pan_id d) from_hex"

definition apply_tlv :: "u8 \<Rightarrow> bytes \<Rightarrow> operational_dataset \<Rightarrow> operational_dataset" where
  "apply_tlv t v d =
     (if t = tlv_network_name then d\<lparr>od_network_name := from_utf8 v\<rparr>
      else if t = tlv_ext_pan_id then d\<lparr>od_ext_pan_id := Some (to_hex_upper v)\<rparr>
      else if t = tlv_pskc then d\<lparr>od_has_pskc := \<not> list_all (\<lambda>b. b = 0) v\<rparr>
      else if t = tlv_network_key then d\<lparr>od_has_network_key := \<not> list_all (\<lambda>b. b = 0) v\<rparr>
      else d)"

text \<open>The type, the length and the bytes after the header, if a whole header is there.\<close>

fun tlv_header :: "bytes \<Rightarrow> (u8 \<times> nat \<times> bytes) option" where
  "tlv_header (t # l # rest) =
     (if l = extended_length_marker then
        (case rest of
           high # low # rest' \<Rightarrow> Some (t, unat high * 256 + unat low, rest')
         | _ \<Rightarrow> None)
      else Some (t, unat l, rest))"
| "tlv_header _ = None"

lemma tlv_header_shorter: "tlv_header bs = Some (t, n, rest) \<Longrightarrow> length rest < length bs"
  by (auto elim!: tlv_header.elims split: if_splits list.splits)

function decode_tlvs :: "bytes \<Rightarrow> operational_dataset \<Rightarrow> operational_dataset option" where
  "decode_tlvs bs d =
     (if bs = [] then Some d
      else (case tlv_header bs of
              None \<Rightarrow> None
            | Some (t, n, rest) \<Rightarrow>
                if n > length rest then None
                else decode_tlvs (drop n rest) (apply_tlv t (take n rest) d)))"
  by pat_completeness auto
termination
  by (relation "measure (length \<circ> fst)") (auto dest!: tlv_header_shorter)

declare decode_tlvs.simps [simp del]

definition decode :: "string \<Rightarrow> operational_dataset option" where
  "decode hex = opt_bind (from_hex hex) (\<lambda>bs. decode_tlvs bs od_default)"

subsection \<open>Hex text\<close>

lemma from_hex_to_hex [str_simps]: "bs \<noteq> [] \<Longrightarrow> from_hex (to_hex_upper bs) = Some bs"
  using to_hex_hexdigits [of bs] length_to_hex [of bs]
  by (auto simp: from_hex_def is_valid_hex_def collect_hex simp del: length_to_hex)

lemma from_hex_total: "is_valid_hex s \<Longrightarrow> \<exists>bs. from_hex s = Some bs"
proof -
  assume v: "is_valid_hex s"
  have byte: "\<exists>c. parse_hex_byte [x, y] = Some c" if x: "is_hexdigit x" and y: "is_hexdigit y" for x y
  proof -
    obtain a where a: "a < 16" "digit_val 16 x = Some a" using hexdigit_val [OF x] by blast
    obtain b where b: "b < 16" "digit_val 16 y = Some b" using hexdigit_val [OF y] by blast
    show ?thesis
      using a b hexdigit_not_plus [OF x] by (simp add: parse_hex_byte_def parse_uint_def)
  qed
  have "even (length s) \<Longrightarrow> list_all is_hexdigit s \<Longrightarrow> \<exists>bs. collect_opt parse_hex_byte (pairs s) = Some bs"
    by (induction s rule: pairs.induct) (use byte in fastforce)+
  with v show ?thesis by (simp add: from_hex_def is_valid_hex_def)
qed

subsection \<open>Frames\<close>

type_synonym tlv_frame = "bool \<times> u8 \<times> bytes"

fun frame :: "tlv_frame \<Rightarrow> bytes" where
  "frame (True, t, v) = t # extended_length_marker # of_nat (length v div 256) # of_nat (length v mod 256) # v"
| "frame (False, t, v) = t # of_nat (length v) # v"

fun frame_ok :: "tlv_frame \<Rightarrow> bool" where
  "frame_ok (True, t, v) = (length v < 0x10000)"
| "frame_ok (False, t, v) = (length v < 0xFF)"

lemma unat_of_nat8: "n < 256 \<Longrightarrow> unat (of_nat n :: u8) = n"
  using unat_of_nat_small [of n, where 'a = 8] by simp

lemma short_not_marker: "n < 0xFF \<Longrightarrow> (of_nat n :: u8) \<noteq> extended_length_marker"
proof
  assume n: "n < 0xFF" and "(of_nat n :: u8) = extended_length_marker"
  then have "unat (of_nat n :: u8) = 255" by (simp add: extended_length_marker_def)
  with n show False by (simp add: unat_of_nat8)
qed

lemma header_frame:
  assumes "frame_ok (e, t, v)"
  shows "tlv_header (frame (e, t, v) @ rest) = Some (t, length v, v @ rest)"
proof (cases e)
  case True
  then have "length v div 256 < 256" using assms by simp
  then show ?thesis using True by (simp add: unat_of_nat8)
next
  case False
  then show ?thesis using assms by (simp add: unat_of_nat8 short_not_marker)
qed

lemma frame_of_header:
  assumes "tlv_header bs = Some (t, n, rest)" and "n \<le> length rest"
  shows "\<exists>e. frame_ok (e, t, take n rest) \<and> bs = frame (e, t, take n rest) @ drop n rest"
proof -
  obtain l r where bs: "bs = t # l # r"
    using assms(1) by (auto elim!: tlv_header.elims split: if_splits list.splits)
  show ?thesis
  proof (cases "l = extended_length_marker")
    case True
    then obtain h lo where r: "r = h # lo # rest" and n: "n = unat h * 256 + unat lo"
      using assms(1) bs by (auto split: list.splits)
    have small: "unat h < 256" "unat lo < 256" by (rule unat_u8)+
    have h: "of_nat (n div 256) = h" and lo: "of_nat (n mod 256) = lo"
      using small by (simp_all add: n)
    have len: "length (take n rest) = n" using assms(2) by simp
    have "n < 0x10000" using small n by linarith
    then have "frame_ok (True, t, take n rest)" by (simp only: frame_ok.simps len)
    moreover have "bs = frame (True, t, take n rest) @ drop n rest"
      by (simp only: frame.simps len h lo) (simp add: bs r True)
    ultimately show ?thesis by blast
  next
    case False
    then have r: "r = rest" and n: "n = unat l" using assms(1) bs by auto
    have "unat l \<noteq> 255"
    proof
      assume "unat l = 255"
      then have "unat l = unat extended_length_marker" by (simp add: extended_length_marker_def)
      with False show False by (simp only: word_unat_eq_iff)
    qed
    then have "n < 255" using unat_u8 [of l] n by simp
    moreover have len: "length (take n rest) = n" using assms(2) by simp
    ultimately have "frame_ok (False, t, take n rest)" by (simp only: frame_ok.simps)
    moreover have "bs = frame (False, t, take n rest) @ drop n rest"
      by (simp only: frame.simps len) (simp add: bs r n)
    ultimately show ?thesis by blast
  qed
qed

definition apply_frame :: "tlv_frame \<Rightarrow> operational_dataset \<Rightarrow> operational_dataset" where
  "apply_frame f d = apply_tlv (fst (snd f)) (snd (snd f)) d"

lemma apply_frame_simp [simp]: "apply_frame (e, t, v) = apply_tlv t v"
  by (rule ext) (simp add: apply_frame_def)

lemma decode_frames:
  "list_all frame_ok fs \<Longrightarrow> decode_tlvs (concat (map frame fs)) d = Some (fold apply_frame fs d)"
proof (induction fs arbitrary: d)
  case Nil
  then show ?case by (simp add: decode_tlvs.simps)
next
  case (Cons f fs)
  obtain e t v where f: "f = (e, t, v)" by (cases f)
  have ok: "frame_ok (e, t, v)" and rest: "list_all frame_ok fs"
    using Cons.prems f by simp_all
  have ne: "frame (e, t, v) \<noteq> []" by (cases e) simp_all
  show ?case
    using Cons.IH [OF rest] ne
    by (subst decode_tlvs.simps) (simp add: f header_frame [OF ok])
qed

lemma decode_only_frames:
  "decode_tlvs bs d = Some d' \<Longrightarrow>
     \<exists>fs. list_all frame_ok fs \<and> bs = concat (map frame fs) \<and> d' = fold apply_frame fs d"
proof (induction bs d rule: decode_tlvs.induct)
  case (1 bs d)
  show ?case
  proof (cases "bs = []")
    case True
    then show ?thesis using 1(2) by (intro exI [of _ "[]"]) (simp add: decode_tlvs.simps)
  next
    case False
    then obtain t n rest where h: "tlv_header bs = Some (t, n, rest)" and n: "n \<le> length rest"
      and d: "decode_tlvs (drop n rest) (apply_tlv t (take n rest) d) = Some d'"
      using 1(2) by (subst (asm) decode_tlvs.simps) (auto split: option.splits if_splits)
    obtain e where e: "frame_ok (e, t, take n rest)" "bs = frame (e, t, take n rest) @ drop n rest"
      using frame_of_header [OF h n] by blast
    obtain fs where fs: "list_all frame_ok fs" "drop n rest = concat (map frame fs)"
        "d' = fold apply_frame fs (apply_tlv t (take n rest) d)"
      using 1(1) [OF False h refl refl] n d by auto
    show ?thesis
      using e fs by (intro exI [of _ "(e, t, take n rest) # fs"]) simp
  qed
qed

subsection \<open>Properties\<close>

text \<open>The decoder accepts exactly the hex text of a sequence of well-framed TLVs (a dangling
  type byte, a truncated length or a value running past the end are refused), and what it
  reports is the effect of the TLVs applied in order, so that a repeated TLV's last value counts.\<close>

theorem thread_decode_exact:
  "decode s = Some d \<longleftrightarrow>
     (\<exists>fs. list_all frame_ok fs \<and> from_hex s = Some (concat (map frame fs))
           \<and> d = fold apply_frame fs od_default)"
  by (auto simp: decode_def Option.bind_eq_Some_conv decode_frames dest!: decode_only_frames)

text \<open>Every text the wire check accepts decodes to bytes, one per two digits, and the bytes
  of the extended PAN id the summary shows are the dataset's own bytes.\<close>

theorem thread_hex_valid:
  "(is_valid_hex s \<longleftrightarrow> (\<exists>bs. from_hex s = Some bs))
   \<and> ext_pan_id_bytes (apply_tlv tlv_ext_pan_id (b # bs) d) = Some (b # bs)"
  using from_hex_total [of s]
  by (auto simp: from_hex_def ext_pan_id_bytes_def apply_tlv_def tlv_ext_pan_id_def tlv_network_name_def
      from_hex_to_hex [unfolded from_hex_def])

end
