(* ===== verification/Config_Store.thy ===== *)
theory Config_Store
  imports Errors Thread_Dataset
begin

section \<open>The controller's configuration (\<open>storage/config.rs\<close>)\<close>

text \<open>
  The persistent configuration: the fabric label, the node-id counter, the Wi-Fi and Thread
  credentials and the check-in keys registered with intermittently connected devices. Every
  mutation happens under the mutex and writes the whole file before it returns; \<open>io\<close> says whether
  that write succeeds (a failed write leaves the old file, which \<open>Private_Write\<close> proves). The file's
  content is the JSON value it holds. Base64 belongs to a library: the two functions are
  arguments \<open>enc\<close> and \<open>dec\<close>. An object is the only file form modelled (the positional arrays
  serde also reads are never written).
\<close>

definition default_credential_id :: string where "default_credential_id = ''default''"
definition reserved_credential_ids :: "string list" where
  "reserved_credential_ids = [''default'', ''delete'']"
definition default_fabric_label :: string where "default_fabric_label = ''HomeAssistant''"
definition max_fabric_label_len :: nat where "max_fabric_label_len = 32"

definition validate_credential_id :: "string \<Rightarrow> string + string" where
  "validate_credential_id i =
     (let trimmed = trim i in
      if trimmed = [] then Inl ''invalid-credential-id: id must be non-empty''
      else let lower = to_ascii_lowercase trimmed in
        if lower = default_credential_id then Inr default_credential_id
        else if lower \<in> set reserved_credential_ids
        then Inl (''invalid-credential-id: '' @ quoted trimmed @ '' is reserved'')
        else Inr trimmed)"

definition same_id :: "string \<Rightarrow> string \<Rightarrow> bool" where
  "same_id a b = eq_ignore_ascii_case (trim a) (trim b)"

record wifi_entry =
  we_id :: string
  we_ssid :: string
  we_credentials :: string

record thread_entry =
  te_id :: string
  te_dataset :: string

record icd_entry =
  ie_node_id :: u64
  ie_key :: string
  ie_counter :: "u32 option"

record config_data =
  cd_fabric_label :: string
  cd_next_node_id :: u64
  cd_wifi_ssid :: "string option"
  cd_wifi_credentials :: "string option"
  cd_thread_dataset :: "string option"
  cd_additional_wifi :: "wifi_entry list"
  cd_additional_thread :: "thread_entry list"
  cd_icd_registrations :: "icd_entry list"

definition default_next_node_id :: u64 where "default_next_node_id = 1"

definition config_default :: config_data where
  "config_default = \<lparr>cd_fabric_label = default_fabric_label, cd_next_node_id = default_next_node_id,
     cd_wifi_ssid = None, cd_wifi_credentials = None, cd_thread_dataset = None,
     cd_additional_wifi = [], cd_additional_thread = [], cd_icd_registrations = []\<rparr>"

subsection \<open>The file's form\<close>

definition jstr_opt :: "string option \<Rightarrow> json" where
  "jstr_opt s = (case s of None \<Rightarrow> JNull | Some x \<Rightarrow> JStr x)"

definition wifi_to_json :: "wifi_entry \<Rightarrow> json" where
  "wifi_to_json e = jobj [(''id'', JStr (we_id e)), (''ssid'', JStr (we_ssid e)),
                          (''credentials'', JStr (we_credentials e))]"

definition thread_to_json :: "thread_entry \<Rightarrow> json" where
  "thread_to_json e = jobj [(''id'', JStr (te_id e)), (''dataset'', JStr (te_dataset e))]"

definition icd_to_json :: "icd_entry \<Rightarrow> json" where
  "icd_to_json e = jobj [(''node_id'', ju64 (ie_node_id e)), (''key'', JStr (ie_key e)),
     (''counter'', case ie_counter e of None \<Rightarrow> JNull | Some c \<Rightarrow> ju64 (ucast c))]"

definition config_to_json :: "config_data \<Rightarrow> json" where
  "config_to_json d = jobj
     [(''fabric_label'', JStr (cd_fabric_label d)),
      (''next_node_id'', ju64 (cd_next_node_id d)),
      (''wifi_ssid'', jstr_opt (cd_wifi_ssid d)),
      (''wifi_credentials'', jstr_opt (cd_wifi_credentials d)),
      (''thread_dataset'', jstr_opt (cd_thread_dataset d)),
      (''additional_wifi'', JArr (map wifi_to_json (cd_additional_wifi d))),
      (''additional_thread'', JArr (map thread_to_json (cd_additional_thread d))),
      (''icd_registrations'', JArr (map icd_to_json (cd_icd_registrations d)))]"

text \<open>A field with a serde default, an optional string, and a list of structures.\<close>

definition with_default :: "'a \<Rightarrow> (json \<Rightarrow> 'a option) \<Rightarrow> json option \<Rightarrow> 'a option" where
  "with_default d f v = (case v of None \<Rightarrow> Some d | Some x \<Rightarrow> f x)"

definition opt_string :: "json \<Rightarrow> string option option" where
  "opt_string v = (case v of JNull \<Rightarrow> Some None | JStr s \<Rightarrow> Some (Some s) | _ \<Rightarrow> None)"

definition opt_u32 :: "json \<Rightarrow> u32 option option" where
  "opt_u32 v = (case v of
      JNull \<Rightarrow> Some None
    | JNum (PosInt n) \<Rightarrow> if unat n \<le> u32_max then Some (Some (ucast n)) else None
    | _ \<Rightarrow> None)"

definition json_list :: "(json \<Rightarrow> 'a option) \<Rightarrow> json \<Rightarrow> 'a list option" where
  "json_list f v = opt_bind (as_array v) (collect_opt f)"

definition wifi_from_json :: "json \<Rightarrow> wifi_entry option" where
  "wifi_from_json v =
     opt_bind (opt_bind (jget v ''id'') as_str) (\<lambda>i.
     opt_bind (opt_bind (jget v ''ssid'') as_str) (\<lambda>s.
     opt_bind (opt_bind (jget v ''credentials'') as_str) (\<lambda>c.
       Some \<lparr>we_id = i, we_ssid = s, we_credentials = c\<rparr>)))"

definition thread_from_json :: "json \<Rightarrow> thread_entry option" where
  "thread_from_json v =
     opt_bind (opt_bind (jget v ''id'') as_str) (\<lambda>i.
     opt_bind (opt_bind (jget v ''dataset'') as_str) (\<lambda>s.
       Some \<lparr>te_id = i, te_dataset = s\<rparr>))"

definition icd_from_json :: "json \<Rightarrow> icd_entry option" where
  "icd_from_json v =
     opt_bind (opt_bind (jget v ''node_id'') as_u64) (\<lambda>n.
     opt_bind (opt_bind (jget v ''key'') as_str) (\<lambda>k.
     opt_bind (with_default None opt_u32 (jget v ''counter'')) (\<lambda>c.
       Some \<lparr>ie_node_id = n, ie_key = k, ie_counter = c\<rparr>)))"

definition config_from_json :: "json \<Rightarrow> config_data option" where
  "config_from_json v =
     opt_bind (as_object v) (\<lambda>_.
     opt_bind (with_default default_fabric_label as_str (jget v ''fabric_label'')) (\<lambda>label.
     opt_bind (with_default default_next_node_id as_u64 (jget v ''next_node_id'')) (\<lambda>next_id.
     opt_bind (with_default None opt_string (jget v ''wifi_ssid'')) (\<lambda>ssid.
     opt_bind (with_default None opt_string (jget v ''wifi_credentials'')) (\<lambda>secret.
     opt_bind (with_default None opt_string (jget v ''thread_dataset'')) (\<lambda>dataset.
     opt_bind (with_default [] (json_list wifi_from_json) (jget v ''additional_wifi'')) (\<lambda>wifi.
     opt_bind (with_default [] (json_list thread_from_json) (jget v ''additional_thread'')) (\<lambda>thread.
     opt_bind (with_default [] (json_list icd_from_json) (jget v ''icd_registrations'')) (\<lambda>icd.
       Some \<lparr>cd_fabric_label = label, cd_next_node_id = next_id, cd_wifi_ssid = ssid,
              cd_wifi_credentials = secret, cd_thread_dataset = dataset, cd_additional_wifi = wifi,
              cd_additional_thread = thread, cd_icd_registrations = icd\<rparr>)))))))))"

subsection \<open>The store\<close>

record config_store =
  cs_data :: config_data
  cs_path :: "string option"
  cs_disk :: "json option"

definition config_in_memory :: config_store where
  "config_in_memory = \<lparr>cs_data = config_default, cs_path = None, cs_disk = None\<rparr>"

definition config_load :: "string \<Rightarrow> json option \<Rightarrow> string + config_store" where
  "config_load path disk = map_res (\<lambda>d. \<lparr>cs_data = d, cs_path = Some path, cs_disk = disk\<rparr>)
     (case disk of
        None \<Rightarrow> Inr config_default
      | Some v \<Rightarrow> ok_or (''parsing config '' @ path) (config_from_json v))"

definition config_save :: "bool \<Rightarrow> config_store \<Rightarrow> config_store \<times> (string + unit)" where
  "config_save io cs =
     (case cs_path cs of
        None \<Rightarrow> (cs, Inr ())
      | Some path \<Rightarrow>
          if io then (cs\<lparr>cs_disk := Some (config_to_json (cs_data cs))\<rparr>, Inr ())
          else (cs, Inl (''writing config '' @ path)))"

definition config_mutate ::
  "bool \<Rightarrow> (config_data \<Rightarrow> config_data \<times> 'a) \<Rightarrow> config_store \<Rightarrow> config_store \<times> (string + 'a)" where
  "config_mutate io f cs =
     (let (d, out) = f (cs_data cs);
          (cs', r) = config_save io (cs\<lparr>cs_data := d\<rparr>)
      in (cs', map_res (\<lambda>_. out) r))"

subsection \<open>Label and node ids\<close>

definition normalize_fabric_label :: "string option \<Rightarrow> string" where
  "normalize_fabric_label label =
     (let trimmed = (case label of None \<Rightarrow> [] | Some s \<Rightarrow> trim s);
          effective = (if trimmed = [] then default_fabric_label else trimmed)
      in take_chars max_fabric_label_len effective)"

definition set_fabric_label :: "bool \<Rightarrow> string \<Rightarrow> config_store \<Rightarrow> config_store \<times> (string + string)" where
  "set_fabric_label io label cs =
     (let normalized = normalize_fabric_label (Some label)
      in config_mutate io (\<lambda>d. (d\<lparr>cd_fabric_label := normalized\<rparr>, normalized)) cs)"

definition allocate_node_id :: "bool \<Rightarrow> config_store \<Rightarrow> config_store \<times> (string + u64)" where
  "allocate_node_id io = config_mutate io (\<lambda>d.
     let i = max (cd_next_node_id d) 1 in (d\<lparr>cd_next_node_id := i + 1\<rparr>, i))"

definition reserve_node_ids_above :: "bool \<Rightarrow> u64 \<Rightarrow> config_store \<Rightarrow> config_store \<times> (string + unit)" where
  "reserve_node_ids_above io highest = config_mutate io (\<lambda>d.
     (if cd_next_node_id d \<le> highest then d\<lparr>cd_next_node_id := highest + 1\<rparr> else d, ()))"

subsection \<open>Wi-Fi credentials\<close>

definition require_or_keep_secret :: "string option \<Rightarrow> string option \<Rightarrow> string + string" where
  "require_or_keep_secret provided reusable =
     (case opt_filter (\<lambda>s. s \<noteq> []) provided of
        Some s \<Rightarrow> Inr s
      | None \<Rightarrow>
          (case opt_filter (\<lambda>s. s \<noteq> []) reusable of
             Some s \<Rightarrow> Inr s
           | None \<Rightarrow> Inl ''WiFi password is required (omit it only to keep the existing password for an unchanged SSID)''))"

definition clashes :: "string \<Rightarrow> string \<Rightarrow> bool" where
  "clashes i other = (eq_ignore_ascii_case other i \<and> other \<noteq> i)"

definition assert_no_case_clash :: "string \<Rightarrow> string list \<Rightarrow> string + unit" where
  "assert_no_case_clash i existing =
     (let trimmed = trim i in
      case find (clashes trimmed) existing of
        Some other \<Rightarrow> Inl (''invalid-credential-id: '' @ quoted trimmed @ '' duplicates existing '' @ quoted other)
      | None \<Rightarrow> Inr ())"

definition effective_id :: "string option \<Rightarrow> string" where
  "effective_id i = unwrap_or i default_credential_id"

text \<open>Replace the entry at the position found, or append.\<close>

definition place :: "nat option \<Rightarrow> 'e \<Rightarrow> 'e list \<Rightarrow> 'e list" where
  "place existing e es = (case existing of Some k \<Rightarrow> es[k := e] | None \<Rightarrow> es @ [e])"

definition set_wifi_data ::
  "string option \<Rightarrow> string \<Rightarrow> string option \<Rightarrow> config_data \<Rightarrow> string + config_data" where
  "set_wifi_data i ssid credentials d =
     bind_res (validate_credential_id (effective_id i)) (\<lambda>canonical.
       if canonical = default_credential_id then
         (let reusable = (if cd_wifi_ssid d = Some ssid then cd_wifi_credentials d else None)
          in map_res (\<lambda>secret. d\<lparr>cd_wifi_ssid := Some ssid, cd_wifi_credentials := Some secret\<rparr>)
               (require_or_keep_secret credentials reusable))
       else
         (let es = cd_additional_wifi d in
          bind_res (assert_no_case_clash canonical (map we_id es)) (\<lambda>_.
            let existing = list_position (\<lambda>e. same_id (we_id e) canonical) es;
                reusable = map_option (\<lambda>k. we_credentials (es ! k))
                             (opt_filter (\<lambda>k. we_ssid (es ! k) = ssid) existing)
            in map_res (\<lambda>secret. d\<lparr>cd_additional_wifi :=
                   place existing \<lparr>we_id = canonical, we_ssid = ssid, we_credentials = secret\<rparr> es\<rparr>)
                 (require_or_keep_secret credentials reusable))))"

definition set_wifi_credentials ::
  "bool \<Rightarrow> string option \<Rightarrow> string \<Rightarrow> string option \<Rightarrow> config_store \<Rightarrow> config_store \<times> (string + unit)" where
  "set_wifi_credentials io i ssid credentials cs =
     (case set_wifi_data i ssid credentials (cs_data cs) of
        Inl e \<Rightarrow> (cs, Inl e)
      | Inr d \<Rightarrow> config_save io (cs\<lparr>cs_data := d\<rparr>))"

definition remove_wifi_credentials :: "bool \<Rightarrow> string option \<Rightarrow> config_store \<Rightarrow> config_store \<times> (string + unit)" where
  "remove_wifi_credentials io i = config_mutate io (\<lambda>d.
     (if same_id (effective_id i) default_credential_id
      then d\<lparr>cd_wifi_ssid := None, cd_wifi_credentials := None\<rparr>
      else d\<lparr>cd_additional_wifi := filter (\<lambda>e. \<not> same_id (we_id e) (effective_id i)) (cd_additional_wifi d)\<rparr>, ()))"

definition wifi_credentials :: "string option \<Rightarrow> config_data \<Rightarrow> (string \<times> string) option" where
  "wifi_credentials i d =
     (if same_id (effective_id i) default_credential_id then
        (case (cd_wifi_ssid d, cd_wifi_credentials d) of
           (Some ssid, Some secret) \<Rightarrow> Some (ssid, secret)
         | _ \<Rightarrow> None)
      else map_option (\<lambda>e. (we_ssid e, we_credentials e))
             (find (\<lambda>e. same_id (we_id e) (effective_id i)) (cd_additional_wifi d)))"

definition wifi_credentials_set :: "config_data \<Rightarrow> bool" where
  "wifi_credentials_set d = (cd_wifi_ssid d \<noteq> None \<and> cd_wifi_credentials d \<noteq> None)"

definition default_wifi_ssid :: "config_data \<Rightarrow> string option" where
  "default_wifi_ssid d =
     (case (cd_wifi_ssid d, cd_wifi_credentials d) of (Some ssid, Some _) \<Rightarrow> Some ssid | _ \<Rightarrow> None)"

subsection \<open>Thread datasets\<close>

definition set_thread_data :: "string option \<Rightarrow> string \<Rightarrow> config_data \<Rightarrow> string + config_data" where
  "set_thread_data i dataset d =
     bind_res (validate_credential_id (effective_id i)) (\<lambda>canonical.
       if canonical = default_credential_id then Inr (d\<lparr>cd_thread_dataset := Some dataset\<rparr>)
       else
         (let es = cd_additional_thread d in
          bind_res (assert_no_case_clash canonical (map te_id es)) (\<lambda>_.
            Inr (d\<lparr>cd_additional_thread :=
               place (list_position (\<lambda>e. same_id (te_id e) canonical) es)
                 \<lparr>te_id = canonical, te_dataset = dataset\<rparr> es\<rparr>))))"

definition set_thread_dataset ::
  "bool \<Rightarrow> string option \<Rightarrow> string \<Rightarrow> config_store \<Rightarrow> config_store \<times> (string + unit)" where
  "set_thread_dataset io i dataset cs =
     (case set_thread_data i dataset (cs_data cs) of
        Inl e \<Rightarrow> (cs, Inl e)
      | Inr d \<Rightarrow> config_save io (cs\<lparr>cs_data := d\<rparr>))"

definition remove_thread_dataset :: "bool \<Rightarrow> string option \<Rightarrow> config_store \<Rightarrow> config_store \<times> (string + unit)" where
  "remove_thread_dataset io i = config_mutate io (\<lambda>d.
     (if same_id (effective_id i) default_credential_id
      then d\<lparr>cd_thread_dataset := None\<rparr>
      else d\<lparr>cd_additional_thread := filter (\<lambda>e. \<not> same_id (te_id e) (effective_id i)) (cd_additional_thread d)\<rparr>, ()))"

definition thread_dataset :: "string option \<Rightarrow> config_data \<Rightarrow> string option" where
  "thread_dataset i d =
     (if same_id (effective_id i) default_credential_id then cd_thread_dataset d
      else map_option te_dataset
             (find (\<lambda>e. same_id (te_id e) (effective_id i)) (cd_additional_thread d)))"

definition thread_credentials_set :: "config_data \<Rightarrow> bool" where
  "thread_credentials_set d = (cd_thread_dataset d \<noteq> None)"

definition all_thread_datasets :: "config_data \<Rightarrow> (string, string) btree" where
  "all_thread_datasets d =
     bt_extend (case cd_thread_dataset d of None \<Rightarrow> [] | Some s \<Rightarrow> bt_insert default_credential_id s [])
       (map (\<lambda>e. (te_id e, te_dataset e)) (cd_additional_thread d))"

subsection \<open>Check-in registrations\<close>

definition set_icd_registration ::
  "(bytes \<Rightarrow> string) \<Rightarrow> bool \<Rightarrow> u64 \<Rightarrow> bytes \<Rightarrow> config_store \<Rightarrow> config_store \<times> (string + unit)" where
  "set_icd_registration enc io n key =
     (let k = enc key in config_mutate io (\<lambda>d.
        (d\<lparr>cd_icd_registrations := filter (\<lambda>e. ie_node_id e \<noteq> n) (cd_icd_registrations d)
            @ [\<lparr>ie_node_id = n, ie_key = k, ie_counter = None\<rparr>]\<rparr>, ())))"

definition remove_icd_registration :: "bool \<Rightarrow> u64 \<Rightarrow> config_store \<Rightarrow> config_store \<times> (string + unit)" where
  "remove_icd_registration io n = config_mutate io (\<lambda>d.
     (d\<lparr>cd_icd_registrations := filter (\<lambda>e. ie_node_id e \<noteq> n) (cd_icd_registrations d)\<rparr>, ()))"

definition icd_registrations :: "(string \<Rightarrow> bytes option) \<Rightarrow> config_data \<Rightarrow> (u64 \<times> bytes \<times> u32 option) list" where
  "icd_registrations dec d = filter_map
     (\<lambda>e. map_option (\<lambda>key. (ie_node_id e, key, ie_counter e)) (dec (ie_key e)))
     (cd_icd_registrations d)"

fun update_first :: "('e \<Rightarrow> bool) \<Rightarrow> ('e \<Rightarrow> 'e) \<Rightarrow> 'e list \<Rightarrow> 'e list" where
  "update_first p f [] = []"
| "update_first p f (e # es) = (if p e then f e # es else e # update_first p f es)"

definition note_icd_counter :: "bool \<Rightarrow> u64 \<Rightarrow> u32 \<Rightarrow> config_store \<Rightarrow> config_store \<times> (string + unit)" where
  "note_icd_counter io n c = config_mutate io (\<lambda>d.
     (d\<lparr>cd_icd_registrations := update_first (\<lambda>e. ie_node_id e = n) (\<lambda>e. e\<lparr>ie_counter := Some c\<rparr>)
          (cd_icd_registrations d)\<rparr>, ()))"

subsection \<open>Summaries\<close>

record wifi_summary =
  ws_id :: string
  ws_ssid :: string

record thread_summary =
  ts_id :: string
  ts_network_name :: "string option"
  ts_ext_pan_id :: "string option"

record credential_summaries =
  sm_wifi :: "wifi_summary list"
  sm_thread :: "thread_summary list"

definition summarize_thread :: "string \<Rightarrow> string \<Rightarrow> thread_summary" where
  "summarize_thread i dataset =
     (let decoded = decode dataset
      in \<lparr>ts_id = i, ts_network_name = opt_bind decoded od_network_name,
          ts_ext_pan_id = opt_bind decoded od_ext_pan_id\<rparr>)"

definition summaries :: "config_data \<Rightarrow> credential_summaries" where
  "summaries d =
     (let wifi = (case (cd_wifi_ssid d, cd_wifi_credentials d) of
                    (Some ssid, Some _) \<Rightarrow> [\<lparr>ws_id = default_credential_id, ws_ssid = ssid\<rparr>]
                  | _ \<Rightarrow> [])
            @ map (\<lambda>e. \<lparr>ws_id = we_id e, ws_ssid = we_ssid e\<rparr>) (cd_additional_wifi d);
          thread = (case cd_thread_dataset d of
                      Some s \<Rightarrow> [summarize_thread default_credential_id s]
                    | None \<Rightarrow> [])
            @ map (\<lambda>e. summarize_thread (te_id e) (te_dataset e)) (cd_additional_thread d)
      in \<lparr>sm_wifi = (if list_ex (\<lambda>e. ws_id e = default_credential_id) wifi then wifi
                     else \<lparr>ws_id = default_credential_id, ws_ssid = []\<rparr> # wifi),
          sm_thread = (if list_ex (\<lambda>e. ts_id e = default_credential_id) thread then thread
                       else \<lparr>ts_id = default_credential_id, ts_network_name = None, ts_ext_pan_id = None\<rparr> # thread)\<rparr>)"

subsection \<open>Reading back what was written\<close>

lemma string_rt [simp]: "with_default None opt_string (Some (jstr_opt s)) = Some s"
  by (cases s) (simp_all add: with_default_def opt_string_def jstr_opt_def)

lemma wifi_rt [simp]: "wifi_from_json (wifi_to_json e) = Some e"
  by (simp add: wifi_from_json_def wifi_to_json_def jget_jobj)

lemma thread_rt [simp]: "thread_from_json (thread_to_json e) = Some e"
  by (simp add: thread_from_json_def thread_to_json_def jget_jobj)

lemma icd_rt [simp]: "icd_from_json (icd_to_json e) = Some e"
proof -
  have "unat (ucast (c :: u32) :: u64) \<le> u32_max" for c
    using unat_bound [of c] by (simp add: unat_ucast_up)
  then show ?thesis
    by (cases "ie_counter e")
       (simp_all add: icd_from_json_def icd_to_json_def jget_jobj with_default_def opt_u32_def ju64_def ucast_up_down)
qed

lemma json_list_rt: "(\<And>e. f (g e) = Some e) \<Longrightarrow> json_list f (JArr (map g es)) = Some es"
  unfolding json_list_def by (induction es) (auto split: option.splits)

lemma config_rt: "config_from_json (config_to_json d) = Some d"
  unfolding config_from_json_def
  by (simp add: config_to_json_def jget_jobj with_default_def json_list_rt string_rt [unfolded with_default_def, simplified])
     (simp add: jobj_def)

subsection \<open>Registrations are a keyed store\<close>

definition icd_get :: "icd_entry list \<Rightarrow> u64 \<Rightarrow> (string \<times> u32 option) option" where
  "icd_get es n = map_option (\<lambda>e. (ie_key e, ie_counter e)) (find (\<lambda>e. ie_node_id e = n) es)"

definition icd_put :: "u64 \<Rightarrow> string \<times> u32 option \<Rightarrow> icd_entry list \<Rightarrow> icd_entry list" where
  "icd_put n kc es = filter (\<lambda>e. ie_node_id e \<noteq> n) es
     @ [\<lparr>ie_node_id = n, ie_key = fst kc, ie_counter = snd kc\<rparr>]"

definition icd_del :: "u64 \<Rightarrow> icd_entry list \<Rightarrow> icd_entry list" where
  "icd_del n es = filter (\<lambda>e. ie_node_id e \<noteq> n) es"

definition icd_ok :: "icd_entry list \<Rightarrow> bool" where
  "icd_ok es = distinct (map ie_node_id es)"

lemma find_append: "find p (xs @ ys) = opt_or (find p xs) (find p ys)"
  by (induction xs) auto

lemma find_filter: "find p (filter q xs) = find (\<lambda>x. q x \<and> p x) xs"
  by (induction xs) auto

lemma icd_get_del: "icd_get (icd_del n es) m = (if m = n then None else icd_get es m)"
proof -
  have "find (\<lambda>e. ie_node_id e \<noteq> n \<and> ie_node_id e = m) es = (if m = n then None else find (\<lambda>e. ie_node_id e = m) es)"
    by (induction es) auto
  then show ?thesis by (simp add: icd_get_def icd_del_def find_filter)
qed

lemma icd_get_put: "icd_get (icd_put n kc es) m = (if m = n then Some kc else icd_get es m)"
  using icd_get_del [of n es m]
  by (auto simp: icd_put_def icd_del_def icd_get_def find_append opt_or_def split: option.split)

lemma icd_ok_del: "icd_ok es \<Longrightarrow> icd_ok (icd_del n es)"
  by (simp add: icd_ok_def icd_del_def distinct_map_filter)

lemma icd_ok_put: "icd_ok es \<Longrightarrow> icd_ok (icd_put n kc es)"
  by (auto simp: icd_ok_def icd_put_def distinct_map_filter)

interpretation icd: keyed_store icd_get icd_put icd_del icd_ok
  by unfold_locales (auto simp: icd_get_put icd_get_del icd_ok_put icd_ok_del fun_eq_iff)

subsection \<open>The life of the store: operations, failed writes, interruptions, restarts\<close>

datatype config_op =
    SetLabel string
  | Allocate
  | ReserveAbove u64
  | SetWifi "string option" string "string option"
  | RemoveWifi "string option"
  | SetThread "string option" string
  | RemoveThread "string option"
  | SetIcd u64 bytes
  | RemoveIcd u64
  | NoteIcd u64 u32

text \<open>The state after an operation, and the node id it handed out, if it did.\<close>

fun config_apply ::
  "(bytes \<Rightarrow> string) \<Rightarrow> bool \<Rightarrow> config_op \<Rightarrow> config_store \<Rightarrow> config_store \<times> u64 list" where
  "config_apply enc io (SetLabel l) cs = (fst (set_fabric_label io l cs), [])"
| "config_apply enc io Allocate cs =
     (let (cs', r) = allocate_node_id io cs in (cs', case r of Inl _ \<Rightarrow> [] | Inr i \<Rightarrow> [i]))"
| "config_apply enc io (ReserveAbove h) cs = (fst (reserve_node_ids_above io h cs), [])"
| "config_apply enc io (SetWifi i s c) cs = (fst (set_wifi_credentials io i s c cs), [])"
| "config_apply enc io (RemoveWifi i) cs = (fst (remove_wifi_credentials io i cs), [])"
| "config_apply enc io (SetThread i s) cs = (fst (set_thread_dataset io i s cs), [])"
| "config_apply enc io (RemoveThread i) cs = (fst (remove_thread_dataset io i cs), [])"
| "config_apply enc io (SetIcd n k) cs = (fst (set_icd_registration enc io n k cs), [])"
| "config_apply enc io (RemoveIcd n) cs = (fst (remove_icd_registration io n cs), [])"
| "config_apply enc io (NoteIcd n c) cs = (fst (note_icd_counter io n c cs), [])"

text \<open>The counter has room for the operation: it is a 64-bit word, and \<open>id + 1\<close> wraps.\<close>

fun counter_room :: "config_op \<Rightarrow> config_data \<Rightarrow> bool" where
  "counter_room Allocate d = (cd_next_node_id d < 0xFFFFFFFFFFFFFFFF)"
| "counter_room (ReserveAbove h) d = (h < 0xFFFFFFFFFFFFFFFF)"
| "counter_room _ d = True"

text \<open>A Rust string is valid UTF-8.\<close>

fun op_whole :: "config_op \<Rightarrow> bool" where
  "op_whole (SetWifi i s c) = whole (effective_id i)"
| "op_whole (SetThread i s) = whole (effective_id i)"
| "op_whole _ = True"

text \<open>A run, with the node ids handed out so far: the server starts without a file, performs
  operations whose write may fail, and may be killed during any of them (the write may or may
  not have reached the disk, its result reaches nobody) and started again from the file.\<close>

inductive config_run :: "(bytes \<Rightarrow> string) \<Rightarrow> string \<Rightarrow> config_store \<Rightarrow> u64 list \<Rightarrow> bool"
  for enc :: "bytes \<Rightarrow> string" and path :: string where
  run_start: "config_load path None = Inr cs \<Longrightarrow> config_run enc path cs []"
| run_op: "config_run enc path cs ids \<Longrightarrow> counter_room op (cs_data cs) \<Longrightarrow> op_whole op
    \<Longrightarrow> config_apply enc io op cs = (cs', new) \<Longrightarrow> config_run enc path cs' (ids @ new)"
| run_killed: "config_run enc path cs ids \<Longrightarrow> counter_room op (cs_data cs) \<Longrightarrow> op_whole op
    \<Longrightarrow> config_apply enc io op cs = (cs', new) \<Longrightarrow> config_load path (cs_disk cs') = Inr cs''
    \<Longrightarrow> config_run enc path cs'' ids"

inductive_cases config_run_cases: "config_run enc path cs ids"

lemma save_cases:
  "config_save io cs = (cs', r) \<Longrightarrow>
     cs_data cs' = cs_data cs \<and> cs_path cs' = cs_path cs
     \<and> (cs_disk cs' = cs_disk cs \<or> cs_disk cs' = Some (config_to_json (cs_data cs)))
     \<and> (r = Inr () \<longrightarrow> cs_path cs = None \<or> cs_disk cs' = Some (config_to_json (cs_data cs)))"
  by (auto simp: config_save_def split: option.splits if_splits)

lemma mutate_cases:
  assumes "config_mutate io f cs = (cs', r)"
  shows "cs_data cs' = fst (f (cs_data cs)) \<and> cs_path cs' = cs_path cs
     \<and> (cs_disk cs' = cs_disk cs \<or> cs_disk cs' = Some (config_to_json (cs_data cs')))
     \<and> (\<forall>a. r = Inr a \<longrightarrow> a = snd (f (cs_data cs))
              \<and> (cs_path cs = None \<or> cs_disk cs' = Some (config_to_json (cs_data cs'))))"
proof -
  obtain cs1 r1 where s: "config_save io (cs\<lparr>cs_data := fst (f (cs_data cs))\<rparr>) = (cs1, r1)"
    by (cases "config_save io (cs\<lparr>cs_data := fst (f (cs_data cs))\<rparr>)")
  have "cs' = cs1" "r = map_res (\<lambda>_. snd (f (cs_data cs))) r1"
    using assms s by (simp_all add: config_mutate_def split_def Let_def)
  then show ?thesis using save_cases [OF s] by (auto simp: res_simps)
qed

text \<open>What each operation does to the data.\<close>

fun op_data :: "(bytes \<Rightarrow> string) \<Rightarrow> config_op \<Rightarrow> config_data \<Rightarrow> config_data" where
  "op_data enc (SetLabel l) d = d\<lparr>cd_fabric_label := normalize_fabric_label (Some l)\<rparr>"
| "op_data enc Allocate d = d\<lparr>cd_next_node_id := max (cd_next_node_id d) 1 + 1\<rparr>"
| "op_data enc (ReserveAbove h) d = (if cd_next_node_id d \<le> h then d\<lparr>cd_next_node_id := h + 1\<rparr> else d)"
| "op_data enc (SetWifi i s c) d = (case set_wifi_data i s c d of Inl _ \<Rightarrow> d | Inr d' \<Rightarrow> d')"
| "op_data enc (RemoveWifi i) d =
     (if same_id (effective_id i) default_credential_id
      then d\<lparr>cd_wifi_ssid := None, cd_wifi_credentials := None\<rparr>
      else d\<lparr>cd_additional_wifi := filter (\<lambda>e. \<not> same_id (we_id e) (effective_id i)) (cd_additional_wifi d)\<rparr>)"
| "op_data enc (SetThread i s) d = (case set_thread_data i s d of Inl _ \<Rightarrow> d | Inr d' \<Rightarrow> d')"
| "op_data enc (RemoveThread i) d =
     (if same_id (effective_id i) default_credential_id then d\<lparr>cd_thread_dataset := None\<rparr>
      else d\<lparr>cd_additional_thread := filter (\<lambda>e. \<not> same_id (te_id e) (effective_id i)) (cd_additional_thread d)\<rparr>)"
| "op_data enc (SetIcd n k) d = d\<lparr>cd_icd_registrations := icd_put n (enc k, None) (cd_icd_registrations d)\<rparr>"
| "op_data enc (RemoveIcd n) d = d\<lparr>cd_icd_registrations := icd_del n (cd_icd_registrations d)\<rparr>"
| "op_data enc (NoteIcd n c) d = d\<lparr>cd_icd_registrations :=
     update_first (\<lambda>e. ie_node_id e = n) (\<lambda>e. e\<lparr>ie_counter := Some c\<rparr>) (cd_icd_registrations d)\<rparr>"

definition writes :: "config_store \<Rightarrow> config_store \<Rightarrow> bool" where
  "writes cs cs' = (cs_path cs' = cs_path cs
     \<and> (cs_disk cs' = cs_disk cs \<or> cs_disk cs' = Some (config_to_json (cs_data cs'))))"

lemma mutate_fst: "cs_data (fst (config_mutate io f cs)) = fst (f (cs_data cs)) \<and> writes cs (fst (config_mutate io f cs))"
  using mutate_cases [of io f cs] by (cases "config_mutate io f cs") (auto simp: writes_def)

lemma save_fst: "cs_data (fst (config_save io (cs\<lparr>cs_data := d\<rparr>))) = d \<and> writes cs (fst (config_save io (cs\<lparr>cs_data := d\<rparr>)))"
  using save_cases [of io "cs\<lparr>cs_data := d\<rparr>"]
  by (cases "config_save io (cs\<lparr>cs_data := d\<rparr>)") (auto simp: writes_def)

lemma writes_refl [simp]: "writes cs cs"
  by (simp add: writes_def)

lemma apply_data: "cs_data (fst (config_apply enc io op cs)) = op_data enc op (cs_data cs)
    \<and> writes cs (fst (config_apply enc io op cs))"
proof (cases op)
  case Allocate
  then show ?thesis
    by (simp add: allocate_node_id_def split_def Let_def mutate_fst)
next
  case (SetWifi i s c)
  then show ?thesis
    by (cases "set_wifi_data i s c (cs_data cs)") (simp_all add: set_wifi_credentials_def save_fst)
next
  case (SetThread i s)
  then show ?thesis
    by (cases "set_thread_data i s (cs_data cs)") (simp_all add: set_thread_dataset_def save_fst)
qed (simp_all add: mutate_fst set_fabric_label_def reserve_node_ids_above_def remove_wifi_credentials_def
      remove_thread_dataset_def set_icd_registration_def remove_icd_registration_def note_icd_counter_def
      icd_put_def icd_del_def Let_def)

lemma apply_new:
  assumes "config_apply enc io op cs = (cs', new)" and "cs_path cs = Some path"
  shows "new = [] \<or> (op = Allocate \<and> new = [max (cd_next_node_id (cs_data cs)) 1]
                      \<and> cs_disk cs' = Some (config_to_json (cs_data cs')))"
proof (cases "op = Allocate")
  case True
  obtain r where r: "allocate_node_id io cs = (cs', r)" and new: "new = (case r of Inl _ \<Rightarrow> [] | Inr i \<Rightarrow> [i])"
    using assms(1) True by (cases "allocate_node_id io cs") (simp add: split_def Let_def)
  show ?thesis
    using mutate_cases [OF r [unfolded allocate_node_id_def]] new True assms(2)
    by (cases r) (auto simp: Let_def)
next
  case False
  then show ?thesis using assms(1) by (cases op) auto
qed

subsection \<open>What a run keeps\<close>

text \<open>Ids below a counter: handed out earlier, and never 0.\<close>

definition below :: "u64 list \<Rightarrow> config_data \<Rightarrow> bool" where
  "below ids d = (\<forall>i \<in> set ids. 1 \<le> i \<and> i < cd_next_node_id d)"

lemma word_max_Suc: "(n :: u64) < 0xFFFFFFFFFFFFFFFF \<Longrightarrow> max n 1 < max n 1 + 1"
proof -
  assume n: "n < 0xFFFFFFFFFFFFFFFF"
  then have "unat n < 0xFFFFFFFFFFFFFFFF" by (simp add: word_less_nat_alt)
  then have "unat (max n 1) < 0xFFFFFFFFFFFFFFFF" by (simp add: max_def)
  then show ?thesis by (simp add: word_less_nat_alt unat_word_ariths)
qed

lemma word_Suc: "(n :: u64) < 0xFFFFFFFFFFFFFFFF \<Longrightarrow> n < n + 1"
  by (simp add: word_less_nat_alt unat_word_ariths)

lemma next_set_wifi: "set_wifi_data i s c d = Inr d' \<Longrightarrow> cd_next_node_id d' = cd_next_node_id d"
  by (auto simp: set_wifi_data_def res_simps Let_def split: if_splits)

lemma next_set_thread: "set_thread_data i s d = Inr d' \<Longrightarrow> cd_next_node_id d' = cd_next_node_id d"
  by (auto simp: set_thread_data_def res_simps Let_def split: if_splits)

lemma op_counter: "counter_room op d \<Longrightarrow> cd_next_node_id d \<le> cd_next_node_id (op_data enc op d)"
proof (cases op)
  case Allocate
  moreover assume "counter_room op d"
  ultimately show ?thesis using word_max_Suc [of "cd_next_node_id d"] by (auto intro: less_imp_le)
next
  case (ReserveAbove h)
  moreover assume "counter_room op d"
  ultimately show ?thesis using word_Suc [of h] by auto
qed (auto simp: next_set_wifi next_set_thread split: sum.split)

lemma below_mono: "below ids d \<Longrightarrow> cd_next_node_id d \<le> cd_next_node_id d' \<Longrightarrow> below ids d'"
  unfolding below_def by (meson less_le_trans)

lemma below_op: "below ids d \<Longrightarrow> counter_room op d \<Longrightarrow> below ids (op_data enc op d)"
  by (rule below_mono [OF _ op_counter])

lemma below_alloc:
  assumes "below ids d" and "counter_room Allocate d"
  shows "below (ids @ [max (cd_next_node_id d) 1]) (op_data enc Allocate d)"
    and "max (cd_next_node_id d) 1 \<notin> set ids"
proof -
  have n: "cd_next_node_id d < 0xFFFFFFFFFFFFFFFF" using assms(2) by simp
  show "below (ids @ [max (cd_next_node_id d) 1]) (op_data enc Allocate d)"
    using below_op [OF assms, of enc] word_max_Suc [OF n] by (auto simp: below_def)
  show "max (cd_next_node_id d) 1 \<notin> set ids"
    using assms(1) by (auto simp: below_def)
qed

text \<open>The file holds a configuration whose counter is above every id handed out; without a file,
  none was.\<close>

definition disk_covers :: "u64 list \<Rightarrow> config_store \<Rightarrow> bool" where
  "disk_covers ids cs =
     (case cs_disk cs of None \<Rightarrow> ids = []
      | Some v \<Rightarrow> (case config_from_json v of None \<Rightarrow> False | Some d \<Rightarrow> below ids d))"

definition run_inv :: "string \<Rightarrow> config_store \<Rightarrow> u64 list \<Rightarrow> bool" where
  "run_inv path cs ids = (cs_path cs = Some path \<and> distinct ids \<and> below ids (cs_data cs) \<and> disk_covers ids cs)"

lemma run_inv_op:
  assumes inv: "run_inv path cs ids" and room: "counter_room op (cs_data cs)"
    and op: "config_apply enc io op cs = (cs', new)"
  shows "run_inv path cs' (ids @ new)"
proof -
  have d: "cs_data cs' = op_data enc op (cs_data cs)" and w: "writes cs cs'"
    using apply_data [of enc io op cs] op by simp_all
  have old: "below ids (cs_data cs')"
    using inv room by (simp add: run_inv_def d below_op)
  have disk: "disk_covers ids cs'"
    using inv w old by (auto simp: run_inv_def writes_def disk_covers_def config_rt)
  have path: "cs_path cs = Some path" "cs_path cs' = Some path"
    using inv w by (simp_all add: run_inv_def writes_def)
  from apply_new [OF op path(1)] show ?thesis
  proof
    assume "new = []"
    then show ?thesis using inv old disk path by (simp add: run_inv_def)
  next
    assume a: "op = Allocate \<and> new = [max (cd_next_node_id (cs_data cs)) 1]
               \<and> cs_disk cs' = Some (config_to_json (cs_data cs'))"
    have b: "below ids (cs_data cs)" using inv by (simp add: run_inv_def)
    have r: "counter_room Allocate (cs_data cs)" using a room by simp
    show ?thesis
      using below_alloc(1) [OF b r, where enc = enc] below_alloc(2) [OF b r] inv path a
      by (simp add: run_inv_def d disk_covers_def config_rt)
  qed
qed

lemma run_inv_prefix: "run_inv path cs (ids @ new) \<Longrightarrow> run_inv path cs ids"
  by (auto simp: run_inv_def below_def disk_covers_def split: option.splits)

lemma run_inv_restart:
  "run_inv path cs ids \<Longrightarrow> config_load path (cs_disk cs) = Inr cs' \<Longrightarrow> run_inv path cs' ids"
  by (auto simp: run_inv_def config_load_def res_simps disk_covers_def below_def split: option.splits)

lemma run_inv: "config_run enc path cs ids \<Longrightarrow> run_inv path cs ids"
proof (induction rule: config_run.induct)
  case (run_start cs)
  then show ?case by (auto simp: run_inv_def config_load_def below_def disk_covers_def)
next
  case (run_op cs ids op io cs' new)
  then show ?case using run_inv_op by blast
next
  case (run_killed cs ids op io cs' new cs'')
  then show ?case using run_inv_op run_inv_prefix run_inv_restart by blast
qed

subsection \<open>Unambiguous credential ids\<close>

text \<open>Every stored id is one the validation accepts as it stands, none is the reserved default,
  and no two differ in case only.\<close>

definition ids_ok :: "string list \<Rightarrow> bool" where
  "ids_ok xs = (distinct xs \<and> (\<forall>a \<in> set xs. trim a = a \<and> a \<noteq> [] \<and> to_ascii_lowercase a \<notin> set reserved_credential_ids)
     \<and> (\<forall>a \<in> set xs. \<forall>b \<in> set xs. eq_ignore_ascii_case a b \<longrightarrow> a = b))"

definition creds_ok :: "config_data \<Rightarrow> bool" where
  "creds_ok d = (ids_ok (map we_id (cd_additional_wifi d)) \<and> ids_ok (map te_id (cd_additional_thread d))
     \<and> icd_ok (cd_icd_registrations d))"

lemma validate_Inr:
  assumes "validate_credential_id i = Inr c" and "whole i" and "c \<noteq> default_credential_id"
  shows "c = trim i \<and> trim c = c \<and> c \<noteq> [] \<and> to_ascii_lowercase c \<notin> set reserved_credential_ids"
proof -
  have c: "c = trim i" "c \<noteq> []" "to_ascii_lowercase c \<notin> set reserved_credential_ids"
    using assms(1,3) by (auto simp: validate_credential_id_def Let_def split: if_splits)
  then show ?thesis using trim_trim [OF assms(2)] by simp
qed

lemma clash_free:
  assumes "assert_no_case_clash c ids = Inr ()" and "trim c = c" and "a \<in> set ids"
    and "eq_ignore_ascii_case a c"
  shows "a = c"
proof -
  have "find (clashes c) ids = None"
    using assms(1,2) by (auto simp: assert_no_case_clash_def split: option.splits)
  then show ?thesis using assms(3,4) by (auto simp: find_None_iff clashes_def)
qed

lemma ids_ok_snoc:
  assumes "ids_ok xs" and "assert_no_case_clash c xs = Inr ()" and "c \<notin> set xs"
    and c: "trim c = c" "c \<noteq> []" "to_ascii_lowercase c \<notin> set reserved_credential_ids"
  shows "ids_ok (xs @ [c])"
proof -
  have "a = c" if "a \<in> set xs" "eq_ignore_ascii_case a c" for a
    by (rule clash_free [OF assms(2) c(1) that])
  moreover have "a = c" if "a \<in> set xs" "eq_ignore_ascii_case c a" for a
    using clash_free [OF assms(2) c(1) that(1)] that(2) by (simp add: eq_ic_sym)
  ultimately show ?thesis
    using assms(1,3) c unfolding ids_ok_def by auto
qed

lemma ids_ok_place:
  assumes ok: "ids_ok (map f es)" and clash: "assert_no_case_clash c (map f es) = Inr ()"
    and c: "trim c = c" "c \<noteq> []" "to_ascii_lowercase c \<notin> set reserved_credential_ids" and e: "f e = c"
  shows "ids_ok (map f (place (list_position (\<lambda>x. same_id (f x) c) es) e es))"
proof (cases "list_position (\<lambda>x. same_id (f x) c) es")
  case None
  then have "c \<notin> set (map f es)" by (auto simp: list_position_None same_id_def)
  then show ?thesis using ids_ok_snoc [OF ok clash _ c] None e by (simp add: place_def)
next
  case (Some k)
  then have k: "k < length es" "same_id (f (es ! k)) c" using list_position_Some by blast+
  then have "trim (f (es ! k)) = f (es ! k)" using ok by (simp add: ids_ok_def)
  then have "f (es ! k) = c"
    using clash_free [OF clash c(1)] k c(1) by (simp add: same_id_def)
  then have "map f (es[k := e]) = map f es"
    using k(1) e by (simp add: map_update list_update_same_conv)
  then show ?thesis using ok Some by (simp add: place_def)
qed

lemma ids_ok_filter: "ids_ok (map f es) \<Longrightarrow> ids_ok (map f (filter p es))"
  by (auto simp: ids_ok_def distinct_map_filter)

lemma creds_ok_wifi:
  assumes "set_wifi_data i s c d = Inr d'" and "creds_ok d" and "whole (effective_id i)"
  shows "creds_ok d'"
proof -
  obtain k where k: "validate_credential_id (effective_id i) = Inr k"
    using assms(1) by (auto simp: set_wifi_data_def res_simps)
  show ?thesis
  proof (cases "k = default_credential_id")
    case True
    then show ?thesis using assms(1,2) k by (auto simp: set_wifi_data_def res_simps Let_def creds_ok_def)
  next
    case False
    note v = validate_Inr [OF k assms(3) False]
    show ?thesis
      using assms(1,2) k False v by (auto simp: set_wifi_data_def res_simps Let_def creds_ok_def ids_ok_place)
  qed
qed

lemma creds_ok_thread:
  assumes "set_thread_data i s d = Inr d'" and "creds_ok d" and "whole (effective_id i)"
  shows "creds_ok d'"
proof -
  obtain k where k: "validate_credential_id (effective_id i) = Inr k"
    using assms(1) by (auto simp: set_thread_data_def res_simps)
  show ?thesis
  proof (cases "k = default_credential_id")
    case True
    then show ?thesis using assms(1,2) k by (auto simp: set_thread_data_def res_simps Let_def creds_ok_def)
  next
    case False
    note v = validate_Inr [OF k assms(3) False]
    show ?thesis
      using assms(1,2) k False v by (auto simp: set_thread_data_def res_simps Let_def creds_ok_def ids_ok_place)
  qed
qed

lemma map_update_first: "(\<And>e. f (g e) = f e) \<Longrightarrow> map f (update_first p g es) = map f es"
  by (induction es) auto

lemma creds_ok_op: "creds_ok d \<Longrightarrow> op_whole op \<Longrightarrow> creds_ok (op_data enc op d)"
proof (cases op)
  case (NoteIcd n c)
  moreover assume "creds_ok d"
  ultimately show ?thesis by (simp add: creds_ok_def icd_ok_def map_update_first)
qed (auto simp: creds_ok_wifi creds_ok_thread split: sum.split,
     auto simp: creds_ok_def ids_ok_filter icd.ok_put icd.ok_del)

lemma run_creds:
  "config_run enc path cs ids \<Longrightarrow> creds_ok (cs_data cs)
     \<and> (case cs_disk cs of None \<Rightarrow> True | Some v \<Rightarrow> (case config_from_json v of None \<Rightarrow> False | Some d \<Rightarrow> creds_ok d))"
proof (induction rule: config_run.induct)
  case (run_start cs)
  then show ?case by (auto simp: config_load_def config_default_def creds_ok_def ids_ok_def icd_ok_def)
next
  case (run_op cs ids op io cs' new)
  have "cs_data cs' = op_data enc op (cs_data cs)" "writes cs cs'"
    using apply_data [of enc io op cs] run_op by simp_all
  then show ?case using run_op creds_ok_op by (auto simp: writes_def config_rt)
next
  case (run_killed cs ids op io cs' new cs'')
  have d: "cs_data cs' = op_data enc op (cs_data cs)" "writes cs cs'"
    using apply_data [of enc io op cs] run_killed by simp_all
  have start: "creds_ok config_default"
    by (simp add: config_default_def creds_ok_def ids_ok_def icd_ok_def)
  have "case cs_disk cs' of None \<Rightarrow> True | Some v \<Rightarrow> (case config_from_json v of None \<Rightarrow> False | Some d \<Rightarrow> creds_ok d)"
    using d run_killed creds_ok_op by (auto simp: writes_def config_rt)
  then show ?case
    using run_killed.hyps start by (auto simp: config_load_def res_simps split: option.splits)
qed

subsection \<open>Lookups after a write\<close>

text \<open>The key two ids share exactly when they name the same entry.\<close>

definition id_key :: "string \<Rightarrow> string" where
  "id_key i = to_ascii_lowercase (trim i)"

lemma same_id_key: "same_id a b \<longleftrightarrow> id_key a = id_key b"
  by (simp add: same_id_def id_key_def eq_ignore_ascii_case_def)

lemma id_key_default: "id_key default_credential_id = default_credential_id"
  by code_simp

lemma lower_default: "to_ascii_lowercase default_credential_id = default_credential_id"
  by code_simp

lemma validate_key:
  assumes "validate_credential_id i = Inr c" and "whole i"
  shows "(c = default_credential_id \<longleftrightarrow> id_key i = default_credential_id) \<and> id_key c = id_key i"
proof (cases "id_key i = default_credential_id")
  case True
  then have "c = default_credential_id"
    using assms(1) by (auto simp: validate_credential_id_def Let_def id_key_def split: if_splits)
  then show ?thesis using True by (simp add: id_key_default)
next
  case False
  then have c: "c = trim i"
    using assms(1) by (auto simp: validate_credential_id_def Let_def id_key_def split: if_splits)
  then have "id_key c = id_key i" by (simp add: id_key_def trim_trim [OF assms(2)])
  moreover have "c \<noteq> default_credential_id"
    using False c lower_default by (auto simp: id_key_def)
  ultimately show ?thesis using False by simp
qed

lemma find_place:
  assumes "q e" and "\<And>x. q x \<Longrightarrow> p x = p e" and "\<And>x. p e \<Longrightarrow> p x \<Longrightarrow> q x"
  shows "find p (place (list_position q es) e es) = (if p e then Some e else find p es)"
  using assms
proof (induction es)
  case Nil
  show ?case by (simp add: place_def)
next
  case (Cons x es)
  show ?case
  proof (cases "q x")
    case True
    then show ?thesis using Cons.prems(2) [OF True] by (simp add: place_def)
  next
    case False
    have px: "p e \<Longrightarrow> \<not> p x" using Cons.prems(3) False by blast
    have IH: "find p (place (list_position q es) e es) = (if p e then Some e else find p es)"
      by (rule Cons.IH) (use Cons.prems in blast)+
    have "place (list_position q (x # es)) e (x # es) = x # place (list_position q es) e es"
      using False by (cases "list_position q es") (simp_all add: place_def)
    then show ?thesis using IH px by auto
  qed
qed

lemma wifi_lookup:
  "wifi_credentials i d = (if id_key (effective_id i) = default_credential_id
     then (case (cd_wifi_ssid d, cd_wifi_credentials d) of (Some s, Some p) \<Rightarrow> Some (s, p) | _ \<Rightarrow> None)
     else map_option (\<lambda>e. (we_ssid e, we_credentials e))
            (find (\<lambda>e. id_key (we_id e) = id_key (effective_id i)) (cd_additional_wifi d)))"
  by (simp add: wifi_credentials_def same_id_key id_key_default)

lemma set_wifi_default:
  assumes "set_wifi_data i ssid c d = Inr d'" and "id_key (effective_id i) = default_credential_id"
    and "whole (effective_id i)"
  obtains secret where "d' = d\<lparr>cd_wifi_ssid := Some ssid, cd_wifi_credentials := Some secret\<rparr>"
    and "require_or_keep_secret c (if cd_wifi_ssid d = Some ssid then cd_wifi_credentials d else None) = Inr secret"
proof -
  obtain k where k: "validate_credential_id (effective_id i) = Inr k"
    using assms(1) by (auto simp: set_wifi_data_def res_simps)
  then have "k = default_credential_id" using validate_key [OF k assms(3)] assms(2) by simp
  then obtain secret where d': "d' = d\<lparr>cd_wifi_ssid := Some ssid, cd_wifi_credentials := Some secret\<rparr>"
    and s: "require_or_keep_secret c (if cd_wifi_ssid d = Some ssid then cd_wifi_credentials d else None) = Inr secret"
    using assms(1) k by (simp only: set_wifi_data_def bind_res.simps Let_def simp_thms if_True map_res_Inr) blast
  show ?thesis by (rule that [OF d' s])
qed

lemma set_wifi_additional:
  assumes "set_wifi_data i ssid c d = Inr d'" and "id_key (effective_id i) \<noteq> default_credential_id"
    and "whole (effective_id i)"
  obtains secret k pos where
    "d' = d\<lparr>cd_additional_wifi := place pos \<lparr>we_id = k, we_ssid = ssid, we_credentials = secret\<rparr> (cd_additional_wifi d)\<rparr>"
    and "id_key k = id_key (effective_id i)"
    and "pos = list_position (\<lambda>e. id_key (we_id e) = id_key (effective_id i)) (cd_additional_wifi d)"
    and "require_or_keep_secret c (map_option (\<lambda>n. we_credentials (cd_additional_wifi d ! n))
           (opt_filter (\<lambda>n. we_ssid (cd_additional_wifi d ! n) = ssid) pos)) = Inr secret"
proof -
  obtain k where k: "validate_credential_id (effective_id i) = Inr k"
    using assms(1) by (auto simp: set_wifi_data_def res_simps)
  then have v: "k \<noteq> default_credential_id" "id_key k = id_key (effective_id i)"
    using validate_key [OF k assms(3)] assms(2) by auto
  then obtain secret where
    s: "require_or_keep_secret c (map_option (\<lambda>n. we_credentials (cd_additional_wifi d ! n))
           (opt_filter (\<lambda>n. we_ssid (cd_additional_wifi d ! n) = ssid)
              (list_position (\<lambda>e. id_key (we_id e) = id_key k) (cd_additional_wifi d)))) = Inr secret"
    and d': "d' = d\<lparr>cd_additional_wifi := place (list_position (\<lambda>e. id_key (we_id e) = id_key k) (cd_additional_wifi d))
                \<lparr>we_id = k, we_ssid = ssid, we_credentials = secret\<rparr> (cd_additional_wifi d)\<rparr>"
    using assms(1) k v by (auto simp: set_wifi_data_def Let_def map_res_Inr bind_res_Inr same_id_key)
  show ?thesis
    by (rule that [OF d' [unfolded v(2)] v(2) refl s [unfolded v(2)]])
qed

lemma position_find: "list_position q es = Some k \<Longrightarrow> find q es = Some (es ! k)"
  by (induction es arbitrary: k) (auto split: if_splits)

lemma secret_source:
  "require_or_keep_secret c old = Inr s \<Longrightarrow> s \<noteq> [] \<and> (c = Some s \<or> ((c = None \<or> c = Some []) \<and> old = Some s))"
  by (auto simp: require_or_keep_secret_def opt_filter_def split: option.splits if_splits)

lemma set_wifi_lookup:
  assumes set: "set_wifi_data i ssid c d = Inr d'" and w: "whole (effective_id i)"
  shows "\<exists>secret. secret \<noteq> [] \<and> (c = Some secret \<or> ((c = None \<or> c = Some []) \<and> wifi_credentials i d = Some (ssid, secret)))
     \<and> (\<forall>j. wifi_credentials j d' =
          (if id_key (effective_id j) = id_key (effective_id i) then Some (ssid, secret) else wifi_credentials j d))"
proof (cases "id_key (effective_id i) = default_credential_id")
  case True
  from set True w obtain secret where d': "d' = d\<lparr>cd_wifi_ssid := Some ssid, cd_wifi_credentials := Some secret\<rparr>"
    and s: "require_or_keep_secret c (if cd_wifi_ssid d = Some ssid then cd_wifi_credentials d else None) = Inr secret"
    by (rule set_wifi_default)
  show ?thesis
    using secret_source [OF s] True
    by (intro exI [of _ secret]) (auto simp: wifi_lookup d' split: if_splits)
next
  case False
  from set False w obtain secret k pos where
    d': "d' = d\<lparr>cd_additional_wifi := place pos \<lparr>we_id = k, we_ssid = ssid, we_credentials = secret\<rparr> (cd_additional_wifi d)\<rparr>"
    and k: "id_key k = id_key (effective_id i)"
    and pos: "pos = list_position (\<lambda>e. id_key (we_id e) = id_key (effective_id i)) (cd_additional_wifi d)"
    and s: "require_or_keep_secret c (map_option (\<lambda>n. we_credentials (cd_additional_wifi d ! n))
           (opt_filter (\<lambda>n. we_ssid (cd_additional_wifi d ! n) = ssid) pos)) = Inr secret"
    by (rule set_wifi_additional)
  let ?e = "\<lparr>we_id = k, we_ssid = ssid, we_credentials = secret\<rparr>"
  have find: "find (\<lambda>e. id_key (we_id e) = id_key j) (place pos ?e (cd_additional_wifi d))
      = (if id_key (effective_id i) = id_key j then Some ?e
         else find (\<lambda>e. id_key (we_id e) = id_key j) (cd_additional_wifi d))" for j
    unfolding pos
    by (subst find_place) (auto simp: k)
  have old: "wifi_credentials i d = Some (ssid, secret)"
    if o: "map_option (\<lambda>n. we_credentials (cd_additional_wifi d ! n))
       (opt_filter (\<lambda>n. we_ssid (cd_additional_wifi d ! n) = ssid) pos) = Some secret"
  proof -
    obtain n where n: "pos = Some n" "we_ssid (cd_additional_wifi d ! n) = ssid"
        "we_credentials (cd_additional_wifi d ! n) = secret"
      using o by (auto simp: opt_filter_Some)
    then show ?thesis using False position_find [OF n(1) [unfolded pos]] by (simp add: wifi_lookup)
  qed
  show ?thesis
    using secret_source [OF s] old False
    by (intro exI [of _ secret]) (auto simp: wifi_lookup d' find)
qed

subsection \<open>Registrations and summaries\<close>

lemma registrations_lookup:
  "icd_ok es \<Longrightarrow> map_of (filter_map (\<lambda>e. map_option (\<lambda>key. (ie_node_id e, key, ie_counter e)) (dec (ie_key e))) es) n
     = opt_bind (icd_get es n) (\<lambda>(k, c). map_option (\<lambda>key. (key, c)) (dec k))"
proof (induction es)
  case Nil
  then show ?case by (simp add: icd_get_def)
next
  case (Cons e es)
  have ok: "icd_ok es" and fresh: "\<forall>x \<in> set es. ie_node_id x \<noteq> ie_node_id e"
    using Cons.prems by (auto simp: icd_ok_def image_iff)
  have none: "icd_get es (ie_node_id e) = None"
    using fresh by (auto simp: icd_get_def find_None_iff)
  show ?case
  proof (cases "dec (ie_key e)")
    case None
    then show ?thesis using Cons.IH [OF ok] none by (auto simp: icd_get_def)
  next
    case (Some key)
    then show ?thesis using Cons.IH [OF ok] by (auto simp: icd_get_def)
  qed
qed

lemma icd_get_note:
  "icd_get (update_first (\<lambda>e. ie_node_id e = n) (\<lambda>e. e\<lparr>ie_counter := Some c\<rparr>) es) m =
     (if m = n then map_option (\<lambda>(k, _). (k, Some c)) (icd_get es m) else icd_get es m)"
  by (induction es) (auto simp: icd_get_def)

text \<open>The same configuration with other secrets in place of its own.\<close>

definition with_secrets :: "(string \<Rightarrow> string) \<Rightarrow> icd_entry list \<Rightarrow> config_data \<Rightarrow> config_data" where
  "with_secrets f icd d = d
     \<lparr>cd_wifi_credentials := map_option f (cd_wifi_credentials d),
      cd_additional_wifi := map (\<lambda>e. e\<lparr>we_credentials := f (we_credentials e)\<rparr>) (cd_additional_wifi d),
      cd_icd_registrations := icd\<rparr>"

subsection \<open>Properties\<close>

text \<open>C1: a node id is never handed out twice: over any run, with failed writes, kills in the
  middle of any operation and restarts from the file, the ids handed out are distinct, none is
  zero, all are below the counter, and the next one handed out is new. The one assumption is that the
  64-bit counter is not exhausted.\<close>

theorem node_ids_never_reissued:
  assumes "config_run enc path cs ids"
  shows "distinct ids \<and> (\<forall>i \<in> set ids. 1 \<le> i \<and> i < cd_next_node_id (cs_data cs))
    \<and> (case snd (allocate_node_id io cs) of Inl _ \<Rightarrow> True | Inr i \<Rightarrow> i \<notin> set ids)"
proof -
  have inv: "run_inv path cs ids" by (rule run_inv [OF assms])
  obtain cs' r where a: "allocate_node_id io cs = (cs', r)" by (cases "allocate_node_id io cs")
  have "i \<notin> set ids" if "r = Inr i" for i
    using mutate_cases [OF a [unfolded allocate_node_id_def]] that inv
    by (auto simp: run_inv_def below_def Let_def)
  then show ?thesis using inv a by (auto simp: run_inv_def below_def split: sum.split)
qed

abbreviation at_counter :: "u64 \<Rightarrow> config_store" where
  "at_counter n \<equiv> \<lparr>cs_data = config_default\<lparr>cd_next_node_id := n\<rparr>, cs_path = Some ''c'',
     cs_disk = Some (config_to_json (config_default\<lparr>cd_next_node_id := n\<rparr>))\<rparr>"

lemma at_counter_alloc:
  "1 \<le> n \<Longrightarrow> config_apply enc True Allocate (at_counter n) = (at_counter (n + 1), [n])"
  by (simp add: allocate_node_id_def config_mutate_def config_save_def Let_def max_def)

lemma config_run_example: "config_run (\<lambda>_. []) ''c'' (at_counter 4) [1, 3]"
proof -
  let ?s = "\<lparr>cs_data = config_default, cs_path = Some ''c'', cs_disk = None\<rparr>"
  have a: "config_run (\<lambda>_. []) ''c'' ?s []"
    by (rule run_start) (simp add: config_load_def)
  have "config_apply (\<lambda>_. []) True Allocate ?s = (at_counter 2, [1])"
    by (simp add: allocate_node_id_def config_mutate_def config_save_def Let_def
        config_default_def default_next_node_id_def)
  then have b: "config_run (\<lambda>_. []) ''c'' (at_counter 2) [1]"
    using run_op [OF a, of Allocate] by (simp add: config_default_def default_next_node_id_def)
  have "config_load ''c'' (cs_disk (at_counter 3)) = Inr (at_counter 3)"
    by (simp add: config_load_def config_rt)
  then have c: "config_run (\<lambda>_. []) ''c'' (at_counter 3) [1]"
    using run_killed [OF b, of Allocate True] at_counter_alloc [of 2 "\<lambda>_. []"] by simp
  show ?thesis
    using run_op [OF c, of Allocate True] at_counter_alloc [of 3 "\<lambda>_. []"] by simp
qed

theorem node_ids_never_reissued_witness:
  "distinct [1, 3 :: u64] \<and> 1 < cd_next_node_id (cs_data (at_counter 4)) \<and> 3 < cd_next_node_id (cs_data (at_counter 4))"
  using node_ids_never_reissued [OF config_run_example] by auto

text \<open>C10: credential ids stay unambiguous over any run: every stored Wi-Fi or Thread id is
  trimmed, non-empty and not reserved, no two ids of a list are equal up to case, and no node
  has two check-in registrations; the file, when there is one, can be read back.\<close>

theorem credential_ids_unambiguous:
  assumes "config_run enc path cs ids"
  shows "ids_ok (map we_id (cd_additional_wifi (cs_data cs)))
    \<and> ids_ok (map te_id (cd_additional_thread (cs_data cs)))
    \<and> icd_ok (cd_icd_registrations (cs_data cs))
    \<and> (\<exists>cs'. config_load path (cs_disk cs) = Inr cs' \<and> creds_ok (cs_data cs'))"
  using run_creds [OF assms] run_inv [OF assms]
  by (auto simp: creds_ok_def run_inv_def disk_covers_def config_load_def res_simps
      ids_ok_def icd_ok_def config_default_def split: option.splits)

theorem credential_ids_unambiguous_witness:
  "\<exists>cs'. config_load ''c'' (cs_disk (at_counter 4)) = Inr cs' \<and> creds_ok (cs_data cs')"
  using credential_ids_unambiguous [OF config_run_example] by blast

text \<open>After a successful Wi-Fi write every spelling of that id (any case, surrounding blanks)
  reads back the new network with a non-empty password: the one given, or, when none was given,
  the one already stored for the very same network; every other id reads what it did before.\<close>

theorem wifi_write_read:
  assumes "set_wifi_credentials io i ssid c cs = (cs', Inr ())" and "whole (effective_id i)"
  shows "\<exists>secret. secret \<noteq> []
    \<and> (c = Some secret \<or> (c = None \<or> c = Some []) \<and> wifi_credentials i (cs_data cs) = Some (ssid, secret))
    \<and> (\<forall>j. wifi_credentials j (cs_data cs') =
          (if same_id (effective_id j) (effective_id i) then Some (ssid, secret) else wifi_credentials j (cs_data cs)))"
proof -
  obtain d where d: "set_wifi_data i ssid c (cs_data cs) = Inr d"
    and s: "config_save io (cs\<lparr>cs_data := d\<rparr>) = (cs', Inr ())"
    using assms(1) by (auto simp: set_wifi_credentials_def split: sum.splits)
  have "cs_data cs' = d" using save_cases [OF s] by simp
  then show ?thesis using set_wifi_lookup [OF d assms(2)] by (simp add: same_id_key)
qed

theorem wifi_write_read_witness:
  "\<exists>cs'. set_wifi_credentials True None ''net'' (Some ''pw'') config_in_memory = (cs', Inr ())
     \<and> wifi_credentials (Some ''DEFAULT '') (cs_data cs') = Some (''net'', ''pw'')"
proof -
  let ?d = "config_default\<lparr>cd_wifi_ssid := Some ''net'', cd_wifi_credentials := Some ''pw''\<rparr>"
  let ?cs = "config_in_memory\<lparr>cs_data := ?d\<rparr>"
  have w: "whole (effective_id None)" by code_simp
  have "validate_credential_id default_credential_id = Inr default_credential_id" by code_simp
  then have "set_wifi_data None ''net'' (Some ''pw'') config_default = Inr ?d"
    by (simp only: set_wifi_data_def effective_id_def unwrap_or_simps bind_res.simps if_True simp_thms Let_def
        require_or_keep_secret_def) simp
  then have s: "set_wifi_credentials True None ''net'' (Some ''pw'') config_in_memory = (?cs, Inr ())"
    by (simp add: set_wifi_credentials_def config_in_memory_def config_save_def)
  have "trim ''DEFAULT '' = ''DEFAULT''" and "to_ascii_lowercase ''DEFAULT'' = ''default''" by code_simp+
  then have same: "same_id (effective_id (Some ''DEFAULT '')) (effective_id None)"
    by (simp add: effective_id_def same_id_key id_key_default) (simp add: id_key_def default_credential_id_def)
  obtain secret where "Some ''pw'' = Some secret \<or> (Some ''pw'' = None \<or> Some ''pw'' = Some [])
      \<and> wifi_credentials None (cs_data config_in_memory) = Some (''net'', secret)"
    and r: "\<forall>j. wifi_credentials j (cs_data ?cs) =
      (if same_id (effective_id j) (effective_id None) then Some (''net'', secret)
       else wifi_credentials j (cs_data config_in_memory))"
    using wifi_write_read [OF s w] by blast
  then have "secret = ''pw''" by auto
  then have "wifi_credentials (Some ''DEFAULT '') (cs_data ?cs) = Some (''net'', ''pw'')" using r same by metis
  then show ?thesis using s by blast
qed

text \<open>Secrets are write-only: the summaries a client can read are the same whatever the Wi-Fi
  passwords and check-in keys are, and both lists always hold an entry with the reserved
  default id, in first place.\<close>

theorem summaries_hide_secrets:
  "summaries (with_secrets f icd d) = summaries d
   \<and> list_ex (\<lambda>e. ws_id e = default_credential_id) (sm_wifi (summaries d))
   \<and> list_ex (\<lambda>e. ts_id e = default_credential_id) (sm_thread (summaries d))"
proof -
  have "summaries (with_secrets f icd d) = summaries d"
    by (simp add: summaries_def with_secrets_def comp_def Let_def split: option.split)
  then show ?thesis by (simp add: summaries_def Let_def)
qed

text \<open>The fabric label is never blank and never longer than 32 characters, whatever a client
  asks for; a label that is already trimmed and short enough is kept as it is.\<close>

theorem fabric_label_bounds:
  assumes "whole s"
  shows "normalize_fabric_label (Some s) \<noteq> []
    \<and> length (chars (normalize_fabric_label (Some s))) \<le> max_fabric_label_len
    \<and> (trim s = s \<and> s \<noteq> [] \<and> length (chars s) \<le> max_fabric_label_len \<longrightarrow> normalize_fabric_label (Some s) = s)
    \<and> (trim s = [] \<longrightarrow> normalize_fabric_label (Some s) = default_fabric_label)"
proof -
  let ?e = "if trim s = [] then default_fabric_label else trim s"
  have label: "normalize_fabric_label (Some s) = take_chars max_fabric_label_len ?e"
    by (simp add: normalize_fabric_label_def)
  have d: "whole default_fabric_label" "default_fabric_label \<noteq> []"
      "take_chars max_fabric_label_len default_fabric_label = default_fabric_label"
    by code_simp+
  have e: "whole ?e" "?e \<noteq> []" using d whole_trim [OF assms] by auto
  have short: "take_chars max_fabric_label_len s = s" if "length (chars s) \<le> max_fabric_label_len"
    using that by (simp add: take_chars_def)
  show ?thesis
    unfolding label
    using take_chars_ne [OF _ e(2), of max_fabric_label_len] length_take_chars [OF e(1), of max_fabric_label_len] d short
    by (auto simp: max_fabric_label_len_def)
qed

theorem fabric_label_bounds_witness:
  "normalize_fabric_label (Some '' '') = default_fabric_label"
proof -
  have w: "whole '' ''" and t: "trim '' '' = []" by code_simp+
  show ?thesis using fabric_label_bounds [OF w] t by blast
qed

text \<open>C13: what is written to the file is what a restart reads: label, counter, every credential,
  every registration with its counter; an empty object stands for a fresh configuration.\<close>

theorem config_file_round_trip:
  "config_from_json (config_to_json d) = Some d \<and> config_from_json (JObj []) = Some config_default"
  by (simp add: config_rt) (simp add: config_from_json_def with_default_def config_default_def bt_get_def)

text \<open>Registering a device replaces its key and forgets the old counter, so that a check-in
  under the old key no longer decodes; other devices' registrations are untouched. Noting a
  counter changes that counter only.\<close>

theorem icd_registration_replaced:
  assumes "icd_ok (cd_icd_registrations (cs_data cs))" and "dec (enc key) = Some key"
  shows "map_of (icd_registrations dec (cs_data (fst (set_icd_registration enc io n key cs)))) m
      = (if m = n then Some (key, None) else map_of (icd_registrations dec (cs_data cs)) m)
    \<and> map_of (icd_registrations dec (cs_data (fst (remove_icd_registration io n cs)))) m
      = (if m = n then None else map_of (icd_registrations dec (cs_data cs)) m)
    \<and> map_of (icd_registrations dec (cs_data (fst (note_icd_counter io n c cs)))) m
      = (if m = n then map_option (\<lambda>(k, _). (k, Some c)) (map_of (icd_registrations dec (cs_data cs)) m)
         else map_of (icd_registrations dec (cs_data cs)) m)"
proof -
  let ?es = "cd_icd_registrations (cs_data cs)"
  let ?l = "\<lambda>es. opt_bind (icd_get es m) (\<lambda>(k, c). map_option (\<lambda>key. (key, c)) (dec k))"
  have look: "map_of (icd_registrations dec d) m = ?l (cd_icd_registrations d)"
    if "icd_ok (cd_icd_registrations d)" for d
    using registrations_lookup [OF that] by (simp add: icd_registrations_def)
  have note_ok: "icd_ok (update_first (\<lambda>e. ie_node_id e = n) (\<lambda>e. e\<lparr>ie_counter := Some c\<rparr>) ?es)"
    using assms(1) by (simp add: icd_ok_def map_update_first)
  have set: "cd_icd_registrations (cs_data (fst (set_icd_registration enc io n key cs))) = icd_put n (enc key, None) ?es"
    using apply_data [of enc io "SetIcd n key" cs] by simp
  have del: "cd_icd_registrations (cs_data (fst (remove_icd_registration io n cs))) = icd_del n ?es"
    using apply_data [of enc io "RemoveIcd n" cs] by simp
  have noted: "cd_icd_registrations (cs_data (fst (note_icd_counter io n c cs)))
      = update_first (\<lambda>e. ie_node_id e = n) (\<lambda>e. e\<lparr>ie_counter := Some c\<rparr>) ?es"
    using apply_data [of enc io "NoteIcd n c" cs] by simp
  show ?thesis
    using look [of "cs_data (fst (set_icd_registration enc io n key cs))"]
      look [of "cs_data (fst (remove_icd_registration io n cs))"]
      look [of "cs_data (fst (note_icd_counter io n c cs))"] look [OF assms(1)]
      icd.ok_put [OF assms(1), of n "(enc key, None)"] icd.ok_del [OF assms(1), of n] note_ok assms(2)
    by (cases "icd_get ?es m")
       (auto simp: set del noted icd_get_put icd_get_del icd_get_note option.map_comp comp_def split_def)
qed

theorem icd_registration_replaced_witness:
  "map_of (icd_registrations (\<lambda>s. Some (bytes_of_str s))
     (cs_data (fst (set_icd_registration str_of_bytes True 5 [65] config_in_memory)))) 5 = Some ([65], None)"
proof -
  have a: "icd_ok (cd_icd_registrations (cs_data config_in_memory))" by code_simp
  have b: "Some (bytes_of_str (str_of_bytes [65])) = Some [65]" by code_simp
  show ?thesis
    using icd_registration_replaced [where io = True and n = 5 and m = 5 and enc = str_of_bytes
        and dec = "\<lambda>s. Some (bytes_of_str s)" and key = "[65]", OF a b] by simp
qed

end
