(* ===== verification/Ota_Registry.thy ===== *)
theory Ota_Registry
  imports Errors
begin

section \<open>Firmware images (\<open>api/ota.rs\<close>, \<open>matter/ota_provider.rs\<close>)\<close>

text \<open>
  The registry of upload reservations and stored images, the header of a Matter OTA file, and the
  provider a device downloads from. The mutexes make each operation atomic. An instant is a
  number of seconds; the fresh upload id and the TLV decoder of rs-matter are arguments. A read
  into a buffer is the bytes copied into it.
\<close>

datatype update_source = MainNetDcl | TestNetDcl | Local

record software_version =
  sv_vid :: u16
  sv_pid :: u16
  sv_software_version :: u64
  sv_software_version_string :: string
  sv_firmware_information :: "string option"
  sv_min_applicable :: u64
  sv_max_applicable :: u64
  sv_release_notes_url :: "string option"
  sv_update_source :: update_source

record upload_ticket =
  ut_upload_id :: string
  ut_expires_in :: nat
  ut_max_size :: nat

definition upload_ttl :: nat where "upload_ttl = 60"
definition max_upload_size :: nat where "max_upload_size = 64 * 1024 * 1024"
definition max_in_flight_uploads :: nat where "max_in_flight_uploads = 4"

record reservation =
  rv_peer :: string
  rv_expires_at :: nat

record stored_image =
  si_version :: software_version
  si_bytes :: bytes

definition image_matches :: "stored_image \<Rightarrow> u16 \<Rightarrow> u16 \<Rightarrow> u64 \<Rightarrow> bool" where
  "image_matches i vid pid ver = (sv_vid (si_version i) = vid \<and> sv_pid (si_version i) = pid
     \<and> sv_software_version (si_version i) = ver)"

record ota_registry =
  or_reservations :: "(string, reservation) btree"
  or_images :: "stored_image list"

definition ota_new :: ota_registry where
  "ota_new = \<lparr>or_reservations = [], or_images = []\<rparr>"

text \<open>The part of an address before the port: cut at the last colon that no bracket follows.\<close>

definition host_of :: "string \<Rightarrow> string" where
  "host_of peer =
     (case split_once (CHR '':'') (rev peer) of
        Some (port, host) \<Rightarrow> if CHR '']'' \<in> set port then peer else rev host
      | None \<Rightarrow> peer)"

subsection \<open>Reservations\<close>

definition ota_reserve ::
  "string \<Rightarrow> nat \<Rightarrow> string \<Rightarrow> ota_registry \<Rightarrow> ota_registry \<times> (api_error + upload_ticket)" where
  "ota_reserve fresh now peer r =
     (let live = bt_retain (\<lambda>_ v. rv_expires_at v > now) (or_reservations r) in
      if length live \<ge> max_in_flight_uploads
      then (r\<lparr>or_reservations := live\<rparr>,
            Inl (err_ota_upload ''Too many uploads are already in flight; retry once one completes or expires''))
      else (r\<lparr>or_reservations := bt_insert fresh \<lparr>rv_peer = peer, rv_expires_at = now + upload_ttl\<rparr> live\<rparr>,
            Inr \<lparr>ut_upload_id = fresh, ut_expires_in = upload_ttl, ut_max_size = max_upload_size\<rparr>))"

definition ota_redeem ::
  "nat \<Rightarrow> string \<Rightarrow> string \<Rightarrow> ota_registry \<Rightarrow> ota_registry \<times> (api_error + unit)" where
  "ota_redeem now upload_id peer r =
     (case bt_get (or_reservations r) upload_id of
        None \<Rightarrow> (r, Inl (err_ota_upload ''Unknown or already-used upload id''))
      | Some v \<Rightarrow>
          if rv_expires_at v \<le> now
          then (r\<lparr>or_reservations := bt_remove upload_id (or_reservations r)\<rparr>,
                Inl (err_ota_upload ''The upload id has expired''))
          else if host_of (rv_peer v) \<noteq> host_of peer
          then (r, Inl (err_ota_upload ''The upload id was reserved by a different client''))
          else (r\<lparr>or_reservations := bt_remove upload_id (or_reservations r)\<rparr>, Inr ()))"

subsection \<open>Images\<close>

definition ota_store :: "stored_image \<Rightarrow> ota_registry \<Rightarrow> ota_registry" where
  "ota_store img r = r\<lparr>or_images :=
     filter (\<lambda>e. sv_vid (si_version e) \<noteq> sv_vid (si_version img)
               \<or> sv_pid (si_version e) \<noteq> sv_pid (si_version img)
               \<or> sv_software_version (si_version e) \<noteq> sv_software_version (si_version img)) (or_images r)
     @ [img]\<rparr>"

definition applies :: "u16 \<Rightarrow> u16 \<Rightarrow> u64 \<Rightarrow> stored_image \<Rightarrow> bool" where
  "applies vid pid current i =
     (let v = si_version i in
      sv_vid v = vid \<and> sv_pid v = pid \<and> sv_software_version v > current
      \<and> sv_min_applicable v \<le> current \<and> sv_max_applicable v \<ge> current)"

text \<open>\<open>max_by_key\<close> keeps the last of equal maxima.\<close>

fun max_by_key :: "('a \<Rightarrow> 'k::linorder) \<Rightarrow> 'a list \<Rightarrow> 'a option" where
  "max_by_key f [] = None"
| "max_by_key f (x # xs) =
     (case max_by_key f xs of None \<Rightarrow> Some x | Some y \<Rightarrow> if f x \<le> f y then Some y else Some x)"

definition best_match :: "u16 \<Rightarrow> u16 \<Rightarrow> u64 \<Rightarrow> ota_registry \<Rightarrow> software_version option" where
  "best_match vid pid current r =
     map_option si_version
       (max_by_key (\<lambda>i. sv_software_version (si_version i)) (filter (applies vid pid current) (or_images r)))"

definition image_count :: "ota_registry \<Rightarrow> nat" where
  "image_count r = length (or_images r)"

definition image_size :: "u16 \<Rightarrow> u16 \<Rightarrow> u64 \<Rightarrow> ota_registry \<Rightarrow> nat option" where
  "image_size vid pid ver r =
     map_option (\<lambda>i. length (si_bytes i)) (find (\<lambda>i. image_matches i vid pid ver) (or_images r))"

definition read_image :: "u16 \<Rightarrow> u16 \<Rightarrow> u64 \<Rightarrow> nat \<Rightarrow> nat \<Rightarrow> ota_registry \<Rightarrow> bytes option" where
  "read_image vid pid ver offset buf_len r =
     (case find (\<lambda>i. image_matches i vid pid ver) (or_images r) of
        None \<Rightarrow> None
      | Some i \<Rightarrow>
          if offset \<ge> length (si_bytes i) then Some []
          else let remaining = drop offset (si_bytes i)
               in Some (take (min (length remaining) buf_len) remaining))"

subsection \<open>The OTA file header\<close>

definition ota_magic :: nat where "ota_magic = 0x1BEEF11E"
definition fixed_header_len :: nat where "fixed_header_len = 16"

fun le_nat :: "bytes \<Rightarrow> nat" where
  "le_nat [] = 0"
| "le_nat (b # bs) = unat b + 256 * le_nat bs"

definition header_error :: "string \<Rightarrow> api_error" where
  "header_error s = err_ota_upload s"

definition parse_ota_header :: "(bytes \<Rightarrow> json option) \<Rightarrow> bytes \<Rightarrow> api_error + software_version" where
  "parse_ota_header decode_tlv bs =
     (if length bs < fixed_header_len then Inl (header_error ''The image is too short to be an OTA file'')
      else if le_nat (take 4 bs) \<noteq> ota_magic
      then Inl (header_error ''The image does not start with the Matter OTA file identifier'')
      else let header_end = fixed_header_len + le_nat (take 4 (drop 12 bs)) in
        if header_end > length bs
        then Inl (header_error ''The OTA header extends past the end of the file'')
        else
          bind_res (ok_or (header_error ''The OTA header is not valid TLV'')
                      (decode_tlv (take (header_end - fixed_header_len) (drop fixed_header_len bs)))) (\<lambda>decoded.
          let integer = (\<lambda>tag. opt_bind (jget decoded tag) as_u64);
              text_of = (\<lambda>tag. opt_bind (jget decoded tag) as_str) in
          bind_res (ok_or (header_error ''The OTA header has no vendor id'') (integer ''0'')) (\<lambda>vid.
          bind_res (ok_or (header_error ''The OTA header has no product id'') (integer ''1'')) (\<lambda>pid.
          bind_res (ok_or (header_error ''The OTA header has no software version'') (integer ''2'')) (\<lambda>ver.
            Inr \<lparr>sv_vid = ucast vid, sv_pid = ucast pid, sv_software_version = ver,
                 sv_software_version_string = unwrap_or (text_of ''3'') (show_u ver),
                 sv_firmware_information = None,
                 sv_min_applicable = unwrap_or (integer ''5'') 0,
                 sv_max_applicable = unwrap_or (integer ''6'') 0xFFFFFFFFFFFFFFFF,
                 sv_release_notes_url = text_of ''7'',
                 sv_update_source = Local\<rparr>)))))"

subsection \<open>The provider a device downloads from\<close>

definition update_token_len :: nat where "update_token_len = 8"

definition designator :: "u16 \<Rightarrow> u16 \<Rightarrow> u64 \<Rightarrow> string" where
  "designator vid pid ver = show_u vid @ ''-'' @ show_u pid @ ''-'' @ show_u ver @ ''.ota''"

definition parse_width :: "nat \<Rightarrow> string \<Rightarrow> 'a::len word option" where
  "parse_width limit s = map_option of_nat (parse_uint 10 limit s)"

definition parse_designator :: "bytes \<Rightarrow> (u16 \<times> u16 \<times> u64) option" where
  "parse_designator d =
     opt_bind (opt_bind (from_utf8 d) (strip_suffix ''.ota'')) (\<lambda>text.
       case split_on (CHR ''-'') text of
         [v, p, n] \<Rightarrow>
           opt_bind (parse_width u16_max v) (\<lambda>vid.
           opt_bind (parse_width u16_max p) (\<lambda>pid.
           opt_bind (parse_width u64_max n) (\<lambda>ver. Some (vid, pid, ver))))
       | _ \<Rightarrow> None)"

record image_meta =
  im_version :: u32
  im_designator :: string
  im_update_token :: bytes
  im_size :: "nat option"

fun be_bytes :: "nat \<Rightarrow> nat \<Rightarrow> bytes" where
  "be_bytes 0 n = []"
| "be_bytes (Suc k) n = be_bytes k (n div 256) @ [of_nat (n mod 256)]"

definition provider_query :: "u16 \<Rightarrow> u16 \<Rightarrow> u32 \<Rightarrow> nat \<Rightarrow> ota_registry \<Rightarrow> image_meta option" where
  "provider_query vid pid current buf_len r =
     (case best_match vid pid (ucast current) r of
        None \<Rightarrow> None
      | Some img \<Rightarrow>
          let ver = sv_software_version img;
              name = designator vid pid ver in
          if buf_len < length name + update_token_len then None
          else Some \<lparr>im_version = ucast ver, im_designator = name,
                     im_update_token = be_bytes update_token_len (unat ver),
                     im_size = image_size vid pid ver r\<rparr>)"

definition provider_size :: "bytes \<Rightarrow> ota_registry \<Rightarrow> nat option" where
  "provider_size d r = opt_bind (parse_designator d) (\<lambda>(vid, pid, ver). image_size vid pid ver r)"

definition provider_read :: "bytes \<Rightarrow> nat \<Rightarrow> nat \<Rightarrow> ota_registry \<Rightarrow> bytes option" where
  "provider_read d offset buf_len r =
     opt_bind (parse_designator d) (\<lambda>(vid, pid, ver). read_image vid pid ver offset buf_len r)"

lemma read_within:
  assumes "read_image v p n off len r = Some (b # bs)"
  shows "\<exists>i. find (\<lambda>i. image_matches i v p n) (or_images r) = Some i \<and> off + length (b # bs) \<le> length (si_bytes i)"
proof -
  obtain i where i: "find (\<lambda>i. image_matches i v p n) (or_images r) = Some i"
    and off: "off < length (si_bytes i)"
    and t: "b # bs = take (min (length (drop off (si_bytes i))) len) (drop off (si_bytes i))"
    using assms by (auto simp: read_image_def Let_def not_le split: option.splits if_splits)
  have "length (b # bs) \<le> length (si_bytes i) - off" unfolding t by simp
  with i off show ?thesis by auto
qed

text \<open>A device's transfer: it reads blocks at the offset it has reached until a read is empty.\<close>

function transfer :: "bytes \<Rightarrow> nat \<Rightarrow> nat \<Rightarrow> ota_registry \<Rightarrow> bytes option" where
  "transfer d block offset r =
     (case provider_read d offset block r of
        None \<Rightarrow> None
      | Some [] \<Rightarrow> Some []
      | Some (b # bs) \<Rightarrow> map_option (append (b # bs)) (transfer d block (offset + length (b # bs)) r))"
  by pat_completeness auto

termination
proof (relation "measure (\<lambda>(d, block, offset, r). (case provider_size d r of None \<Rightarrow> 0 | Some n \<Rightarrow> n - offset))")
  show "wf (measure (\<lambda>(d, block, offset, r). (case provider_size d r of None \<Rightarrow> 0 | Some n \<Rightarrow> n - offset)))"
    by simp
next
  fix d :: bytes and block offset :: nat and r :: ota_registry and x2 b and bs :: bytes
  assume "provider_read d offset block r = Some x2" "x2 = b # bs"
  then obtain v p n where d: "parse_designator d = Some (v, p, n)" and rd: "read_image v p n offset block r = Some (b # bs)"
    by (auto simp: provider_read_def Option.bind_eq_Some_conv)
  then obtain i where "find (\<lambda>i. image_matches i v p n) (or_images r) = Some i" "offset + length (b # bs) \<le> length (si_bytes i)"
    using read_within by blast
  then show "((d, block, offset + length (b # bs), r), (d, block, offset, r))
      \<in> measure (\<lambda>(d, block, offset, r). (case provider_size d r of None \<Rightarrow> 0 | Some n \<Rightarrow> n - offset))"
    by (simp add: provider_size_def d image_size_def)
qed

declare transfer.simps [simp del]

subsection \<open>Laws\<close>

lemma max_by_key_None [simp]: "max_by_key f xs = None \<longleftrightarrow> xs = []"
  by (cases xs) (auto split: option.splits)

lemma max_by_key_Some: "max_by_key f xs = Some y \<Longrightarrow> y \<in> set xs \<and> (\<forall>x \<in> set xs. f x \<le> f y)"
proof (induction xs arbitrary: y)
  case Nil
  then show ?case by simp
next
  case (Cons x xs)
  show ?case
  proof (cases "max_by_key f xs")
    case None
    then show ?thesis using Cons.prems by simp
  next
    case (Some z)
    then show ?thesis using Cons.IH [OF Some] Cons.prems by (auto split: if_splits dest: order.trans)
  qed
qed

text \<open>At most one image per product and version.\<close>

definition image_key :: "stored_image \<Rightarrow> u16 \<times> u16 \<times> u64" where
  "image_key i = (sv_vid (si_version i), sv_pid (si_version i), sv_software_version (si_version i))"

lemma image_matches_key: "image_matches i v p n \<longleftrightarrow> image_key i = (v, p, n)"
  by (auto simp: image_matches_def image_key_def)

lemma store_filter: "or_images (ota_store img r) = filter (\<lambda>e. image_key e \<noteq> image_key img) (or_images r) @ [img]"
  by (simp add: ota_store_def image_key_def)

lemma store_reservations [simp]: "or_reservations (ota_store img r) = or_reservations r"
  by (simp add: ota_store_def)

lemma find_snoc_filter: "find p (filter (\<lambda>x. \<not> p x) xs @ [y]) = (if p y then Some y else None)"
  by (induction xs) auto

lemma stored_found: "image_key img = (v, p, n) \<Longrightarrow> find (\<lambda>i. image_matches i v p n) (or_images (ota_store img r)) = Some img"
  using find_snoc_filter [of "\<lambda>i. image_key i = (v, p, n)" "or_images r" img]
  by (simp add: store_filter image_matches_key)

subsection \<open>Designators\<close>

lemma utf8_ascii: "is_ascii s \<Longrightarrow> from_utf8 (bytes_of_str s) = Some s"
proof -
  assume a: "is_ascii s"
  have "unat (of_nat (byte_of c) :: u8) = byte_of c" for c
    using byte_of_less [of c] unat_of_nat_small [of "byte_of c", where 'a = 8] by simp
  then have m: "map unat (bytes_of_str s) = map byte_of s" by (simp add: bytes_of_str_def)
  have "utf8_ok (map byte_of s)" using a by (rule utf8_ok_ascii)
  then show ?thesis by (simp add: from_utf8_def m)
qed

lemma digit_ascii: "is_digit c \<Longrightarrow> byte_of c < 128"
  by (simp add: is_digit_def)

lemma show_u_ascii: "c \<in> set (show_u w) \<Longrightarrow> byte_of c < 128"
  by (auto simp: show_u_def dest!: show_nat_digits digit_ascii)

lemma show_u_no_dash: "CHR ''-'' \<notin> set (show_u w)"
  using show_nat_digits digit_not by (auto simp: show_u_def)

lemma designator_ascii: "is_ascii (designator v p n)"
  by (auto simp: is_ascii_def designator_def list_all_iff dest: show_u_ascii) (simp_all add: byte_of_def)

lemma parse_width_show:
  assumes "LENGTH('a::len) \<le> 64" and "limit = 2 ^ LENGTH('a) - 1"
  shows "parse_width limit (show_u (w :: 'a word)) = Some w"
proof -
  have "unat w \<le> limit" using unat_bound [of w] assms(2) by linarith
  then show ?thesis by (simp only: parse_width_def show_u_def parse_show option.map of_nat_unat_id)
qed

lemma parse_designator: "parse_designator (bytes_of_str (designator v p n)) = Some (v, p, n)"
proof -
  have d: "designator v p n = (show_u v @ ''-'' @ show_u p @ ''-'' @ show_u n) @ ''.ota''"
    by (simp add: designator_def)
  have s: "split_on (CHR ''-'') (show_u v @ ''-'' @ show_u p @ ''-'' @ show_u n) = [show_u v, show_u p, show_u n]"
    by (simp add: split_on_append split_on_free show_u_no_dash)
  show ?thesis
    unfolding parse_designator_def utf8_ascii [OF designator_ascii]
    by (simp only: Option.bind.bind_lunit d strip_suffix_append s list.case)
       (simp add: parse_width_show)
qed

subsection \<open>Transfers\<close>

lemma transfer_rest:
  assumes "parse_designator d = Some (v, p, n)"
    and "find (\<lambda>i. image_matches i v p n) (or_images r) = Some i" and "0 < block"
  shows "transfer d block off r = Some (drop off (si_bytes i))"
  using assms
proof (induction d block off r rule: transfer.induct)
  case (1 d block off r)
  have rd: "provider_read d off block r = (if off \<ge> length (si_bytes i) then Some []
      else Some (take (min (length (drop off (si_bytes i))) block) (drop off (si_bytes i))))"
    using 1(2,3) by (simp add: provider_read_def read_image_def Let_def)
  show ?case
  proof (cases "off \<ge> length (si_bytes i)")
    case True
    then show ?thesis by (subst transfer.simps) (simp add: rd)
  next
    case False
    let ?c = "take (min (length (drop off (si_bytes i))) block) (drop off (si_bytes i))"
    obtain b bs where c: "?c = b # bs" using False 1(4) by (cases ?c) auto
    have read: "provider_read d off block r = Some (b # bs)" using rd False c by simp
    have IH: "transfer d block (off + length (b # bs)) r = Some (drop (off + length (b # bs)) (si_bytes i))"
      by (rule 1(1) [OF read refl 1(2-4)])
    let ?n = "min (length (drop off (si_bytes i))) block"
    have n: "length (b # bs) = ?n" unfolding c [symmetric] by simp
    have "drop off (si_bytes i) = ?c @ drop ?n (drop off (si_bytes i))" by (simp only: append_take_drop_id)
    also have "\<dots> = (b # bs) @ drop (off + length (b # bs)) (si_bytes i)"
      by (simp only: c n drop_drop add.commute [of off])
    finally have whole: "drop off (si_bytes i) = (b # bs) @ drop (off + length (b # bs)) (si_bytes i)" .
    show ?thesis
      by (subst transfer.simps) (simp only: read option.case list.case IH option.map whole)
  qed
qed

subsection \<open>The life of the registry\<close>

text \<open>A run: time passes, clients reserve and redeem, images are stored. \<open>issued\<close> are the ids ever
  handed out (a fresh id is a UUID, never one of them), \<open>redeemed\<close> the ids accepted.\<close>

inductive ota_run :: "ota_registry \<Rightarrow> nat \<Rightarrow> string list \<Rightarrow> string list \<Rightarrow> bool" where
  ota_start: "ota_run ota_new now [] []"
| ota_tick: "ota_run r now issued redeemed \<Longrightarrow> now \<le> later \<Longrightarrow> ota_run r later issued redeemed"
| ota_reserves: "ota_run r now issued redeemed \<Longrightarrow> fresh \<notin> set issued
    \<Longrightarrow> ota_reserve fresh now peer r = (r', res)
    \<Longrightarrow> ota_run r' now (case res of Inl _ \<Rightarrow> issued | Inr t \<Rightarrow> ut_upload_id t # issued) redeemed"
| ota_redeems: "ota_run r now issued redeemed \<Longrightarrow> ota_redeem now i peer r = (r', res)
    \<Longrightarrow> ota_run r' now issued (case res of Inl _ \<Rightarrow> redeemed | Inr _ \<Rightarrow> i # redeemed)"
| ota_stores: "ota_run r now issued redeemed \<Longrightarrow> ota_run (ota_store img r) now issued redeemed"

inductive_cases ota_runE: "ota_run r now issued redeemed"

definition ota_inv :: "ota_registry \<Rightarrow> string list \<Rightarrow> string list \<Rightarrow> bool" where
  "ota_inv r issued redeemed = (bt_ok (or_reservations r)
     \<and> length (or_reservations r) \<le> max_in_flight_uploads
     \<and> set (bt_keys (or_reservations r)) \<subseteq> set issued - set redeemed
     \<and> distinct redeemed \<and> set redeemed \<subseteq> set issued
     \<and> distinct (map image_key (or_images r)))"

lemma length_bt_insert: "length (bt_insert k v m) \<le> Suc (length m)"
  by (induction k v m rule: bt_insert.induct) auto

lemma keys_insert [simp]: "set (bt_keys (bt_insert k v m)) = insert k (set (bt_keys m))"
  by (simp add: bt_keys_def bt_insert_keys)

lemma keys_retain: "set (bt_keys (bt_retain p m)) \<subseteq> set (bt_keys m)"
  by (auto simp: bt_keys_def bt_retain_def)

lemma keys_remove [simp]: "set (bt_keys (bt_remove k m)) = set (bt_keys m) - {k}"
  by (auto simp: bt_keys_def bt_remove_def)

lemma length_remove: "length (bt_remove k m) \<le> length m"
  by (simp add: bt_remove_def)

lemma length_retain: "length (bt_retain p m) \<le> length m"
  by (simp add: bt_retain_def)

lemma ota_inv_reserve:
  assumes "ota_inv r issued redeemed" and "fresh \<notin> set issued" and "ota_reserve fresh now peer r = (r', res)"
  shows "ota_inv r' (case res of Inl _ \<Rightarrow> issued | Inr t \<Rightarrow> ut_upload_id t # issued) redeemed"
proof -
  let ?live = "bt_retain (\<lambda>_ v. rv_expires_at v > now) (or_reservations r)"
  have live: "bt_ok ?live" "length ?live \<le> max_in_flight_uploads" "set (bt_keys ?live) \<subseteq> set issued - set redeemed"
  proof -
    show "bt_ok ?live" using assms(1) by (simp add: ota_inv_def bt_ok_retain)
    show "length ?live \<le> max_in_flight_uploads"
      using assms(1) length_retain [of "\<lambda>_ v. rv_expires_at v > now" "or_reservations r"] by (simp add: ota_inv_def)
    show "set (bt_keys ?live) \<subseteq> set issued - set redeemed"
      using assms(1) keys_retain [of "\<lambda>_ v. rv_expires_at v > now" "or_reservations r"] by (auto simp: ota_inv_def)
  qed
  show ?thesis
  proof (cases "length ?live \<ge> max_in_flight_uploads")
    case True
    then show ?thesis using assms(1,3) live by (auto simp: ota_reserve_def ota_inv_def)
  next
    case False
    have "length (bt_insert fresh v ?live) \<le> max_in_flight_uploads" for v
      using length_bt_insert [of fresh v ?live] False by linarith
    then show ?thesis using False assms live bt_ok_insert [OF live(1)]
      by (auto simp: ota_reserve_def ota_inv_def)
  qed
qed

lemma ota_inv_redeem:
  assumes "ota_inv r issued redeemed" and "ota_redeem now i peer r = (r', res)"
  shows "ota_inv r' issued (case res of Inl _ \<Rightarrow> redeemed | Inr _ \<Rightarrow> i # redeemed)"
proof (cases "bt_get (or_reservations r) i")
  case None
  then show ?thesis using assms by (auto simp: ota_redeem_def)
next
  case (Some v)
  then have "i \<in> set (bt_keys (or_reservations r))" by (simp add: set_bt_keys)
  moreover have "length (bt_remove i (or_reservations r)) \<le> max_in_flight_uploads"
    using assms(1) length_remove [of i "or_reservations r"] by (simp add: ota_inv_def)
  ultimately show ?thesis
    using assms Some by (auto simp: ota_redeem_def ota_inv_def bt_ok_remove split: if_splits)
qed

lemma ota_inv_store: "ota_inv r issued redeemed \<Longrightarrow> ota_inv (ota_store img r) issued redeemed"
  by (auto simp: ota_inv_def store_filter distinct_map_filter)

lemma ota_run_inv: "ota_run r now issued redeemed \<Longrightarrow> ota_inv r issued redeemed"
proof (induction rule: ota_run.induct)
  case (ota_start now)
  then show ?case by (simp add: ota_inv_def ota_new_def bt_keys_def)
qed (auto intro: ota_inv_reserve ota_inv_redeem ota_inv_store)

subsection \<open>Properties\<close>

text \<open>C8: an upload ticket is good for one upload: over any run of reservations, redemptions and
  uploads, no id is accepted twice, only ids that were handed out are accepted, at most four
  reservations are open, and the store never holds two images for one product and version.\<close>

theorem upload_ticket_single_use:
  assumes "ota_run r now issued redeemed"
  shows "distinct redeemed \<and> set redeemed \<subseteq> set issued
    \<and> length (or_reservations r) \<le> max_in_flight_uploads
    \<and> (\<forall>i \<in> set redeemed. isl (snd (ota_redeem now i peer r)))
    \<and> distinct (map image_key (or_images r))"
proof -
  have inv: "ota_inv r issued redeemed" by (rule ota_run_inv [OF assms])
  have "isl (snd (ota_redeem now i peer r))" if "i \<in> set redeemed" for i
  proof -
    have "bt_get (or_reservations r) i = None" using inv that by (auto simp: ota_inv_def set_bt_keys)
    then show ?thesis by (simp add: ota_redeem_def)
  qed
  then show ?thesis using inv by (simp add: ota_inv_def)
qed

theorem upload_ticket_single_use_witness:
  "isl (snd (ota_redeem 5 ''u'' ''h:2'' ota_new)) \<and> distinct [''u'']"
proof -
  let ?r1 = "\<lparr>or_reservations = [(''u'', \<lparr>rv_peer = ''h:1'', rv_expires_at = 65\<rparr>)], or_images = []\<rparr>"
  have h: "host_of ''h:1'' = host_of ''h:2''" by code_simp
  have 0: "ota_run ota_new 5 [] []" by (rule ota_start)
  have "ota_reserve ''u'' 5 ''h:1'' ota_new = (?r1, Inr \<lparr>ut_upload_id = ''u'', ut_expires_in = 60, ut_max_size = max_upload_size\<rparr>)"
    by (simp add: ota_reserve_def ota_new_def bt_retain_def max_in_flight_uploads_def upload_ttl_def)
  then have 1: "ota_run ?r1 5 [''u''] []" using ota_reserves [OF 0, of "''u''"] by fastforce
  have "ota_redeem 5 ''u'' ''h:2'' ?r1 = (ota_new, Inr ())"
    using h by (simp add: ota_redeem_def bt_get_def bt_remove_def ota_new_def)
  then have 2: "ota_run ota_new 5 [''u''] [''u'']" using ota_redeems [OF 1] by fastforce
  show ?thesis using upload_ticket_single_use [OF 2, of "''h:2''"] by simp
qed

text \<open>A redemption is accepted exactly when the id is reserved, has not expired and comes from
  the host that reserved it (whatever its port); one from another host does not consume it.\<close>

theorem redeem_exact:
  "(snd (ota_redeem now i peer r) = Inr ()
      \<longleftrightarrow> (\<exists>v. bt_get (or_reservations r) i = Some v \<and> now < rv_expires_at v \<and> host_of (rv_peer v) = host_of peer))
   \<and> (case bt_get (or_reservations r) i of
        Some v \<Rightarrow> if now < rv_expires_at v \<and> host_of (rv_peer v) \<noteq> host_of peer
                  then fst (ota_redeem now i peer r) = r
                  else bt_get (or_reservations (fst (ota_redeem now i peer r))) i = None
      | None \<Rightarrow> fst (ota_redeem now i peer r) = r)"
  by (auto simp: ota_redeem_def bt_get_remove not_le split: option.split)

text \<open>The image offered to a device is the newest one the store holds for its product that is
  newer than what it runs and applies to it, and one is offered whenever there is any.\<close>

theorem best_match_newest:
  "case best_match vid pid current r of
     None \<Rightarrow> filter (applies vid pid current) (or_images r) = []
   | Some v \<Rightarrow> (\<exists>i \<in> set (or_images r). applies vid pid current i \<and> v = si_version i)
       \<and> list_all (\<lambda>i. sv_software_version (si_version i) \<le> sv_software_version v)
           (filter (applies vid pid current) (or_images r))"
proof (cases "max_by_key (\<lambda>i. sv_software_version (si_version i)) (filter (applies vid pid current) (or_images r))")
  case None
  then show ?thesis by (simp add: best_match_def)
next
  case (Some i)
  then show ?thesis using max_by_key_Some [OF Some] by (auto simp: best_match_def list_all_iff)
qed

text \<open>C12: a device that downloads in blocks of any positive size gets the stored image, whole and
  in order: reading the file the provider names at increasing offsets until a read is empty
  returns exactly the bytes last stored for that product and version.\<close>

theorem transfer_complete:
  assumes "0 < block"
  shows "transfer (bytes_of_str (designator (sv_vid (si_version img)) (sv_pid (si_version img))
             (sv_software_version (si_version img)))) block 0 (ota_store img r) = Some (si_bytes img)
    \<and> provider_size (bytes_of_str (designator (sv_vid (si_version img)) (sv_pid (si_version img))
             (sv_software_version (si_version img)))) (ota_store img r) = Some (length (si_bytes img))"
proof -
  have f: "find (\<lambda>i. image_matches i (sv_vid (si_version img)) (sv_pid (si_version img))
      (sv_software_version (si_version img))) (or_images (ota_store img r)) = Some img"
    by (rule stored_found) (simp add: image_key_def)
  show ?thesis
    using transfer_rest [OF parse_designator f assms, of 0] f
    by (simp add: provider_size_def parse_designator image_size_def)
qed

theorem transfer_complete_witness:
  "\<exists>img r. transfer (bytes_of_str (designator 1 2 3)) 2 0 (ota_store img r) = Some [7, 8, 9]"
proof -
  let ?v = "\<lparr>sv_vid = 1, sv_pid = 2, sv_software_version = 3, sv_software_version_string = [],
     sv_firmware_information = None, sv_min_applicable = 0, sv_max_applicable = 9,
     sv_release_notes_url = None, sv_update_source = Local\<rparr>"
  have "(0::nat) < 2" by simp
  from transfer_complete [OF this, of "\<lparr>si_version = ?v, si_bytes = [7, 8, 9]\<rparr>" ota_new]
  show ?thesis by auto
qed

end
