(* ===== verification/Events.thy ===== *)
theory Events
  imports Node_Model
begin

section \<open>Events and who receives them (\<open>protocol/events.rs\<close>, \<open>EventBus\<close> of \<open>api/mod.rs\<close>)\<close>

text \<open>
  An event is a delivery class and its JSON payload; a connection latches what it has opted into
  from the commands it issues. The bus sends each event to the bounded queue of every
  subscriber and drops a subscriber whose queue is full or whose receiver is gone. The run
  \<open>bus_run\<close> follows one bus with any number of subscribers, publishers and receivers.
\<close>

datatype event_class = Always | ThreadDiagnostics | NetworkTopology | WebRtc

record event =
  ev_class :: event_class
  ev_payload :: json

definition event_new :: "event_class \<Rightarrow> string \<Rightarrow> json \<Rightarrow> event" where
  "event_new c name data = \<lparr>ev_class = c, ev_payload = jobj [(''event'', JStr name), (''data'', data)]\<rparr>"

definition event_always :: "string \<Rightarrow> json \<Rightarrow> event" where
  "event_always name data = event_new Always name data"

definition event_name :: "event \<Rightarrow> string" where
  "event_name e = unwrap_or (opt_bind (jget (ev_payload e) ''event'') as_str) []"

definition ev_node_added :: "matter_node_data \<Rightarrow> event" where
  "ev_node_added d = event_always ''node_added'' (node_to_value d)"

definition ev_node_updated :: "matter_node_data \<Rightarrow> event" where
  "ev_node_updated d = event_always ''node_updated'' (node_to_value d)"

definition ev_node_removed :: "u64 \<Rightarrow> event" where
  "ev_node_removed n = event_always ''node_removed'' (ju64 n)"

record matter_node_event =
  ne_node_id :: u64
  ne_endpoint_id :: u16
  ne_cluster_id :: u32
  ne_event_id :: u32
  ne_event_number :: u64
  ne_priority :: u8
  ne_timestamp :: u64
  ne_timestamp_type :: u8
  ne_data :: json

definition node_event_to_value :: "matter_node_event \<Rightarrow> json" where
  "node_event_to_value e = jobj
     [(''node_id'', ju64 (ne_node_id e)), (''endpoint_id'', jword (ne_endpoint_id e)),
      (''cluster_id'', jword (ne_cluster_id e)), (''event_id'', jword (ne_event_id e)),
      (''event_number'', ju64 (ne_event_number e)), (''priority'', jword (ne_priority e)),
      (''timestamp'', ju64 (ne_timestamp e)), (''timestamp_type'', jword (ne_timestamp_type e)),
      (''data'', ne_data e)]"

definition ev_node_event :: "matter_node_event \<Rightarrow> event" where
  "ev_node_event e = event_always ''node_event'' (node_event_to_value e)"

definition ev_attribute_updated :: "u64 \<Rightarrow> string \<Rightarrow> json \<Rightarrow> event" where
  "ev_attribute_updated n path v = event_always ''attribute_updated'' (JArr [ju64 n, JStr path, v])"

definition ev_endpoint_added :: "u64 \<Rightarrow> u16 \<Rightarrow> event" where
  "ev_endpoint_added n e = event_always ''endpoint_added'' (jobj [(''node_id'', ju64 n), (''endpoint_id'', jword e)])"

definition ev_endpoint_removed :: "u64 \<Rightarrow> u16 \<Rightarrow> event" where
  "ev_endpoint_removed n e = event_always ''endpoint_removed'' (jobj [(''node_id'', ju64 n), (''endpoint_id'', jword e)])"

definition ev_server_info_updated :: "json \<Rightarrow> event" where
  "ev_server_info_updated info = event_always ''server_info_updated'' info"

definition ev_server_shutdown :: event where
  "ev_server_shutdown = event_always ''server_shutdown'' (jobj [])"

definition ev_thread_diagnostics_updated :: "json \<Rightarrow> event" where
  "ev_thread_diagnostics_updated batch = event_new ThreadDiagnostics ''thread_diagnostics_updated'' batch"

definition ev_network_topology_updated :: "json \<Rightarrow> event" where
  "ev_network_topology_updated topology = event_new NetworkTopology ''network_topology_updated'' topology"

definition ev_webrtc_callback :: "json \<Rightarrow> event" where
  "ev_webrtc_callback data = event_new WebRtc ''webrtc_callback'' data"

subsection \<open>Opting in\<close>

record event_subscriptions =
  es_listening :: bool
  es_thread_diagnostics :: bool
  es_network_topology :: bool
  es_webrtc :: bool

definition es_default :: event_subscriptions where
  "es_default = \<lparr>es_listening = False, es_thread_diagnostics = False, es_network_topology = False, es_webrtc = False\<rparr>"

definition observe_command :: "string \<Rightarrow> event_subscriptions \<Rightarrow> event_subscriptions" where
  "observe_command c s =
     (if c = ''start_listening'' then s\<lparr>es_listening := True\<rparr>
      else if c = ''get_thread_diagnostics'' \<or> c = ''get_thread_border_routers''
      then s\<lparr>es_thread_diagnostics := True\<rparr>
      else if c = ''get_network_topology'' then s\<lparr>es_network_topology := True\<rparr>
      else if c = ''send_webrtc_provider_command'' then s\<lparr>es_webrtc := True\<rparr>
      else s)"

definition accepts :: "event_subscriptions \<Rightarrow> event \<Rightarrow> bool" where
  "accepts s e =
     (if \<not> es_listening s then False
      else (case ev_class e of
              Always \<Rightarrow> True
            | ThreadDiagnostics \<Rightarrow> es_thread_diagnostics s
            | NetworkTopology \<Rightarrow> es_network_topology s
            | WebRtc \<Rightarrow> es_webrtc s))"

lemma observe_one [simp]:
  "es_listening (observe_command c s) = (es_listening s \<or> c = ''start_listening'')"
  "es_thread_diagnostics (observe_command c s) =
     (es_thread_diagnostics s \<or> c = ''get_thread_diagnostics'' \<or> c = ''get_thread_border_routers'')"
  "es_network_topology (observe_command c s) = (es_network_topology s \<or> c = ''get_network_topology'')"
  "es_webrtc (observe_command c s) = (es_webrtc s \<or> c = ''send_webrtc_provider_command'')"
  by (simp_all add: observe_command_def)

lemma observed:
  "es_listening (fold observe_command cs s) = (es_listening s \<or> ''start_listening'' \<in> set cs)"
  "es_thread_diagnostics (fold observe_command cs s) = (es_thread_diagnostics s
        \<or> ''get_thread_diagnostics'' \<in> set cs \<or> ''get_thread_border_routers'' \<in> set cs)"
  "es_network_topology (fold observe_command cs s) = (es_network_topology s \<or> ''get_network_topology'' \<in> set cs)"
  "es_webrtc (fold observe_command cs s) = (es_webrtc s \<or> ''send_webrtc_provider_command'' \<in> set cs)"
  by (induction cs arbitrary: s) auto

subsection \<open>The bus\<close>

definition queue_bound :: nat where "queue_bound = 256"

text \<open>A channel: what is queued, and whether its receiver is gone. \<open>try_send\<close> fails on a full or a
  closed channel.\<close>

record channel =
  ch_queue :: "event list"
  ch_closed :: bool

type_synonym channels = "(nat, channel) btree"

record event_bus =
  eb_subscribers :: "nat list"
  eb_channels :: channels

definition bus_new :: event_bus where
  "bus_new = \<lparr>eb_subscribers = [], eb_channels = []\<rparr>"

definition try_send :: "event \<Rightarrow> nat \<Rightarrow> channels \<Rightarrow> channels \<times> bool" where
  "try_send e i chs =
     (case bt_get chs i of
        None \<Rightarrow> (chs, False)
      | Some ch \<Rightarrow>
          if ch_closed ch \<or> length (ch_queue ch) \<ge> queue_bound then (chs, False)
          else (bt_update i (\<lambda>ch. ch\<lparr>ch_queue := ch_queue ch @ [e]\<rparr>) chs, True))"

definition bus_subscribe :: "nat \<Rightarrow> event_bus \<Rightarrow> event_bus" where
  "bus_subscribe i b = \<lparr>eb_subscribers = eb_subscribers b @ [i],
     eb_channels = bt_insert i \<lparr>ch_queue = [], ch_closed = False\<rparr> (eb_channels b)\<rparr>"

fun send_all :: "event \<Rightarrow> nat list \<Rightarrow> channels \<Rightarrow> nat list \<times> channels" where
  "send_all e [] chs = ([], chs)"
| "send_all e (i # is) chs =
     (let (chs', sent) = try_send e i chs;
          (kept, chs'') = send_all e is chs'
      in (if sent then i # kept else kept, chs''))"

definition bus_publish :: "event \<Rightarrow> event_bus \<Rightarrow> event_bus" where
  "bus_publish e b =
     (let (kept, chs) = send_all e (eb_subscribers b) (eb_channels b)
      in \<lparr>eb_subscribers = kept, eb_channels = chs\<rparr>)"

definition subscriber_count :: "event_bus \<Rightarrow> nat" where
  "subscriber_count b = length (eb_subscribers b)"

text \<open>The receiving side: take the next event, or go away.\<close>

definition bus_receive :: "nat \<Rightarrow> event_bus \<Rightarrow> event_bus \<times> event option" where
  "bus_receive i b =
     (case bt_get (eb_channels b) i of
        Some ch \<Rightarrow>
          (case ch_queue ch of
             [] \<Rightarrow> (b, None)
           | e # rest \<Rightarrow> (b\<lparr>eb_channels := bt_update i (\<lambda>ch. ch\<lparr>ch_queue := rest\<rparr>) (eb_channels b)\<rparr>, Some e))
      | None \<Rightarrow> (b, None))"

definition bus_close :: "nat \<Rightarrow> event_bus \<Rightarrow> event_bus" where
  "bus_close i b = b\<lparr>eb_channels := bt_update i (\<lambda>ch. ch\<lparr>ch_closed := True\<rparr>) (eb_channels b)\<rparr>"

text \<open>A run of the bus: \<open>hist\<close> is everything published, \<open>start i\<close> its length when \<open>i\<close> subscribed, and
  \<open>got i\<close> what its receiver has taken.\<close>

inductive bus_run :: "event_bus \<Rightarrow> event list \<Rightarrow> (nat \<Rightarrow> nat) \<Rightarrow> (nat \<Rightarrow> event list) \<Rightarrow> bool" where
  bus_start: "bus_run bus_new [] (\<lambda>_. 0) (\<lambda>_. [])"
| bus_joins: "bus_run b hist start got \<Longrightarrow> bt_get (eb_channels b) i = None
    \<Longrightarrow> bus_run (bus_subscribe i b) hist (start(i := length hist)) (got(i := []))"
| bus_publishes: "bus_run b hist start got \<Longrightarrow> bus_run (bus_publish e b) (hist @ [e]) start got"
| bus_receives: "bus_run b hist start got \<Longrightarrow> bus_receive i b = (b', Some e)
    \<Longrightarrow> bus_run b' hist start (got(i := got i @ [e]))"
| bus_closes: "bus_run b hist start got \<Longrightarrow> bus_run (bus_close i b) hist start got"

inductive_cases bus_runE: "bus_run b hist start got"

text \<open>What subscriber \<open>i\<close> has been sent: taken or still queued.\<close>

definition sent_to :: "event_bus \<Rightarrow> (nat \<Rightarrow> event list) \<Rightarrow> nat \<Rightarrow> event list option" where
  "sent_to b got i = map_option (\<lambda>ch. got i @ ch_queue ch) (bt_get (eb_channels b) i)"

definition bus_inv :: "event_bus \<Rightarrow> event list \<Rightarrow> (nat \<Rightarrow> nat) \<Rightarrow> (nat \<Rightarrow> event list) \<Rightarrow> bool" where
  "bus_inv b hist start got =
     (bt_ok (eb_channels b) \<and> distinct (eb_subscribers b)
      \<and> (\<forall>i \<in> set (eb_subscribers b). sent_to b got i = Some (drop (start i) hist))
      \<and> (\<forall>i ch. bt_get (eb_channels b) i = Some ch \<longrightarrow>
            length (ch_queue ch) \<le> queue_bound \<and> start i \<le> length hist
            \<and> (\<exists>n. got i @ ch_queue ch = take n (drop (start i) hist))))"

lemma try_send_get: "try_send e i chs = (chs', sent) \<Longrightarrow> bt_get chs' j =
    (if sent \<and> j = i then map_option (\<lambda>ch. ch\<lparr>ch_queue := ch_queue ch @ [e]\<rparr>) (bt_get chs j) else bt_get chs j)"
  by (auto simp: try_send_def bt_get_update split: option.splits if_splits)

lemma try_send_ok: "try_send e i chs = (chs', sent) \<Longrightarrow> bt_ok chs' = bt_ok chs"
  by (auto simp: try_send_def split: option.splits if_splits)

lemma try_send_room: "try_send e i chs = (chs', True) \<Longrightarrow> \<exists>ch. bt_get chs i = Some ch \<and> length (ch_queue ch) < queue_bound"
  by (auto simp: try_send_def split: option.splits if_splits)

lemma send_all_spec:
  "distinct is \<Longrightarrow> send_all e is chs = (kept, chs') \<Longrightarrow>
     bt_ok chs' = bt_ok chs \<and> set kept \<subseteq> set is \<and> distinct kept
     \<and> (\<forall>j. bt_get chs' j = (if j \<in> set kept then map_option (\<lambda>ch. ch\<lparr>ch_queue := ch_queue ch @ [e]\<rparr>) (bt_get chs j)
                              else bt_get chs j))
     \<and> (\<forall>j \<in> set kept. \<exists>ch. bt_get chs j = Some ch \<and> length (ch_queue ch) < queue_bound)"
proof (induction "is" arbitrary: chs kept chs')
  case Nil
  then show ?case by simp
next
  case (Cons i "is")
  obtain chs1 sent where s: "try_send e i chs = (chs1, sent)" by (cases "try_send e i chs")
  obtain kept1 chs2 where r: "send_all e is chs1 = (kept1, chs2)" by (cases "send_all e is chs1")
  have d: "distinct is" "i \<notin> set is" using Cons.prems(1) by auto
  have k: "kept = (if sent then i # kept1 else kept1)" "chs' = chs2"
    using Cons.prems(2) s r by (auto split: if_splits)
  note IH = Cons.IH [OF d(1) r]
  have i: "i \<notin> set kept1" using IH d(2) by blast
  have get: "bt_get chs' j = (if j \<in> set kept then map_option (\<lambda>ch. ch\<lparr>ch_queue := ch_queue ch @ [e]\<rparr>) (bt_get chs j)
                              else bt_get chs j)" for j
    using IH i try_send_get [OF s, of j] by (auto simp: k)
  have room: "\<exists>ch. bt_get chs j = Some ch \<and> length (ch_queue ch) < queue_bound" if "j \<in> set kept" for j
  proof (cases "j = i")
    case True
    then show ?thesis using that i s try_send_room by (auto simp: k split: if_splits)
  next
    case False
    then have "j \<in> set kept1" using that by (auto simp: k split: if_splits)
    then obtain ch where "bt_get chs1 j = Some ch" "length (ch_queue ch) < queue_bound" using IH by blast
    then show ?thesis using try_send_get [OF s, of j] False by simp
  qed
  show ?case using IH i d get room try_send_ok [OF s] by (auto simp: k)
qed


lemma take_snoc_drop: "k \<le> length hist \<Longrightarrow> drop k (hist @ [e]) = drop k hist @ [e]"
  by simp

lemma run_of_longer: "k \<le> length hist \<Longrightarrow> xs = take n (drop k hist) \<Longrightarrow> \<exists>m. xs = take m (drop k (hist @ [e]))"
  by (intro exI [of _ "min n (length (drop k hist))"]) (simp add: min_def)

lemma bus_inv_publish:
  assumes inv: "bus_inv b hist start got"
  shows "bus_inv (bus_publish e b) (hist @ [e]) start got"
proof -
  obtain kept chs where s: "send_all e (eb_subscribers b) (eb_channels b) = (kept, chs)"
    by (cases "send_all e (eb_subscribers b) (eb_channels b)")
  have b': "bus_publish e b = \<lparr>eb_subscribers = kept, eb_channels = chs\<rparr>" by (simp add: bus_publish_def s)
  have d: "distinct (eb_subscribers b)" and ok: "bt_ok (eb_channels b)" using inv by (simp_all add: bus_inv_def)
  note spec = send_all_spec [OF d s]
  note sub_kept = spec [THEN conjunct2, THEN conjunct1, THEN subsetD]
  note room = spec [THEN conjunct2, THEN conjunct2, THEN conjunct2, THEN conjunct2, rule_format]
  have get: "bt_get chs j = (if j \<in> set kept then map_option (\<lambda>ch. ch\<lparr>ch_queue := ch_queue ch @ [e]\<rparr>) (bt_get (eb_channels b) j)
      else bt_get (eb_channels b) j)" for j
    by (rule spec [THEN conjunct2, THEN conjunct2, THEN conjunct2, THEN conjunct1, rule_format])
  have sub: "sent_to (bus_publish e b) got i = Some (drop (start i) (hist @ [e]))" if kept_i: "i \<in> set kept" for i
  proof -
    obtain ch where ch: "bt_get (eb_channels b) i = Some ch" using room [of i] kept_i by blast
    have "i \<in> set (eb_subscribers b)" by (rule sub_kept [OF kept_i])
    then have "sent_to b got i = Some (drop (start i) hist)" and l: "start i \<le> length hist"
      using inv ch unfolding bus_inv_def by blast+
    then have "got i @ ch_queue ch = drop (start i) hist" by (simp add: sent_to_def ch)
    then show ?thesis using kept_i ch l by (simp add: sent_to_def b' get)
  qed
  have chan: "length (ch_queue ch) \<le> queue_bound \<and> start i \<le> length (hist @ [e])
      \<and> (\<exists>n. got i @ ch_queue ch = take n (drop (start i) (hist @ [e])))"
    if g: "bt_get chs i = Some ch" for i ch
  proof (cases "i \<in> set kept")
    case True
    then obtain ch0 where ch0: "bt_get (eb_channels b) i = Some ch0" "length (ch_queue ch0) < queue_bound"
      using room by blast
    then have ch: "ch_queue ch = ch_queue ch0 @ [e]" using g True by (auto simp: get)
    have "got i @ ch_queue ch = drop (start i) (hist @ [e])"
      using sub [OF True] g by (simp add: sent_to_def b')
    then have "got i @ ch_queue ch = take (length (hist @ [e])) (drop (start i) (hist @ [e]))" by simp
    then have "\<exists>n. got i @ ch_queue ch = take n (drop (start i) (hist @ [e]))" by blast
    moreover have "start i \<le> length hist" using inv ch0(1) unfolding bus_inv_def by blast
    moreover have "length (ch_queue ch) \<le> queue_bound" using ch0(2) ch by simp
    ultimately show ?thesis by (simp del: drop_append take_append)
  next
    case False
    then have g0: "bt_get (eb_channels b) i = Some ch" using g by (simp add: get)
    then obtain n where n: "got i @ ch_queue ch = take n (drop (start i) hist)"
      and s: "start i \<le> length hist" and l: "length (ch_queue ch) \<le> queue_bound"
      using inv unfolding bus_inv_def by blast
    show ?thesis using run_of_longer [OF s n] s l by simp
  qed
  show ?thesis
    using spec [THEN conjunct1] spec [THEN conjunct2, THEN conjunct2, THEN conjunct1] ok sub chan
    unfolding bus_inv_def b' by auto
qed

lemma bus_inv_join:
  assumes inv: "bus_inv b hist start got" and new: "bt_get (eb_channels b) i = None"
  shows "bus_inv (bus_subscribe i b) hist (start(i := length hist)) (got(i := []))"
proof -
  have "i \<notin> set (eb_subscribers b)" using inv new by (auto simp: bus_inv_def sent_to_def)
  then show ?thesis
    using inv new
    by (auto simp: bus_inv_def bus_subscribe_def sent_to_def bt_ok_insert bt_get_insert_raw split: if_splits)
qed

lemma bus_inv_receive:
  assumes inv: "bus_inv b hist start got" and r: "bus_receive i b = (b', Some e)"
  shows "bus_inv b' hist start (got(i := got i @ [e]))"
proof -
  obtain ch rest where ch: "bt_get (eb_channels b) i = Some ch" "ch_queue ch = e # rest"
    and b': "b' = b\<lparr>eb_channels := bt_update i (\<lambda>ch. ch\<lparr>ch_queue := rest\<rparr>) (eb_channels b)\<rparr>"
    using r by (auto simp: bus_receive_def split: option.splits list.splits)
  have same: "sent_to b' (got(i := got i @ [e])) j = sent_to b got j" for j
    using ch by (auto simp: sent_to_def b' bt_get_update)
  show ?thesis
    unfolding bus_inv_def
  proof (intro conjI allI impI)
    show "bt_ok (eb_channels b')" "distinct (eb_subscribers b')" using inv by (simp_all add: bus_inv_def b')
    show "\<forall>j \<in> set (eb_subscribers b'). sent_to b' (got(i := got i @ [e])) j = Some (drop (start j) hist)"
      using inv by (simp add: same bus_inv_def) (simp add: b')
  next
    fix j c
    assume g: "bt_get (eb_channels b') j = Some c"
    obtain c0 where c0: "bt_get (eb_channels b) j = Some c0" "length (ch_queue c) \<le> length (ch_queue c0)"
      using g ch by (auto simp: b' bt_get_update split: if_splits)
    moreover have "(got(i := got i @ [e])) j @ ch_queue c = got j @ ch_queue c0"
      using same [of j] g c0(1) by (simp add: sent_to_def)
    ultimately show "length (ch_queue c) \<le> queue_bound" "start j \<le> length hist"
        "\<exists>n. (got(i := got i @ [e])) j @ ch_queue c = take n (drop (start j) hist)"
      using inv unfolding bus_inv_def by (metis le_trans)+
  qed
qed

lemma bus_inv_close: "bus_inv b hist start got \<Longrightarrow> bus_inv (bus_close i b) hist start got"
  by (auto simp: bus_inv_def bus_close_def sent_to_def bt_get_update option.map_comp comp_def split: if_splits)

lemma bus_run_inv: "bus_run b hist start got \<Longrightarrow> bus_inv b hist start got"
proof (induction rule: bus_run.induct)
  case bus_start
  show ?case by (simp add: bus_inv_def bus_new_def bt_get_def)
qed (blast intro: bus_inv_join bus_inv_publish bus_inv_receive bus_inv_close)+

subsection \<open>Properties\<close>

text \<open>C5: the event stream has no gaps: what a connection has received together with what is queued
  for it is always an initial run, in order, of everything published since it subscribed, all of
  it for as long as the bus still counts it as a subscriber; no queue exceeds its bound.\<close>

theorem event_stream_gap_free:
  assumes "bus_run b hist start got" and "bt_get (eb_channels b) i = Some ch"
  shows "(\<exists>n. got i @ ch_queue ch = take n (drop (start i) hist))
    \<and> length (ch_queue ch) \<le> queue_bound
    \<and> (i \<in> set (eb_subscribers b) \<longrightarrow> got i @ ch_queue ch = drop (start i) hist)"
  using bus_run_inv [OF assms(1)] assms(2) unfolding bus_inv_def sent_to_def by auto

theorem event_stream_gap_free_witness:
  "\<exists>(b :: event_bus) ch. bt_get (eb_channels b) 4 = Some ch \<and> 4 \<in> set (eb_subscribers b)
    \<and> ch_queue ch = drop 1 [ev_node_removed 1, ev_server_shutdown]"
proof -
  let ?b = "bus_publish ev_server_shutdown (bus_subscribe 4 (bus_publish (ev_node_removed 1) bus_new))"
  let ?ch = "\<lparr>ch_queue = [ev_server_shutdown], ch_closed = False\<rparr>"
  have 1: "bus_run (bus_publish (ev_node_removed 1) bus_new) ([] @ [ev_node_removed 1]) (\<lambda>_. 0) (\<lambda>_. [])"
    by (rule bus_publishes [OF bus_start])
  have n: "bt_get (eb_channels (bus_publish (ev_node_removed 1) bus_new)) 4 = None"
    by (simp add: bus_publish_def bus_new_def bt_get_def)
  note run = bus_publishes [OF bus_joins [OF 1 n], of ev_server_shutdown]
  have ch: "bt_get (eb_channels ?b) 4 = Some ?ch" and s: "4 \<in> set (eb_subscribers ?b)"
    by (simp_all add: bus_publish_def bus_subscribe_def bus_new_def try_send_def bt_get_def bt_update_def queue_bound_def)
  have "ch_queue ?ch = drop 1 [ev_node_removed 1, ev_server_shutdown]"
    using event_stream_gap_free [OF run ch] s by simp
  then show ?thesis using ch s by (intro exI [of _ ?b] exI [of _ ?ch]) simp
qed

text \<open>A connection is sent an event exactly when it has issued \<open>start_listening\<close> and, for the
  three gated classes, one of the commands that opt in to that class, in whatever order and
  however many other commands it issued.\<close>

theorem opt_in_exact:
  "accepts (fold observe_command cs es_default) e \<longleftrightarrow>
     ''start_listening'' \<in> set cs
     \<and> (case ev_class e of
          Always \<Rightarrow> True
        | ThreadDiagnostics \<Rightarrow> ''get_thread_diagnostics'' \<in> set cs \<or> ''get_thread_border_routers'' \<in> set cs
        | NetworkTopology \<Rightarrow> ''get_network_topology'' \<in> set cs
        | WebRtc \<Rightarrow> ''send_webrtc_provider_command'' \<in> set cs)"
  by (simp add: accepts_def observed es_default_def split: event_class.split)

end
