(* ===== verification/Subscriptions.thy ===== *)
theory Subscriptions
  imports Btree
begin

section \<open>The subscriptions held (\<open>matter/subscriptions.rs\<close>)\<close>

text \<open>
  One entry per node: the id the device issued, its longest silence and when it last reported.
  An instant is a number of seconds and the operations that read the clock take it as an argument.
\<close>

record subscription =
  sub_id :: "32 word"
  sub_max_interval :: nat
  sub_last_report :: nat

type_synonym subscriptions = "(64 word, subscription) btree"

definition sub_established :: "nat \<Rightarrow> 64 word \<Rightarrow> 32 word \<Rightarrow> nat \<Rightarrow> subscriptions \<Rightarrow> subscriptions" where
  "sub_established now n i interval subs =
     bt_insert n \<lparr>sub_id = i, sub_max_interval = interval, sub_last_report = now\<rparr> subs"

definition sub_accepts :: "subscriptions \<Rightarrow> 64 word \<Rightarrow> 32 word \<Rightarrow> bool" where
  "sub_accepts subs n i = (case bt_get subs n of None \<Rightarrow> False | Some e \<Rightarrow> sub_id e = i)"

definition sub_note_report :: "nat \<Rightarrow> 64 word \<Rightarrow> subscriptions \<Rightarrow> subscriptions" where
  "sub_note_report now n subs = bt_update n (\<lambda>e. e\<lparr>sub_last_report := now\<rparr>) subs"

definition sub_forget :: "64 word \<Rightarrow> subscriptions \<Rightarrow> subscriptions" where
  "sub_forget n subs = bt_remove n subs"

definition silent :: "nat \<Rightarrow> subscription \<Rightarrow> bool" where
  "silent now e = (now - sub_last_report e \<ge> sub_max_interval e * 2)"

definition sub_is_live :: "nat \<Rightarrow> subscriptions \<Rightarrow> 64 word \<Rightarrow> bool" where
  "sub_is_live now subs n =
     (case bt_get subs n of None \<Rightarrow> False | Some e \<Rightarrow> now - sub_last_report e < sub_max_interval e * 2)"

definition sub_forget_silent :: "nat \<Rightarrow> subscriptions \<Rightarrow> subscriptions \<times> 64 word list" where
  "sub_forget_silent now subs =
     (let gone = map fst (filter (\<lambda>(_, e). silent now e) subs)
      in (fold bt_remove gone subs, gone))"

definition sub_len :: "subscriptions \<Rightarrow> nat" where
  "sub_len subs = length subs"

definition sub_is_empty :: "subscriptions \<Rightarrow> bool" where
  "sub_is_empty subs = (sub_len subs = 0)"

subsection \<open>Laws\<close>

lemma get_remove_all: "bt_get (fold bt_remove ks m) k = (if k \<in> set ks then None else bt_get m k)"
  by (induction ks arbitrary: m) (auto simp: bt_get_remove)

lemma ok_remove_all: "bt_ok m \<Longrightarrow> bt_ok (fold bt_remove ks m)"
  by (induction ks arbitrary: m) (auto simp: bt_ok_remove)

lemma gone_iff:
  "bt_ok subs \<Longrightarrow> k \<in> set (snd (sub_forget_silent now subs)) \<longleftrightarrow> (\<exists>e. bt_get subs k = Some e \<and> silent now e)"
  by (auto simp: sub_forget_silent_def Let_def bt_get_iff image_iff)

lemma forget_silent_get:
  "bt_ok subs \<Longrightarrow> bt_get (fst (sub_forget_silent now subs)) k = opt_filter (\<lambda>e. \<not> silent now e) (bt_get subs k)"
  using gone_iff [of subs k now]
  by (cases "bt_get subs k") (auto simp: sub_forget_silent_def Let_def get_remove_all)

subsection \<open>A history of the registry\<close>

datatype sub_op = Established nat "64 word" "32 word" nat | Reported nat "64 word" | Forgotten "64 word"
  | Swept nat

fun sub_apply :: "sub_op \<Rightarrow> subscriptions \<Rightarrow> subscriptions" where
  "sub_apply (Established now n i d) subs = sub_established now n i d subs"
| "sub_apply (Reported now n) subs = sub_note_report now n subs"
| "sub_apply (Forgotten n) subs = sub_forget n subs"
| "sub_apply (Swept now) subs = fst (sub_forget_silent now subs)"

lemma sub_apply_ok: "bt_ok subs \<Longrightarrow> bt_ok (sub_apply op subs)"
  by (cases op) (simp_all add: sub_established_def sub_note_report_def sub_forget_def
      sub_forget_silent_def Let_def bt_ok_insert bt_ok_remove ok_remove_all)

lemma sub_fold_ok: "bt_ok subs \<Longrightarrow> bt_ok (fold sub_apply ops subs)"
  by (induction ops arbitrary: subs) (auto simp: sub_apply_ok)

text \<open>An operation that can make a node's subscription acceptable, or end it.\<close>

fun establishes :: "64 word \<Rightarrow> 32 word \<Rightarrow> sub_op \<Rightarrow> bool" where
  "establishes n i (Established _ m j _) = (m = n \<and> j = i)"
| "establishes n i _ = False"

lemma accepts_apply:
  assumes "bt_ok subs" and "sub_accepts (sub_apply op subs) n i"
  shows "establishes n i op \<or> sub_accepts subs n i"
  using assms
  by (cases op) (auto simp: sub_accepts_def sub_established_def sub_note_report_def sub_forget_def
      bt_get_insert_raw bt_get_update bt_get_remove forget_silent_get opt_filter_def
      split: option.splits if_splits)

lemma accepts_fold:
  "bt_ok subs \<Longrightarrow> sub_accepts (fold sub_apply ops subs) n i \<Longrightarrow> (\<exists>op \<in> set ops. establishes n i op) \<or> sub_accepts subs n i"
proof (induction ops arbitrary: subs)
  case Nil
  then show ?case by simp
next
  case (Cons op ops)
  have "(\<exists>op \<in> set ops. establishes n i op) \<or> sub_accepts (sub_apply op subs) n i"
    using Cons.IH [OF sub_apply_ok [OF Cons.prems(1)]] Cons.prems(2) by simp
  then show ?case using accepts_apply [OF Cons.prems(1)] by auto
qed

subsection \<open>Properties\<close>

text \<open>A report is accepted only for a subscription this server itself established with that very
  node under that id, whatever else happened in between; right after it is established it is
  accepted, and it is the only one of the node that is.\<close>

theorem only_established_accepted:
  "(sub_accepts (fold sub_apply ops []) n i \<longrightarrow> list_ex (establishes n i) ops)
   \<and> (sub_accepts (sub_established now n i d (fold sub_apply ops [])) n j \<longleftrightarrow> j = i)
   \<and> \<not> sub_accepts (sub_forget n (fold sub_apply ops [])) n i"
  using accepts_fold [of "[]" ops n i]
  by (auto simp: sub_accepts_def bt_get_def [of "[]"] list_ex_iff sub_established_def bt_get_insert_raw
      sub_forget_def bt_get_remove)

theorem only_established_accepted_witness:
  "list_ex (establishes 1 7) [Established 0 1 7 60, Reported 5 1, Swept 100]"
proof -
  have "sub_accepts (fold sub_apply [Established 0 1 7 60, Reported 5 1, Swept 100] []) 1 7"
    by (simp add: sub_established_def sub_note_report_def sub_forget_silent_def silent_def
        bt_update_def sub_accepts_def bt_get_def)
  then show ?thesis using only_established_accepted [of "[Established 0 1 7 60, Reported 5 1, Swept 100]" 1 7] by blast
qed

text \<open>The sweep forgets exactly the nodes that are not live, names each of them, and leaves the
  live ones untouched: after it every remaining subscription is live.\<close>

theorem sweep_exact:
  assumes "bt_ok subs"
  shows "bt_get (fst (sub_forget_silent now subs)) n
      = (if sub_is_live now subs n then bt_get subs n else None)
    \<and> (n \<in> set (snd (sub_forget_silent now subs))
        \<longleftrightarrow> bt_get subs n \<noteq> None \<and> \<not> sub_is_live now subs n)
    \<and> distinct (snd (sub_forget_silent now subs))"
proof -
  have "distinct (map fst (filter (\<lambda>(_, e). silent now e) subs))"
    using bt_ok_distinct [OF assms] unfolding bt_keys_def by (rule distinct_map_filter)
  then show ?thesis
    using forget_silent_get [OF assms, of now n] gone_iff [OF assms, of n now]
    by (auto simp: sub_is_live_def silent_def opt_filter_def not_le sub_forget_silent_def Let_def
        split: option.splits)
qed

theorem sweep_exact_witness:
  "snd (sub_forget_silent 700 [(1, \<lparr>sub_id = 7, sub_max_interval = 300, sub_last_report = 50\<rparr>)]) = [1]"
proof -
  let ?s = "[(1::64 word, \<lparr>sub_id = 7, sub_max_interval = 300, sub_last_report = 50\<rparr>)]"
  have ok: "bt_ok ?s" by (simp add: bt_ok_def)
  have "1 \<in> set (snd (sub_forget_silent 700 ?s))"
    using sweep_exact [OF ok, of 700 1] by (simp add: bt_get_def sub_is_live_def)
  then show ?thesis by (auto simp: sub_forget_silent_def Let_def split: if_splits)
qed

end
