(* ===== verification/Server_Context.thy ===== *)
theory Server_Context
  imports Node_Store Config_Store Ota_Registry Events Subscriptions
begin

section \<open>The state every connection shares (\<open>api/mod.rs\<close>)\<close>

text \<open>
  \<open>ServerContext\<close>: the stores and registries of the other theories, what has been handed to the
  event bus (oldest first; \<open>Events\<close> follows it into the queues), the saves requested of the node
  store, the check-in times, the label's owner, the event history and the log levels. Handlers
  are functions of this state; what a Matter operation answers is an argument of the handler that
  performs it. \<open>dispatch\<close> routes a command by name.
\<close>

datatype save_request = SaveLater | SaveAtOnce

record runtime_info =
  ri_sdk_version :: string
  ri_bluetooth_enabled :: bool
  ri_ble_proxy_enabled :: bool
  ri_ota_enabled :: bool
  ri_thread_diagnostics_enabled :: bool
  ri_pinned_fabric_label :: "string option"
  ri_test_net_dcl :: bool

definition runtime_default :: "string \<Rightarrow> runtime_info" where
  "runtime_default version = \<lparr>ri_sdk_version = ''rs-matter-server/'' @ version @ '' (rs-matter/0.3.0)'',
     ri_bluetooth_enabled = False, ri_ble_proxy_enabled = False, ri_ota_enabled = True,
     ri_thread_diagnostics_enabled = True, ri_pinned_fabric_label = None, ri_test_net_dcl = False\<rparr>"

record fabric_info =
  fi_fabric_id :: u64
  fi_compressed_fabric_id :: u64
  fi_fabric_index :: u8
  fi_node_id :: u64
  fi_vendor_id :: u16
  fi_label :: string

record server =
  srv_nodes :: nodes
  srv_config :: config_store
  srv_published :: "event list"
  srv_saves :: "save_request list"
  srv_runtime :: runtime_info
  srv_ota :: ota_registry
  srv_subscriptions :: subscriptions
  srv_check_ins :: "(u64, nat) btree"
  srv_console_loglevel :: string
  srv_file_loglevel :: "string option"
  srv_label_owner :: u64
  srv_history :: "matter_node_event list"
  srv_fabric :: "fabric_info option"

definition server_new :: "nodes \<Rightarrow> config_store \<Rightarrow> runtime_info \<Rightarrow> string \<Rightarrow> server" where
  "server_new nodes config runtime level =
     \<lparr>srv_nodes = nodes, srv_config = config, srv_published = [], srv_saves = [], srv_runtime = runtime,
      srv_ota = ota_new, srv_subscriptions = [], srv_check_ins = [], srv_console_loglevel = level,
      srv_file_loglevel = None, srv_label_owner = 0, srv_history = [], srv_fabric = None\<rparr>"

definition publish :: "event \<Rightarrow> server \<Rightarrow> server" where
  "publish e s = s\<lparr>srv_published := srv_published s @ [e]\<rparr>"

definition request_save :: "save_request \<Rightarrow> server \<Rightarrow> server" where
  "request_save q s = s\<lparr>srv_saves := srv_saves s @ [q]\<rparr>"

definition with_nodes :: "(nodes \<Rightarrow> nodes) \<Rightarrow> server \<Rightarrow> server" where
  "with_nodes f s = s\<lparr>srv_nodes := f (srv_nodes s)\<rparr>"

lemma publish_simps [simp]:
  "srv_nodes (publish e s) = srv_nodes s" "srv_published (publish e s) = srv_published s @ [e]"
  "srv_saves (publish e s) = srv_saves s" "srv_subscriptions (publish e s) = srv_subscriptions s"
  "srv_history (publish e s) = srv_history s"
  by (simp_all add: publish_def)

lemma request_save_simps [simp]:
  "srv_nodes (request_save q s) = srv_nodes s" "srv_published (request_save q s) = srv_published s"
  "srv_saves (request_save q s) = srv_saves s @ [q]" "srv_subscriptions (request_save q s) = srv_subscriptions s"
  "srv_history (request_save q s) = srv_history s"
  by (simp_all add: request_save_def)

lemma with_nodes_simps [simp]:
  "srv_nodes (with_nodes f s) = f (srv_nodes s)" "srv_published (with_nodes f s) = srv_published s"
  "srv_saves (with_nodes f s) = srv_saves s" "srv_subscriptions (with_nodes f s) = srv_subscriptions s"
  "srv_history (with_nodes f s) = srv_history s"
  by (simp_all add: with_nodes_def)

subsection \<open>The fabric's identity, the ledgers, check-ins, log levels\<close>

definition fabric_info_of :: "api_error + fabric_info \<Rightarrow> server \<Rightarrow> server \<times> (api_error + fabric_info)" where
  "fabric_info_of asked s =
     (case srv_fabric s of
        Some f \<Rightarrow> (s, Inr f)
      | None \<Rightarrow> (case asked of
                   Inl e \<Rightarrow> (s, Inl e)
                 | Inr f \<Rightarrow> (s\<lparr>srv_fabric := Some f\<rparr>, Inr f)))"

definition set_fabric_info :: "fabric_info \<Rightarrow> server \<Rightarrow> server" where
  "set_fabric_info f s = s\<lparr>srv_fabric := Some f\<rparr>"

definition update_cached_fabric_label :: "string \<Rightarrow> server \<Rightarrow> server" where
  "update_cached_fabric_label label s =
     s\<lparr>srv_fabric := map_option (\<lambda>f. f\<lparr>fi_label := label\<rparr>) (srv_fabric s)\<rparr>"

definition is_test_vendor :: "u16 \<Rightarrow> bool" where
  "is_test_vendor v = (0xFFF1 \<le> v \<and> v \<le> 0xFFF4)"

datatype ledger = MainLedger | TestLedger

definition ledger_for :: "u16 \<Rightarrow> server \<Rightarrow> ledger option" where
  "ledger_for v s =
     (if is_test_vendor v then (if ri_test_net_dcl (srv_runtime s) then Some TestLedger else None)
      else Some MainLedger)"

definition check_dcl ::
  "(ledger \<Rightarrow> u16 \<Rightarrow> u16 \<Rightarrow> u64 \<Rightarrow> api_error + software_version option)
   \<Rightarrow> u16 \<Rightarrow> u16 \<Rightarrow> u64 \<Rightarrow> server \<Rightarrow> api_error + software_version option" where
  "check_dcl ask vid pid current s =
     (case ledger_for vid s of Some l \<Rightarrow> ask l vid pid current | None \<Rightarrow> Inr None)"

definition note_check_in :: "u64 \<Rightarrow> nat \<Rightarrow> server \<Rightarrow> server" where
  "note_check_in n at_time s = s\<lparr>srv_check_ins := bt_insert n at_time (srv_check_ins s)\<rparr>"

definition last_check_in :: "u64 \<Rightarrow> server \<Rightarrow> nat option" where
  "last_check_in n s = bt_get (srv_check_ins s) n"

definition set_console_loglevel :: "string \<Rightarrow> server \<Rightarrow> server" where
  "set_console_loglevel l s = s\<lparr>srv_console_loglevel := l\<rparr>"

definition set_file_loglevel :: "string \<Rightarrow> server \<Rightarrow> server" where
  "set_file_loglevel l s = s\<lparr>srv_file_loglevel := Some l\<rparr>"

subsection \<open>The fabric label's owner\<close>

text \<open>Owner 0 is nobody; \<open>compare_exchange\<close> and the load that follows it read the same value unless
  another connection intervenes, and no other connection stores this one's id.\<close>

definition claim_fabric_label :: "u64 \<Rightarrow> server \<Rightarrow> server \<times> bool" where
  "claim_fabric_label c s =
     (if srv_label_owner s = 0 then (s\<lparr>srv_label_owner := c\<rparr>, True)
      else (s, srv_label_owner s = c))"

definition release_fabric_label :: "u64 \<Rightarrow> server \<Rightarrow> server" where
  "release_fabric_label c s = (if srv_label_owner s = c then s\<lparr>srv_label_owner := 0\<rparr> else s)"

subsection \<open>The event history\<close>

definition event_history_size :: nat where "event_history_size = 25"

definition record_node_event :: "matter_node_event \<Rightarrow> server \<Rightarrow> server" where
  "record_node_event e s =
     (let h = srv_history s @ [e] in s\<lparr>srv_history := drop (length h - event_history_size) h\<rparr>)"

definition last_25 :: "'a list \<Rightarrow> 'a list" where
  "last_25 xs = drop (length xs - event_history_size) xs"

lemma last_25_snoc: "last_25 (last_25 xs @ [e]) = last_25 (xs @ [e])"
proof (cases "length xs \<le> 25")
  case False
  then have "Suc (length xs - 25) = length xs - 24" by simp
  then show ?thesis using False by (simp add: last_25_def event_history_size_def)
qed (simp add: last_25_def event_history_size_def)

lemma history_fold: "srv_history s = last_25 xs \<Longrightarrow> srv_history (fold record_node_event es s) = last_25 (xs @ es)"
proof (induction es arbitrary: s xs)
  case Nil
  then show ?case by simp
next
  case (Cons e es)
  have "srv_history (record_node_event e s) = last_25 (xs @ [e])"
    using last_25_snoc [of xs e] Cons.prems by (simp add: record_node_event_def Let_def last_25_def)
  then show ?case using Cons.IH [of "record_node_event e s" "xs @ [e]"] by simp
qed

subsection \<open>Commands\<close>

definition commands :: "string list" where
  "commands = [''start_listening'', ''server_info'', ''diagnostics'', ''get_loglevel'', ''set_loglevel'',
     ''get_nodes'', ''get_node'', ''get_node_ip_addresses'', ''remove_node'', ''interview_node'',
     ''ping_node'', ''import_test_node'', ''get_vendor_names'', ''set_wifi_credentials'',
     ''set_thread_dataset'', ''remove_wifi_credentials'', ''remove_thread_dataset'',
     ''get_all_credentials'', ''set_default_fabric_label'', ''get_fabric_label'',
     ''commission_with_code'', ''commission_on_network'', ''open_commissioning_window'', ''discover'',
     ''discover_commissionable_nodes'', ''read_attribute'', ''write_attribute'', ''device_command'',
     ''get_matter_fabrics'', ''remove_matter_fabric'', ''set_acl_entry'', ''set_node_binding'',
     ''get_icd_state'', ''register_icd'', ''unregister_icd'', ''resync_icd'', ''check_node_update'',
     ''update_node'', ''initiate_ota_upload'', ''get_thread_border_routers'',
     ''get_thread_diagnostics'', ''get_network_topology'', ''send_webrtc_provider_command'']"

datatype handler = StartListening | ServerInfo | Diagnostics | GetLoglevel | SetLoglevel
  | SetWifiCredentials | SetThreadDataset | RemoveWifiCredentials | RemoveThreadDataset
  | GetAllCredentials | SetDefaultFabricLabel | GetFabricLabel | GetNodes | GetNode
  | GetNodeIpAddresses | RemoveNode | InterviewNode | PingNode | ImportTestNode | GetVendorNames
  | CommissionWithCode | CommissionOnNetwork | OpenCommissioningWindow | Discover | ReadAttribute
  | WriteAttribute | DeviceCommand | GetMatterFabrics | RemoveMatterFabric | SetAclEntry
  | SetNodeBinding | GetIcdState | RegisterIcd | UnregisterIcd | ResyncIcd | CheckNodeUpdate
  | UpdateNode | InitiateOtaUpload | GetThreadBorderRouters | GetThreadDiagnostics
  | GetNetworkTopology | SendProviderCommand

definition routes :: "(string \<times> handler) list" where
  "routes = [(''start_listening'', StartListening), (''server_info'', ServerInfo),
     (''diagnostics'', Diagnostics), (''get_loglevel'', GetLoglevel), (''set_loglevel'', SetLoglevel),
     (''set_wifi_credentials'', SetWifiCredentials), (''set_thread_dataset'', SetThreadDataset),
     (''remove_wifi_credentials'', RemoveWifiCredentials), (''remove_thread_dataset'', RemoveThreadDataset),
     (''get_all_credentials'', GetAllCredentials), (''set_default_fabric_label'', SetDefaultFabricLabel),
     (''get_fabric_label'', GetFabricLabel), (''get_nodes'', GetNodes), (''get_node'', GetNode),
     (''get_node_ip_addresses'', GetNodeIpAddresses), (''remove_node'', RemoveNode),
     (''interview_node'', InterviewNode), (''ping_node'', PingNode), (''import_test_node'', ImportTestNode),
     (''get_vendor_names'', GetVendorNames), (''commission_with_code'', CommissionWithCode),
     (''commission_on_network'', CommissionOnNetwork),
     (''open_commissioning_window'', OpenCommissioningWindow), (''discover'', Discover),
     (''discover_commissionable_nodes'', Discover), (''read_attribute'', ReadAttribute),
     (''write_attribute'', WriteAttribute), (''device_command'', DeviceCommand),
     (''get_matter_fabrics'', GetMatterFabrics), (''remove_matter_fabric'', RemoveMatterFabric),
     (''set_acl_entry'', SetAclEntry), (''set_node_binding'', SetNodeBinding),
     (''get_icd_state'', GetIcdState), (''register_icd'', RegisterIcd), (''unregister_icd'', UnregisterIcd),
     (''resync_icd'', ResyncIcd), (''check_node_update'', CheckNodeUpdate), (''update_node'', UpdateNode),
     (''initiate_ota_upload'', InitiateOtaUpload), (''get_thread_border_routers'', GetThreadBorderRouters),
     (''get_thread_diagnostics'', GetThreadDiagnostics), (''get_network_topology'', GetNetworkTopology),
     (''send_webrtc_provider_command'', SendProviderCommand)]"

definition dispatch :: "(handler \<Rightarrow> args \<Rightarrow> server \<Rightarrow> server \<times> api_result) \<Rightarrow> string \<Rightarrow> args \<Rightarrow> server \<Rightarrow> server \<times> api_result" where
  "dispatch handlers command a s =
     (case map_of routes command of
        Some h \<Rightarrow> handlers h a s
      | None \<Rightarrow> (s, Inl (err_invalid_command command)))"

definition require_node :: "args \<Rightarrow> server \<Rightarrow> api_error + u64" where
  "require_node a s = bind_res (args_req_u64 a ''node_id'') (\<lambda>n.
     if \<not> ns_contains (srv_nodes s) n then Inl (err_node_not_exists n) else Inr n)"

subsection \<open>Properties\<close>

text \<open>The label has one owner: the first connection to claim it keeps it, every other claim is
  refused and changes nothing, until the owner itself goes away; then the next claim wins.\<close>

theorem fabric_label_single_owner:
  assumes "c \<noteq> 0" and "d \<noteq> c" and "srv_label_owner s = 0"
  shows "snd (claim_fabric_label c s)
    \<and> snd (claim_fabric_label c (fst (claim_fabric_label c s)))
    \<and> claim_fabric_label d (fst (claim_fabric_label c s)) = (fst (claim_fabric_label c s), False)
    \<and> release_fabric_label d (fst (claim_fabric_label c s)) = fst (claim_fabric_label c s)
    \<and> snd (claim_fabric_label d (release_fabric_label c (fst (claim_fabric_label c s))))"
  using assms by (auto simp: claim_fabric_label_def release_fabric_label_def)

theorem fabric_label_single_owner_witness:
  "\<exists>s. \<not> snd (claim_fabric_label 2 (fst (claim_fabric_label 1 s)))"
proof -
  have a: "(1::u64) \<noteq> 0" and b: "(2::u64) \<noteq> 1"
    and c: "srv_label_owner (server_new [] config_in_memory (runtime_default []) []) = 0"
    by (simp_all add: server_new_def)
  show ?thesis using fabric_label_single_owner [OF a b c] by (metis snd_conv)
qed

text \<open>The history holds the last 25 events recorded, in order, and never more.\<close>

theorem history_is_last_25:
  "srv_history (fold record_node_event es (server_new n c r l)) = drop (length es - event_history_size) es"
proof -
  have "srv_history (server_new n c r l) = last_25 []" by (simp add: server_new_def last_25_def)
  then show ?thesis using history_fold by (fastforce simp: last_25_def)
qed

text \<open>The advertised command list and the router agree: every advertised command has a handler,
  every other name is answered with the invalid-command error and changes nothing.\<close>

theorem dispatch_matches_commands:
  "set (map fst routes) = set commands \<and> distinct commands
   \<and> (if command \<in> set commands then \<exists>h. \<forall>handlers a s. dispatch handlers command a s = handlers h a s
      else dispatch handlers command a s = (s, Inl (err_invalid_command command)))"
proof -
  have eq: "set (map fst routes) = set commands" and d: "distinct commands" by code_simp+
  show ?thesis
  proof (cases "command \<in> set commands")
    case True
    then obtain h where "map_of routes command = Some h"
      using eq by (metis domIff dom_map_of_conv_image_fst image_set not_Some_eq)
    then show ?thesis using True eq d by (auto simp: dispatch_def)
  next
    case False
    then have "map_of routes command = None" using eq by (simp add: map_of_eq_None_iff)
    then show ?thesis using False eq d by (simp add: dispatch_def)
  qed
qed

end
