(* ===== verification/Http.thy ===== *)
theory Http
  imports Server_Context
begin

section \<open>Plain HTTP on the shared listener (\<open>ws/http.rs\<close>)\<close>

text \<open>
  Reading and parsing a request head, the two response forms, and the stream that replays the
  bytes already read to the WebSocket handshake. A stream is the list of chunks its reads will
  return (an empty chunk or the list's end is end-of-file); a response is its bytes, JSON being
  rendered by the library.
\<close>

definition max_head_len :: nat where "max_head_len = 16 * 1024"

record request_head =
  rh_method :: string
  rh_path :: string
  rh_headers :: "(string \<times> string) list"
  rh_body_prefix :: bytes

definition rh_header :: "request_head \<Rightarrow> string \<Rightarrow> string option" where
  "rh_header h name = map_option snd (find (\<lambda>(key, _). eq_ignore_ascii_case key name) (rh_headers h))"

definition is_websocket_upgrade :: "request_head \<Rightarrow> bool" where
  "is_websocket_upgrade h =
     (eq_ignore_ascii_case (rh_method h) ''GET''
      \<and> (case rh_header h ''upgrade'' of None \<Rightarrow> False | Some v \<Rightarrow> eq_ignore_ascii_case v ''websocket''))"

definition content_length :: "request_head \<Rightarrow> u64 option" where
  "content_length h = opt_bind (rh_header h ''content-length'') (\<lambda>v. parse_u64 (trim v))"

subsection \<open>Parsing\<close>

definition crlf2 :: bytes where "crlf2 = [13, 10, 13, 10]"

fun find_head_end :: "bytes \<Rightarrow> nat option" where
  "find_head_end [] = None"
| "find_head_end (b # bs) =
     (if take 4 (b # bs) = crlf2 then Some 0 else map_option Suc (find_head_end bs))"

fun split_crlf :: "string \<Rightarrow> string list" where
  "split_crlf [] = [[]]"
| "split_crlf [c] = [[c]]"
| "split_crlf (c # d # s) =
     (if c = CHR 0x0D \<and> d = CHR 0x0A then [] # split_crlf s
      else (case split_crlf (d # s) of w # ws \<Rightarrow> (c # w) # ws | [] \<Rightarrow> [[c]]))"

fun split_words :: "string list \<Rightarrow> string \<Rightarrow> string list" where
  "split_words [] word = (if word = [] then [] else [word])"
| "split_words (g # gs) word =
     (if is_whitespace g then (if word = [] then split_words gs [] else word # split_words gs [])
      else split_words gs (word @ g))"

definition split_whitespace :: "string \<Rightarrow> string list" where
  "split_whitespace s = split_words (chars s) []"

definition parse_header_line :: "string \<Rightarrow> (string \<times> string) option" where
  "parse_header_line line = map_option (\<lambda>(name, value). (trim name, trim value)) (split_once (CHR '':'') line)"

definition parse_head :: "bytes \<Rightarrow> request_head option" where
  "parse_head raw =
     (case find_head_end raw of
        None \<Rightarrow> None
      | Some separator \<Rightarrow>
          opt_bind (from_utf8 (take separator raw)) (\<lambda>head.
            case split_crlf head of
              [] \<Rightarrow> None
            | request_line # lines \<Rightarrow>
                (case split_whitespace request_line of
                   method # path # _ \<Rightarrow>
                     Some \<lparr>rh_method = method, rh_path = path,
                           rh_headers = filter_map parse_header_line (filter (\<lambda>l. l \<noteq> []) lines),
                           rh_body_prefix = drop (separator + 4) raw\<rparr>
                 | _ \<Rightarrow> None)))"

datatype read_error = UnexpectedEof | HeadTooLarge | MalformedHead

text \<open>What was read so far, and the chunks still to come.\<close>

fun read_head :: "bytes \<Rightarrow> bytes list \<Rightarrow> (read_error + request_head \<times> bytes) \<times> bytes list" where
  "read_head raw [] = (Inl UnexpectedEof, [])"
| "read_head raw (chunk # chunks) =
     (if chunk = [] then (Inl UnexpectedEof, chunks)
      else let raw' = raw @ chunk in
        if find_head_end raw' \<noteq> None then
          (map_res (\<lambda>h. (h, raw')) (ok_or MalformedHead (parse_head raw')), chunks)
        else if length raw' > max_head_len then (Inl HeadTooLarge, chunks)
        else read_head raw' chunks)"

subsection \<open>Responses\<close>

definition crlf :: string where "crlf = [CHR 0x0D, CHR 0x0A]"

definition json_response :: "nat \<Rightarrow> string \<Rightarrow> string \<Rightarrow> string" where
  "json_response status reason body =
     ''HTTP/1.1 '' @ show_nat status @ '' '' @ reason @ crlf
     @ ''Content-Type: application/json'' @ crlf
     @ ''Content-Length: '' @ show_nat (length body) @ crlf
     @ ''Connection: close'' @ crlf @ crlf @ body"

definition method_not_allowed :: "string \<Rightarrow> string" where
  "method_not_allowed allow =
     ''HTTP/1.1 405 Method Not Allowed'' @ crlf @ ''Allow: '' @ allow @ crlf
     @ ''Content-Length: 0'' @ crlf @ ''Connection: close'' @ crlf @ crlf"

subsection \<open>Replaying what was read\<close>

record prefixed =
  px_prefix :: bytes
  px_position :: nat
  px_inner :: bytes

definition prefixed_new :: "bytes \<Rightarrow> bytes \<Rightarrow> prefixed" where
  "prefixed_new raw inner = \<lparr>px_prefix = raw, px_position = 0, px_inner = inner\<rparr>"

text \<open>A read into a buffer of \<open>n\<close> bytes; the inner stream delivers at most \<open>k\<close> of them.\<close>

definition prefixed_read :: "nat \<Rightarrow> nat \<Rightarrow> prefixed \<Rightarrow> prefixed \<times> bytes" where
  "prefixed_read n k p =
     (if px_position p < length (px_prefix p) then
        (let remaining = drop (px_position p) (px_prefix p);
             len = min (length remaining) n
         in (p\<lparr>px_position := px_position p + len\<rparr>, take len remaining))
      else (p\<lparr>px_inner := drop (min n k) (px_inner p)\<rparr>, take (min n k) (px_inner p)))"

fun prefixed_reads :: "(nat \<times> nat) list \<Rightarrow> prefixed \<Rightarrow> prefixed \<times> bytes" where
  "prefixed_reads [] p = (p, [])"
| "prefixed_reads ((n, k) # reads) p =
     (let (p', got) = prefixed_read n k p; (p'', more) = prefixed_reads reads p' in (p'', got @ more))"

definition px_left :: "prefixed \<Rightarrow> bytes" where
  "px_left p = drop (px_position p) (px_prefix p) @ px_inner p"

subsection \<open>Laws\<close>

lemma prefixed_read_left: "prefixed_read n k p = (p', got) \<Longrightarrow> px_left p = got @ px_left p'"
proof (cases "px_position p < length (px_prefix p)")
  case True
  let ?r = "drop (px_position p) (px_prefix p)"
  assume "prefixed_read n k p = (p', got)"
  then have got: "got = take (min (length ?r) n) ?r"
    and p': "p' = p\<lparr>px_position := px_position p + min (length ?r) n\<rparr>"
    using True by (auto simp: prefixed_read_def Let_def)
  have "drop (px_position p + min (length ?r) n) (px_prefix p) = drop (min (length ?r) n) ?r"
    by (simp only: drop_drop add.commute)
  then have "px_left p' = drop (min (length ?r) n) ?r @ px_inner p"
    by (simp add: px_left_def p')
  then show ?thesis
    unfolding px_left_def [of p] got by (simp only: append_assoc [symmetric] append_take_drop_id)
next
  case False
  assume "prefixed_read n k p = (p', got)"
  then show ?thesis using False by (auto simp: prefixed_read_def px_left_def)
qed

lemma prefixed_reads_left: "prefixed_reads reads p = (p', got) \<Longrightarrow> px_left p = got @ px_left p'"
proof (induction reads arbitrary: p p' got)
  case Nil
  then show ?case by simp
next
  case (Cons nk reads)
  obtain n k where nk: "nk = (n, k)" by (cases nk)
  obtain p1 got1 where r1: "prefixed_read n k p = (p1, got1)" by (cases "prefixed_read n k p")
  obtain p2 got2 where r2: "prefixed_reads reads p1 = (p2, got2)" by (cases "prefixed_reads reads p1")
  show ?case
    using Cons.prems prefixed_read_left [OF r1] Cons.IH [OF r2] by (simp add: nk r1 r2)
qed

lemma read_head_bytes:
  "read_head raw chunks = (Inr (h, raw'), rest) \<Longrightarrow>
     raw' @ concat rest = raw @ concat chunks \<and> parse_head raw' = Some h"
  by (induction raw chunks rule: read_head.induct)
     (auto simp: Let_def res_simps split: if_splits)

lemma read_head_bound:
  "read_head raw chunks = (Inr (h, raw'), rest) \<Longrightarrow> length raw \<le> max_head_len
     \<Longrightarrow> list_all (\<lambda>c. length c \<le> 1024) chunks \<Longrightarrow> length raw' \<le> max_head_len + 1024"
  by (induction raw chunks rule: read_head.induct)
     (auto simp: Let_def res_simps not_less split: if_splits)

subsection \<open>Properties\<close>

text \<open>Sniffing the request head loses nothing: however the bytes arrive, an accepted head was
  parsed from a buffer of at most 16 KiB and one chunk, and the WebSocket handshake that reads
  through the replaying stream, in reads of any sizes, sees exactly the bytes the client sent,
  in order, none dropped and none repeated.\<close>

theorem head_replay_lossless:
  assumes "read_head [] chunks = (Inr (h, raw), rest)" and "list_all (\<lambda>c. length c \<le> 1024) chunks"
    and "prefixed_reads reads (prefixed_new raw (concat rest)) = (p, got)"
  shows "concat chunks = got @ px_left p \<and> length raw \<le> max_head_len + 1024 \<and> parse_head raw = Some h"
proof -
  have "px_left (prefixed_new raw (concat rest)) = concat chunks"
    using read_head_bytes [OF assms(1)] by (simp add: px_left_def prefixed_new_def)
  then show ?thesis
    using prefixed_reads_left [OF assms(3)] read_head_bytes [OF assms(1)]
      read_head_bound [OF assms(1) _ assms(2)] by simp
qed

definition example_raw :: bytes where "example_raw = [71, 32, 47, 13, 10, 13, 10, 65]"

lemma example_parse:
  "parse_head example_raw = Some \<lparr>rh_method = ''G'', rh_path = ''/'', rh_headers = [], rh_body_prefix = [65]\<rparr>"
proof -
  have f: "find_head_end example_raw = Some 3" by (simp add: example_raw_def crlf2_def)
  have u: "from_utf8 (take 3 example_raw) = Some ''G /''" by code_simp
  have w: "split_whitespace ''G /'' = [''G'', ''/'']" by code_simp
  show ?thesis by (simp add: parse_head_def f u w) (simp add: example_raw_def)
qed

theorem head_replay_lossless_witness:
  "\<exists>got p. prefixed_reads [(3, 0)] (prefixed_new example_raw (concat [])) = (p, got)
     \<and> concat [example_raw] = got @ px_left p \<and> got = [71, 32, 47]"
proof -
  have f: "find_head_end example_raw = Some 3" by (simp add: example_raw_def crlf2_def)
  have r: "read_head [] [example_raw]
      = (Inr (\<lparr>rh_method = ''G'', rh_path = ''/'', rh_headers = [], rh_body_prefix = [65]\<rparr>, example_raw), [])"
    by (simp add: f example_parse) (simp add: example_raw_def)
  have c: "list_all (\<lambda>c. length c \<le> 1024) [example_raw]" by (simp add: example_raw_def)
  obtain p got where g: "prefixed_reads [(3, 0)] (prefixed_new example_raw (concat [])) = (p, got)"
    by (cases "prefixed_reads [(3, 0)] (prefixed_new example_raw (concat []))")
  have "got = [71, 32, 47]" using g by (simp add: prefixed_read_def prefixed_new_def example_raw_def Let_def)
  then show ?thesis using head_replay_lossless [OF r c g] g by blast
qed

end
