(* ===== verification/Connection.thy ===== *)
theory Connection
  imports Http
begin

section \<open>One client connection (\<open>ws/connection.rs\<close>)\<close>

text \<open>
  The WebSocket loop as a function of what the connection meets, in order: client frames, events
  from the bus, the end of either. Each step's outputs are the JSON values sent; \<open>sent_ok\<close> says
  whether the socket accepted the frame. The JSON parser is an argument, as are the handlers the
  router calls. Below it the upload endpoint: its body arrives as a list of read results, and its
  answers are status and JSON (rendered to bytes by \<open>Http\<close>).
\<close>

datatype client_frame = CloseFrame | TextFrame string | UnreadableFrame

datatype incoming = ClientFrame client_frame | ClientError | ClientGone | BusEvent event | BusGone

definition next_connection_id :: "u64 \<Rightarrow> u64 \<times> u64" where
  "next_connection_id counter = (counter + 1, counter)"

type_synonym handlers = "handler \<Rightarrow> args \<Rightarrow> server \<Rightarrow> server \<times> api_result"

definition handle_request ::
  "(string \<Rightarrow> json option) \<Rightarrow> handlers \<Rightarrow> string \<Rightarrow> event_subscriptions \<times> server
   \<Rightarrow> json \<times> event_subscriptions \<times> server" where
  "handle_request parse handlers text es =
     (let (subs, s) = es in
      case parse text of
        None \<Rightarrow> (jobj [(''message_id'', JStr []),
                      (''error_code'', juint (nat (code_as_i64 InvalidArguments))),
                      (''details'', JStr ''Invalid JSON'')], subs, s)
      | Some raw \<Rightarrow>
          (let r = request_from_value raw in
           case req_command r of
             None \<Rightarrow> (response_envelope (req_message_id r)
                        (Inl (api_error_new InvalidCommand ''Missing command'')), subs, s)
           | Some command \<Rightarrow>
               (let subs' = observe_command command subs;
                    (s', result) = dispatch handlers command (req_args r) s
                in (response_envelope (req_message_id r) result, subs', s'))))"

record ws_state =
  ws_subs :: event_subscriptions
  ws_server :: server
  ws_sent :: "json list"
  ws_open :: bool

definition ws_send :: "bool \<Rightarrow> json \<Rightarrow> ws_state \<Rightarrow> ws_state" where
  "ws_send sent_ok v w = (if sent_ok then w\<lparr>ws_sent := ws_sent w @ [v]\<rparr> else w\<lparr>ws_open := False\<rparr>)"

fun ws_step :: "(string \<Rightarrow> json option) \<Rightarrow> handlers \<Rightarrow> incoming \<times> bool \<Rightarrow> ws_state \<Rightarrow> ws_state" where
  "ws_step parse handlers (ClientFrame CloseFrame, ok) w = w\<lparr>ws_open := False\<rparr>"
| "ws_step parse handlers (ClientFrame UnreadableFrame, ok) w = w"
| "ws_step parse handlers (ClientFrame (TextFrame text), ok) w =
     (if trim text = [] then w
      else (let (v, subs, s) = handle_request parse handlers text (ws_subs w, ws_server w)
            in ws_send ok v (w\<lparr>ws_subs := subs, ws_server := s\<rparr>)))"
| "ws_step parse handlers (ClientError, ok) w = w\<lparr>ws_open := False\<rparr>"
| "ws_step parse handlers (ClientGone, ok) w = w\<lparr>ws_open := False\<rparr>"
| "ws_step parse handlers (BusEvent e, ok) w =
     (if \<not> accepts (ws_subs w) e then w else ws_send ok (ev_payload e) w)"
| "ws_step parse handlers (BusGone, ok) w = w\<lparr>ws_open := False\<rparr>"

fun ws_loop :: "(string \<Rightarrow> json option) \<Rightarrow> handlers \<Rightarrow> (incoming \<times> bool) list \<Rightarrow> ws_state \<Rightarrow> ws_state" where
  "ws_loop parse handlers [] w = w"
| "ws_loop parse handlers (i # is) w =
     (if ws_open w then ws_loop parse handlers is (ws_step parse handlers i w) else w)"

text \<open>A whole connection: the greeting, the loop, and the release of the label at its end. When the
  greeting cannot be built or sent, the connection ends before the loop.\<close>

definition serve_websocket ::
  "(string \<Rightarrow> json option) \<Rightarrow> handlers \<Rightarrow> u64 \<Rightarrow> (server \<Rightarrow> server \<times> (api_error + json)) \<Rightarrow> bool
   \<Rightarrow> (incoming \<times> bool) list \<Rightarrow> server \<Rightarrow> server \<times> json list" where
  "serve_websocket parse handlers conn build_info greeted ins s =
     (case build_info s of
        (s1, Inl e) \<Rightarrow> (s1, [])
      | (s1, Inr info) \<Rightarrow>
          if \<not> greeted then (s1, [])
          else (let w = ws_loop parse handlers ins
                          \<lparr>ws_subs = es_default, ws_server = s1, ws_sent = [info], ws_open = True\<rparr>
                in (release_fabric_label conn (ws_server w), ws_sent w)))"

subsection \<open>The upload endpoint\<close>

datatype http_answer = JsonAnswer nat string json | NotAllowed string

definition upload_id :: "string \<Rightarrow> string option" where
  "upload_id path =
     opt_bind (strip_prefix ''/ota-upload/'' path) (\<lambda>rest.
       let i = takeWhile (\<lambda>c. c \<noteq> CHR ''?'' \<and> c \<noteq> CHR ''#'') rest
       in if length i = 32 \<and> list_all is_hexdigit i then Some i else None)"

datatype body_read = BodyBytes bytes | BodyError string

definition too_large :: http_answer where
  "too_large = JsonAnswer 413 ''Payload Too Large''
     (jobj [(''error'', JStr ''The image exceeds the server's upload size limit'')])"

definition bad_request :: "api_error \<Rightarrow> http_answer" where
  "bad_request e = JsonAnswer 400 ''Bad Request''
     (jobj [(''error_code'', juint (nat (code_as_i64 (err_code e)))), (''message'', JStr (err_details e))])"

text \<open>Read until the expected length, the end of the stream, the size limit or an error.\<close>

fun read_body :: "nat \<Rightarrow> bytes \<Rightarrow> body_read list \<Rightarrow> http_answer + bytes" where
  "read_body expected body [] = Inr body"
| "read_body expected body (r # rs) =
     (if length body \<ge> expected then Inr body
      else (case r of
          BodyBytes [] \<Rightarrow> Inr body
        | BodyBytes chunk \<Rightarrow>
            (let body' = body @ chunk in
             if length body' > max_upload_size then Inl too_large else read_body expected body' rs)
        | BodyError e \<Rightarrow> Inl (bad_request (err_ota_upload (''The upload could not be read: '' @ e)))))"

definition version_to_value :: "software_version \<Rightarrow> json" where
  "version_to_value v = jobj
     ([(''vid'', jword (sv_vid v)), (''pid'', jword (sv_pid v)),
       (''software_version'', ju64 (sv_software_version v)),
       (''software_version_string'', JStr (sv_software_version_string v)),
       (''min_applicable_software_version'', ju64 (sv_min_applicable v)),
       (''max_applicable_software_version'', ju64 (sv_max_applicable v)),
       (''update_source'', JStr (case sv_update_source v of
          MainNetDcl \<Rightarrow> ''main-net-dcl'' | TestNetDcl \<Rightarrow> ''test-net-dcl'' | Local \<Rightarrow> ''local''))]
      @ (case sv_firmware_information v of None \<Rightarrow> [] | Some i \<Rightarrow> [(''firmware_information'', JStr i)])
      @ (case sv_release_notes_url v of None \<Rightarrow> [] | Some u \<Rightarrow> [(''release_notes_url'', JStr u)]))"

definition accept_image :: "(bytes \<Rightarrow> json option) \<Rightarrow> bytes \<Rightarrow> server \<Rightarrow> server \<times> http_answer" where
  "accept_image decode_tlv body s =
     (case parse_ota_header decode_tlv body of
        Inr version \<Rightarrow>
          (s\<lparr>srv_ota := ota_store \<lparr>si_version = version, si_bytes = body\<rparr> (srv_ota s)\<rparr>,
           JsonAnswer 200 ''OK'' (version_to_value version))
      | Inl e \<Rightarrow> (s, bad_request e))"

definition upload_body ::
  "(bytes \<Rightarrow> json option) \<Rightarrow> nat \<Rightarrow> request_head \<Rightarrow> string \<Rightarrow> string \<Rightarrow> body_read list \<Rightarrow> server
   \<Rightarrow> server \<times> http_answer" where
  "upload_body decode_tlv now head i peer reads s =
     (case ota_redeem now i peer (srv_ota s) of
        (ota, Inl e) \<Rightarrow> (s\<lparr>srv_ota := ota\<rparr>, bad_request e)
      | (ota, Inr _) \<Rightarrow>
          (let s1 = s\<lparr>srv_ota := ota\<rparr>;
               expected = (case content_length head of None \<Rightarrow> 0 | Some n \<Rightarrow> unat n)
           in case read_body expected (rh_body_prefix head) reads of
                Inl answer \<Rightarrow> (s1, answer)
              | Inr body \<Rightarrow> accept_image decode_tlv body s1))"

definition handle_ota_upload ::
  "(bytes \<Rightarrow> json option) \<Rightarrow> nat \<Rightarrow> request_head \<Rightarrow> string \<Rightarrow> string \<Rightarrow> body_read list \<Rightarrow> server
   \<Rightarrow> server \<times> http_answer" where
  "handle_ota_upload decode_tlv now head i peer reads s =
     (case content_length head of
        Some n \<Rightarrow> if unat n > max_upload_size then (s, too_large)
                  else upload_body decode_tlv now head i peer reads s
      | None \<Rightarrow> upload_body decode_tlv now head i peer reads s)"

definition is_health :: "string \<Rightarrow> bool" where
  "is_health path = (path = ''/health'' \<or> starts_with ''/health?'' path)"

definition serve_http ::
  "(bytes \<Rightarrow> json option) \<Rightarrow> nat \<Rightarrow> request_head \<Rightarrow> string \<Rightarrow> body_read list \<Rightarrow> server
   \<Rightarrow> server \<times> http_answer" where
  "serve_http decode_tlv now head peer reads s =
     (if is_health (rh_path head) then
        (s, if eq_ignore_ascii_case (rh_method head) ''GET''
            then JsonAnswer 200 ''OK''
              (jobj [(''status'', JStr ''ok''), (''schema_version'', juint schema_version),
                     (''nodes'', juint (ns_len (srv_nodes s)))])
            else NotAllowed ''GET'')
      else
        (case upload_id (rh_path head) of
           None \<Rightarrow> (s, JsonAnswer 404 ''Not Found'' (jobj [(''error'', JStr ''Not found'')]))
         | Some i \<Rightarrow>
             if \<not> eq_ignore_ascii_case (rh_method head) ''POST'' then (s, NotAllowed ''POST'')
             else if \<not> ri_ota_enabled (srv_runtime s)
             then (s, bad_request (err_ota_upload ''OTA support is disabled on this server''))
             else handle_ota_upload decode_tlv now head i peer reads s))"

text \<open>A whole connection, whichever endpoint its head asks for. \<open>chunks\<close> is what is read up to the end of the
  head, \<open>upgraded\<close> whether the WebSocket handshake succeeds, \<open>reads\<close> what follows the head otherwise.\<close>

datatype stream_answer = NoAnswer | Frames "json list" | HttpAnswer http_answer

definition serve_stream ::
  "(bytes \<Rightarrow> json option) \<Rightarrow> nat \<Rightarrow> (string \<Rightarrow> json option) \<Rightarrow> handlers \<Rightarrow> u64 \<Rightarrow> (server \<Rightarrow> server \<times> (api_error + json))
   \<Rightarrow> bool \<Rightarrow> bool \<Rightarrow> (incoming \<times> bool) list \<Rightarrow> string \<Rightarrow> bytes list \<Rightarrow> body_read list \<Rightarrow> server \<Rightarrow> server \<times> stream_answer" where
  "serve_stream decode_tlv now parse handlers conn build_info upgraded greeted ins peer chunks reads s =
     (case fst (read_head [] chunks) of
        Inl _ \<Rightarrow> (s, NoAnswer)
      | Inr (head, raw) \<Rightarrow>
          if is_websocket_upgrade head
          then if \<not> upgraded then (s, NoAnswer)
               else map_prod id Frames (serve_websocket parse handlers conn build_info greeted ins s)
          else map_prod id HttpAnswer (serve_http decode_tlv now head peer reads s))"

text \<open>The bytes of an answer, JSON being printed by the library.\<close>

definition answer_bytes :: "(json \<Rightarrow> string) \<Rightarrow> http_answer \<Rightarrow> string" where
  "answer_bytes to_text a =
     (case a of
        JsonAnswer status reason v \<Rightarrow> json_response status reason (to_text v)
      | NotAllowed allow \<Rightarrow> method_not_allowed allow)"

subsection \<open>Laws\<close>

lemma read_body_bound:
  "read_body expected body rs = Inr out \<Longrightarrow> length body \<le> max_upload_size \<Longrightarrow> length out \<le> max_upload_size"
  by (induction expected body rs rule: read_body.induct)
     (auto simp: Let_def not_less split: if_splits body_read.splits list.splits)

lemma accept_image_cases:
  "accept_image decode_tlv body s = (s', a) \<Longrightarrow>
     (\<exists>v. parse_ota_header decode_tlv body = Inr v \<and> a = JsonAnswer 200 ''OK'' (version_to_value v)
          \<and> srv_ota s' = ota_store \<lparr>si_version = v, si_bytes = body\<rparr> (srv_ota s))
     \<or> ((\<exists>e. parse_ota_header decode_tlv body = Inl e \<and> a = bad_request e) \<and> s' = s)"
  by (auto simp: accept_image_def split: sum.splits)

lemma redeem_images [simp]: "or_images (fst (ota_redeem now i peer r)) = or_images r"
  by (auto simp: ota_redeem_def split: option.split)

lemma ws_send_open [simp]: "ws_open (ws_send ok v w) = (ok \<and> ws_open w)"
  by (simp add: ws_send_def)

lemma observe_keeps: "accepts s e \<Longrightarrow> accepts (observe_command c s) e"
  by (auto simp: accepts_def split: event_class.splits if_splits)

text \<open>The commands a list of inputs carries, as far as they parse.\<close>

definition command_of :: "(string \<Rightarrow> json option) \<Rightarrow> incoming \<Rightarrow> string list" where
  "command_of parse i =
     (case i of
        ClientFrame (TextFrame text) \<Rightarrow>
          if trim text = [] then []
          else (case opt_bind (parse text) (\<lambda>raw. req_command (request_from_value raw)) of
                  None \<Rightarrow> [] | Some c \<Rightarrow> [c])
      | _ \<Rightarrow> [])"

lemma handle_request_subs:
  "handle_request parse handlers text (subs, s) = (v, subs', s') \<Longrightarrow>
     subs' = (case opt_bind (parse text) (\<lambda>raw. req_command (request_from_value raw)) of
                None \<Rightarrow> subs | Some c \<Rightarrow> observe_command c subs)"
  by (auto simp: handle_request_def Let_def split_def split: option.splits)

lemma ws_send_subs [simp]: "ws_subs (ws_send ok v w) = ws_subs w"
  by (simp add: ws_send_def)

lemma blank_step: "trim msg = [] \<Longrightarrow> ws_step parse handlers (ClientFrame (TextFrame msg), ok) w = w"
  by simp

lemma ws_step_subs: "ws_subs (ws_step parse handlers (i, ok) w) = fold observe_command (command_of parse i) (ws_subs w)"
proof (cases i)
  case (ClientFrame f)
  show ?thesis
  proof (cases f)
    case (TextFrame msg)
    obtain v subs s where h: "handle_request parse handlers msg (ws_subs w, ws_server w) = (v, subs, s)"
      by (cases "handle_request parse handlers msg (ws_subs w, ws_server w)")
    show ?thesis
      using handle_request_subs [OF h] h by (auto simp: ClientFrame TextFrame command_of_def split: option.split)
  qed (simp_all add: ClientFrame command_of_def)
qed (simp_all add: command_of_def)

lemma ws_loop_subs:
  "ws_open (ws_loop parse handlers ins w) \<Longrightarrow>
     ws_subs (ws_loop parse handlers ins w) = fold observe_command (concat (map (command_of parse \<circ> fst) ins)) (ws_subs w)"
proof (induction ins arbitrary: w)
  case Nil
  then show ?case by simp
next
  case (Cons iok ins)
  obtain i ok where iok: "iok = (i, ok)" by (cases iok)
  have o: "ws_open w" using Cons.prems by (auto split: if_splits)
  then show ?case using Cons.IH [of "ws_step parse handlers iok w"] Cons.prems
    by (simp add: iok ws_step_subs)
qed

subsection \<open>Properties\<close>


text \<open>An event reaches a client exactly when the commands that client has issued on this
  connection, in any order and interleaved with anything, have opted in to it.\<close>

theorem connection_events_follow_opt_in:
  assumes "ws_open (ws_loop parse handlers ins w)" and "ws_subs w = es_default"
  shows "ws_sent (ws_step parse handlers (BusEvent e, True) (ws_loop parse handlers ins w))
    = ws_sent (ws_loop parse handlers ins w)
      @ (if accepts (fold observe_command (concat (map (command_of parse \<circ> fst) ins)) es_default) e
         then [ev_payload e] else [])"
  using ws_loop_subs [OF assms(1)] assms(2) by (simp add: ws_send_def)

theorem connection_events_follow_opt_in_witness:
  "\<exists>w. ws_sent (ws_step (\<lambda>_. None) (\<lambda>_ _ s. (s, Inr JNull)) (BusEvent ev_server_shutdown, True) w) = ws_sent w"
proof -
  let ?w = "\<lparr>ws_subs = es_default, ws_server = server_new [] config_in_memory (runtime_default []) [],
      ws_sent = [], ws_open = True\<rparr>"
  let ?ins = "[(ClientFrame UnreadableFrame, True)]"
  have a: "ws_open (ws_loop (\<lambda>_. None) (\<lambda>_ _ s. (s, Inr JNull)) ?ins ?w)" by simp
  have b: "ws_subs ?w = es_default" by simp
  show ?thesis
    using connection_events_follow_opt_in [OF a b, of ev_server_shutdown]
    by (intro exI [of _ ?w]) (simp add: command_of_def accepts_def es_default_def)
qed


subsection \<open>A concrete upload\<close>

text \<open>A file whose fixed header is whole and says, by its size field, that 4096 bytes belong to it.\<close>

definition short_image :: bytes where
  "short_image = [0x1E, 0xF1, 0xEE, 0x1B, 0, 0x10, 0, 0, 0, 0, 0, 0, 0, 0, 0, 0]"

definition short_decode :: "bytes \<Rightarrow> json option" where
  "short_decode bs = Some (JObj [(''0'', ju64 1), (''1'', ju64 2), (''2'', ju64 3)])"

definition short_head :: request_head where
  "short_head = \<lparr>rh_method = ''POST'', rh_path = ''/'', rh_headers = [(''Content-Length'', ''4096'')],
     rh_body_prefix = short_image\<rparr>"

definition short_server :: server where
  "short_server = (server_new [] config_in_memory (runtime_default []) [])
     \<lparr>srv_ota := \<lparr>or_reservations = [(''u'', \<lparr>rv_peer = ''h'', rv_expires_at = 60\<rparr>)], or_images = []\<rparr>\<rparr>"

definition short_version :: software_version where
  "short_version = \<lparr>sv_vid = 1, sv_pid = 2, sv_software_version = 3, sv_software_version_string = ''3'',
     sv_firmware_information = None, sv_min_applicable = 0, sv_max_applicable = 0xFFFFFFFFFFFFFFFF,
     sv_release_notes_url = None, sv_update_source = Local\<rparr>"

lemma short_parse: "parse_ota_header short_decode short_image = Inr short_version"
proof -
  have l: "length short_image = 16" "le_nat (take 4 short_image) = ota_magic"
    by (simp_all add: short_image_def ota_magic_def)
  have "drop 12 short_image = [0, 0, 0, 0]" by (simp add: short_image_def)
  note l = l this
  have s: "show_u (3 :: u64) = ''3''" by code_simp
  show ?thesis
    by (simp add: parse_ota_header_def l fixed_header_len_def short_decode_def bt_get_def short_version_def s)
qed

lemma short_length: "content_length short_head = Some 4096"
proof -
  have "eq_ignore_ascii_case ''Content-Length'' ''content-length''" by code_simp
  then have h: "rh_header short_head ''content-length'' = Some ''4096''" by (simp add: rh_header_def short_head_def)
  have t: "trim ''4096'' = ''4096''" by code_simp
  have p: "parse_uint 10 u64_max ''4096'' = Some 4096"
    by (simp add: parse_uint_def digit_val_def is_digit_def byte_of_def)
  show ?thesis by (simp add: content_length_def h t parse_u64_def p)
qed

lemma short_upload:
  "\<exists>s'. handle_ota_upload short_decode 5 short_head ''u'' ''h'' [] short_server
      = (s', JsonAnswer 200 ''OK'' (version_to_value short_version))
    \<and> or_images (srv_ota s') = [\<lparr>si_version = short_version, si_bytes = short_image\<rparr>]"
proof -
  have r: "ota_redeem 5 ''u'' ''h'' (srv_ota short_server) = (ota_new, Inr ())"
    by (simp add: ota_redeem_def short_server_def bt_get_def bt_remove_def ota_new_def)
  have b: "rh_body_prefix short_head = short_image" by (simp add: short_head_def)
  show ?thesis
    by (simp add: handle_ota_upload_def short_length upload_body_def r b accept_image_def short_parse
        max_upload_size_def Let_def) (simp add: ota_store_def ota_new_def)
qed


text \<open>An upload cut short is stored all the same: a body that ends before the announced length
  is accepted as long as its header parses, so the store can hold, and offer, a truncated image.\<close>

theorem truncated_upload_is_stored:
  "\<exists>s' v. handle_ota_upload short_decode 5 short_head ''u'' ''h'' [] short_server
        = (s', JsonAnswer 200 ''OK'' (version_to_value v))
    \<and> content_length short_head = Some 4096
    \<and> best_match 1 2 0 (srv_ota s') = Some v \<and> image_size 1 2 3 (srv_ota s') = Some 16"
proof -
  obtain s' where u: "handle_ota_upload short_decode 5 short_head ''u'' ''h'' [] short_server
      = (s', JsonAnswer 200 ''OK'' (version_to_value short_version))"
    and i: "or_images (srv_ota s') = [\<lparr>si_version = short_version, si_bytes = short_image\<rparr>]"
    using short_upload by blast
  have "best_match 1 2 0 (srv_ota s') = Some short_version"
    by (simp add: best_match_def i applies_def short_version_def)
  moreover have "image_size 1 2 3 (srv_ota s') = Some 16"
    by (simp add: image_size_def i image_matches_def short_version_def short_image_def)
  ultimately show ?thesis using u short_length by blast
qed

end
