(* ===== verification/Ota_Api.thy ===== *)
theory Ota_Api
  imports Connection
begin

section \<open>Firmware update commands (\<open>api/ota.rs\<close>)\<close>

text \<open>
  Discovery and start of an update. The ledger's answers (\<open>ask\<close>, \<open>published\<close>), the download and the
  Matter operations are arguments: what the ledger's client checks is in \<open>matter/dcl.rs\<close>, and the
  operations answer with a result. \<open>'img\<close> is the ledger's record of where an image is.
\<close>

definition hex_lower :: "nat \<Rightarrow> char" where
  "hex_lower d = (if d < 10 then char_of (0x30 + d) else char_of (0x61 + (d - 10)))"

definition show_hex4 :: "u16 \<Rightarrow> string" where
  "show_hex4 w = (let n = unat w in
     [hex_lower (n div 4096), hex_lower (n div 256 mod 16), hex_lower (n div 16 mod 16), hex_lower (n mod 16)])"

text \<open>Vendor, product and running version, when the node has been interviewed.\<close>

definition node_firmware :: "matter_node_data \<Rightarrow> (u64 \<times> u64 \<times> u64) option" where
  "node_firmware d =
     (let field = (\<lambda>p. opt_bind (bt_get (nd_attributes d) p) as_u64) in
      opt_bind (field ''0/40/2'') (\<lambda>vid.
      opt_bind (field ''0/40/4'') (\<lambda>pid.
      opt_bind (field ''0/40/9'') (\<lambda>ver. Some (vid, pid, ver)))))"

definition check_node_update ::
  "(ledger \<Rightarrow> u16 \<Rightarrow> u16 \<Rightarrow> u64 \<Rightarrow> api_error + software_version option) \<Rightarrow> args \<Rightarrow> server \<Rightarrow> api_result" where
  "check_node_update ask a s =
     bind_res (require_node a s) (\<lambda>n.
       if \<not> ri_ota_enabled (srv_runtime s)
       then Inl (err_update_check ''OTA support is disabled on this server'')
       else bind_res (ok_or (err_node_not_exists n) (ns_get (srv_nodes s) n)) (\<lambda>d.
         bind_res (ok_or (err_update_check (''Node '' @ show_u n @
             '' has not been interviewed, so its firmware version is unknown'')) (node_firmware d))
         (\<lambda>(vid, pid, ver).
           case best_match (ucast vid) (ucast pid) ver (srv_ota s) of
             Some v \<Rightarrow> Inr (version_to_value v)
           | None \<Rightarrow>
               map_res (\<lambda>v. case v of Some w \<Rightarrow> version_to_value w | None \<Rightarrow> JNull)
                 (check_dcl ask (ucast vid) (ucast pid) ver s))))"

definition as_update_error :: "api_error \<Rightarrow> api_error" where
  "as_update_error e = err_update (err_details e)"

definition fetch_from_ledger ::
  "(ledger \<Rightarrow> u16 \<Rightarrow> u16 \<Rightarrow> u64 \<Rightarrow> api_error + software_version option)
   \<Rightarrow> (ledger \<Rightarrow> u16 \<Rightarrow> u16 \<Rightarrow> u64 \<Rightarrow> u64 \<Rightarrow> api_error + (software_version \<times> 'img) option)
   \<Rightarrow> ('img \<Rightarrow> nat \<Rightarrow> api_error + bytes) \<Rightarrow> (bytes \<Rightarrow> json option)
   \<Rightarrow> u64 \<Rightarrow> u16 \<Rightarrow> u16 \<Rightarrow> u64 \<Rightarrow> u64 option \<Rightarrow> server \<Rightarrow> server \<times> (api_error + software_version)" where
  "fetch_from_ledger ask published download decode_tlv n vid pid current requested s =
     (case bind_res
        (case requested of
           Some v \<Rightarrow> Inr v
         | None \<Rightarrow>
             bind_res (map_err as_update_error (check_dcl ask vid pid current s))
               (\<lambda>u. ok_or (err_update (''No image newer than '' @ show_u current @ '' has been uploaded for node ''
                        @ show_u n @ '', and the ledger publishes none that applies''))
                     (map_option sv_software_version u)))
        (\<lambda>version.
         bind_res (map_err as_update_error (case ledger_for vid s of
             Some l \<Rightarrow> published l vid pid version current | None \<Rightarrow> Inr None)) (\<lambda>found.
         bind_res (ok_or (err_update (''No image for version '' @ show_u version @ '' of node '' @ show_u n
               @ '' has been uploaded to this server, and the ledger publishes none that applies to what it runs''))
             found) (\<lambda>(meta, img).
         bind_res (download img max_upload_size) (\<lambda>body.
         bind_res (map_err (\<lambda>e. err_update (''The image the ledger publishes for version '' @ show_u version
               @ '' is not a Matter OTA file: '' @ err_details e)) (parse_ota_header decode_tlv body)) (\<lambda>header.
           if sv_vid header \<noteq> vid \<or> sv_pid header \<noteq> pid \<or> sv_software_version header \<noteq> version
           then Inl (err_update (''The image the ledger publishes for version '' @ show_u version
               @ '' is for vendor 0x'' @ show_hex4 (sv_vid header) @ '' product 0x'' @ show_hex4 (sv_pid header)
               @ '' version '' @ show_u (sv_software_version header) @ '', not this node's product''))
           else Inr (meta, body))))))
      of
        Inl e \<Rightarrow> (s, Inl e)
      | Inr (meta, body) \<Rightarrow>
          (s\<lparr>srv_ota := ota_store \<lparr>si_version = meta, si_bytes = body\<rparr> (srv_ota s)\<rparr>, Inr meta))"

text \<open>The answers of the Matter operations an update performs, in their order.\<close>

record update_answers =
  ua_grant :: "api_error + unit"
  ua_fabric :: "api_error + fabric_info"
  ua_announce :: "api_error + unit"

definition update_node ::
  "(ledger \<Rightarrow> u16 \<Rightarrow> u16 \<Rightarrow> u64 \<Rightarrow> api_error + software_version option)
   \<Rightarrow> (ledger \<Rightarrow> u16 \<Rightarrow> u16 \<Rightarrow> u64 \<Rightarrow> u64 \<Rightarrow> api_error + (software_version \<times> 'img) option)
   \<Rightarrow> ('img \<Rightarrow> nat \<Rightarrow> api_error + bytes) \<Rightarrow> (bytes \<Rightarrow> json option) \<Rightarrow> update_answers
   \<Rightarrow> args \<Rightarrow> server \<Rightarrow> server \<times> api_result" where
  "update_node ask published download decode_tlv ans a s =
     (case bind_res (require_node a s) (\<lambda>n.
             if \<not> ri_ota_enabled (srv_runtime s) then Inl (err_update ''OTA support is disabled on this server'')
             else bind_res (args_u64 a ''software_version'') (\<lambda>requested.
               bind_res (ok_or (err_node_not_exists n) (ns_get (srv_nodes s) n)) (\<lambda>d.
               map_res (\<lambda>f. (n, requested, f)) (ok_or (err_update (''Node '' @ show_u n @
                   '' has not been interviewed, so what it is running is unknown'')) (node_firmware d)))))
      of
        Inl e \<Rightarrow> (s, Inl e)
      | Inr (n, requested, vid, pid, current) \<Rightarrow>
          (let local = opt_filter (\<lambda>v. case requested of None \<Rightarrow> True | Some r \<Rightarrow> sv_software_version v = r)
                         (best_match (ucast vid) (ucast pid) current (srv_ota s));
               (s1, offered) = (case local of
                   Some v \<Rightarrow> (s, Inr v)
                 | None \<Rightarrow> fetch_from_ledger ask published download decode_tlv n (ucast vid) (ucast pid) current requested s)
           in case offered of
                Inl e \<Rightarrow> (s1, Inl e)
              | Inr v \<Rightarrow>
                  (case ua_grant ans of
                     Inl e \<Rightarrow> (s1, Inl e)
                   | Inr _ \<Rightarrow>
                       (case fabric_info_of (ua_fabric ans) s1 of
                          (s2, Inl e) \<Rightarrow> (s2, Inl e)
                        | (s2, Inr fabric) \<Rightarrow>
                            (s2, map_res (\<lambda>_. version_to_value v) (ua_announce ans))))))"

definition initiate_ota_upload :: "string \<Rightarrow> nat \<Rightarrow> string \<Rightarrow> server \<Rightarrow> server \<times> api_result" where
  "initiate_ota_upload fresh now peer s =
     (if \<not> ri_ota_enabled (srv_runtime s)
      then (s, Inl (err_ota_upload ''OTA support is disabled on this server''))
      else (let (ota, r) = ota_reserve fresh now peer (srv_ota s)
            in (s\<lparr>srv_ota := ota\<rparr>,
                map_res (\<lambda>t. jobj [(''upload_id'', JStr (ut_upload_id t)), (''expires_in'', juint (ut_expires_in t)),
                                   (''max_size'', juint (ut_max_size t))]) r)))"

subsection \<open>Laws\<close>

lemma best_match_held: "best_match vid pid current r = Some v \<Longrightarrow> \<exists>i \<in> set (or_images r). si_version i = v"
  by (auto simp: best_match_def dest!: max_by_key_Some)

lemma fetch_stores:
  "fetch_from_ledger ask published download decode_tlv n vid pid current requested s = (s', Inr v) \<Longrightarrow>
     \<exists>body h. or_images (srv_ota s') = or_images (ota_store \<lparr>si_version = v, si_bytes = body\<rparr> (srv_ota s))
       \<and> parse_ota_header decode_tlv body = Inr h \<and> sv_vid h = vid \<and> sv_pid h = pid
       \<and> (case requested of None \<Rightarrow> True | Some r \<Rightarrow> sv_software_version h = r)"
  unfolding fetch_from_ledger_def
  by (cases requested) (auto simp: res_simps split: sum.splits if_splits)

lemma stored_held: "\<lparr>si_version = v, si_bytes = body\<rparr> \<in> set (or_images (ota_store \<lparr>si_version = v, si_bytes = body\<rparr> r))"
  by (simp add: ota_store_def)

lemma fabric_ota [simp]: "fabric_info_of asked s = (s', r) \<Longrightarrow> srv_ota s' = srv_ota s"
  by (auto simp: fabric_info_of_def split: option.splits sum.splits)

subsection \<open>Properties\<close>

text \<open>A device is only ever announced an update this server holds: whenever the command answers
  with a version, the store (after whatever was fetched) contains the image of exactly the version
  answered, and OTA support is enabled.\<close>

theorem update_announces_held_image:
  assumes "update_node ask published download decode_tlv ans a s = (s', Inr answer)"
  shows "ri_ota_enabled (srv_runtime s)
    \<and> (\<exists>i \<in> set (or_images (srv_ota s')). answer = version_to_value (si_version i))"
proof -
  obtain n requested vid pid current where
    pre: "bind_res (require_node a s) (\<lambda>n.
             if \<not> ri_ota_enabled (srv_runtime s) then Inl (err_update ''OTA support is disabled on this server'')
             else bind_res (args_u64 a ''software_version'') (\<lambda>requested.
               bind_res (ok_or (err_node_not_exists n) (ns_get (srv_nodes s) n)) (\<lambda>d.
               map_res (\<lambda>f. (n, requested, f)) (ok_or (err_update (''Node '' @ show_u n @
                   '' has not been interviewed, so what it is running is unknown'')) (node_firmware d)))))
      = Inr (n, requested, vid, pid, current)"
    using assms by (auto simp: update_node_def split: sum.splits)
  have on: "ri_ota_enabled (srv_runtime s)" using pre by (auto simp: res_simps split: if_splits)
  let ?local = "opt_filter (\<lambda>v. case requested of None \<Rightarrow> True | Some r \<Rightarrow> sv_software_version v = r)
                 (best_match (ucast vid) (ucast pid) current (srv_ota s))"
  obtain s1 offered where o: "(case ?local of Some v \<Rightarrow> (s, Inr v)
      | None \<Rightarrow> fetch_from_ledger ask published download decode_tlv n (ucast vid) (ucast pid) current requested s)
      = (s1, offered)"
    by (metis surj_pair)
  obtain v where v: "offered = Inr v" and ans: "answer = version_to_value v" and s': "srv_ota s' = srv_ota s1"
    using assms unfolding update_node_def pre
    by (auto simp: o Let_def res_simps split: sum.splits prod.splits)
  have "\<exists>i \<in> set (or_images (srv_ota s1)). si_version i = v"
  proof (cases ?local)
    case None
    then have "fetch_from_ledger ask published download decode_tlv n (ucast vid) (ucast pid) current requested s = (s1, Inr v)"
      using o v by simp
    then show ?thesis using fetch_stores stored_held by (metis stored_image.select_convs(1))
  next
    case (Some w)
    then show ?thesis using o v best_match_held by (fastforce simp: opt_filter_Some)
  qed
  then show ?thesis using on ans s' by auto
qed

text \<open>A server that holds two images for a node's product, and what the node looks like.\<close>

definition product_image :: "u64 \<Rightarrow> stored_image" where
  "product_image n = \<lparr>si_version = short_version\<lparr>sv_software_version := n\<rparr>, si_bytes = [1]\<rparr>"

definition product_server :: server where
  "product_server = (server_new
     [(7, stored_new ((node_new 7 ''t'')\<lparr>nd_attributes := [(''0/40/2'', ju64 1), (''0/40/4'', ju64 2), (''0/40/9'', ju64 1)]\<rparr>))]
     config_in_memory (runtime_default []) [])
     \<lparr>srv_ota := \<lparr>or_reservations = [], or_images = [product_image 2, product_image 3]\<rparr>,
      srv_fabric := Some \<lparr>fi_fabric_id = 1, fi_compressed_fabric_id = 1, fi_fabric_index = 1, fi_node_id = 1,
         fi_vendor_id = 1, fi_label = []\<rparr>\<rparr>"

definition update_args :: "u64 option \<Rightarrow> args" where
  "update_args requested = JObj ((''node_id'', ju64 7)
     # (case requested of None \<Rightarrow> [] | Some v \<Rightarrow> [(''software_version'', ju64 v)]))"

lemma product_best: "best_match 1 2 1 (srv_ota product_server) = Some (si_version (product_image 3))"
  by (simp add: best_match_def product_server_def applies_def product_image_def short_version_def)

lemma product_fabric: "\<exists>f. fabric_info_of asked product_server = (product_server, Inr f)"
  by (simp add: fabric_info_of_def) (simp add: product_server_def)

lemma product_pre:
  "require_node (update_args r) product_server = Inr 7"
  "args_u64 (update_args r) ''software_version'' = Inr r"
  "ri_ota_enabled (srv_runtime product_server)"
  "\<exists>d. ns_get (srv_nodes product_server) 7 = Some d \<and> node_firmware d = Some (1, 2, 1)"
  by (auto simp: require_node_def args_req_u64_def required_def args_u64_def args_get_def update_args_def ju64_def
      bt_get_def product_server_def server_new_def runtime_default_def ns_contains_def bt_contains_def
      ns_get_def stored_new_def node_firmware_def Let_def split: option.split)

lemma product_update:
  "update_node ask published download dec ans (update_args r) product_server =
     (let (s1, offered) = (if r = None \<or> r = Some 3 then (product_server, Inr (si_version (product_image 3)))
        else fetch_from_ledger ask published download dec 7 1 2 1 r product_server)
      in case offered of
           Inl e \<Rightarrow> (s1, Inl e)
         | Inr v \<Rightarrow>
             (case ua_grant ans of
                Inl e \<Rightarrow> (s1, Inl e)
              | Inr _ \<Rightarrow>
                  (case fabric_info_of (ua_fabric ans) s1 of
                     (s2, Inl e) \<Rightarrow> (s2, Inl e)
                   | (s2, Inr fabric) \<Rightarrow> (s2, map_res (\<lambda>_. version_to_value v) (ua_announce ans)))))"
proof -
  obtain d where d: "ns_get (srv_nodes product_server) 7 = Some d" "node_firmware d = Some (1, 2, 1)"
    using product_pre(4) by blast
  have v: "sv_software_version (si_version (product_image 3)) = 3" by (simp add: product_image_def)
  show ?thesis
    by (auto simp: update_node_def product_pre d product_best v Let_def split: option.split)
qed

theorem update_announces_held_image_witness:
  "\<exists>s' answer. update_node (\<lambda>_ _ _ _. Inr None) (\<lambda>_ _ _ _ _. Inr (None :: (software_version \<times> unit) option))
        (\<lambda>_ _. Inr []) (\<lambda>_. None) \<lparr>ua_grant = Inr (), ua_fabric = Inl (err_sdk []), ua_announce = Inr ()\<rparr>
        (update_args None) product_server = (s', Inr answer)
    \<and> (\<exists>i \<in> set (or_images (srv_ota s')). answer = version_to_value (si_version i))"
proof -
  have "update_node (\<lambda>_ _ _ _. Inr None) (\<lambda>_ _ _ _ _. Inr (None :: (software_version \<times> unit) option))
        (\<lambda>_ _. Inr []) (\<lambda>_. None) \<lparr>ua_grant = Inr (), ua_fabric = Inl (err_sdk []), ua_announce = Inr ()\<rparr>
        (update_args None) product_server = (product_server, Inr (version_to_value (si_version (product_image 3))))"
    unfolding product_update using product_fabric [of "Inl (err_sdk [])"] by auto
  note * = this
  show ?thesis using update_announces_held_image [OF *] * by blast
qed

text \<open>A version asked for by name is not served from the store unless it is the newest one held:
  with an applicable image of the requested version uploaded, and a newer one beside it, the
  command goes to the ledger and fails when the ledger has nothing.\<close>

theorem requested_local_image_ignored:
  "(\<exists>i \<in> set (or_images (srv_ota product_server)). applies 1 2 1 i \<and> sv_software_version (si_version i) = 2)
   \<and> isl (snd (update_node (\<lambda>_ _ _ _. Inr None) (\<lambda>_ _ _ _ _. Inr (None :: (software_version \<times> unit) option))
        (\<lambda>_ _. Inr []) (\<lambda>_. None) ans (update_args (Some 2)) product_server))"
proof
  show "\<exists>i \<in> set (or_images (srv_ota product_server)). applies 1 2 1 i \<and> sv_software_version (si_version i) = 2"
    by (simp add: product_server_def applies_def product_image_def short_version_def)
  show "isl (snd (update_node (\<lambda>_ _ _ _. Inr None) (\<lambda>_ _ _ _ _. Inr (None :: (software_version \<times> unit) option))
        (\<lambda>_ _. Inr []) (\<lambda>_. None) ans (update_args (Some 2)) product_server))"
    unfolding product_update
    by (simp add: fetch_from_ledger_def ledger_for_def is_test_vendor_def)
qed

end
