(* ===== verification/Wire_Naming.thy ===== *)
theory Wire_Naming
  imports Rust_Num
begin

section \<open>Wire names of fields (\<open>matter/wire_naming.rs\<close>)\<close>

text \<open>
  Specification names are in PascalCase; on the wire a fixed set of acronyms is kept in upper
  case and the first letter is lowered unless the name opens with an acronym. All that the
  code inspects are ASCII classes of characters, so working on bytes is the same. The key a
  name is matched by (\<open>normalize\<close> of \<open>matter/clusters.rs\<close>) drops separators and case; the
  laws below say that no spelling the transform produces changes that key.
\<close>

definition acronyms :: "string list" where
  "acronyms =
    [''SNTPNTS'', ''NTPNTS'', ''BLEUWB'', ''HVAC'', ''ICAC'', ''DAC'', ''MAC'', ''EVSE'',
     ''RFID'', ''PIR'', ''IPV'', ''ANSI'', ''BDX'', ''BLE'', ''CEC'', ''CO'', ''CSR'', ''DNS'',
     ''DST'', ''ESA'', ''EV'', ''GHG'', ''ICD'', ''IEC'', ''IP'', ''LED'', ''MLE'', ''NFC'',
     ''NOC'', ''SNTP'', ''NTP'', ''OTA'', ''PAI'', ''PHY'', ''PIN'', ''PI'', ''PV'', ''PAKE'',
     ''IPK'', ''LQI'', ''URI'', ''RF'', ''RMS'', ''UTC'', ''TC'', ''URL'', ''UWB'', ''VID'',
     ''AC'', ''ID'']"

definition field_name_overrides :: "(string \<times> string) list" where
  "field_name_overrides =
    [(''Id'', ''id''), (''PanId'', ''panId''), (''ExtendedPanId'', ''extendedPanId''),
     (''LeaderRouterId'', ''leaderRouterId''), (''PartitionId'', ''partitionId''),
     (''PartitionIdChangeCount'', ''partitionIdChangeCount''), (''RouterId'', ''routerId''),
     (''ExtendedPanIdPresent'', ''extendedPanIdPresent''),
     (''PanIdPresent'', ''panIdPresent''), (''AdminVendorId'', ''adminVendorId''),
     (''Icac'', ''icac''), (''Noc'', ''noc''), (''MleFrameCounter'', ''mleFrameCounter''),
     (''DvbiUrl'', ''dvbiUrl''), (''PosterArtUrl'', ''posterArtUrl''),
     (''ThumbnailUrl'', ''thumbnailUrl''), (''CommissioningArl'', ''commissioningARL''),
     (''ArlRequestFlowUrl'', ''ARLRequestFlowUrl''), (''Lqi'', ''lqi''),
     (''RootCaCertificate'', ''rootCACertificate''), (''Watermark'', ''waterMark''),
     (''NocsrElements'', ''NOCSRElements''),
     (''AcVoltageMultiplier'', ''acVoltageMultiplier''),
     (''AcVoltageDivisor'', ''acVoltageDivisor''),
     (''AcCurrentMultiplier'', ''acCurrentMultiplier''),
     (''AcCurrentDivisor'', ''acCurrentDivisor''),
     (''AcPowerMultiplier'', ''acPowerMultiplier''), (''AcPowerDivisor'', ''acPowerDivisor''),
     (''RequirePinForRemoteOperation'', ''requirePINforRemoteOperation''),
     (''AcCapacityFormat'', ''ACCapacityformat''), (''IPv4Addresses'', ''IPv4Addresses''),
     (''IPv6Addresses'', ''IPv6Addresses''),
     (''OffPremiseServicesReachableIPv4'', ''offPremiseServicesReachableIPv4''),
     (''OffPremiseServicesReachableIPv6'', ''offPremiseServicesReachableIPv6''),
     (''ColorPointBx'', ''colorPointBX''), (''ColorPointBy'', ''colorPointBY''),
     (''ColorPointGx'', ''colorPointGX''), (''ColorPointGy'', ''colorPointGY''),
     (''ColorPointRx'', ''colorPointRX''), (''ColorPointRy'', ''colorPointRY'')]"

subsection \<open>The transform\<close>

definition not_word_letter :: "char \<Rightarrow> bool" where
  "not_word_letter c = (is_upper c \<or> \<not> is_alphabetic c)"

fun ends_word :: "string \<Rightarrow> bool" where
  "ends_word [] = True"
| "ends_word (c # rest) =
     (not_word_letter c \<or> c = CHR ''s'' \<and> (case rest of [] \<Rightarrow> True | d # _ \<Rightarrow> not_word_letter d))"

text \<open>\<open>str::find\<close>: the first occurrence, as what stands before it and what follows it.\<close>

fun find_str :: "string \<Rightarrow> string \<Rightarrow> (string \<times> string) option" where
  "find_str p [] = (if p = [] then Some ([], []) else None)"
| "find_str p (c # s) =
     (case strip_prefix p (c # s) of
        Some after \<Rightarrow> Some ([], after)
      | None \<Rightarrow> map_option (\<lambda>(before, after). (c # before, after)) (find_str p s))"

lemma find_str_Some: "find_str p s = Some (before, after) \<Longrightarrow> s = before @ p @ after"
proof (induction s arbitrary: before)
  case (Cons c s)
  then show ?case by (fastforce simp: strip_prefix_Some split: option.splits)
qed (auto split: if_splits)

text \<open>The loop over the occurrences of one title-cased acronym \<open>t # ts\<close>.\<close>

function expand_acronym :: "string \<Rightarrow> char \<Rightarrow> string \<Rightarrow> string \<Rightarrow> string" where
  "expand_acronym acronym t ts rest =
     (case find_str (t # ts) rest of
        None \<Rightarrow> rest
      | Some (before, after) \<Rightarrow>
          before @ (if ends_word after then acronym else t # ts) @ expand_acronym acronym t ts after)"
  by pat_completeness auto
termination
  by (relation "measure (\<lambda>(_, _, _, rest). length rest)") (auto dest: find_str_Some)

declare expand_acronym.simps [simp del]

definition apply_acronym :: "string \<Rightarrow> string \<Rightarrow> string" where
  "apply_acronym acronym name =
     (case acronym of
        [] \<Rightarrow> name
      | t # cs \<Rightarrow>
          let ts = map lower_char cs in
          if t # ts = acronym then name else expand_acronym acronym t ts name)"

definition to_chip_name :: "string \<Rightarrow> string" where
  "to_chip_name name = fold apply_acronym acronyms name"

definition opens_with_acronym :: "string \<Rightarrow> bool" where
  "opens_with_acronym name =
     (case name of c # d # _ \<Rightarrow> is_upper c \<and> is_upper d | _ \<Rightarrow> False)"

definition wire_field_name :: "string \<Rightarrow> string" where
  "wire_field_name name =
     (case find (\<lambda>(key, _). key = name) field_name_overrides of
        Some (_, override_name) \<Rightarrow> override_name
      | None \<Rightarrow>
          (let chip_name = to_chip_name name in
           case chip_name of
             [] \<Rightarrow> []
           | c # cs \<Rightarrow> if opens_with_acronym chip_name then chip_name else lower_char c # cs))"

subsection \<open>The matching key\<close>

definition normalize_name :: "string \<Rightarrow> string" where
  "normalize_name name = map lower_char (filter is_alphanumeric name)"

subsection \<open>Laws\<close>

lemma lower_alphanumeric [simp]: "is_alphanumeric (lower_char c) = is_alphanumeric c"
  by (auto simp: lower_char_def is_alphanumeric_def is_alphabetic_def is_upper_def is_lower_def
      is_digit_def byte_of_char_of)

lemma normalize_lower: "normalize_name (to_ascii_lowercase s) = normalize_name s"
  by (induction s) (auto simp: normalize_name_def to_ascii_lowercase_def)

lemma normalize_cong: "eq_ignore_ascii_case a b \<Longrightarrow> normalize_name a = normalize_name b"
  by (metis eq_ignore_ascii_case_def normalize_lower)

lemma normalize_append: "normalize_name (a @ b) = normalize_name a @ normalize_name b"
  by (simp add: normalize_name_def)

lemma normalize_idem [simp]: "normalize_name (normalize_name s) = normalize_name s"
  by (induction s) (auto simp: normalize_name_def)

lemma eq_ic_append: "eq_ignore_ascii_case a b \<Longrightarrow> eq_ignore_ascii_case c d
    \<Longrightarrow> eq_ignore_ascii_case (a @ c) (b @ d)"
  by (simp add: eq_ignore_ascii_case_def to_ascii_lowercase_def)

lemma expand_keeps_case_class:
  assumes "eq_ignore_ascii_case acronym (t # ts)"
  shows "eq_ignore_ascii_case (expand_acronym acronym t ts rest) rest"
proof (induction "length rest" arbitrary: rest rule: less_induct)
  case less
  show ?case
  proof (cases "find_str (t # ts) rest")
    case None
    then show ?thesis by (subst expand_acronym.simps) simp
  next
    case (Some r)
    then obtain before after where r: "find_str (t # ts) rest = Some (before, after)"
      by (cases r) auto
    from find_str_Some [OF r] have rest: "rest = before @ (t # ts) @ after" .
    then have "eq_ignore_ascii_case (expand_acronym acronym t ts after) after"
      using less by simp
    then have "eq_ignore_ascii_case
        (before @ (if ends_word after then acronym else t # ts) @ expand_acronym acronym t ts after)
        (before @ (t # ts) @ after)"
      using assms by (intro eq_ic_append eq_ic_refl) simp_all
    moreover have "expand_acronym acronym t ts rest
        = before @ (if ends_word after then acronym else t # ts) @ expand_acronym acronym t ts after"
      by (subst expand_acronym.simps) (simp add: r)
    ultimately show ?thesis using rest by simp
  qed
qed

lemma apply_acronym_case: "eq_ignore_ascii_case (apply_acronym acronym name) name"
proof (cases acronym)
  case (Cons t cs)
  then have "eq_ignore_ascii_case acronym (t # map lower_char cs)"
    by (simp add: eq_ignore_ascii_case_def to_ascii_lowercase_def)
  then show ?thesis using Cons expand_keeps_case_class by (simp add: apply_acronym_def Let_def)
qed (simp add: apply_acronym_def)

lemma fold_acronyms_case: "eq_ignore_ascii_case (fold apply_acronym as name) name"
  by (induction as arbitrary: name) (auto intro: eq_ic_trans apply_acronym_case)

lemma chip_name_case: "eq_ignore_ascii_case (to_chip_name name) name"
  unfolding to_chip_name_def by (rule fold_acronyms_case)

lemma overrides_case: "list_all (\<lambda>(k, v). eq_ignore_ascii_case v k) field_name_overrides"
  by code_simp

lemma wire_name_case: "eq_ignore_ascii_case (wire_field_name name) name"
proof (cases "find (\<lambda>(key, _). key = name) field_name_overrides")
  case None
  have "eq_ignore_ascii_case (lower_char c # cs) s \<longleftrightarrow> eq_ignore_ascii_case (c # cs) s" for c cs s
    by (simp add: eq_ignore_ascii_case_def to_ascii_lowercase_def)
  then show ?thesis
    using None chip_name_case [of name]
    by (auto simp: wire_field_name_def Let_def split: list.split)
next
  case (Some kv)
  then have "kv \<in> set field_name_overrides" and "fst kv = name"
    by (auto dest: find_Some_D)
  then show ?thesis
    using overrides_case Some by (auto simp: wire_field_name_def list_all_iff)
qed

lemma normalize_wire_name [simp]: "normalize_name (wire_field_name name) = normalize_name name"
  by (rule normalize_cong) (rule wire_name_case)

end
