(* ===== verification/Clusters.thy ===== *)
theory Clusters
  imports Wire_Naming Btree
begin

section \<open>Cluster metadata (\<open>matter/clusters.rs\<close>)\<close>

text \<open>
  The bundled table (\<open>clusters.json\<close>, as serde reads it) is the argument \<open>raw\<close> of \<open>registry\<close>;
  the metadata built from it resolves commands, payload fields and struct fields by name. A
  field kind may name a struct of its cluster, and a struct's fields may name structs again:
  the resolver keeps the definitions it has finished (\<open>finished\<close>) and those on its stack
  (\<open>active\<close>, restored on return, hence an argument), so that a cycle ends in \<open>KOther\<close>.
\<close>

record raw_command =
  rc_id :: u32
  rc_req :: "(string, u32) btree"
  rc_resp :: "(string, u32) btree"
  rc_types :: "(string, string) btree"

record raw_struct =
  rs_fields :: "(string, u32) btree"
  rs_types :: "(string, string) btree"

record raw_cluster =
  rw_name :: string
  rw_revision :: u32
  rw_commands :: "(string, raw_command) btree"
  rw_attributes :: "(string, u32) btree"
  rw_events :: "(string, u32) btree"
  rw_structs :: "(string, raw_struct) btree"
  rw_epoch :: "(string, string) btree"

datatype epoch_unit = Seconds | Micros

definition unix_offset :: "epoch_unit \<Rightarrow> u64" where
  "unix_offset u = (case u of Seconds \<Rightarrow> 946684800 | Micros \<Rightarrow> 946684800 * 1000000)"

datatype field_kind =
    KBytes | KString | KInt | KFloat | KBool
  | KList field_kind
  | KStruct struct_meta
  | KOther
and struct_meta =
  StructMeta (sm_name: string) (sm_fields: "(string \<times> u32) list") (sm_kinds: "(u32 \<times> field_kind) list")

record command_meta =
  cm_id :: u32
  cm_name :: string
  cm_request_fields :: "(string \<times> u32) list"
  cm_response_fields :: "(u32, string) btree"
  cm_request_kinds :: "(u32, field_kind) btree"

record cluster_meta =
  cl_id :: u32
  cl_name :: string
  cl_commands :: "command_meta list"
  cl_attributes :: "(string \<times> u32) list"
  cl_events :: "(string \<times> u32) list"
  cl_epoch :: "(u32, epoch_unit) btree"

subsection \<open>Field kinds\<close>

definition simple_kind :: "string \<Rightarrow> field_kind" where
  "simple_kind raw =
     (if raw = ''bytes'' then KBytes else if raw = ''string'' then KString
      else if raw = ''int'' then KInt else if raw = ''float'' then KFloat
      else if raw = ''bool'' then KBool else KOther)"

fun element :: "field_kind \<Rightarrow> field_kind" where
  "element (KList e) = e"
| "element other = other"

definition wire_fields :: "(string \<times> u32) list \<Rightarrow> (string \<times> u32) list" where
  "wire_fields = map (\<lambda>(field, tag). (wire_field_name field, tag))"

definition struct_of :: "string \<Rightarrow> raw_struct \<Rightarrow> (u32 \<times> field_kind) list \<Rightarrow> struct_meta" where
  "struct_of name d kinds = StructMeta (wire_field_name name) (wire_fields (rs_fields d)) (bt_collect kinds)"

type_synonym definitions = "(string, raw_struct) btree"
type_synonym finished = "(string, struct_meta) btree"

function
  parse_kind :: "definitions \<Rightarrow> string list \<Rightarrow> string \<Rightarrow> finished \<Rightarrow> field_kind \<times> finished"
  and resolve :: "definitions \<Rightarrow> string list \<Rightarrow> string \<Rightarrow> finished \<Rightarrow> struct_meta option \<times> finished"
  and parse_kinds :: "definitions \<Rightarrow> string list \<Rightarrow> (string \<times> string) list \<Rightarrow> finished
        \<Rightarrow> (u32 \<times> field_kind) list \<times> finished"
where
  "parse_kind defs active raw fin =
     (case strip_prefix ''list:'' raw of
        Some e \<Rightarrow> (let (k, fin') = parse_kind defs active e fin in (KList k, fin'))
      | None \<Rightarrow>
          (case strip_prefix ''struct:'' raw of
             Some name \<Rightarrow>
               (let (m, fin') = resolve defs active name fin
                in (case m of Some meta \<Rightarrow> KStruct meta | None \<Rightarrow> KOther, fin'))
           | None \<Rightarrow> (simple_kind raw, fin)))"
| "resolve defs active name fin =
     (case bt_get fin name of
        Some meta \<Rightarrow> (Some meta, fin)
      | None \<Rightarrow>
          if name \<in> set active then (None, fin)
          else (case bt_get defs name of
              None \<Rightarrow> (None, fin)
            | Some d \<Rightarrow>
                (let (kinds, fin') = parse_kinds defs (active @ [name]) (rs_types d) fin;
                     meta = struct_of name d kinds
                 in (Some meta, bt_insert name meta fin'))))"
| "parse_kinds defs active [] fin = ([], fin)"
| "parse_kinds defs active ((tag, kind) # types) fin =
     (case parse_dec tag of
        None \<Rightarrow> parse_kinds defs active types fin
      | Some t \<Rightarrow>
          (let (k, fin') = parse_kind defs active kind fin;
               (ks, fin'') = parse_kinds defs active types fin'
           in ((t, k) # ks, fin'')))"
  by pat_completeness auto
termination
proof (relation "measures
    [\<lambda>x. case x of Inl (defs, active, _) \<Rightarrow> card (fst ` set defs - set active)
       | Inr (Inl (defs, active, _)) \<Rightarrow> card (fst ` set defs - set active)
       | Inr (Inr (defs, active, _)) \<Rightarrow> card (fst ` set defs - set active),
     \<lambda>x. case x of Inl (_, _, raw, _) \<Rightarrow> length raw
       | Inr (Inl (_, _, name, _)) \<Rightarrow> length name
       | Inr (Inr (_, _, types, _)) \<Rightarrow> sum_list (map (\<lambda>(_, kind). Suc (length kind)) types)]")
  fix defs :: definitions and active name and fin :: finished and d
  assume "name \<notin> set active" and "bt_get defs name = Some d"
  then have "name \<in> fst ` set defs - set active"
    using bt_get_in by force
  then have "card (fst ` set defs - set (active @ [name])) < card (fst ` set defs - set active)"
    by (intro psubset_card_mono) auto
  then show "(Inr (Inr (defs, active @ [name], rs_types d, fin)), Inr (Inl (defs, active, name, fin)))
    \<in> measures
      [\<lambda>x. case x of Inl (defs, active, _) \<Rightarrow> card (fst ` set defs - set active)
         | Inr (Inl (defs, active, _)) \<Rightarrow> card (fst ` set defs - set active)
         | Inr (Inr (defs, active, _)) \<Rightarrow> card (fst ` set defs - set active),
       \<lambda>x. case x of Inl (_, _, raw, _) \<Rightarrow> length raw
         | Inr (Inl (_, _, name, _)) \<Rightarrow> length name
         | Inr (Inr (_, _, types, _)) \<Rightarrow> sum_list (map (\<lambda>(_, kind). Suc (length kind)) types)]"
    by simp
qed (auto simp: strip_prefix_Some)

declare parse_kind.simps [simp del] resolve.simps [simp del]

subsection \<open>Lookups\<close>

text \<open>The first entry whose name has the same key.\<close>

definition find_named :: "('a \<Rightarrow> string) \<Rightarrow> 'a list \<Rightarrow> string \<Rightarrow> 'a option" where
  "find_named name xs wanted = find (\<lambda>x. normalize_name (name x) = normalize_name wanted) xs"

definition struct_tag :: "struct_meta \<Rightarrow> string \<Rightarrow> u32 option" where
  "struct_tag m field = map_option snd (find_named fst (sm_fields m) field)"

definition struct_kind :: "struct_meta \<Rightarrow> u32 \<Rightarrow> field_kind" where
  "struct_kind m tag = unwrap_or (bt_get (sm_kinds m) tag) KOther"

definition cluster_command :: "cluster_meta \<Rightarrow> string \<Rightarrow> command_meta option" where
  "cluster_command c name = find_named cm_name (cl_commands c) name"

definition command_by_id :: "cluster_meta \<Rightarrow> u32 \<Rightarrow> command_meta option" where
  "command_by_id c i = find (\<lambda>m. cm_id m = i) (cl_commands c)"

definition attribute_id :: "cluster_meta \<Rightarrow> string \<Rightarrow> u32 option" where
  "attribute_id c name = map_option snd (find_named fst (cl_attributes c) name)"

definition attribute_name :: "cluster_meta \<Rightarrow> u32 \<Rightarrow> string option" where
  "attribute_name c i = map_option fst (find (\<lambda>(_, a). a = i) (cl_attributes c))"

definition meta_attribute_epoch :: "cluster_meta \<Rightarrow> u32 \<Rightarrow> epoch_unit option" where
  "meta_attribute_epoch c i = bt_get (cl_epoch c) i"

definition cluster_event_name :: "cluster_meta \<Rightarrow> u32 \<Rightarrow> string option" where
  "cluster_event_name c i = map_option fst (find (\<lambda>(_, e). e = i) (cl_events c))"

definition request_tag :: "command_meta \<Rightarrow> string \<Rightarrow> u32 option" where
  "request_tag c field = map_option snd (find_named fst (cm_request_fields c) field)"

definition has_response_fields :: "command_meta \<Rightarrow> bool" where
  "has_response_fields c = (cm_response_fields c \<noteq> [])"

definition request_kind :: "command_meta \<Rightarrow> u32 \<Rightarrow> field_kind" where
  "request_kind c tag = unwrap_or (bt_get (cm_request_kinds c) tag) KOther"

subsection \<open>The registry\<close>

definition build_command :: "definitions \<Rightarrow> string \<Rightarrow> raw_command \<Rightarrow> finished \<Rightarrow> command_meta \<times> finished" where
  "build_command defs name rc fin =
     (let (kinds, fin') = parse_kinds defs [] (rc_types rc) fin
      in (\<lparr>cm_id = rc_id rc, cm_name = wire_field_name name,
           cm_request_fields = wire_fields (rc_req rc),
           cm_response_fields = bt_collect (map (\<lambda>(field, tag). (tag, wire_field_name field)) (rc_resp rc)),
           cm_request_kinds = bt_collect kinds\<rparr>, fin'))"

fun build_commands :: "definitions \<Rightarrow> (string \<times> raw_command) list \<Rightarrow> finished \<Rightarrow> command_meta list" where
  "build_commands defs [] fin = []"
| "build_commands defs ((name, rc) # cs) fin =
     (let (c, fin') = build_command defs name rc fin in c # build_commands defs cs fin')"

definition epoch_entry :: "string \<times> string \<Rightarrow> (u32 \<times> epoch_unit) option" where
  "epoch_entry = (\<lambda>(i, unit).
     opt_bind (if unit = ''us'' then Some Micros else if unit = ''s'' then Some Seconds else None)
       (\<lambda>u. map_option (\<lambda>n. (n, u)) (parse_dec i)))"

definition build_cluster :: "string \<times> raw_cluster \<Rightarrow> (u32 \<times> cluster_meta) option" where
  "build_cluster = (\<lambda>(cid, rw). map_option (\<lambda>i. (i,
      \<lparr>cl_id = i, cl_name = rw_name rw, cl_commands = build_commands (rw_structs rw) (rw_commands rw) [],
       cl_attributes = rw_attributes rw, cl_events = rw_events rw,
       cl_epoch = bt_collect (filter_map epoch_entry (rw_epoch rw))\<rparr>)) (parse_dec cid))"

type_synonym cluster_registry = "(u32, cluster_meta) btree"

definition registry :: "(string, raw_cluster) btree \<Rightarrow> cluster_registry" where
  "registry raw = bt_collect (filter_map build_cluster raw)"

definition cluster :: "cluster_registry \<Rightarrow> u32 \<Rightarrow> cluster_meta option" where
  "cluster reg i = bt_get reg i"

definition cluster_count :: "cluster_registry \<Rightarrow> nat" where
  "cluster_count reg = length reg"

subsection \<open>What a resolved kind stands for\<close>

text \<open>
  \<open>kind_of defs raw k\<close>: the kind \<open>k\<close> is a faithful reading of the string \<open>raw\<close>; a struct is read
  with its own fields, each kind in it again faithful to the definition, except that a struct
  may be left opaque (\<open>KOther\<close>).
\<close>

inductive kind_of :: "definitions \<Rightarrow> string \<Rightarrow> field_kind \<Rightarrow> bool" for defs where
  kind_list: "strip_prefix ''list:'' raw = Some e \<Longrightarrow> kind_of defs e k \<Longrightarrow> kind_of defs raw (KList k)"
| kind_struct: "strip_prefix ''list:'' raw = None \<Longrightarrow> strip_prefix ''struct:'' raw = Some name
    \<Longrightarrow> bt_get defs name = Some d
    \<Longrightarrow> \<forall>p \<in> set ks. \<exists>q \<in> set (rs_types d). parse_dec (fst q) = Some (fst p) \<and> kind_of defs (snd q) (snd p)
    \<Longrightarrow> kind_of defs raw (KStruct (struct_of name d ks))"
| kind_opaque: "strip_prefix ''list:'' raw = None \<Longrightarrow> strip_prefix ''struct:'' raw = Some name
    \<Longrightarrow> kind_of defs raw KOther"
| kind_simple: "strip_prefix ''list:'' raw = None \<Longrightarrow> strip_prefix ''struct:'' raw = None
    \<Longrightarrow> kind_of defs raw (simple_kind raw)"

definition struct_sound :: "definitions \<Rightarrow> string \<Rightarrow> struct_meta \<Rightarrow> bool" where
  "struct_sound defs name meta = (\<exists>d ks. bt_get defs name = Some d \<and> meta = struct_of name d ks
     \<and> (\<forall>p \<in> set ks. \<exists>q \<in> set (rs_types d). parse_dec (fst q) = Some (fst p) \<and> kind_of defs (snd q) (snd p)))"

definition finished_sound :: "definitions \<Rightarrow> finished \<Rightarrow> bool" where
  "finished_sound defs fin = (\<forall>name meta. bt_get fin name = Some meta \<longrightarrow> struct_sound defs name meta)"

lemma finished_sound_Nil [simp]: "finished_sound defs []"
  by (simp add: finished_sound_def bt_get_def)

lemma finished_sound_insert:
  "finished_sound defs fin \<Longrightarrow> struct_sound defs name meta \<Longrightarrow> finished_sound defs (bt_insert name meta fin)"
  by (auto simp: finished_sound_def bt_get_insert_raw)

lemma struct_sound_kind: "struct_sound defs name meta \<Longrightarrow> strip_prefix ''list:'' raw = None
    \<Longrightarrow> strip_prefix ''struct:'' raw = Some name \<Longrightarrow> kind_of defs raw (KStruct meta)"
  unfolding struct_sound_def by (auto intro: kind_struct)

lemma resolver_sound:
  "finished_sound defs fin \<Longrightarrow> parse_kind defs active raw fin = (k, fin')
    \<Longrightarrow> kind_of defs raw k \<and> finished_sound defs fin'"
  "finished_sound defs fin \<Longrightarrow> resolve defs active name fin = (m, fin')
    \<Longrightarrow> finished_sound defs fin' \<and> (\<forall>meta. m = Some meta \<longrightarrow> struct_sound defs name meta)"
  "finished_sound defs fin \<Longrightarrow> parse_kinds defs active types fin = (ks, fin')
    \<Longrightarrow> finished_sound defs fin'
      \<and> (\<forall>p \<in> set ks. \<exists>q \<in> set types. parse_dec (fst q) = Some (fst p) \<and> kind_of defs (snd q) (snd p))"
proof (induction defs active raw fin and defs active name fin and defs active types fin
    arbitrary: k fin' and m fin' and ks fin' rule: parse_kind_resolve_parse_kinds.induct)
  case (1 defs active raw fin)
  show ?case
    using "1.prems" "1.IH"
    by (subst (asm) parse_kind.simps)
       (fastforce split: option.splits prod.splits
          intro: kind_list kind_opaque kind_simple struct_sound_kind)
next
  case (2 defs active name fin)
  show ?case
  proof (cases "bt_get fin name")
    case (Some meta)
    with 2 show ?thesis by (subst (asm) resolve.simps) (auto simp: finished_sound_def)
  next
    case None
    show ?thesis
    proof (cases "name \<in> set active \<or> bt_get defs name = None")
      case True
      with 2 None show ?thesis by (subst (asm) resolve.simps) (auto split: option.splits if_splits)
    next
      case False
      then obtain d where d: "name \<notin> set active" "bt_get defs name = Some d" by auto
      obtain ks f where p: "parse_kinds defs (active @ [name]) (rs_types d) fin = (ks, f)" by fastforce
      have h: "finished_sound defs f" "struct_sound defs name (struct_of name d ks)"
        using "2.IH" [OF None d "2.prems"(1) p] d(2) by (auto simp: struct_sound_def)
      have "m = Some (struct_of name d ks)" "fin' = bt_insert name (struct_of name d ks) f"
        using "2.prems"(2) by (simp_all add: resolve.simps None d p Let_def)
      then show ?thesis using h finished_sound_insert by blast
    qed
  qed
next
  case (4 defs active tag kind types fin)
  show ?case
  proof (cases "parse_dec tag :: u32 option")
    case None
    then have "parse_kinds defs active types fin = (ks, fin')" using "4.prems"(2) by simp
    from "4.IH"(1) [OF None "4.prems"(1) this] show ?thesis by auto
  next
    case (Some t)
    obtain k1 f1 where k: "parse_kind defs active kind fin = (k1, f1)" by fastforce
    obtain ks2 f2 where ks: "parse_kinds defs active types f1 = (ks2, f2)" by fastforce
    note ih1 = "4.IH"(2) [OF Some "4.prems"(1) k]
    then have ih2: "finished_sound defs f2
        \<and> (\<forall>p \<in> set ks2. \<exists>q \<in> set types. parse_dec (fst q) = Some (fst p) \<and> kind_of defs (snd q) (snd p))"
      using "4.IH"(3) [OF Some k [symmetric] refl _ ks] by blast
    have "ks = (t, k1) # ks2" "fin' = f2" using "4.prems"(2) by (simp_all add: Some k ks)
    with ih1 ih2 Some show ?thesis by simp
  qed
qed simp

lemma build_commands_members:
  "c \<in> set (build_commands defs cs fin)
    \<Longrightarrow> \<exists>(name, rc) \<in> set cs. \<exists>kinds. c = \<lparr>cm_id = rc_id rc, cm_name = wire_field_name name,
           cm_request_fields = wire_fields (rc_req rc),
           cm_response_fields = bt_collect (map (\<lambda>(field, tag). (tag, wire_field_name field)) (rc_resp rc)),
           cm_request_kinds = bt_collect kinds\<rparr>"
proof (induction defs cs fin rule: build_commands.induct)
  case (2 defs name rc cs fin)
  obtain kinds f where p: "parse_kinds defs [] (rc_types rc) fin = (kinds, f)" by fastforce
  with 2 show ?case by (auto simp: build_command_def)
qed simp

lemma build_commands_names: "map cm_name (build_commands defs cs fin) = map (\<lambda>(name, _). wire_field_name name) cs"
  by (induction defs cs fin rule: build_commands.induct) (auto simp: build_command_def split: prod.splits)

text \<open>A name is found by its key: the entry with that key, if the keys of the table are distinct.\<close>

lemma find_named_key: "normalize_name s = normalize_name t \<Longrightarrow> find_named name xs s = find_named name xs t"
  by (simp add: find_named_def)

lemma find_named_Some: "find_named name xs s = Some x \<Longrightarrow> x \<in> set xs \<and> normalize_name (name x) = normalize_name s"
  unfolding find_named_def by (rule find_Some_D)

lemma find_named_ex: "x \<in> set xs \<Longrightarrow> \<exists>y. find_named name xs (name x) = Some y"
  by (auto simp: find_named_def find_None_iff not_None_eq [symmetric] simp del: not_None_eq)

lemma find_named_unique:
  assumes "x \<in> set xs" and "\<forall>y \<in> set xs. normalize_name (name y) = normalize_name (name x) \<longrightarrow> y = x"
    and "normalize_name s = normalize_name (name x)"
  shows "find_named name xs s = Some x"
proof -
  obtain y where y: "find_named name xs s = Some y"
    using find_named_ex [OF assms(1)] find_named_key [OF assms(3)] by metis
  then show ?thesis using find_named_Some [OF y] assms by auto
qed

subsection \<open>Properties\<close>

text \<open>A payload or struct field is addressed by any spelling of its name: the specification's, the
  wire's, any case, with or without separators; it resolves to the tag the table gives that
  field, provided no other field of the command has the same letters.\<close>

theorem field_any_spelling:
  assumes "(field, tag) \<in> set (rc_req rc)"
    and "\<forall>(f, t) \<in> set (rc_req rc). normalize_name f = normalize_name field \<longrightarrow> t = tag"
    and "normalize_name spelling = normalize_name field"
  shows "request_tag (fst (build_command defs name rc fin)) spelling = Some tag
    \<and> request_tag (fst (build_command defs name rc fin)) (wire_field_name field) = Some tag"
proof -
  have r: "cm_request_fields (fst (build_command defs name rc fin)) = wire_fields (rc_req rc)"
    by (simp add: build_command_def split: prod.split)
  have "map_option snd (find_named fst (wire_fields (rc_req rc)) s) = Some tag" if "normalize_name s = normalize_name field" for s
  proof -
    have m: "(wire_field_name field, tag) \<in> set (wire_fields (rc_req rc))"
      using assms(1) by (force simp: wire_fields_def)
    have "find_named fst (wire_fields (rc_req rc)) s = find_named fst (wire_fields (rc_req rc)) (wire_field_name field)"
      by (rule find_named_key) (simp add: that)
    then obtain y where y: "find_named fst (wire_fields (rc_req rc)) s = Some y"
      using find_named_ex [OF m, of fst] by auto
    then have "y \<in> set (wire_fields (rc_req rc))" and "normalize_name (fst y) = normalize_name field"
      using find_named_Some [OF y] that by auto
    then have "snd y = tag" using assms(2) by (auto simp: wire_fields_def)
    with y show ?thesis by simp
  qed
  then show ?thesis using assms(3) by (simp add: request_tag_def r)
qed

definition example_command :: raw_command where
  "example_command = \<lparr>rc_id = 0, rc_req = [(''Level'', 0), (''OptionsMask'', 2)], rc_resp = [], rc_types = []\<rparr>"

theorem field_any_spelling_witness:
  "request_tag (fst (build_command [] ''MoveToLevel'' example_command [])) ''options_mask'' = Some 2
   \<and> request_tag (fst (build_command [] ''MoveToLevel'' example_command [])) (wire_field_name ''OptionsMask'') = Some 2"
proof -
  have n: "normalize_name ''options_mask'' = ''optionsmask''" "normalize_name ''OptionsMask'' = ''optionsmask''"
      "normalize_name ''Level'' = ''level''"
    by code_simp+
  show ?thesis
    by (rule field_any_spelling) (simp_all add: example_command_def n)
qed

text \<open>A command, too, is found under any spelling of its name, with the id the table gives it; a
  name whose letters no command of the cluster has is not found at all.\<close>

theorem command_any_spelling:
  assumes "build_cluster (cid, rw) = Some (i, c)"
    and "\<forall>(n, r) \<in> set (rw_commands rw). \<forall>(n', r') \<in> set (rw_commands rw).
           normalize_name n = normalize_name n' \<longrightarrow> rc_id r = rc_id r'"
  shows "(case find (\<lambda>(n, _). normalize_name n = normalize_name spelling) (rw_commands rw) of
            None \<Rightarrow> cluster_command c spelling = None
          | Some (n, r) \<Rightarrow> (\<exists>m. cluster_command c spelling = Some m \<and> cm_id m = rc_id r
              \<and> normalize_name (cm_name m) = normalize_name n))"
proof -
  let ?cs = "build_commands (rw_structs rw) (rw_commands rw) []"
  have c: "cl_commands c = ?cs" using assms(1) by (auto simp: build_cluster_def)
  show ?thesis
  proof (cases "find (\<lambda>(n, _). normalize_name n = normalize_name spelling) (rw_commands rw)")
    case None
    have "\<forall>m \<in> set ?cs. normalize_name (cm_name m) \<noteq> normalize_name spelling"
      using None build_commands_members by (fastforce simp: find_None_iff)
    then have "cluster_command c spelling = None"
      by (simp add: cluster_command_def c find_named_def find_None_iff)
    then show ?thesis by (simp only: None option.case)
  next
    case (Some nr)
    obtain n r where nr: "nr = (n, r)" by (cases nr)
    from find_Some_D [OF Some] nr have m: "(n, r) \<in> set (rw_commands rw)" "normalize_name n = normalize_name spelling" by auto
    have "wire_field_name n \<in> set (map cm_name ?cs)"
      using m(1) by (force simp: build_commands_names)
    then obtain x where x: "x \<in> set ?cs" "cm_name x = wire_field_name n" by (metis imageE list.set_map)
    then have "find_named cm_name ?cs spelling = find_named cm_name ?cs (cm_name x)"
      using m(2) by (intro find_named_key) simp
    then obtain y where y: "find_named cm_name ?cs spelling = Some y"
      using find_named_ex [OF x(1), of cm_name] by auto
    obtain n' r' where "(n', r') \<in> set (rw_commands rw)" "cm_id y = rc_id r'" "cm_name y = wire_field_name n'"
      using find_named_Some [OF y] build_commands_members by fastforce
    moreover have "normalize_name (cm_name y) = normalize_name n" using find_named_Some [OF y] m(2) by simp
    ultimately have "cm_id y = rc_id r" using assms(2) m(1) by fastforce
    then show ?thesis using Some nr y \<open>normalize_name (cm_name y) = normalize_name n\<close> by (simp add: cluster_command_def c)
  qed
qed

definition example_cluster :: raw_cluster where
  "example_cluster = \<lparr>rw_name = ''LevelControl'', rw_revision = 1, rw_commands = [(''MoveToLevel'', example_command)],
     rw_attributes = [], rw_events = [], rw_structs = [], rw_epoch = []\<rparr>"

theorem command_any_spelling_witness:
  "\<exists>m. cluster_command (snd (the (build_cluster (''8'', example_cluster)))) ''move_to_level'' = Some m \<and> cm_id m = 0"
proof -
  obtain i c where b: "build_cluster (''8'', example_cluster) = Some (i, c)"
    by (simp add: build_cluster_def parse_dec_def parse_uint_def digit_val_def is_digit_def byte_of_def)
  have n: "normalize_name ''move_to_level'' = ''movetolevel''" "normalize_name ''MoveToLevel'' = ''movetolevel''"
    by code_simp+
  show ?thesis
    using command_any_spelling [OF b, of "''move_to_level''"]
    unfolding b by (simp add: n example_cluster_def) (auto simp: example_command_def)
qed

text \<open>The metadata is faithful to the table: whatever kind the resolver gives a payload field, from
  whatever it has resolved before, the kind reads the declared type, through lists and
  structs; a struct carries exactly the wire names and tags of its own definition, so a field
  is never encoded by the schema of another struct. It returns on cyclic definitions too.\<close>

theorem field_kinds_faithful:
  assumes "parse_kinds defs [] types fin = (kinds, fin')" and "finished_sound defs fin"
  shows "list_all (\<lambda>(tag, k). list_ex (\<lambda>(t, raw). parse_dec t = Some tag \<and> kind_of defs raw k) types) kinds
    \<and> finished_sound defs fin'"
  using resolver_sound(3) [OF assms(2,1)] by (fastforce simp: list_all_iff list_ex_iff)

definition cyclic_defs :: definitions where
  "cyclic_defs = [(''S'', \<lparr>rs_fields = [(''Next'', 0)], rs_types = [(''0'', ''struct:S'')]\<rparr>)]"

theorem field_kinds_faithful_witness:
  "kind_of cyclic_defs ''struct:S'' (KStruct (StructMeta (wire_field_name ''S'') (wire_fields [(''Next'', 0)]) [(0, KOther)]))"
proof -
  have z: "parse_dec ''0'' = Some (0 :: u32)"
    by (simp add: parse_dec_def parse_uint_def digit_val_def is_digit_def byte_of_def)
  have r: "parse_kinds cyclic_defs [] [(''0'', ''struct:S'')] [] =
     ([(0, KStruct (StructMeta (wire_field_name ''S'') (wire_fields [(''Next'', 0)]) [(0, KOther)]))],
      [(''S'', StructMeta (wire_field_name ''S'') (wire_fields [(''Next'', 0)]) [(0, KOther)])])"
    by (simp add: z parse_kind.simps resolve.simps cyclic_defs_def bt_get_def struct_of_def bt_collect_def
        bt_extend_def Let_def)
  show ?thesis using field_kinds_faithful [OF r] by simp
qed

end
