(* ===== verification/Tlv_Json.thy ===== *)
theory Tlv_Json
  imports Clusters Errors "HOL-Library.Multiset"
begin

section \<open>TLV and JSON (\<open>matter/tlv_json.rs\<close>)\<close>

text \<open>
  Decoding what a device sends into JSON, and resolving a client's JSON against the payload
  schema before it is written. An element is what rs-matter's reader hands out: its value, or
  the error the reader reports for it, and for a container its members with their context tags
  (a member's tag may be unreadable too, or absent). A float is its rational value, or \<open>None\<close>
  when it is not finite, which JSON cannot carry. Writing is the sequence of calls on the
  writer; base64 (\<open>enc\<close>, \<open>dec\<close>) is a parameter.
\<close>

datatype tlv =
    Unreadable string
  | S8 "8 word" | S16 "16 word" | S32 "32 word" | S64 "64 word"
  | U8 u8 | U16 u16 | U32 u32 | U64 u64
  | FalseT | TrueT
  | F32 "rat option" | F64 "rat option"
  | Utf8l string | Utf16l string | Utf32l string | Utf64l string
  | Str8l bytes | Str16l bytes | Str32l bytes | Str64l bytes
  | NullT
  | ArrayT "tlv list"
  | StructT "((string + u8 option) \<times> tlv) list"
  | ListT "((string + u8 option) \<times> tlv) list"
  | EndCnt

subsection \<open>Decoding\<close>

definition jint :: "int \<Rightarrow> json" where
  "jint i = JNum (if i < 0 then NegInt i else PosInt (word_of_int i))"

definition jfloat :: "rat option \<Rightarrow> json" where
  "jfloat x = (case x of None \<Rightarrow> JNull | Some r \<Rightarrow> JNum (Float r))"

definition member_key :: "(u32, string) btree option \<Rightarrow> nat \<Rightarrow> u8 option \<Rightarrow> string" where
  "member_key names index ctx =
     (case ctx of
        Some tag \<Rightarrow> unwrap_or (opt_bind names (\<lambda>ns. bt_get ns (ucast tag))) (show_u tag)
      | None \<Rightarrow> show_nat index)"

fun decode_element :: "(bytes \<Rightarrow> string) \<Rightarrow> (u32, string) btree option \<Rightarrow> tlv \<Rightarrow> string + json"
  and decode_items :: "(bytes \<Rightarrow> string) \<Rightarrow> tlv list \<Rightarrow> string + json list"
  and decode_members :: "(bytes \<Rightarrow> string) \<Rightarrow> (u32, string) btree option \<Rightarrow> nat
        \<Rightarrow> ((string + u8 option) \<times> tlv) list \<Rightarrow> (string, json) btree \<Rightarrow> string + json"
where
  "decode_element enc names (Unreadable e) = Inl e"
| "decode_element enc names (S8 v) = Inr (jint (sint v))"
| "decode_element enc names (S16 v) = Inr (jint (sint v))"
| "decode_element enc names (S32 v) = Inr (jint (sint v))"
| "decode_element enc names (S64 v) = Inr (jint (sint v))"
| "decode_element enc names (U8 v) = Inr (jword v)"
| "decode_element enc names (U16 v) = Inr (jword v)"
| "decode_element enc names (U32 v) = Inr (jword v)"
| "decode_element enc names (U64 v) = Inr (jword v)"
| "decode_element enc names FalseT = Inr (JBool False)"
| "decode_element enc names TrueT = Inr (JBool True)"
| "decode_element enc names (F32 v) = Inr (jfloat v)"
| "decode_element enc names (F64 v) = Inr (jfloat v)"
| "decode_element enc names (Utf8l s) = Inr (JStr s)"
| "decode_element enc names (Utf16l s) = Inr (JStr s)"
| "decode_element enc names (Utf32l s) = Inr (JStr s)"
| "decode_element enc names (Utf64l s) = Inr (JStr s)"
| "decode_element enc names (Str8l b) = Inr (JStr (enc b))"
| "decode_element enc names (Str16l b) = Inr (JStr (enc b))"
| "decode_element enc names (Str32l b) = Inr (JStr (enc b))"
| "decode_element enc names (Str64l b) = Inr (JStr (enc b))"
| "decode_element enc names NullT = Inr JNull"
| "decode_element enc names (ArrayT xs) = map_res JArr (decode_items enc xs)"
| "decode_element enc names (StructT ms) = decode_members enc names 0 ms []"
| "decode_element enc names (ListT ms) = decode_members enc names 0 ms []"
| "decode_element enc names EndCnt = Inr JNull"
| "decode_items enc [] = Inr []"
| "decode_items enc (x # xs) =
     bind_res (decode_element enc None x) (\<lambda>v. map_res (\<lambda>vs. v # vs) (decode_items enc xs))"
| "decode_members enc names index [] acc = Inr (JObj acc)"
| "decode_members enc names index ((ctx, x) # ms) acc =
     bind_res ctx (\<lambda>c. bind_res (decode_element enc None x) (\<lambda>v.
       decode_members enc names (index + 1) ms (bt_insert (member_key names index c) v acc)))"

definition to_json :: "(bytes \<Rightarrow> string) \<Rightarrow> tlv \<Rightarrow> string + json" where
  "to_json enc x = decode_element enc None x"

definition to_json_named :: "(bytes \<Rightarrow> string) \<Rightarrow> (u32, string) btree \<Rightarrow> tlv \<Rightarrow> string + json" where
  "to_json_named enc names x = decode_element enc (Some names) x"

definition attribute_epoch :: "cluster_registry \<Rightarrow> u32 \<Rightarrow> u32 \<Rightarrow> epoch_unit option" where
  "attribute_epoch reg cluster_id attribute =
     opt_bind (cluster reg cluster_id) (\<lambda>c. meta_attribute_epoch c attribute)"

definition to_unix_time :: "json \<Rightarrow> epoch_unit \<Rightarrow> json" where
  "to_unix_time v unit =
     (case as_u64 v of Some m \<Rightarrow> ju64 (saturating_add m (unix_offset unit)) | None \<Rightarrow> v)"

definition attribute_to_json ::
  "(bytes \<Rightarrow> string) \<Rightarrow> cluster_registry \<Rightarrow> u32 \<Rightarrow> u32 \<Rightarrow> tlv \<Rightarrow> string + json" where
  "attribute_to_json enc reg cluster_id attribute x =
     map_res (\<lambda>v. case attribute_epoch reg cluster_id attribute of
                    Some unit \<Rightarrow> to_unix_time v unit | None \<Rightarrow> v)
       (decode_element enc None x)"

subsection \<open>Resolving JSON against a schema\<close>

datatype tlv_node =
    NNull | NBool bool | NU64 u64 | NI64 int | NF64 rat
  | NUtf8 string | NBytes bytes
  | NStruct "(u8 \<times> tlv_node) list"
  | NArray "tlv_node list"

definition sort_by_tag :: "(u8 \<times> 'a) list \<Rightarrow> (u8 \<times> 'a) list" where
  "sort_by_tag = sort_key fst"

fun number_node :: "number \<Rightarrow> tlv_node" where
  "number_node (PosInt n) = NU64 n"
| "number_node (NegInt i) = NI64 i"
| "number_node (Float r) = NF64 r"

definition numeric_tag :: "string \<Rightarrow> api_error + u8" where
  "numeric_tag key = ok_or (err_invalid_args
     (''Struct field '' @ quoted key @ '' must be addressed by its numeric TLV tag'')) (parse_dec key)"

text \<open>A name the schema knows, or a number; either way a tag of eight bits.\<close>

definition schema_tag :: "(string \<Rightarrow> u32 option) \<Rightarrow> string \<Rightarrow> string \<Rightarrow> api_error + u8" where
  "schema_tag lookup place key =
     bind_res (ok_or (err_invalid_args (''Unknown field '' @ quoted key @ '' for '' @ place))
                 (opt_or (lookup key) (parse_dec key)))
       (\<lambda>tag. if unat tag < 256 then Inr (ucast tag)
              else Inl (err_invalid_args (''Field '' @ quoted key @ '' has an out-of-range TLV tag'')))"

fun from_json :: "(string \<Rightarrow> bytes option) \<Rightarrow> json \<Rightarrow> field_kind \<Rightarrow> api_error + tlv_node"
  and from_items :: "(string \<Rightarrow> bytes option) \<Rightarrow> json list \<Rightarrow> field_kind \<Rightarrow> api_error + tlv_node list"
  and from_tagged :: "(string \<Rightarrow> bytes option) \<Rightarrow> (string \<times> json) list \<Rightarrow> api_error + (u8 \<times> tlv_node) list"
  and struct_from_json ::
    "(string \<Rightarrow> bytes option) \<Rightarrow> struct_meta \<Rightarrow> (string \<times> json) list \<Rightarrow> api_error + (u8 \<times> tlv_node) list"
where
  "from_json dec JNull kind = Inr NNull"
| "from_json dec (JBool b) kind = Inr (NBool b)"
| "from_json dec (JNum n) kind = Inr (number_node n)"
| "from_json dec (JStr s) kind =
     (if kind = KBytes then
        map_res NBytes (ok_or (err_invalid_args ''Expected a base64-encoded string for an octet-string field'')
                          (dec s))
      else Inr (NUtf8 s))"
| "from_json dec (JArr xs) kind = map_res NArray (from_items dec xs (element kind))"
| "from_json dec (JObj ms) kind =
     map_res (\<lambda>fs. NStruct (sort_by_tag fs))
       (case kind of KStruct schema \<Rightarrow> struct_from_json dec schema ms | _ \<Rightarrow> from_tagged dec ms)"
| "from_items dec [] kind = Inr []"
| "from_items dec (x # xs) kind =
     bind_res (from_json dec x kind) (\<lambda>n. map_res (\<lambda>ns. n # ns) (from_items dec xs kind))"
| "from_tagged dec [] = Inr []"
| "from_tagged dec ((key, v) # ms) =
     bind_res (numeric_tag key) (\<lambda>tag. bind_res (from_json dec v KOther) (\<lambda>n.
       map_res (\<lambda>fs. (tag, n) # fs) (from_tagged dec ms)))"
| "struct_from_json dec schema [] = Inr []"
| "struct_from_json dec schema ((key, v) # ms) =
     bind_res (schema_tag (struct_tag schema) (''struct '' @ quoted (sm_name schema)) key) (\<lambda>tag.
       bind_res (from_json dec v (struct_kind schema (ucast tag))) (\<lambda>n.
         map_res (\<lambda>fs. (tag, n) # fs) (struct_from_json dec schema ms)))"

definition payload_member ::
  "(string \<Rightarrow> bytes option) \<Rightarrow> command_meta \<Rightarrow> string \<times> json \<Rightarrow> api_error + (u8 \<times> tlv_node)" where
  "payload_member dec c = (\<lambda>(name, v).
     bind_res (schema_tag (request_tag c) (''command '' @ quoted (cm_name c)) name) (\<lambda>tag.
       map_res (\<lambda>n. (tag, n)) (from_json dec v (request_kind c (ucast tag)))))"

definition command_payload_from_json ::
  "(string \<Rightarrow> bytes option) \<Rightarrow> command_meta \<Rightarrow> json \<Rightarrow> api_error + tlv_node" where
  "command_payload_from_json dec c payload =
     (case payload of
        JNull \<Rightarrow> Inr (NStruct [])
      | JObj ms \<Rightarrow> map_res (\<lambda>fs. NStruct (sort_by_tag fs)) (collect_res (payload_member dec c) ms)
      | _ \<Rightarrow> Inl (err_invalid_args ''payload must be an object''))"

definition attribute_value_from_json ::
  "(string \<Rightarrow> bytes option) \<Rightarrow> cluster_registry \<Rightarrow> u32 \<Rightarrow> u32 \<Rightarrow> json \<Rightarrow> api_error + tlv_node" where
  "attribute_value_from_json dec reg cluster_id attribute v =
     (case (attribute_epoch reg cluster_id attribute, as_u64 v) of
        (Some unit, Some unix) \<Rightarrow> Inr (NU64 (saturating_sub unix (unix_offset unit)))
      | _ \<Rightarrow> from_json dec v KOther)"

subsection \<open>Writing\<close>

datatype tlv_tag = Anonymous | Context u8

datatype write_call =
    WNull tlv_tag | WBool tlv_tag bool | WU64 tlv_tag u64 | WI64 tlv_tag int | WF64 tlv_tag rat
  | WUtf8 tlv_tag string | WStr tlv_tag bytes | WStartStruct tlv_tag | WStartArray tlv_tag | WEndContainer

fun node_write :: "tlv_node \<Rightarrow> tlv_tag \<Rightarrow> write_call list"
  and members_write :: "(u8 \<times> tlv_node) list \<Rightarrow> write_call list"
  and items_write :: "tlv_node list \<Rightarrow> write_call list"
where
  "node_write NNull tag = [WNull tag]"
| "node_write (NBool b) tag = [WBool tag b]"
| "node_write (NU64 n) tag = [WU64 tag n]"
| "node_write (NI64 i) tag = [WI64 tag i]"
| "node_write (NF64 r) tag = [WF64 tag r]"
| "node_write (NUtf8 s) tag = [WUtf8 tag s]"
| "node_write (NBytes b) tag = [WStr tag b]"
| "node_write (NStruct ms) tag = WStartStruct tag # members_write ms @ [WEndContainer]"
| "node_write (NArray xs) tag = WStartArray tag # items_write xs @ [WEndContainer]"
| "members_write [] = []"
| "members_write ((t, n) # ms) = node_write n (Context t) @ members_write ms"
| "items_write [] = []"
| "items_write (n # ns) = node_write n Anonymous @ items_write ns"

text \<open>An error of rs-matter: its code, and how it prints.\<close>

datatype rs_code = NoSpace | NoNetworkInterface | NotFound | RxTimeout | OtherCode string

record rs_error =
  re_code :: rs_code
  re_debug :: string

definition write_error :: "rs_error \<Rightarrow> api_error" where
  "write_error e =
     (if re_code e = NoSpace then err_invalid_args ''Payload is too large to encode''
      else err_sdk (''Failed to encode payload: '' @ re_debug e))"

subsection \<open>What is written\<close>

text \<open>
  The element tree a sequence of writer calls describes: each call adds a value, with its tag,
  to the innermost open container, whose kind says whether its members keep their tags.
\<close>

type_synonym container = "tlv_tag \<times> bool \<times> (tlv_tag \<times> tlv) list"

fun add_element :: "tlv_tag \<times> tlv \<Rightarrow> container list \<Rightarrow> container list" where
  "add_element x [] = []"
| "add_element x ((tag, array, xs) # fs) = (tag, array, xs @ [x]) # fs"

fun context_tag :: "tlv_tag \<Rightarrow> u8 option" where
  "context_tag Anonymous = None"
| "context_tag (Context t) = Some t"

fun read_call :: "write_call \<Rightarrow> container list \<Rightarrow> container list" where
  "read_call (WNull tag) fs = add_element (tag, NullT) fs"
| "read_call (WBool tag b) fs = add_element (tag, if b then TrueT else FalseT) fs"
| "read_call (WU64 tag n) fs = add_element (tag, U64 n) fs"
| "read_call (WI64 tag i) fs = add_element (tag, S64 (word_of_int i)) fs"
| "read_call (WF64 tag r) fs = add_element (tag, F64 (Some r)) fs"
| "read_call (WUtf8 tag s) fs = add_element (tag, Utf8l s) fs"
| "read_call (WStr tag b) fs = add_element (tag, Str8l b) fs"
| "read_call (WStartStruct tag) fs = (tag, False, []) # fs"
| "read_call (WStartArray tag) fs = (tag, True, []) # fs"
| "read_call WEndContainer [] = []"
| "read_call WEndContainer ((tag, array, xs) # fs) =
     add_element (tag, if array then ArrayT (map snd xs)
                       else StructT (map (\<lambda>(t, x). (Inr (context_tag t), x)) xs)) fs"

definition written :: "write_call list \<Rightarrow> (tlv_tag \<times> tlv) list" where
  "written calls = (case fold read_call calls [(Anonymous, True, [])] of [(_, _, xs)] \<Rightarrow> xs | _ \<Rightarrow> [])"

fun element_of :: "tlv_node \<Rightarrow> tlv" where
  "element_of NNull = NullT"
| "element_of (NBool b) = (if b then TrueT else FalseT)"
| "element_of (NU64 n) = U64 n"
| "element_of (NI64 i) = S64 (word_of_int i)"
| "element_of (NF64 r) = F64 (Some r)"
| "element_of (NUtf8 s) = Utf8l s"
| "element_of (NBytes b) = Str8l b"
| "element_of (NStruct ms) = StructT (map (\<lambda>(t, n). (Inr (Some t), element_of n)) ms)"
| "element_of (NArray xs) = ArrayT (map element_of xs)"

lemma fold_write:
  "fold read_call (node_write n tag) ((t, a, xs) # fs) = (t, a, xs @ [(tag, element_of n)]) # fs"
  "fold read_call (members_write ms) ((t, a, xs) # fs)
     = (t, a, xs @ map (\<lambda>(t, n). (Context t, element_of n)) ms) # fs"
  "fold read_call (items_write ns) ((t, a, xs) # fs) = (t, a, xs @ map (\<lambda>n. (Anonymous, element_of n)) ns) # fs"
proof (induction n tag and ms and ns arbitrary: t a xs fs and t a xs fs and t a xs fs
    rule: node_write_members_write_items_write.induct)
  case (8 ms tag)
  have m: "map (\<lambda>(t, x). (Inr (context_tag t) :: string + u8 option, x))
      (map (\<lambda>(t, n). (Context t, element_of n)) ms) = map (\<lambda>(t, n). (Inr (Some t), element_of n)) ms"
    by (induction ms) auto
  show ?case by (simp add: 8 m del: map_map)
next
  case (9 xs tag)
  then show ?case by (simp add: o_def)
qed simp_all

lemma written_node: "written (node_write n tag) = [(tag, element_of n)]"
  by (simp add: written_def fold_write)

subsection \<open>Laws of the resolution\<close>

lemma from_items_collect: "from_items dec xs k = collect_res (\<lambda>x. from_json dec x k) xs"
  by (induction xs) auto

lemma from_tagged_collect:
  "from_tagged dec ms = collect_res (\<lambda>(key, v). bind_res (numeric_tag key)
     (\<lambda>tag. map_res (Pair tag) (from_json dec v KOther))) ms"
proof (induction ms)
  case (Cons m ms)
  then show ?case
    by (cases m; cases "numeric_tag (fst m)"; cases "from_json dec (snd m) KOther") auto
qed simp

lemma struct_from_json_collect:
  "struct_from_json dec schema ms = collect_res (\<lambda>(key, v).
     bind_res (schema_tag (struct_tag schema) (''struct '' @ quoted (sm_name schema)) key)
       (\<lambda>tag. map_res (Pair tag) (from_json dec v (struct_kind schema (ucast tag))))) ms"
proof (induction ms)
  case (Cons m ms)
  then show ?case
    by (cases m; cases "schema_tag (struct_tag schema) (''struct '' @ quoted (sm_name schema)) (fst m)";
        cases "from_json dec (snd m) (struct_kind schema (ucast (projr (schema_tag (struct_tag schema)
          (''struct '' @ quoted (sm_name schema)) (fst m)))))") auto
qed simp

lemma decode_items_collect: "decode_items enc xs = collect_res (decode_element enc None) xs"
  by (induction xs) auto

lemma decode_members_extend:
  assumes "\<forall>(t, x) \<in> set ms. decode_element enc None x = Inr (f x)"
  shows "decode_members enc None i (map (\<lambda>(t, x). (Inr (Some t), x)) ms) acc
       = Inr (JObj (bt_extend acc (map (\<lambda>(t, x). (show_u t, f x)) ms)))"
  using assms
proof (induction ms arbitrary: i acc)
  case (Cons m ms)
  obtain t x where m: "m = (t, x)" by (cases m)
  with Cons.prems have "decode_element enc None x = Inr (f x)" by simp
  with Cons m show ?case by (simp add: member_key_def bt_extend_def)
qed (simp add: bt_extend_def)

lemma schema_tag_code: "schema_tag lookup place key = Inl e \<Longrightarrow> err_code e = InvalidArguments"
  by (auto simp: schema_tag_def res_simps split: if_splits)

lemma from_json_code:
  "from_json dec v k = Inl e \<Longrightarrow> err_code e = InvalidArguments"
  "from_items dec xs k = Inl e \<Longrightarrow> err_code e = InvalidArguments"
  "from_tagged dec ms = Inl e \<Longrightarrow> err_code e = InvalidArguments"
  "struct_from_json dec schema ms = Inl e \<Longrightarrow> err_code e = InvalidArguments"
proof (induction dec v k and dec xs k and dec ms and dec schema ms arbitrary: e and e and e and e
      rule: from_json_from_items_from_tagged_struct_from_json.induct)
  case (6 dec ms kind)
  then show ?case by (cases kind) (auto simp: res_simps)
next
  case (10 dec key v ms)
  then show ?case by (auto simp: res_simps numeric_tag_def)
next
  case (12 dec schema key v ms)
  then show ?case by (auto simp: res_simps dest: schema_tag_code)
qed (auto simp: res_simps split: if_splits)

subsection \<open>Properties\<close>

text \<open>A value that needs no schema: its objects are keyed by tags, written the way a tag prints, and
  its negative numbers are 64-bit integers.\<close>

definition tag_key :: "string \<Rightarrow> bool" where
  "tag_key key = (case parse_dec key :: u8 option of Some t \<Rightarrow> show_u t = key | None \<Rightarrow> False)"

fun plain :: "json \<Rightarrow> bool" where
  "plain (JNum (NegInt i)) = (- (2 ^ 63) \<le> i \<and> i < 0)"
| "plain (JArr xs) = list_all plain xs"
| "plain (JObj ms) = (bt_ok ms \<and> list_all (\<lambda>(key, v). tag_key key \<and> plain v) ms)"
| "plain _ = True"

definition node_of :: "(string \<Rightarrow> bytes option) \<Rightarrow> json \<Rightarrow> tlv_node" where
  "node_of dec v = projr (from_json dec v KOther)"

definition tag_of :: "string \<Rightarrow> u8" where
  "tag_of key = the (parse_dec key)"

lemma tag_of_key: "tag_key key \<Longrightarrow> show_u (tag_of key) = key \<and> numeric_tag key = Inr (tag_of key)"
  by (auto simp: tag_key_def tag_of_def numeric_tag_def split: option.splits)

lemma sint_neg: "- (2 ^ 63) \<le> i \<Longrightarrow> i < 2 ^ 63 \<Longrightarrow> sint (word_of_int i :: 64 word) = i"
  by (simp add: sint_sbintrunc' signed_take_bit_int_eq_self)

abbreviation reads_back :: "(bytes \<Rightarrow> string) \<Rightarrow> (string \<Rightarrow> bytes option) \<Rightarrow> json \<Rightarrow> bool" where
  "reads_back enc dec v \<equiv>
     from_json dec v KOther = Inr (node_of dec v) \<and> decode_element enc None (element_of (node_of dec v)) = Inr v"

lemma collect_permuted: "bt_ok m \<Longrightarrow> mset kvs = mset m \<Longrightarrow> bt_collect kvs = m"
proof -
  assume ok: "bt_ok m" and p: "mset kvs = mset m"
  have d: "distinct (map fst m)" using bt_ok_distinct [OF ok] by (simp add: bt_keys_def)
  have "mset (map fst (rev kvs)) = mset (map fst m)" by (simp only: mset_map mset_rev p)
  then have "distinct (map fst (rev kvs))" using d mset_eq_imp_distinct_iff by blast
  then have "map_of (rev kvs) = map_of m"
    using d mset_eq_setD [OF p] by (simp add: map_of_inject_set)
  then show ?thesis by (intro bt_equal [OF _ ok]) (simp_all add: bt_get_collect bt_get_def fun_eq_iff)
qed

lemma object_reads_back:
  assumes ok: "bt_ok ms" and keys: "\<forall>(key, v) \<in> set ms. tag_key key \<and> reads_back enc dec v"
  shows "reads_back enc dec (JObj ms)"
proof -
  let ?fs = "map (\<lambda>(key, v). (tag_of key, node_of dec v)) ms"
  let ?val = "\<lambda>n. projr (decode_element enc None (element_of n))"
  have tagged: "from_tagged dec ms = Inr ?fs"
    unfolding from_tagged_collect by (rule collect_res_ok) (use keys tag_of_key in fastforce)
  then have node: "from_json dec (JObj ms) KOther = Inr (NStruct (sort_by_tag ?fs))" by simp
  then have node_of: "node_of dec (JObj ms) = NStruct (sort_by_tag ?fs)" by (simp add: node_of_def)
  have all: "\<forall>(t, n) \<in> set ?fs. decode_element enc None (element_of n) = Inr (?val n)" using keys by fastforce
  have "decode_element enc None (element_of (node_of dec (JObj ms)))
      = Inr (JObj (bt_collect (map (\<lambda>(t, n). (show_u t, ?val n)) (sort_by_tag ?fs))))"
    using decode_members_extend [of "map (\<lambda>(t, n). (t, element_of n)) (sort_by_tag ?fs)" enc
        "\<lambda>x. projr (decode_element enc None x)" 0 "[]"] all
    by (auto simp: node_of sort_by_tag_def bt_collect_def case_prod_unfold o_def)
  moreover have "bt_collect (map (\<lambda>(t, n). (show_u t, ?val n)) (sort_by_tag ?fs)) = ms"
  proof (rule collect_permuted [OF ok])
    have "mset (map (\<lambda>(t, n). (show_u t, ?val n)) (sort_by_tag ?fs)) = mset (map (\<lambda>(t, n). (show_u t, ?val n)) ?fs)"
      by (simp only: mset_map sort_by_tag_def mset_sort)
    also have "map (\<lambda>(t, n). (show_u t, ?val n)) ?fs = ms"
      using keys tag_of_key by (intro map_idI [THEN trans [OF map_map]]) (fastforce simp: o_def)
    finally show "mset (map (\<lambda>(t, n). (show_u t, ?val n)) (sort_by_tag ?fs)) = mset ms" .
  qed
  ultimately show ?thesis using node node_of by simp
qed

lemma plain_reads_back: "plain v \<Longrightarrow> reads_back enc dec v"
proof (induction v)
  case (JNum n)
  then show ?case by (cases n) (auto simp: node_of_def jint_def jword_def jfloat_def sint_neg)
next
  case (JArr xs)
  then have "\<And>x. x \<in> set xs \<Longrightarrow> reads_back enc dec x" by (simp add: list_all_iff)
  moreover from this have "from_items dec xs KOther = Inr (map (node_of dec) xs)"
    unfolding from_items_collect by (intro collect_res_ok) simp
  moreover have "decode_items enc (map element_of (map (node_of dec) xs)) = Inr xs"
    unfolding decode_items_collect using calculation(1) by (induction xs) auto
  ultimately show ?case by (simp add: node_of_def)
next
  case (JObj ms)
  then show ?case by (intro object_reads_back) (fastforce simp: list_all_iff)+
qed (simp_all add: node_of_def)



text \<open>A node is typed by a kind: octets stand exactly where the schema has octets, text never does,
  lists have elements of the element kind, and the members of a struct are in tag order, each
  typed by the kind its tag has there.\<close>

definition member_kind :: "field_kind \<Rightarrow> u8 \<Rightarrow> field_kind" where
  "member_kind k t = (case k of KStruct m \<Rightarrow> struct_kind m (ucast t) | _ \<Rightarrow> KOther)"

fun typed :: "field_kind \<Rightarrow> tlv_node \<Rightarrow> bool" where
  "typed k (NBytes b) = (k = KBytes)"
| "typed k (NUtf8 s) = (k \<noteq> KBytes)"
| "typed k (NArray xs) = list_all (typed (element k)) xs"
| "typed k (NStruct ms) = (sorted (map fst ms) \<and> list_all (\<lambda>(t, n). typed (member_kind k t) n) ms)"
| "typed k n = True"

lemma sorted_by_tag: "sorted (map fst (sort_by_tag ms))"
  by (simp add: sort_by_tag_def)

lemma set_sort_by_tag [simp]: "set (sort_by_tag ms) = set ms"
  by (simp add: sort_by_tag_def)

lemma from_json_typed:
  "from_json dec v k = Inr n \<Longrightarrow> typed k n"
  "from_items dec xs k = Inr ns \<Longrightarrow> list_all (typed k) ns"
  "from_tagged dec ms = Inr fs \<Longrightarrow> list_all (\<lambda>(t, n). typed KOther n) fs"
  "struct_from_json dec schema ms = Inr fs \<Longrightarrow> list_all (\<lambda>(t, n). typed (struct_kind schema (ucast t)) n) fs"
proof (induction dec v k and dec xs k and dec ms and dec schema ms arbitrary: n and ns and fs and fs
      rule: from_json_from_items_from_tagged_struct_from_json.induct)
  case (3 dec num kind)
  then show ?case by (cases num) auto
next
  case (6 dec ms kind)
  then show ?case
    by (cases kind) (auto simp: res_simps sorted_by_tag list_all_iff member_kind_def)
qed (auto simp: res_simps split: if_splits)

lemma payload_member_Inr:
  "payload_member dec c (name, v) = Inr f \<longleftrightarrow>
     schema_tag (request_tag c) (''command '' @ quoted (cm_name c)) name = Inr (fst f)
     \<and> from_json dec v (request_kind c (ucast (fst f))) = Inr (snd f)"
  by (cases f; cases "schema_tag (request_tag c) (''command '' @ quoted (cm_name c)) name")
     (auto simp: payload_member_def map_res_Inr)

lemma payload_member_code: "payload_member dec c m = Inl e \<Longrightarrow> err_code e = InvalidArguments"
  by (cases m; cases "schema_tag (request_tag c) (''command '' @ quoted (cm_name c)) (fst m)")
     (auto simp: payload_member_def map_res_Inl schema_tag_code from_json_code(1))


definition octets_command :: command_meta where
  "octets_command = \<lparr>cm_id = 0, cm_name = ''c'', cm_request_fields = [], cm_response_fields = [],
     cm_request_kinds = [(0, KBytes)]\<rparr>"


text \<open>No parameter is dropped, invented or renumbered: a payload resolves exactly when every one of
  its members does, and then the struct has precisely the members' tags and values; otherwise
  the request is refused as invalid arguments.\<close>

theorem payload_complete:
  "case command_payload_from_json dec c (JObj ms) of
     Inr n \<Rightarrow> (\<exists>fs. n = NStruct (sort_by_tag fs) \<and> list_all2 (\<lambda>m f. payload_member dec c m = Inr f) ms fs)
   | Inl e \<Rightarrow> err_code e = InvalidArguments \<and> list_ex (\<lambda>m. payload_member dec c m = Inl e) ms"
proof (cases "collect_res (payload_member dec c) ms")
  case (Inl e)
  from collect_res_Inl [OF this] obtain m where m: "m \<in> set ms" "payload_member dec c m = Inl e" by auto
  with Inl payload_member_code [OF m(2)] show ?thesis
    by (auto simp: command_payload_from_json_def list_ex_iff)
next
  case (Inr fs)
  then show ?thesis using collect_res_nth [OF Inr] by (auto simp: command_payload_from_json_def)
qed

lemma unix_offset_pos: "unat (unix_offset unit) = (case unit of Seconds \<Rightarrow> 946684800 | Micros \<Rightarrow> 946684800000000)"
  by (cases unit) (simp_all add: unix_offset_def)

text \<open>Unix times survive the device: for an attribute typed as an epoch, a time a client writes is
  reported back as the same Unix time, in either unit, and a time before 2000 as the epoch
  itself; neither direction wraps around. Other values of such an attribute pass unchanged.\<close>

theorem epoch_round_trip:
  assumes "attribute_epoch reg cl attr = Some unit" and "as_u64 v = Some unix"
  shows "\<exists>n e. attribute_value_from_json dec reg cl attr v = Inr n
      \<and> written (node_write n Anonymous) = [(Anonymous, e)]
      \<and> attribute_to_json enc reg cl attr e = Inr (ju64 (max unix (unix_offset unit)))
      \<and> (\<forall>w. as_u64 w = None \<longrightarrow> to_unix_time w unit = w)"
  using assms
  by (auto simp: attribute_value_from_json_def written_node attribute_to_json_def to_unix_time_def
      jword_def saturating_inverse)

definition clock_cluster :: cluster_meta where
  "clock_cluster = \<lparr>cl_id = 56, cl_name = ''TimeSynchronization'', cl_commands = [], cl_attributes = [],
     cl_events = [], cl_epoch = [(0, Micros)]\<rparr>"

theorem epoch_round_trip_witness:
  "\<exists>n e. attribute_value_from_json (\<lambda>_. None) [(56, clock_cluster)] 56 0 (ju64 5) = Inr n
      \<and> written (node_write n Anonymous) = [(Anonymous, e)]
      \<and> attribute_to_json (\<lambda>_. []) [(56, clock_cluster)] 56 0 e = Inr (ju64 (max 5 (unix_offset Micros)))"
proof -
  have "attribute_epoch [(56, clock_cluster)] 56 0 = Some Micros"
    by (simp add: attribute_epoch_def cluster_def bt_get_def meta_attribute_epoch_def clock_cluster_def)
  from epoch_round_trip [OF this as_u64_ju64, of "\<lambda>_. None" 5 "\<lambda>_. []"] show ?thesis by blast
qed

end
