(* ===== verification/Im_Client.thy ===== *)
theory Im_Client
  imports Tlv_Json Paths
begin

section \<open>Interaction Model transactions (\<open>matter/interaction.rs\<close>)\<close>

text \<open>
  One transaction is an exchange with a device: it is opened, the library asks for the request
  (again when it has to be sent again) until the first response is there, and then hands out
  the response in chunks. What happens on the exchange is the value \<open>exchange\<close>; a transaction is
  a function of it, \<open>None\<close> while the device has not said enough. A builder reports the first of
  its calls that fails, by the context the code gives it. Errors come from rs-matter; a
  status is its number, 0 for success, and the name it prints as.
\<close>

subsection \<open>Errors\<close>

fun code_debug :: "rs_code \<Rightarrow> string" where
  "code_debug NoSpace = ''NoSpace''"
| "code_debug NoNetworkInterface = ''NoNetworkInterface''"
| "code_debug NotFound = ''NotFound''"
| "code_debug RxTimeout = ''RxTimeout''"
| "code_debug (OtherCode name) = name"

definition reach_error :: "u64 \<Rightarrow> rs_code \<Rightarrow> api_error" where
  "reach_error n c =
     (case c of
        NoNetworkInterface \<Rightarrow> err_node_not_resolving n
      | NotFound \<Rightarrow> err_node_not_resolving n
      | RxTimeout \<Rightarrow> err_node_not_resolving n
      | _ \<Rightarrow> api_error_new NodeNotReady (''Node '' @ show_u n @ '' is not ready: '' @ code_debug c))"

definition im_error :: "string \<Rightarrow> rs_code \<Rightarrow> api_error" where
  "im_error place c = err_sdk (place @ '': '' @ code_debug c)"

record im_status =
  is_code :: u16
  is_debug :: string

definition is_success :: "im_status \<Rightarrow> bool" where
  "is_success st = (is_code st = 0)"

definition status_error :: "string \<Rightarrow> im_status \<Rightarrow> api_error" where
  "status_error place st = err_sdk (place @ '': '' @ is_debug st)"

subsection \<open>The exchange\<close>

datatype tx_outcome = TxFailed rs_code | BuildRequest "(string \<times> rs_code) option" | GotResponse

text \<open>A chunk: what it decodes to, and what completing it brings.\<close>

record ('r, 'c) chunk =
  ck_response :: "rs_code + 'r"
  ck_complete :: "rs_code + 'c"

record ('r, 'c) exchange =
  ex_open :: "rs_code + unit"
  ex_sender :: "rs_code + unit"
  ex_tx :: "tx_outcome list"
  ex_chunks :: "('r, 'c) chunk list"

fun await_response :: "(rs_code \<Rightarrow> api_error) \<Rightarrow> tx_outcome list \<Rightarrow> (api_error + unit) option" where
  "await_response tx_error [] = None"
| "await_response tx_error (TxFailed c # txs) = Some (Inl (tx_error c))"
| "await_response tx_error (BuildRequest (Some (place, c)) # txs) = Some (Inl (im_error place c))"
| "await_response tx_error (BuildRequest None # txs) = await_response tx_error txs"
| "await_response tx_error (GotResponse # txs) = Some (Inr ())"

text \<open>Fold the chunks of the response into a state, while completing one brings another.\<close>

fun run_chunks ::
  "string \<Rightarrow> string \<Rightarrow> ('r \<Rightarrow> 's \<Rightarrow> api_error + 's) \<Rightarrow> ('r, bool) chunk list \<Rightarrow> 's \<Rightarrow> (api_error + 's) option" where
  "run_chunks response completion step [] s = None"
| "run_chunks response completion step (c # cs) s =
     (case ck_response c of
        Inl e \<Rightarrow> Some (Inl (im_error response e))
      | Inr r \<Rightarrow>
          (case step r s of
             Inl e \<Rightarrow> Some (Inl e)
           | Inr s' \<Rightarrow>
               (case ck_complete c of
                  Inl e \<Rightarrow> Some (Inl (im_error completion e))
                | Inr another \<Rightarrow> if another then run_chunks response completion step cs s' else Some (Inr s'))))"

text \<open>Open the exchange, get a sender for it, send the request; \<open>k\<close> handles the response.\<close>

definition transact ::
  "u64 \<Rightarrow> string \<Rightarrow> (rs_code \<Rightarrow> api_error) \<Rightarrow> ('r, 'c) exchange
   \<Rightarrow> (('r, 'c) chunk list \<Rightarrow> (api_error + 'a) option)
   \<Rightarrow> (api_error + 'a) option" where
  "transact n sender tx_error ex k =
     (case ex_open ex of
        Inl c \<Rightarrow> Some (Inl (reach_error n c))
      | Inr _ \<Rightarrow>
          (case ex_sender ex of
             Inl c \<Rightarrow> Some (Inl (im_error sender c))
           | Inr _ \<Rightarrow>
               (case await_response tx_error (ex_tx ex) of
                  None \<Rightarrow> None
                | Some (Inl e) \<Rightarrow> Some (Inl e)
                | Some (Inr _) \<Rightarrow> k (ex_chunks ex))))"

subsection \<open>Attribute reports\<close>

record attr_data =
  ad_endpoint :: "u16 option"
  ad_cluster :: "u32 option"
  ad_attr :: "u32 option"
  ad_data :: tlv

datatype attr_resp = AttrData attr_data | AttrStatus im_status

text \<open>An attribute's value fails to decode with the code the TLV reader gives, by name.\<close>

definition report_entry ::
  "(bytes \<Rightarrow> string) \<Rightarrow> cluster_registry \<Rightarrow> attr_data \<Rightarrow> api_error + (string \<times> json)" where
  "report_entry enc reg d =
     (let cluster_id = unwrap_or (ad_cluster d) 0; attribute = unwrap_or (ad_attr d) 0 in
      map_res (Pair (format_path (unwrap_or (ad_endpoint d) 0) cluster_id attribute))
        (map_err (\<lambda>e. im_error ''attribute value'' (OtherCode e))
          (attribute_to_json enc reg cluster_id attribute (ad_data d))))"

type_synonym collected = "attributes_data \<times> im_status option"

fun collect_entries ::
  "(bytes \<Rightarrow> string) \<Rightarrow> cluster_registry \<Rightarrow> (rs_code + attr_resp) list \<Rightarrow> collected \<Rightarrow> api_error + collected" where
  "collect_entries enc reg [] acc = Inr acc"
| "collect_entries enc reg (Inl c # rs) acc = Inl (im_error ''attribute report'' c)"
| "collect_entries enc reg (Inr (AttrData d) # rs) (attrs, first) =
     bind_res (report_entry enc reg d)
       (\<lambda>(path, v). collect_entries enc reg rs (bt_insert path v attrs, first))"
| "collect_entries enc reg (Inr (AttrStatus st) # rs) (attrs, first) =
     collect_entries enc reg rs (attrs, opt_or first (Some st))"

type_synonym report_data = "(rs_code + attr_resp) list option"

definition collect_attributes ::
  "(bytes \<Rightarrow> string) \<Rightarrow> cluster_registry \<Rightarrow> report_data \<Rightarrow> collected \<Rightarrow> api_error + collected" where
  "collect_attributes enc reg r acc =
     (case r of None \<Rightarrow> Inr acc | Some entries \<Rightarrow> collect_entries enc reg entries acc)"

definition read_result :: "collected \<Rightarrow> api_error + attributes_data" where
  "read_result = (\<lambda>(attrs, first).
     case first of
       Some st \<Rightarrow> if attrs = [] then Inl (status_error ''attribute read failed'' st) else Inr attrs
     | None \<Rightarrow> Inr attrs)"

definition read_attributes ::
  "(bytes \<Rightarrow> string) \<Rightarrow> cluster_registry \<Rightarrow> u64 \<Rightarrow> (report_data, bool) exchange \<Rightarrow> (api_error + attributes_data) option" where
  "read_attributes enc reg n ex =
     transact n ''read exchange'' (im_error ''read request'') ex (\<lambda>chunks.
       map_option (\<lambda>r. bind_res r read_result)
         (run_chunks ''read response'' ''read completion'' (collect_attributes enc reg) chunks ([], None)))"

subsection \<open>Subscribing\<close>

record im_subscription =
  sb_subscription_id :: u32
  sb_max_interval_secs :: u16
  sb_attributes :: attributes_data

text \<open>Completing a chunk of the priming report brings another, or the confirmation.\<close>

fun run_priming ::
  "(bytes \<Rightarrow> string) \<Rightarrow> cluster_registry \<Rightarrow> (report_data, (u32 \<times> u16) option) chunk list \<Rightarrow> attributes_data
   \<Rightarrow> (api_error + im_subscription) option" where
  "run_priming enc reg [] attrs = None"
| "run_priming enc reg (c # cs) attrs =
     (case ck_response c of
        Inl e \<Rightarrow> Some (Inl (im_error ''subscribe report'' e))
      | Inr r \<Rightarrow>
          (case collect_attributes enc reg r (attrs, None) of
             Inl e \<Rightarrow> Some (Inl e)
           | Inr (attrs', _) \<Rightarrow>
               (case ck_complete c of
                  Inl e \<Rightarrow> Some (Inl (im_error ''subscribe priming'' e))
                | Inr (Some (i, max_int)) \<Rightarrow>
                    Some (Inr \<lparr>sb_subscription_id = i, sb_max_interval_secs = max_int, sb_attributes = attrs'\<rparr>)
                | Inr None \<Rightarrow> run_priming enc reg cs attrs')))"

definition subscribe ::
  "(bytes \<Rightarrow> string) \<Rightarrow> cluster_registry \<Rightarrow> u64 \<Rightarrow> (report_data, (u32 \<times> u16) option) exchange
   \<Rightarrow> (api_error + im_subscription) option" where
  "subscribe enc reg n ex =
     transact n ''subscribe exchange'' (im_error ''subscribe request'') ex (\<lambda>chunks. run_priming enc reg chunks [])"

subsection \<open>Writing and invoking\<close>

definition status_success :: u16 where "status_success = 0"

text \<open>The first status that is not success.\<close>

fun write_status :: "(rs_code + im_status) list \<Rightarrow> api_error + u16" where
  "write_status [] = Inr status_success"
| "write_status (Inl c # rs) = Inl (im_error ''write status'' c)"
| "write_status (Inr st # rs) = (if is_success st then write_status rs else Inr (is_code st))"

definition im_write_attribute ::
  "u64 \<Rightarrow> ((rs_code + im_status) list, unit) exchange \<Rightarrow> (api_error + u16) option" where
  "im_write_attribute n ex =
     transact n ''write exchange'' (im_error ''write request'') ex (\<lambda>chunks.
       case chunks of
         [] \<Rightarrow> None
       | c # _ \<Rightarrow> Some (bind_res (map_err (im_error ''write response'') (ck_response c)) write_status))"

datatype cmd_resp = CmdData tlv | CmdStatus im_status

type_synonym invoke_response = "(rs_code + cmd_resp) list option option"

definition invoke_value :: "(bytes \<Rightarrow> string) \<Rightarrow> (u32, string) btree \<Rightarrow> tlv \<Rightarrow> api_error + json" where
  "invoke_value enc names x =
     map_err (\<lambda>e. im_error ''invoke response value'' (OtherCode e))
       (if names = [] then to_json enc x else to_json_named enc names x)"

fun invoke_entries ::
  "(bytes \<Rightarrow> string) \<Rightarrow> (u32, string) btree \<Rightarrow> (rs_code + cmd_resp) list \<Rightarrow> json \<Rightarrow> api_error + json" where
  "invoke_entries enc names [] result = Inr result"
| "invoke_entries enc names (Inl c # rs) result = Inl (im_error ''invoke response entry'' c)"
| "invoke_entries enc names (Inr (CmdData x) # rs) result =
     bind_res (invoke_value enc names x) (invoke_entries enc names rs)"
| "invoke_entries enc names (Inr (CmdStatus st) # rs) result =
     (if is_success st then invoke_entries enc names rs result
      else Inl (status_error ''command failed'' st))"

definition invoke_step ::
  "(bytes \<Rightarrow> string) \<Rightarrow> (u32, string) btree \<Rightarrow> invoke_response \<Rightarrow> json \<Rightarrow> api_error + json" where
  "invoke_step enc names r result =
     (case r of Some (Some entries) \<Rightarrow> invoke_entries enc names entries result | _ \<Rightarrow> Inr result)"

definition im_invoke ::
  "(bytes \<Rightarrow> string) \<Rightarrow> (u32, string) btree \<Rightarrow> u64 \<Rightarrow> (invoke_response, bool) exchange
   \<Rightarrow> (api_error + json) option" where
  "im_invoke enc names n ex =
     transact n ''invoke exchange'' (im_error ''invoke request'') ex (\<lambda>chunks.
       run_chunks ''invoke response'' ''invoke completion'' (invoke_step enc names) chunks (JObj []))"

text \<open>Complete every chunk without looking at it.\<close>

fun drain :: "string \<Rightarrow> ('r, bool) chunk list \<Rightarrow> (api_error + unit) option" where
  "drain completion [] = None"
| "drain completion (c # cs) =
     (case ck_complete c of
        Inl e \<Rightarrow> Some (Inl (im_error completion e))
      | Inr another \<Rightarrow> if another then drain completion cs else Some (Inr ()))"

definition im_ping :: "u64 \<Rightarrow> (unit, bool) exchange \<Rightarrow> (api_error + unit) option" where
  "im_ping n ex =
     transact n ''ping exchange'' (reach_error n) ex (\<lambda>chunks.
       drain ''ping completion'' chunks)"

subsection \<open>The requests\<close>

text \<open>The calls on the request builders, in order.\<close>

datatype build_call =
    AttrRequests "parsed_path list" | EventRequests "parsed_path list"
  | KeepSubs bool | MinIntFloor u16 | MaxIntCeil u16 | FabricFiltered bool
  | SuppressResponse bool | TimedRequest bool
  | WriteRequests | InvokeRequests | PushEntry | EntryPath u16 u32 u32 | EntryData "write_call list" | EndCall

definition every_path :: parsed_path where
  "every_path = \<lparr>pp_endpoint = None, pp_cluster = None, pp_attribute = None\<rparr>"

definition interview_paths :: "parsed_path list" where "interview_paths = [every_path]"
definition event_paths :: "parsed_path list" where "event_paths = [every_path]"

definition read_request :: "parsed_path list \<Rightarrow> bool \<Rightarrow> build_call list" where
  "read_request paths filtered = [AttrRequests paths, FabricFiltered filtered, EndCall]"

definition subscribe_request :: "u16 \<Rightarrow> u16 \<Rightarrow> build_call list" where
  "subscribe_request min_int max_int =
     [KeepSubs False, MinIntFloor min_int, MaxIntCeil max_int, AttrRequests interview_paths,
      EventRequests event_paths, FabricFiltered False, EndCall]"

definition write_request :: "u16 option \<Rightarrow> u16 \<Rightarrow> u32 \<Rightarrow> u32 \<Rightarrow> tlv_node \<Rightarrow> build_call list" where
  "write_request timed e c a value =
     [TimedRequest (timed \<noteq> None), WriteRequests, PushEntry, EntryPath e c a,
      EntryData (node_write value (Context 2)), EndCall, EndCall, EndCall]"

definition invoke_request :: "u16 option \<Rightarrow> u16 \<Rightarrow> u32 \<Rightarrow> u32 \<Rightarrow> tlv_node \<Rightarrow> build_call list" where
  "invoke_request timed e c command payload =
     [SuppressResponse False, TimedRequest (timed \<noteq> None), InvokeRequests, PushEntry, EntryPath e c command,
      EntryData (node_write payload (Context 1)), EndCall, EndCall, EndCall]"

definition ping_request :: "build_call list" where
  "ping_request = [AttrRequests [\<lparr>pp_endpoint = Some 0, pp_cluster = Some 40, pp_attribute = Some 0xFFFD\<rparr>],
     FabricFiltered False, EndCall]"

subsection \<open>Laws\<close>

lemma code_neq [simp]: "err_code (im_error place c) = SdkStackError" "err_code (status_error place st) = SdkStackError"
  by (simp_all add: im_error_def status_error_def)

lemma reach_error_code: "err_code (reach_error n c) \<in> {NodeNotResolving, NodeNotReady}"
  by (cases c) (auto simp: reach_error_def)

text \<open>The chunks a response was made of: those up to the first whose completion brings no other.\<close>

fun taken :: "('r, bool) chunk list \<Rightarrow> ('r, bool) chunk list" where
  "taken [] = []"
| "taken (c # cs) = c # (if ck_complete c = Inr True then taken cs else [])"

text \<open>A fold that succeeds has folded the responses of exactly those chunks.\<close>

fun fold_res :: "('r \<Rightarrow> 's \<Rightarrow> 'e + 's) \<Rightarrow> 'r list \<Rightarrow> 's \<Rightarrow> 'e + 's" where
  "fold_res f [] s = Inr s"
| "fold_res f (r # rs) s = bind_res (f r s) (fold_res f rs)"

lemma run_chunks_fold:
  "run_chunks rsp cpl step cs s = Some (Inr s')
    \<Longrightarrow> fold_res step (map (projr \<circ> ck_response) (taken cs)) s = Inr s'"
proof (induction cs arbitrary: s)
  case (Cons c cs)
  obtain r where r: "ck_response c = Inr r" using Cons.prems by (cases "ck_response c") auto
  obtain s1 where s1: "step r s = Inr s1" using Cons.prems r by (cases "step r s") auto
  obtain b where b: "ck_complete c = Inr b" using Cons.prems r s1 by (cases "ck_complete c") auto
  show ?case
  proof (cases b)
    case True
    with Cons.prems r s1 b have "run_chunks rsp cpl step cs s1 = Some (Inr s')" by simp
    from Cons.IH [OF this] show ?thesis using True r s1 b by simp
  next
    case False
    with Cons.prems r s1 b show ?thesis by simp
  qed
qed simp

lemma transact_Inr: "transact n snd_place txe ex k = Some (Inr a) \<Longrightarrow> k (ex_chunks ex) = Some (Inr a)"
  by (auto simp: transact_def split: sum.splits option.splits)

definition report_values ::
  "(bytes \<Rightarrow> string) \<Rightarrow> cluster_registry \<Rightarrow> (rs_code + attr_resp) list \<Rightarrow> (string \<times> json) list" where
  "report_values enc reg = filter_map (\<lambda>r. case r of Inr (AttrData d) \<Rightarrow> res_ok (report_entry enc reg d) | _ \<Rightarrow> None)"

definition report_statuses :: "(rs_code + attr_resp) list \<Rightarrow> im_status list" where
  "report_statuses = filter_map (\<lambda>r. case r of Inr (AttrStatus st) \<Rightarrow> Some st | _ \<Rightarrow> None)"

definition first_status :: "im_status list \<Rightarrow> im_status option" where
  "first_status sts = (case sts of [] \<Rightarrow> None | st # _ \<Rightarrow> Some st)"

lemma collect_entries_exact:
  "collect_entries enc reg es (attrs, first) = Inr (attrs', first')
    \<Longrightarrow> attrs' = bt_extend attrs (report_values enc reg es)
      \<and> first' = opt_or first (first_status (report_statuses es))"
proof (induction enc reg es "(attrs, first)" arbitrary: attrs first rule: collect_entries.induct)
  case (1 enc reg)
  then show ?case by (cases first) (auto simp: report_values_def report_statuses_def first_status_def bt_extend_def)
next
  case (3 enc reg d rs attrs first)
  then obtain path v where e: "report_entry enc reg d = Inr (path, v)" by (cases "report_entry enc reg d") auto
  with 3 show ?case
    by (auto simp: report_values_def report_statuses_def bt_extend_def res_ok_def)
next
  case (4 enc reg st rs attrs first)
  then show ?case
    by (cases first) (auto simp: report_values_def report_statuses_def first_status_def)
qed simp

abbreviation report_list :: "report_data \<Rightarrow> (rs_code + attr_resp) list" where
  "report_list r \<equiv> unwrap_or r []"

lemma collect_chunks_exact:
  "fold_res (collect_attributes enc reg) rs (attrs, first) = Inr (attrs', first')
    \<Longrightarrow> attrs' = bt_extend attrs (report_values enc reg (concat (map report_list rs)))
      \<and> first' = opt_or first (first_status (report_statuses (concat (map report_list rs))))"
proof (induction rs arbitrary: attrs first)
  case Nil
  then show ?case by (cases first) (auto simp: report_values_def report_statuses_def first_status_def bt_extend_def)
next
  case (Cons r rs)
  have fm: "filter_map f (xs @ ys) = filter_map f xs @ filter_map f ys" for f :: "'x \<Rightarrow> 'y option" and xs ys
    by (induction xs) (auto split: option.splits)
  obtain a f where af: "collect_attributes enc reg r (attrs, first) = Inr (a, f)"
    using Cons.prems by (cases "collect_attributes enc reg r (attrs, first)") auto
  have "collect_attributes enc reg r acc = collect_entries enc reg (report_list r) acc" for acc
    by (cases r) (simp_all add: collect_attributes_def)
  with af collect_entries_exact have "a = bt_extend attrs (report_values enc reg (report_list r))
      \<and> f = opt_or first (first_status (report_statuses (report_list r)))" by metis
  with Cons.IH [of a f] Cons.prems af show ?case
    by (cases first)
       (auto simp: report_values_def report_statuses_def first_status_def bt_extend_def fm split: list.splits)
qed

lemma invoke_entries_ok:
  "invoke_entries enc names es result = Inr v \<Longrightarrow>
     list_all (\<lambda>e. case e of Inr (CmdStatus st) \<Rightarrow> is_success st | Inr (CmdData x) \<Rightarrow> True | Inl _ \<Rightarrow> False) es
     \<and> Inr v = fold (\<lambda>e r. case e of Inr (CmdData x) \<Rightarrow> invoke_value enc names x | _ \<Rightarrow> r) es (Inr result)"
proof (induction enc names es result rule: invoke_entries.induct)
  case (3 enc names x rs result)
  then show ?case by (cases "invoke_value enc names x") auto
qed (auto split: if_splits)

abbreviation invoke_list :: "invoke_response \<Rightarrow> (rs_code + cmd_resp) list" where
  "invoke_list r \<equiv> (case r of Some (Some es) \<Rightarrow> es | _ \<Rightarrow> [])"

lemma invoke_chunks_ok:
  "fold_res (invoke_step enc names) rs result = Inr v \<Longrightarrow>
     list_all (\<lambda>e. case e of Inr (CmdStatus st) \<Rightarrow> is_success st | Inr (CmdData x) \<Rightarrow> True | Inl _ \<Rightarrow> False)
       (concat (map invoke_list rs))
     \<and> Inr v = fold (\<lambda>e r. case e of Inr (CmdData x) \<Rightarrow> invoke_value enc names x | _ \<Rightarrow> r)
         (concat (map invoke_list rs)) (Inr result)"
proof (induction rs arbitrary: result)
  case (Cons r rs)
  obtain v1 where v1: "invoke_step enc names r result = Inr v1"
    using Cons.prems by (cases "invoke_step enc names r result") auto
  have "invoke_step enc names r result = invoke_entries enc names (invoke_list r) result"
    by (simp add: invoke_step_def split: option.split)
  with v1 have "invoke_entries enc names (invoke_list r) result = Inr v1" by simp
  note ok = invoke_entries_ok [OF this]
  have "fold_res (invoke_step enc names) rs v1 = Inr v" using Cons.prems v1 by simp
  from Cons.IH [OF this] ok show ?case by simp
qed simp

subsection \<open>Properties\<close>

text \<open>A read returns exactly what the device reported: the values of all data entries of all the
  chunks the device sent, the last one where a path comes twice, failed paths left out; and a
  read that brought only failures is an error, never an empty answer.\<close>

theorem read_exact:
  assumes "read_attributes enc reg n ex = Some (Inr attrs)"
  shows "let entries = concat (map (report_list \<circ> projr \<circ> ck_response) (taken (ex_chunks ex)))
     in attrs = bt_collect (report_values enc reg entries) \<and> (attrs = [] \<longrightarrow> report_statuses entries = [])"
proof -
  obtain attrs1 first where run: "run_chunks ''read response'' ''read completion'' (collect_attributes enc reg)
      (ex_chunks ex) ([], None) = Some (Inr (attrs1, first))" and r: "read_result (attrs1, first) = Inr attrs"
    using transact_Inr [OF assms [unfolded read_attributes_def]] by (auto simp: res_simps)
  have "attrs1 = attrs" and "attrs = [] \<longrightarrow> first = None"
    using r by (auto simp: read_result_def split: option.splits if_splits)
  with collect_chunks_exact [OF run_chunks_fold [OF run]] show ?thesis
    by (auto simp: Let_def bt_collect_def first_status_def comp_def split: list.splits)
qed

definition example_read :: "(report_data, bool) exchange" where
  "example_read = \<lparr>ex_open = Inr (), ex_sender = Inr (), ex_tx = [BuildRequest None, GotResponse],
     ex_chunks = [\<lparr>ck_response = Inr (Some [Inr (AttrStatus \<lparr>is_code = 0x86, is_debug = ''UnsupportedAttribute''\<rparr>)]),
                   ck_complete = Inr True\<rparr>,
                  \<lparr>ck_response = Inr (Some [Inr (AttrData \<lparr>ad_endpoint = Some 1, ad_cluster = Some 6,
                     ad_attr = Some 0, ad_data = TrueT\<rparr>)]), ck_complete = Inr False\<rparr>]\<rparr>"

theorem read_exact_witness:
  "read_attributes (\<lambda>_. []) [] 5 example_read = Some (Inr [(format_path 1 6 0, JBool True)])
   \<and> [(format_path 1 6 0, JBool True)] = bt_collect (report_values (\<lambda>_. []) []
       (concat (map (report_list \<circ> projr \<circ> ck_response) (taken (ex_chunks example_read)))))"
proof -
  have r: "read_attributes (\<lambda>_. []) [] 5 example_read = Some (Inr [(format_path 1 6 0, JBool True)])"
    by (simp add: read_attributes_def transact_def example_read_def collect_attributes_def report_entry_def
        attribute_to_json_def attribute_epoch_def cluster_def bt_get_def read_result_def Let_def)
  then show ?thesis using read_exact [OF r] by (simp add: Let_def)
qed

text \<open>A command is reported as successful only if the device refused none of it: every status in
  the response is success; the result is the last data entry, decoded by the command's response
  fields, or an empty object when there is none.\<close>

theorem invoke_exact:
  assumes "im_invoke enc names n ex = Some (Inr v)"
  shows "let entries = concat (map (invoke_list \<circ> projr \<circ> ck_response) (taken (ex_chunks ex)))
     in list_all (\<lambda>e. case e of Inr (CmdStatus st) \<Rightarrow> is_success st | Inr (CmdData x) \<Rightarrow> True | Inl _ \<Rightarrow> False) entries
        \<and> Inr v = fold (\<lambda>e r. case e of Inr (CmdData x) \<Rightarrow> invoke_value enc names x | _ \<Rightarrow> r) entries (Inr (JObj []))"
  using invoke_chunks_ok [OF run_chunks_fold [OF transact_Inr [OF assms [unfolded im_invoke_def]]]]
  by (simp add: Let_def comp_def)

definition example_invoke :: "(invoke_response, bool) exchange" where
  "example_invoke = \<lparr>ex_open = Inr (), ex_sender = Inr (), ex_tx = [GotResponse],
     ex_chunks = [\<lparr>ck_response = Inr (Some (Some [Inr (CmdStatus \<lparr>is_code = 0, is_debug = ''Success''\<rparr>)])),
                   ck_complete = Inr False\<rparr>]\<rparr>"

theorem invoke_exact_witness:
  "im_invoke (\<lambda>_. []) [] 5 example_invoke = Some (Inr (JObj []))
   \<and> is_success \<lparr>is_code = 0, is_debug = ''Success''\<rparr>"
proof -
  have "im_invoke (\<lambda>_. []) [] 5 example_invoke = Some (Inr (JObj []))"
    by (simp add: im_invoke_def transact_def example_invoke_def invoke_step_def is_success_def)
  with invoke_exact [OF this] show ?thesis by (simp add: Let_def example_invoke_def)
qed

end
