(* ===== verification/Monitor.thy ===== *)
theory Monitor
  imports Server_Context
begin

section \<open>Attribute monitoring (\<open>monitor.rs\<close>) and reports (\<open>matter/reports.rs\<close>)\<close>

text \<open>
  Keeping every node subscribed or polled, and turning what a node produces into store updates
  and events. What a device answers is an argument: a subscription (its id, interval and priming
  report), a wildcard read, a report. Times are seconds.
\<close>

definition min_report_interval_secs :: nat where "min_report_interval_secs = 0"
definition max_report_interval_secs :: nat where "max_report_interval_secs = 300"

record monitor_config =
  mc_interval :: nat
  mc_offline_interval :: nat

definition monitor_config_default :: monitor_config where
  "monitor_config_default = \<lparr>mc_interval = 30, mc_offline_interval = 300\<rparr>"

record subscription_answer =
  sa_subscription_id :: u32
  sa_max_interval_secs :: nat
  sa_attributes :: attributes_data

definition publish_all :: "event list \<Rightarrow> server \<Rightarrow> server" where
  "publish_all es s = fold publish es s"

definition diff_events :: "u64 \<Rightarrow> interview_diff \<Rightarrow> event list" where
  "diff_events n d = map (ev_endpoint_added n) (df_endpoints_added d)
     @ map (ev_endpoint_removed n) (df_endpoints_removed d)
     @ map (\<lambda>(path, value). ev_attribute_updated n path value) (df_changed d)
     @ [ev_node_updated (df_node d)]"

definition publish_changes :: "u64 \<Rightarrow> attributes_data \<Rightarrow> coverage \<Rightarrow> server \<Rightarrow> server" where
  "publish_changes n attrs cov s =
     (case ns_merge_attributes (srv_nodes s) n attrs cov of
        (nodes, None) \<Rightarrow> s
      | (nodes, Some d) \<Rightarrow>
          (let s1 = with_nodes (\<lambda>_. nodes) s in
           if df_changed d = [] \<and> df_endpoints_added d = [] \<and> df_endpoints_removed d = [] then s1
           else request_save SaveLater (publish_all (diff_events n d) s1)))"

definition publish_first_interview :: "u64 \<Rightarrow> attributes_data \<Rightarrow> string \<Rightarrow> server \<Rightarrow> server" where
  "publish_first_interview n attrs at_time s =
     (case ns_apply_interview (srv_nodes s) n attrs at_time of
        (nodes, None) \<Rightarrow> s
      | (nodes, Some d) \<Rightarrow>
          publish (ev_node_updated (df_node d)) (request_save SaveAtOnce (with_nodes (\<lambda>_. nodes) s)))"

definition mark_available :: "u64 \<Rightarrow> bool \<Rightarrow> server \<Rightarrow> server" where
  "mark_available n b s =
     (case ns_set_available (srv_nodes s) n b of
        (nodes, None) \<Rightarrow> s
      | (nodes, Some (d, changed)) \<Rightarrow>
          (let s1 = with_nodes (\<lambda>_. nodes) s in
           if \<not> changed then s1
           else publish (ev_node_updated d) (request_save SaveLater s1)))"

definition unreachable :: "api_error \<Rightarrow> bool" where
  "unreachable e = (err_code e = NodeNotResolving \<or> err_code e = NodeNotReady)"

definition poll_node :: "u64 \<Rightarrow> api_error + attributes_data \<Rightarrow> string \<Rightarrow> server \<Rightarrow> server" where
  "poll_node n answer at_time s =
     (let first_read = ns_awaiting_first_interview (srv_nodes s) n in
      case answer of
        Inr attrs \<Rightarrow>
          if attrs = [] then s
          else mark_available n True
                 (if first_read then publish_first_interview n attrs at_time s
                  else publish_changes n attrs Complete s)
      | Inl _ \<Rightarrow> mark_available n False s)"

record device_answers =
  da_subscribe :: "api_error + subscription_answer"
  da_read :: "api_error + attributes_data"
  da_now :: nat
  da_iso :: string

definition maintain_node :: "u64 \<Rightarrow> device_answers \<Rightarrow> server \<Rightarrow> server" where
  "maintain_node n dev s =
     (let first_read = ns_awaiting_first_interview (srv_nodes s) n in
      case da_subscribe dev of
        Inr sub \<Rightarrow>
          (let s1 = s\<lparr>srv_subscriptions := sub_established (da_now dev) n (sa_subscription_id sub)
                         (sa_max_interval_secs sub) (srv_subscriptions s)\<rparr>;
               s2 = (if sa_attributes sub = [] then s1
                     else if first_read then publish_first_interview n (sa_attributes sub) (da_iso dev) s1
                     else publish_changes n (sa_attributes sub) Complete s1)
           in mark_available n True s2)
      | Inl e \<Rightarrow>
          if unreachable e then mark_available n False s
          else poll_node n (da_read dev) (da_iso dev) s)"

text \<open>One pass over the nodes known at its start.\<close>

definition is_due :: "monitor_config \<Rightarrow> nat \<Rightarrow> matter_node_data \<Rightarrow> (u64, nat) btree \<Rightarrow> bool" where
  "is_due config now d polled =
     (case bt_get polled (nd_node_id d) of
        Some at_time \<Rightarrow> now - at_time \<ge> (if nd_available d then mc_interval config else mc_offline_interval config)
      | None \<Rightarrow> True)"

definition visit ::
  "monitor_config \<Rightarrow> (u64 \<Rightarrow> device_answers) \<Rightarrow> matter_node_data \<Rightarrow> server \<times> (u64, nat) btree
   \<Rightarrow> server \<times> (u64, nat) btree" where
  "visit config dev d sp =
     (let (s, polled) = sp; n = nd_node_id d; now = da_now (dev n) in
      if is_test_node d then (s, polled)
      else if sub_is_live now (srv_subscriptions s) n then (s, polled)
      else if \<not> is_due config now d polled then (s, polled)
      else (maintain_node n (dev n) s, bt_insert n now polled))"

definition monitor_pass ::
  "monitor_config \<Rightarrow> nat \<Rightarrow> (u64 \<Rightarrow> device_answers) \<Rightarrow> server \<times> (u64, nat) btree \<Rightarrow> server \<times> (u64, nat) btree" where
  "monitor_pass config now dev sp =
     (let (s, polled) = sp;
          s1 = s\<lparr>srv_subscriptions := fst (sub_forget_silent now (srv_subscriptions s))\<rparr>;
          (s2, polled2) = fold (visit config dev) (ns_all (srv_nodes s1)) (s1, polled)
      in (s2, bt_retain (\<lambda>n _. ns_contains (srv_nodes s2) n) polled2))"

subsection \<open>Reports\<close>

datatype verdict = Accept | Disown

definition report_verdict :: "subscriptions \<Rightarrow> u64 \<Rightarrow> u32 option \<Rightarrow> verdict" where
  "report_verdict subs n i =
     (case i of None \<Rightarrow> Disown | Some j \<Rightarrow> if sub_accepts subs n j then Accept else Disown)"

datatype event_timestamp = EpochTimestamp u64 | SystemTimestamp u64
  | DeltaEpochTimestamp u64 | DeltaSystemTimestamp u64

text \<open>An event entry of a report: a status, or data whose value may fail to decode.\<close>

record event_data =
  ed_timestamp :: event_timestamp
  ed_endpoint :: "u16 option"
  ed_cluster :: "u32 option"
  ed_event :: "u32 option"
  ed_event_number :: u64
  ed_priority :: u8
  ed_value :: "json option"

datatype event_resp = EventStatus | EventData event_data

definition timestamp_system :: u8 where "timestamp_system = 0"
definition timestamp_epoch :: u8 where "timestamp_epoch = 1"

text \<open>The timestamp an entry has, with the bases later deltas add to.\<close>

fun resolve_timestamp ::
  "event_timestamp \<Rightarrow> u64 option \<times> u64 option \<Rightarrow> (u64 \<times> u8) \<times> u64 option \<times> u64 option" where
  "resolve_timestamp (EpochTimestamp v) (epoch, system) = ((v, timestamp_epoch), Some v, system)"
| "resolve_timestamp (SystemTimestamp v) (epoch, system) = ((v, timestamp_system), epoch, Some v)"
| "resolve_timestamp (DeltaEpochTimestamp d) (epoch, system) =
     (let v = (case epoch of None \<Rightarrow> d | Some base \<Rightarrow> saturating_add base d)
      in ((v, timestamp_epoch), Some v, system))"
| "resolve_timestamp (DeltaSystemTimestamp d) (epoch, system) =
     (let v = (case system of None \<Rightarrow> d | Some base \<Rightarrow> saturating_add base d)
      in ((v, timestamp_system), epoch, Some v))"

fun node_events_from :: "u64 \<Rightarrow> u64 option \<times> u64 option \<Rightarrow> event_resp list \<Rightarrow> matter_node_event list" where
  "node_events_from n bases [] = []"
| "node_events_from n bases (EventStatus # es) = node_events_from n bases es"
| "node_events_from n bases (EventData e # es) =
     (let ((t, kind), bases') = resolve_timestamp (ed_timestamp e) bases in
      case ed_value e of
        None \<Rightarrow> node_events_from n bases' es
      | Some v \<Rightarrow>
          \<lparr>ne_node_id = n, ne_endpoint_id = unwrap_or (ed_endpoint e) 0,
           ne_cluster_id = unwrap_or (ed_cluster e) 0, ne_event_id = unwrap_or (ed_event e) 0,
           ne_event_number = ed_event_number e, ne_priority = ed_priority e,
           ne_timestamp = t, ne_timestamp_type = kind, ne_data = v\<rparr> # node_events_from n bases' es)"

definition node_events :: "u64 \<Rightarrow> event_resp list option \<Rightarrow> matter_node_event list" where
  "node_events n reports = (case reports of None \<Rightarrow> [] | Some es \<Rightarrow> node_events_from n (None, None) es)"

record report =
  rp_subscription_id :: "u32 option"
  rp_attributes :: "attributes_data option"
  rp_events :: "event_resp list option"

datatype report_status = InvalidSubscription | Failure

definition handle_report :: "nat \<Rightarrow> u64 \<Rightarrow> report \<Rightarrow> server \<Rightarrow> server \<times> (report_status + unit)" where
  "handle_report now n r s =
     (if report_verdict (srv_subscriptions s) n (rp_subscription_id r) = Disown
      then (s, Inl InvalidSubscription)
      else
        (let s1 = s\<lparr>srv_subscriptions := sub_note_report now n (srv_subscriptions s)\<rparr> in
         case rp_attributes r of
           None \<Rightarrow> (s1, Inl Failure)
         | Some attrs \<Rightarrow>
             (let s2 = (if attrs = [] then s1 else publish_changes n attrs Partial s1);
                  s3 = fold (\<lambda>e st. record_node_event e (publish (ev_node_event e) st))
                         (node_events n (rp_events r)) s2
              in (s3, Inr ()))))"

subsection \<open>Laws\<close>

lemma publish_all_simps [simp]:
  "srv_nodes (publish_all es s) = srv_nodes s"
  "srv_published (publish_all es s) = srv_published s @ es"
  "srv_saves (publish_all es s) = srv_saves s"
  "srv_subscriptions (publish_all es s) = srv_subscriptions s"
  unfolding publish_all_def by (induction es arbitrary: s) simp_all

lemma record_node_event_simps [simp]:
  "srv_nodes (record_node_event e s) = srv_nodes s"
  "srv_published (record_node_event e s) = srv_published s"
  "srv_saves (record_node_event e s) = srv_saves s"
  "srv_subscriptions (record_node_event e s) = srv_subscriptions s"
  by (simp_all add: record_node_event_def Let_def)

lemma record_all_simps [simp]:
  "srv_nodes (fold (\<lambda>e st. record_node_event e (publish (ev_node_event e) st)) es s) = srv_nodes s"
  "srv_published (fold (\<lambda>e st. record_node_event e (publish (ev_node_event e) st)) es s)
     = srv_published s @ map ev_node_event es"
  "srv_saves (fold (\<lambda>e st. record_node_event e (publish (ev_node_event e) st)) es s) = srv_saves s"
  "srv_subscriptions (fold (\<lambda>e st. record_node_event e (publish (ev_node_event e) st)) es s) = srv_subscriptions s"
  by (induction es arbitrary: s) simp_all

lemma merge_frame: "k \<noteq> n \<Longrightarrow> bt_get (fst (ns_merge_attributes s n attrs cov)) k = bt_get s k"
  by (auto simp: ns_merge_attributes_def Let_def bt_get_update split: option.split)

lemma interview_frame: "k \<noteq> n \<Longrightarrow> bt_get (fst (ns_apply_interview s n attrs t)) k = bt_get s k"
  by (auto simp: ns_apply_interview_def Let_def bt_get_update split: option.split)

lemma available_frame: "k \<noteq> n \<Longrightarrow> bt_get (fst (ns_set_available s n b)) k = bt_get s k"
  by (auto simp: ns_set_available_def Let_def bt_get_update split: option.split)

lemma publish_changes_frame:
  "k \<noteq> n \<Longrightarrow> bt_get (srv_nodes (publish_changes n attrs cov s)) k = bt_get (srv_nodes s) k"
  using merge_frame [of k n "srv_nodes s" attrs cov]
  by (cases "ns_merge_attributes (srv_nodes s) n attrs cov")
     (auto simp: publish_changes_def Let_def split: option.split)

lemma publish_changes_subs [simp]: "srv_subscriptions (publish_changes n attrs cov s) = srv_subscriptions s"
  by (auto simp: publish_changes_def Let_def split: prod.split option.split)

lemma publish_changes_ok:
  "nodes_ok (srv_nodes s) \<Longrightarrow> bt_ok attrs \<Longrightarrow> nodes_ok (srv_nodes (publish_changes n attrs cov s))"
  using merge_ok [of "srv_nodes s" attrs n cov]
  by (cases "ns_merge_attributes (srv_nodes s) n attrs cov")
     (auto simp: publish_changes_def Let_def split: option.split)

text \<open>When a report changes nothing, the merge leaves the table as it was.\<close>

lemma extend_unchanged:
  assumes "bt_ok old" and "bt_ok attrs" and "changed_attrs old attrs = []"
  shows "bt_extend old attrs = old"
proof (rule bt_equal)
  show "bt_ok (bt_extend old attrs)" "bt_ok old" using assms(1) by simp_all
  have same: "bt_get attrs p = None \<or> bt_get old p = bt_get attrs p" for p
  proof (cases "bt_get attrs p")
    case (Some v)
    have "bt_get (changed_attrs old attrs) p = None" using assms(3) by (simp add: bt_get_def)
    then show ?thesis using get_changed [OF assms(2), of old p] Some by (simp split: if_splits)
  qed simp
  show "bt_get (bt_extend old attrs) = bt_get old"
  proof
    fix p
    show "bt_get (bt_extend old attrs) p = bt_get old p"
      using same [of p] unfolding bt_get_extend_ok [OF assms(1,2)] map_add_def
      by (cases "bt_get attrs p") auto
  qed
qed

lemma merge_Some:
  assumes "ns_merge_attributes s n attrs cov = (s', Some d)"
  obtains node where "bt_get s n = Some node" and "ns_get s' n = Some (df_node d)"
    and "df_node d = merged cov attrs (sn_data node)"
    and "df_changed d = changed_attrs (nd_attributes (sn_data node)) attrs"
proof -
  obtain node where node: "bt_get s n = Some node"
    using assms by (auto simp: ns_merge_attributes_def split: option.splits)
  have s': "s' = bt_update n (with_data (\<lambda>_. df_node d)) s" and d: "df_node d = merged cov attrs (sn_data node)"
      "df_changed d = changed_attrs (nd_attributes (sn_data node)) attrs"
    using assms by (auto simp: ns_merge_attributes_def node Let_def)
  have "ns_get s' n = Some (df_node d)"
    unfolding s' ns_get_update by (simp add: ns_get_def node)
  then show ?thesis using that node d by blast
qed

subsection \<open>Properties\<close>



text \<open>Availability is announced exactly at its transitions: marking a known node publishes one
  update, and requests one write, when its reachability changes and does nothing else when it
  does not; the node stored afterwards is the one announced.\<close>

theorem availability_transitions:
  "(case ns_get (srv_nodes s) n of
      None \<Rightarrow> mark_available n b s = s
    | Some d \<Rightarrow>
        ns_get (srv_nodes (mark_available n b s)) n = Some (d\<lparr>nd_available := b\<rparr>)
        \<and> srv_published (mark_available n b s) = srv_published s
            @ (if nd_available d = b then [] else [ev_node_updated (d\<lparr>nd_available := b\<rparr>)])
        \<and> srv_saves (mark_available n b s) = srv_saves s @ (if nd_available d = b then [] else [SaveLater]))"
  by (cases "bt_get (srv_nodes s) n")
     (auto simp: mark_available_def ns_set_available_def ns_get_def Let_def bt_get_update)

text \<open>C4: a report cannot touch another node: whatever it carries, every other node is left exactly
  as it was; and one for a subscription this server does not hold is disowned and changes
  nothing at all.\<close>

theorem report_isolation:
  "(k \<noteq> n \<longrightarrow> ns_get_stored (srv_nodes (fst (handle_report now n r s))) k = ns_get_stored (srv_nodes s) k)
   \<and> (if \<exists>i. rp_subscription_id r = Some i \<and> sub_accepts (srv_subscriptions s) n i
      then snd (handle_report now n r s) \<noteq> Inl InvalidSubscription
      else handle_report now n r s = (s, Inl InvalidSubscription))"
proof -
  have "ns_get_stored (srv_nodes (fst (handle_report now n r s))) k = ns_get_stored (srv_nodes s) k" if "k \<noteq> n"
    using publish_changes_frame [OF that]
    by (auto simp: handle_report_def ns_get_stored_def Let_def split: option.split)
  then show ?thesis
    by (auto simp: handle_report_def report_verdict_def Let_def split: option.splits)
qed

theorem report_isolation_witness:
  "ns_get_stored (srv_nodes (fst (handle_report 0 1 \<lparr>rp_subscription_id = None, rp_attributes = None, rp_events = None\<rparr>
      (server_new [(2, stored_new (node_new 2 ''t''))] config_in_memory (runtime_default []) [])))) 2
    = Some (stored_new (node_new 2 ''t''))"
  using report_isolation [of 2 1 0 "\<lparr>rp_subscription_id = None, rp_attributes = None, rp_events = None\<rparr>"
      "server_new [(2, stored_new (node_new 2 ''t''))] config_in_memory (runtime_default []) []"]
  by (simp add: server_new_def ns_get_stored_def bt_get_def)

end
