(* ===== verification/Interaction_Api.thy ===== *)
theory Interaction_Api
  imports Im_Client Monitor
begin

section \<open>Reading, writing and invoking (\<open>api/interaction.rs\<close>)\<close>

text \<open>
  The three commands that reach a device, and the step by which what they learn is cached and
  announced. The Matter operations are arguments: what each answers to what it is asked, so
  that a handler's model also says what is asked. The cluster registry and base64 are arguments
  too, as in \<open>Tlv_Json\<close>.
\<close>

type_synonym read_op = "u64 \<Rightarrow> parsed_path list \<Rightarrow> bool \<Rightarrow> api_error + attributes_data"
type_synonym write_op = "u64 \<Rightarrow> u16 \<Rightarrow> u32 \<Rightarrow> u32 \<Rightarrow> tlv_node \<Rightarrow> u16 option \<Rightarrow> api_error + u16"
type_synonym invoke_op =
  "u64 \<Rightarrow> u16 \<Rightarrow> u32 \<Rightarrow> u32 \<Rightarrow> tlv_node \<Rightarrow> u16 option \<Rightarrow> (u32, string) btree \<Rightarrow> api_error + json"

subsection \<open>Announcing what was read\<close>

definition announce_attribute :: "u64 \<Rightarrow> string \<times> json \<Rightarrow> server \<times> bool \<Rightarrow> server \<times> bool" where
  "announce_attribute n = (\<lambda>(path, v) (s, changed).
     case ns_set_attribute (srv_nodes s) n path v of
       (nodes, None) \<Rightarrow> (s, changed)
     | (nodes, Some _) \<Rightarrow> (publish (ev_attribute_updated n path v) (with_nodes (\<lambda>_. nodes) s), True))"

definition publish_attribute_changes :: "u64 \<Rightarrow> attributes_data \<Rightarrow> server \<Rightarrow> server \<times> bool" where
  "publish_attribute_changes n attrs s =
     (let (s1, changed) = fold (announce_attribute n) attrs (s, False)
      in (if changed then request_save SaveLater s1 else s1, changed))"

definition refresh_endpoint :: "read_op \<Rightarrow> u64 \<Rightarrow> u16 \<Rightarrow> server \<Rightarrow> server" where
  "refresh_endpoint read n endpoint s =
     (case parse_path (show_u endpoint @ ''/*/*'') of
        Inl _ \<Rightarrow> s
      | Inr path \<Rightarrow>
          (case read n [path] False of
             Inl _ \<Rightarrow> s
           | Inr attrs \<Rightarrow> fst (publish_attribute_changes n attrs s)))"

subsection \<open>The handlers\<close>

definition read_attribute :: "read_op \<Rightarrow> args \<Rightarrow> server \<Rightarrow> server \<times> api_result" where
  "read_attribute read a s =
     (case bind_res (require_node a s) (\<lambda>n. bind_res (parse_path_arg a) (\<lambda>paths.
             bind_res (args_bool_or a ''fabric_filtered'' False) (\<lambda>filtered.
             map_res (Pair n) (read n paths filtered)))) of
        Inl e \<Rightarrow> (s, Inl e)
      | Inr (n, attrs) \<Rightarrow> (fst (publish_attribute_changes n attrs s), Inr (JObj attrs)))"

text \<open>Milliseconds, at most what a 16-bit field carries; zero stands for no timed interaction.\<close>

definition timed_timeout :: "args \<Rightarrow> api_error + u16 option" where
  "timed_timeout a = map_res (\<lambda>t. case t of
       None \<Rightarrow> None
     | Some ms \<Rightarrow> if ms = 0 then None else Some (ucast (min ms 0xFFFF)))
     (args_u64 a ''timed_request_timeout_ms'')"

record write_order =
  wo_node :: u64
  wo_target :: "u16 \<times> u32 \<times> u32"
  wo_value :: json
  wo_encoded :: tlv_node
  wo_timed :: "u16 option"

definition write_order_of ::
  "(string \<Rightarrow> bytes option) \<Rightarrow> cluster_registry \<Rightarrow> args \<Rightarrow> server \<Rightarrow> api_error + write_order" where
  "write_order_of dec reg a s =
     bind_res (require_node a s) (\<lambda>n.
     bind_res (parse_write_path a) (\<lambda>(e, c, attr).
     bind_res (ok_or (err_invalid_args ''Missing value'') (args_value a ''value'')) (\<lambda>v.
     bind_res (timed_timeout a) (\<lambda>timed.
     map_res (\<lambda>node. \<lparr>wo_node = n, wo_target = (e, c, attr), wo_value = v, wo_encoded = node, wo_timed = timed\<rparr>)
       (attribute_value_from_json dec reg c attr v)))))"

definition write_answer :: "u16 \<Rightarrow> u32 \<Rightarrow> u32 \<Rightarrow> u16 \<Rightarrow> json" where
  "write_answer e c attr status = JArr [jobj
     [(''Path'', jobj [(''EndpointId'', jword e), (''ClusterId'', jword c), (''AttributeId'', jword attr)]),
      (''Status'', jword status)]]"

definition write_attribute ::
  "write_op \<Rightarrow> (string \<Rightarrow> bytes option) \<Rightarrow> cluster_registry \<Rightarrow> args \<Rightarrow> server \<Rightarrow> server \<times> api_result" where
  "write_attribute write dec reg a s =
     (case write_order_of dec reg a s of
        Inl e \<Rightarrow> (s, Inl e)
      | Inr w \<Rightarrow>
          (let n = wo_node w; (e, c, attr) = wo_target w in
           case write n e c attr (wo_encoded w) (wo_timed w) of
             Inl err \<Rightarrow> (s, Inl err)
           | Inr status \<Rightarrow>
               (if status = 0 then
                  (case ns_set_attribute (srv_nodes s) n (format_path e c attr) (wo_value w) of
                     (nodes, None) \<Rightarrow> s
                   | (nodes, Some _) \<Rightarrow>
                       publish (ev_attribute_updated n (format_path e c attr) (wo_value w))
                         (with_nodes (\<lambda>_. nodes) s))
                else s,
                Inr (write_answer e c attr status))))"

text \<open>What a command request resolves to, before anything is sent.\<close>

record command_order =
  co_node :: u64
  co_endpoint :: u16
  co_cluster :: u32
  co_command :: u32
  co_payload :: tlv_node
  co_timed :: "u16 option"
  co_names :: "(u32, string) btree"

definition command_meta_of :: "cluster_registry \<Rightarrow> u32 \<Rightarrow> string option \<Rightarrow> u32 option \<Rightarrow> command_meta option" where
  "command_meta_of reg c name numeric_id =
     opt_bind (cluster reg c) (\<lambda>meta.
       opt_or (opt_bind name (cluster_command meta)) (opt_bind numeric_id (command_by_id meta)))"

definition unknown_command :: "string option \<Rightarrow> u32 \<Rightarrow> api_error" where
  "unknown_command name c = err_invalid_args (case name of
       Some n \<Rightarrow> ''Unknown command '' @ quoted n @ '' for cluster '' @ show_u c
     | None \<Rightarrow> ''Missing command_name'')"

definition command_parts ::
  "(string \<Rightarrow> bytes option) \<Rightarrow> cluster_registry \<Rightarrow> u32 \<Rightarrow> string option \<Rightarrow> u32 option \<Rightarrow> json
   \<Rightarrow> api_error + (u32 \<times> tlv_node \<times> (u32, string) btree)" where
  "command_parts dec reg c name numeric_id payload =
     (case command_meta_of reg c name numeric_id of
        Some m \<Rightarrow> map_res (\<lambda>n. (cm_id m, n, cm_response_fields m)) (command_payload_from_json dec m payload)
      | None \<Rightarrow>
          bind_res (ok_or (unknown_command name c) (opt_or numeric_id (opt_bind name parse_dec))) (\<lambda>i.
            map_res (\<lambda>n. (i, n, [])) (from_json dec payload KOther)))"

definition command_order_of ::
  "(string \<Rightarrow> bytes option) \<Rightarrow> cluster_registry \<Rightarrow> args \<Rightarrow> server \<Rightarrow> api_error + command_order" where
  "command_order_of dec reg a s =
     bind_res (require_node a s) (\<lambda>n.
     bind_res (bind_res (args_u16 a ''endpoint_id'') (\<lambda>x. bind_res (args_u16 a ''endpoint'') (\<lambda>y.
       ok_or (err_invalid_args ''Missing endpoint_id'') (opt_or x y)))) (\<lambda>e.
     bind_res (bind_res (args_u32 a ''cluster_id'') (\<lambda>x. bind_res (args_u32 a ''cluster'') (\<lambda>y.
       ok_or (err_invalid_args ''Missing cluster_id'') (opt_or x y)))) (\<lambda>c.
     bind_res (timed_timeout a) (\<lambda>timed.
     bind_res (bind_res (args_str a ''command_name'') (\<lambda>x. map_res (opt_or x) (args_str a ''command''))) (\<lambda>name.
     bind_res (args_u32 a ''command_id'') (\<lambda>numeric_id.
     bind_res (command_parts dec reg c name numeric_id (unwrap_or (args_value a ''payload'') JNull)) (\<lambda>(i, node, names).
       case node of
         NStruct _ \<Rightarrow> Inr \<lparr>co_node = n, co_endpoint = e, co_cluster = c, co_command = i, co_payload = node,
                           co_timed = timed, co_names = names\<rparr>
       | _ \<Rightarrow> Inl (err_invalid_args ''payload must be an object''))))))))"

definition device_command ::
  "invoke_op \<Rightarrow> read_op \<Rightarrow> (string \<Rightarrow> bytes option) \<Rightarrow> cluster_registry \<Rightarrow> args \<Rightarrow> server \<Rightarrow> server \<times> api_result" where
  "device_command invoke read dec reg a s =
     (case command_order_of dec reg a s of
        Inl e \<Rightarrow> (s, Inl e)
      | Inr c \<Rightarrow>
          (case invoke (co_node c) (co_endpoint c) (co_cluster c) (co_command c) (co_payload c) (co_timed c) (co_names c) of
             Inl e \<Rightarrow> (s, Inl e)
           | Inr response \<Rightarrow> (refresh_endpoint read (co_node c) (co_endpoint c) s, Inr response)))"

subsection \<open>Laws\<close>

lemma set_attribute_frame: "k \<noteq> n \<Longrightarrow> bt_get (fst (ns_set_attribute s n p v)) k = bt_get s k"
  by (auto simp: ns_set_attribute_def Let_def bt_get_update split: option.split)

lemma announce_frame:
  "k \<noteq> n \<Longrightarrow> bt_get (srv_nodes (fst (announce_attribute n kv sc))) k = bt_get (srv_nodes (fst sc)) k"
  using set_attribute_frame [of k n "srv_nodes (fst sc)" "fst kv" "snd kv"]
  by (cases "ns_set_attribute (srv_nodes (fst sc)) n (fst kv) (snd kv)")
     (auto simp: announce_attribute_def case_prod_unfold split: option.split)

lemma announce_all_frame:
  "k \<noteq> n \<Longrightarrow> bt_get (srv_nodes (fst (fold (announce_attribute n) attrs sc))) k = bt_get (srv_nodes (fst sc)) k"
  by (induction attrs arbitrary: sc) (simp_all add: announce_frame)

lemma publish_attribute_changes_frame:
  "k \<noteq> n \<Longrightarrow> bt_get (srv_nodes (fst (publish_attribute_changes n attrs s))) k = bt_get (srv_nodes s) k"
  using announce_all_frame [of k n attrs "(s, False)"]
  by (auto simp: publish_attribute_changes_def Let_def split: prod.splits)

text \<open>What one step does to the node's attributes, the events and the saves.\<close>

lemma announce_one:
  assumes "ns_get (srv_nodes s) n = Some d" and "bt_ok (nd_attributes d)"
  obtains s' d' where "announce_attribute n (path, v) (s, c)
      = (s', c \<or> bt_get (nd_attributes d) path \<noteq> Some v)"
    and "ns_get (srv_nodes s') n = Some d'" and "nd_attributes d' = bt_insert path v (nd_attributes d)"
    and "srv_published s' = srv_published s
           @ (if bt_get (nd_attributes d) path \<noteq> Some v then [ev_attribute_updated n path v] else [])"
    and "srv_saves s' = srv_saves s"
proof -
  obtain node where node: "bt_get (srv_nodes s) n = Some node" and d: "d = sn_data node"
    using assms(1) by (auto simp: ns_get_def)
  show thesis
  proof (cases "bt_get (nd_attributes d) path = Some v")
    case True
    have "bt_insert path v (nd_attributes d) = nd_attributes d"
      by (rule bt_equal [OF bt_ok_insert [OF assms(2)] assms(2)])
         (use True in \<open>auto simp: bt_get_insert [OF assms(2)] fun_eq_iff\<close>)
    moreover have "announce_attribute n (path, v) (s, c) = (s, c)"
      using True node d by (simp add: announce_attribute_def ns_set_attribute_def)
    ultimately show thesis using that [of s d] True assms(1) by simp
  next
    case False
    let ?d = "d\<lparr>nd_attributes := bt_insert path v (nd_attributes d)\<rparr>"
    let ?nodes = "bt_update n (with_data (\<lambda>_. ?d)) (srv_nodes s)"
    let ?s = "publish (ev_attribute_updated n path v) (with_nodes (\<lambda>_. ?nodes) s)"
    have "announce_attribute n (path, v) (s, c) = (?s, True)"
      using False node by (simp add: announce_attribute_def ns_set_attribute_def d Let_def)
    moreover have "ns_get (srv_nodes ?s) n = Some ?d" using assms(1) by (simp add: ns_get_update)
    ultimately show thesis using that [of ?s ?d] False by simp
  qed
qed

lemma announce_all:
  assumes "ns_get (srv_nodes s) n = Some d" and "bt_ok (nd_attributes d)" and "distinct (map fst attrs)"
  shows "let ch = filter (\<lambda>(path, v). bt_get (nd_attributes d) path \<noteq> Some v) attrs;
             (s', c') = fold (announce_attribute n) attrs (s, c)
         in c' = (c \<or> ch \<noteq> []) \<and> srv_saves s' = srv_saves s
          \<and> srv_published s' = srv_published s @ map (\<lambda>(path, v). ev_attribute_updated n path v) ch
          \<and> map_option nd_attributes (ns_get (srv_nodes s') n) = Some (bt_extend (nd_attributes d) attrs)"
  using assms
proof (induction attrs arbitrary: s d c)
  case Nil
  then show ?case by (simp add: bt_extend_def)
next
  case (Cons kv attrs)
  obtain path v where kv: "kv = (path, v)" by (cases kv)
  obtain s1 d1 where one: "announce_attribute n (path, v) (s, c) = (s1, c \<or> bt_get (nd_attributes d) path \<noteq> Some v)"
    "ns_get (srv_nodes s1) n = Some d1" "nd_attributes d1 = bt_insert path v (nd_attributes d)"
    "srv_published s1 = srv_published s
       @ (if bt_get (nd_attributes d) path \<noteq> Some v then [ev_attribute_updated n path v] else [])"
    "srv_saves s1 = srv_saves s"
    by (rule announce_one [OF Cons.prems(1,2)])
  have same: "filter (\<lambda>(p, w). bt_get (bt_insert path v (nd_attributes d)) p \<noteq> Some w) attrs
      = filter (\<lambda>(p, w). bt_get (nd_attributes d) p \<noteq> Some w) attrs"
    using Cons.prems(3) kv by (intro filter_cong refl) (force simp: bt_get_insert_raw)
  have "bt_ok (nd_attributes d1)" using Cons.prems(2) by (simp add: one(3) bt_ok_insert)
  from Cons.IH [OF one(2) this, of "c \<or> bt_get (nd_attributes d) path \<noteq> Some v"] Cons.prems(3)
  show ?case
    by (cases "fold (announce_attribute n) attrs (s1, c \<or> bt_get (nd_attributes d) path \<noteq> Some v)")
       (auto simp: kv one same bt_extend_def Let_def)
qed

lemma timed_timeout_positive:
  assumes "timed_timeout a = Inr timed"
  shows "timed \<noteq> Some 0"
proof
  assume "timed = Some 0"
  then obtain ms where "ms \<noteq> 0" and z: "ucast (min ms (0xFFFF :: u64)) = (0 :: u16)"
    using assms by (auto simp: timed_timeout_def map_res_Inr split: option.splits if_splits)
  have "unat (ucast (min ms (0xFFFF :: u64)) :: u16) = unat (min ms (0xFFFF :: u64))"
    by (rule unat_ucast_down) (simp add: min_def word_le_nat_alt)
  then have "min ms 0xFFFF = 0" using z by (simp add: unat_eq_0)
  then show False using \<open>ms \<noteq> 0\<close> by (simp add: min_def split: if_splits)
qed

subsection \<open>Properties\<close>

text \<open>A read keeps clients and cache in step: for a cached node, exactly the attributes whose value
  differs are announced, in order, each once; the cache then holds every value read and keeps
  the others; a write is requested exactly when something changed.\<close>

theorem read_announces_changes:
  assumes "ns_get (srv_nodes s) n = Some d" and "bt_ok (nd_attributes d)" and "bt_ok attrs"
    and "publish_attribute_changes n attrs s = (s', c)"
  shows "srv_published s' = srv_published s
           @ map (\<lambda>(path, v). ev_attribute_updated n path v) (changed_attrs (nd_attributes d) attrs)
    \<and> map_option nd_attributes (ns_get (srv_nodes s') n) = Some (bt_extend (nd_attributes d) attrs)
    \<and> srv_saves s' = srv_saves s @ (if changed_attrs (nd_attributes d) attrs = [] then [] else [SaveLater])"
proof -
  have "distinct (map fst attrs)" using bt_ok_distinct [OF assms(3)] by (simp add: bt_keys_def)
  from announce_all [OF assms(1,2) this, of False] show ?thesis
    using assms(4) by (auto simp: publish_attribute_changes_def Let_def changed_attrs_def split: prod.splits if_splits)
qed

theorem read_announces_changes_witness:
  "\<exists>s s' c. publish_attribute_changes 7 [(''1/6/0'', JBool True)] s = (s', c)
     \<and> srv_published s' = srv_published s @ [ev_attribute_updated 7 ''1/6/0'' (JBool True)]
     \<and> srv_saves s' = [SaveLater]"
proof -
  let ?s = "server_new [(7, stored_new (node_new 7 ''t''))] config_in_memory (runtime_default []) []"
  obtain s' c where r: "publish_attribute_changes 7 [(''1/6/0'', JBool True)] ?s = (s', c)" by fastforce
  have g: "ns_get (srv_nodes ?s) 7 = Some (node_new 7 ''t'')" "bt_ok (nd_attributes (node_new 7 ''t''))"
      "bt_ok [(''1/6/0'', JBool True)]"
    by (simp_all add: server_new_def ns_get_def bt_get_def stored_new_def node_new_def bt_ok_def)
  have ch: "changed_attrs (nd_attributes (node_new 7 ''t'')) [(''1/6/0'', JBool True)] = [(''1/6/0'', JBool True)]"
    by (simp add: changed_attrs_def node_new_def bt_get_def)
  have "srv_saves ?s = []" by (simp add: server_new_def)
  then show ?thesis using read_announces_changes [OF g r] r ch by (intro exI [of _ ?s] exI [of _ s'] exI [of _ c]) simp
qed

text \<open>A command either does nothing or reaches its device: a failing request or a failing device
  leaves the state as it was; a success is exactly the device's answer to the resolved order,
  whether or not the effect could be read back, and touches no other node.\<close>

theorem device_command_outcome:
  "case device_command invoke read dec reg a s of
     (s', Inl e) \<Rightarrow> s' = s
   | (s', Inr v) \<Rightarrow> (\<exists>c. command_order_of dec reg a s = Inr c
        \<and> invoke (co_node c) (co_endpoint c) (co_cluster c) (co_command c) (co_payload c) (co_timed c) (co_names c) = Inr v
        \<and> (\<forall>k. k = co_node c \<or> ns_get_stored (srv_nodes s') k = ns_get_stored (srv_nodes s) k))"
proof (cases "command_order_of dec reg a s")
  case (Inr c)
  have "k = co_node c \<or> bt_get (srv_nodes (refresh_endpoint read (co_node c) (co_endpoint c) s)) k = bt_get (srv_nodes s) k" for k
    using publish_attribute_changes_frame by (auto simp: refresh_endpoint_def split: sum.split)
  then show ?thesis using Inr by (auto simp: device_command_def ns_get_stored_def split: sum.split)
qed (simp add: device_command_def)

text \<open>What is sent is what the schema says: an order names a node of the table, carries a struct whose
  members are in tag order, a timed interaction between 1 and 65535 ms or none, and, where the
  command is known, its id, its response fields and the payload its schema resolves.\<close>

theorem command_order_sound:
  assumes "command_order_of dec reg a s = Inr c"
  shows "ns_contains (srv_nodes s) (co_node c)
    \<and> (\<exists>fs. co_payload c = NStruct fs \<and> sorted (map fst fs))
    \<and> co_timed c \<noteq> Some 0
    \<and> (\<exists>name i. case command_meta_of reg (co_cluster c) name i of
         Some m \<Rightarrow> co_command c = cm_id m \<and> co_names c = cm_response_fields m
           \<and> command_payload_from_json dec m (unwrap_or (args_value a ''payload'') JNull) = Inr (co_payload c)
       | None \<Rightarrow> Some (co_command c) = opt_or i (opt_bind name parse_dec) \<and> co_names c = [])"
proof -
  obtain n e cl timed name i cmd node names where
      n: "require_node a s = Inr n" and t: "timed_timeout a = Inr timed"
    and p: "command_parts dec reg cl name i (unwrap_or (args_value a ''payload'') JNull) = Inr (cmd, node, names)"
    and c: "(case node of NStruct _ \<Rightarrow> Inr \<lparr>co_node = n, co_endpoint = e, co_cluster = cl, co_command = cmd,
              co_payload = node, co_timed = timed, co_names = names\<rparr>
            | _ \<Rightarrow> Inl (err_invalid_args ''payload must be an object'')) = (Inr c :: api_error + command_order)"
    using assms unfolding command_order_of_def bind_res_Inr by (auto split: prod.splits)
  obtain fs where node: "node = NStruct fs" using c by (cases node) auto
  then have c': "c = \<lparr>co_node = n, co_endpoint = e, co_cluster = cl, co_command = cmd, co_payload = NStruct fs,
      co_timed = timed, co_names = names\<rparr>" using c by simp
  have "ns_contains (srv_nodes s) n"
    using n unfolding require_node_def bind_res_Inr by (auto split: if_splits)
  moreover have "timed \<noteq> Some 0" by (rule timed_timeout_positive [OF t])
  moreover have "sorted (map fst fs)"
  proof (cases "command_meta_of reg cl name i")
    case None
    then have "from_json dec (unwrap_or (args_value a ''payload'') JNull) KOther = Inr (NStruct fs)"
      using p node unfolding command_parts_def by (auto simp: bind_res_Inr map_res_Inr)
    then show ?thesis using from_json_typed(1) by fastforce
  next
    case (Some m)
    then have "command_payload_from_json dec m (unwrap_or (args_value a ''payload'') JNull) = Inr (NStruct fs)"
      using p node unfolding command_parts_def by (auto simp: map_res_Inr)
    then show ?thesis
      by (auto simp: command_payload_from_json_def map_res_Inr sorted_by_tag split: json.splits)
  qed
  moreover have "case command_meta_of reg cl name i of
         Some m \<Rightarrow> cmd = cm_id m \<and> names = cm_response_fields m
           \<and> command_payload_from_json dec m (unwrap_or (args_value a ''payload'') JNull) = Inr (NStruct fs)
       | None \<Rightarrow> Some cmd = opt_or i (opt_bind name parse_dec) \<and> names = []"
    using p node unfolding command_parts_def by (auto simp: bind_res_Inr map_res_Inr ok_or_Inr split: option.splits)
  ultimately show ?thesis unfolding c' by (simp only: command_order.simps) blast
qed

theorem command_order_sound_witness:
  "\<exists>s c. command_order_of (\<lambda>_. None) [] (jobj [(''node_id'', ju64 7), (''endpoint_id'', ju64 1),
       (''cluster_id'', ju64 6), (''command_id'', ju64 2), (''payload'', JObj [])]) s = Inr c
     \<and> ns_contains (srv_nodes s) (co_node c)"
proof -
  let ?a = "jobj [(''node_id'', ju64 7), (''endpoint_id'', ju64 1), (''cluster_id'', ju64 6),
     (''command_id'', ju64 2), (''payload'', JObj [])]"
  let ?s = "server_new [(7, stored_new (node_new 7 ''t''))] config_in_memory (runtime_default []) []"
  have "command_order_of (\<lambda>_. None) [] ?a ?s = Inr \<lparr>co_node = 7, co_endpoint = 1, co_cluster = 6, co_command = 2,
      co_payload = NStruct [], co_timed = None, co_names = []\<rparr>"
    by (simp add: command_order_of_def require_node_def args_req_u64_def required_def args_u64_def args_get_def jget_jobj
        ju64_def server_new_def ns_contains_def bt_contains_def bt_get_def args_u16_def args_u32_def args_bounded_def
        timed_timeout_def args_str_def args_value_def command_parts_def command_meta_of_def cluster_def sort_by_tag_def)
  from command_order_sound [OF this] this show ?thesis by blast
qed

lemma run_priming_code:
  "run_priming enc reg cs attrs = Some (Inl e) \<Longrightarrow> err_code e = SdkStackError"
proof (induction enc reg cs attrs rule: run_priming.induct)
  case (2 enc reg c cs attrs)
  have col: "collect_entries enc reg es acc = Inl e' \<Longrightarrow> err_code e' = SdkStackError" for es acc e'
  proof (induction enc reg es acc rule: collect_entries.induct)
    case (3 enc reg d rs attrs first)
    then show ?case
      by (cases "report_entry enc reg d")
         (auto simp: report_entry_def Let_def map_res_Inl split: sum.splits elim!: map_err.elims)
  qed auto
  show ?case
  proof (cases "ck_response c")
    case (Inr r)
    show ?thesis
    proof (cases "collect_attributes enc reg r (attrs, None)")
      case (Inl e')
      with \<open>ck_response c = Inr r\<close> 2 col show ?thesis
        by (auto simp: collect_attributes_def split: option.splits)
    next
      case (Inr af)
      with \<open>ck_response c = Inr r\<close> 2 show ?thesis
        by (cases af) (auto split: sum.splits option.splits)
    qed
  qed (use 2 in auto)
qed simp

lemma await_response_code:
  "await_response (im_error w) txs = Some (Inl e) \<Longrightarrow> err_code e = SdkStackError"
  by (induction "im_error w" txs rule: await_response.induct) auto

text \<open>Only silence takes a node offline: a failed subscription makes the monitor mark the node
  unavailable exactly when no session with it could be opened; an answer that cannot be used
  makes it poll instead.\<close>

theorem only_silence_is_unreachable:
  assumes "subscribe enc reg n ex = Some (Inl e)"
  shows "unreachable e \<longleftrightarrow> (\<exists>c. ex_open ex = Inl c)"
proof (cases "ex_open ex")
  case (Inl c)
  then have "e = reach_error n c" using assms by (simp add: subscribe_def transact_def)
  then show ?thesis using Inl reach_error_code [of n c] by (auto simp: unreachable_def)
next
  case (Inr u)
  then have "err_code e = SdkStackError"
    using assms run_priming_code [of enc reg "ex_chunks ex" "[]"] await_response_code
    by (auto simp: subscribe_def transact_def split: sum.splits option.splits)
  then show ?thesis using Inr by (simp add: unreachable_def)
qed

theorem only_silence_is_unreachable_witness:
  "unreachable (reach_error 5 RxTimeout)"
proof -
  let ?ex = "\<lparr>ex_open = Inl RxTimeout, ex_sender = Inr (), ex_tx = [], ex_chunks = []\<rparr>
    :: (report_data, (u32 \<times> u16) option) exchange"
  have "subscribe (\<lambda>_. []) [] 5 ?ex = Some (Inl (reach_error 5 RxTimeout))"
    by (simp add: subscribe_def transact_def)
  from only_silence_is_unreachable [OF this] show ?thesis by simp
qed

text \<open>An accepted write updates the cache and announces the value, but asks for no save: the change
  reaches the file only with a later one.\<close>

theorem write_not_saved: "srv_saves (fst (write_attribute write dec reg a s)) = srv_saves s"
  by (auto simp: write_attribute_def Let_def split: sum.split prod.split option.split)

text \<open>A refused write changes nothing: unless the device answers with success, no value is cached and
  none is announced; on success the target path, and no other attribute of any node, may change.\<close>

theorem refused_write_changes_nothing:
  "case write_order_of dec reg a s of
     Inl e \<Rightarrow> write_attribute write dec reg a s = (s, Inl e)
   | Inr w \<Rightarrow> (case wo_target w of (e, c, attr) \<Rightarrow>
       (case write (wo_node w) e c attr (wo_encoded w) (wo_timed w) of
          Inl err \<Rightarrow> write_attribute write dec reg a s = (s, Inl err)
        | Inr status \<Rightarrow> snd (write_attribute write dec reg a s) = Inr (write_answer e c attr status)
            \<and> (if status = 0 then
                 srv_nodes (fst (write_attribute write dec reg a s))
                   = fst (ns_set_attribute (srv_nodes s) (wo_node w) (format_path e c attr) (wo_value w))
               else fst (write_attribute write dec reg a s) = s)))"
proof (cases "write_order_of dec reg a s")
  case (Inr w)
  obtain e c attr where t: "wo_target w = (e, c, attr)" by (cases "wo_target w")
  have "snd (ns_set_attribute ns n p v) = None \<Longrightarrow> fst (ns_set_attribute ns n p v) = ns" for ns n p v
    by (auto simp: ns_set_attribute_def Let_def split: option.splits if_splits)
  from this [of "srv_nodes s" "wo_node w" "format_path e c attr" "wo_value w"] show ?thesis
    using Inr t by (auto simp: write_attribute_def Let_def split: sum.split prod.split option.split)
qed (simp add: write_attribute_def)

end
