(* ===== verification/Nodes_Api.thy ===== *)
theory Nodes_Api
  imports Interaction_Api
begin

section \<open>Node commands (\<open>api/nodes.rs\<close>)\<close>

text \<open>
  Listing, addresses, pings, removal, interviews and the import of test nodes. What the
  device, mDNS and the ledger answer, whether a save reaches the disk (\<open>saved\<close>), the JSON text
  parser, the bundled vendor table and the time are arguments.
\<close>

type_synonym ping_op = "nat \<Rightarrow> api_error + unit"

definition nodes_value :: "matter_node_data list \<Rightarrow> json" where
  "nodes_value ds = JArr (map node_to_value ds)"

definition strings_value :: "string list \<Rightarrow> json" where
  "strings_value xs = JArr (map JStr xs)"

subsection \<open>Listing\<close>

definition start_listening :: "args \<Rightarrow> server \<Rightarrow> server \<times> api_result" where
  "start_listening a s = (s, Inr (nodes_value (ns_all (srv_nodes s))))"

definition get_nodes :: "args \<Rightarrow> server \<Rightarrow> server \<times> api_result" where
  "get_nodes a s = (s, map_res (\<lambda>only. nodes_value (ns_all_filtered (srv_nodes s) only))
     (args_bool_or a ''only_available'' False))"

definition get_node :: "args \<Rightarrow> server \<Rightarrow> server \<times> api_result" where
  "get_node a s = (s, bind_res (args_req_u64 a ''node_id'') (\<lambda>n.
     map_res node_to_value (ok_or (err_node_not_exists n) (ns_get (srv_nodes s) n))))"

subsection \<open>Addresses\<close>

text \<open>\<open>asked\<close> is what the controller says of its fabric, \<open>ask_mdns\<close> what mDNS answers, nothing for no
  answer and for an error alike.\<close>

definition resolve_addresses ::
  "api_error + fabric_info \<Rightarrow> (u64 \<Rightarrow> u64 \<Rightarrow> string list) \<Rightarrow> u64 \<Rightarrow> server \<Rightarrow> server \<times> string list option" where
  "resolve_addresses asked ask_mdns n s =
     (if n \<ge> test_node_start then (s, None)
      else (case fabric_info_of asked s of
          (s1, Inl _) \<Rightarrow> (s1, None)
        | (s1, Inr fabric) \<Rightarrow>
            (let addresses = ask_mdns (fi_compressed_fabric_id fabric) n in
             if addresses = [] then (s1, None)
             else (if ns_ip_addresses (srv_nodes s1) n \<noteq> addresses
                   then request_save SaveLater (with_nodes (\<lambda>ns. ns_set_ip_addresses ns n addresses) s1)
                   else s1, Some addresses))))"

definition get_node_ip_addresses ::
  "api_error + fabric_info \<Rightarrow> (u64 \<Rightarrow> u64 \<Rightarrow> string list) \<Rightarrow> api_error + unit \<Rightarrow> args \<Rightarrow> server \<Rightarrow> server \<times> api_result" where
  "get_node_ip_addresses asked ask_mdns ping a s =
     (case bind_res (require_node a s) (\<lambda>n. map_res (Pair n) (args_bool_or a ''prefer_cache'' False)) of
        Inl e \<Rightarrow> (s, Inl e)
      | Inr (n, True) \<Rightarrow> (s, Inr (strings_value (ns_ip_addresses (srv_nodes s) n)))
      | Inr (n, False) \<Rightarrow>
          (case resolve_addresses asked ask_mdns n s of
             (s1, Some resolved) \<Rightarrow> (s1, Inr (strings_value resolved))
           | (s1, None) \<Rightarrow>
               (let addresses = ns_ip_addresses (srv_nodes s1) n in
                if addresses \<noteq> [] \<and> res_ok ping = None then (s1, Inr (JArr []))
                else (s1, Inr (strings_value addresses)))))"

subsection \<open>Pings\<close>

definition clamp_attempts :: "u8 option \<Rightarrow> nat" where
  "clamp_attempts x = max 1 (min 10 (unat (unwrap_or x 1)))"

definition ping_node :: "ping_op \<Rightarrow> args \<Rightarrow> server \<Rightarrow> server \<times> api_result" where
  "ping_node ping a s =
     (case bind_res (require_node a s) (\<lambda>n. map_res (Pair n) (args_u8 a ''attempts'')) of
        Inl e \<Rightarrow> (s, Inl e)
      | Inr (n, attempts) \<Rightarrow>
          (let reachable = list_ex (\<lambda>i. res_ok (ping i) \<noteq> None) [0..<clamp_attempts attempts];
               s1 = (case ns_set_available (srv_nodes s) n reachable of
                   (nodes, Some (d, True)) \<Rightarrow> publish (ev_node_updated d) (request_save SaveLater (with_nodes (\<lambda>_. nodes) s))
                 | (nodes, Some (d, False)) \<Rightarrow> with_nodes (\<lambda>_. nodes) s
                 | (nodes, None) \<Rightarrow> s);
               addresses = ns_ip_addresses (srv_nodes s1) n;
               names = (if addresses = [] then [''node-'' @ show_u n] else addresses)
           in (s1, Inr (jobj (map (\<lambda>x. (x, JBool reachable)) names)))))"

subsection \<open>Removal\<close>

definition fabric_index_paths :: "parsed_path list" where
  "fabric_index_paths = [\<lparr>pp_endpoint = Some 0, pp_cluster = Some 62, pp_attribute = Some 5\<rparr>]"

definition remove_our_fabric :: "read_op \<Rightarrow> invoke_op \<Rightarrow> stored_node \<Rightarrow> u64 \<Rightarrow> api_error + unit" where
  "remove_our_fabric read invoke stored n =
     (let index = (case read n fabric_index_paths False of
           Inr attrs \<Rightarrow> opt_or (map_option ucast (opt_bind (bt_get attrs ''0/62/5'') as_u64)) (sn_device_fabric_index stored)
         | Inl _ \<Rightarrow> sn_device_fabric_index stored)
      in bind_res (ok_or (err_sdk ''The fabric index this controller holds on the node is unknown'') index) (\<lambda>i.
           map_res (\<lambda>_. ()) (invoke n 0 62 10 (NStruct [(0, NU64 (ucast i))]) None [])))"

text \<open>The answer of the device is ignored, only logged.\<close>

definition remove_node :: "string + unit \<Rightarrow> args \<Rightarrow> server \<Rightarrow> server \<times> api_result" where
  "remove_node saved a s =
     (case bind_res (args_req_u64 a ''node_id'') (\<lambda>n.
             map_res (\<lambda>_. n) (ok_or (err_node_not_exists n) (ns_get_stored (srv_nodes s) n))) of
        Inl e \<Rightarrow> (s, Inl e)
      | Inr n \<Rightarrow>
          (let s1 = request_save SaveAtOnce (with_nodes (\<lambda>ns. fst (ns_remove ns n)) s) in
           case saved of
             Inl e \<Rightarrow> (s1, Inl (err_sdk (''Failed to persist the node removal: '' @ e)))
           | Inr _ \<Rightarrow> (publish (ev_node_removed n) s1, Inr JNull)))"

definition removal_order :: "read_op \<Rightarrow> invoke_op \<Rightarrow> u64 \<Rightarrow> server \<Rightarrow> (api_error + unit) option" where
  "removal_order read invoke n s =
     (case ns_get_stored (srv_nodes s) n of
        None \<Rightarrow> None
      | Some stored \<Rightarrow> if is_test_node (sn_data stored) then None
                       else Some (remove_our_fabric read invoke stored n))"

subsection \<open>Interviews\<close>

definition apply_interview ::
  "string \<Rightarrow> string + unit \<Rightarrow> u64 \<Rightarrow> attributes_data \<Rightarrow> server \<Rightarrow> server \<times> (api_error + matter_node_data)" where
  "apply_interview now saved n attrs s =
     (case ns_apply_interview (srv_nodes s) n attrs now of
        (nodes, None) \<Rightarrow> (s, Inl (err_node_not_exists n))
      | (nodes, Some d) \<Rightarrow>
          (let s1 = request_save SaveAtOnce (with_nodes (\<lambda>_. nodes) s) in
           case saved of
             Inl e \<Rightarrow> (s1, Inl (err_sdk (''Failed to persist the interview: '' @ e)))
           | Inr _ \<Rightarrow> (publish_all (diff_events n d) s1, Inr (df_node d))))"

definition interview_node ::
  "(u64 \<Rightarrow> api_error + attributes_data) \<Rightarrow> string \<Rightarrow> string + unit \<Rightarrow> args \<Rightarrow> server \<Rightarrow> server \<times> api_result" where
  "interview_node interview now saved a s =
     (case require_node a s of
        Inl e \<Rightarrow> (s, Inl e)
      | Inr n \<Rightarrow>
          if unwrap_or (map_option is_test_node (ns_get (srv_nodes s) n)) False then (s, Inr JNull)
          else (case interview n of
              Inl e \<Rightarrow> (s, Inl e)
            | Inr attrs \<Rightarrow>
                (let (s1, r) = apply_interview now saved n attrs s in (s1, map_res (\<lambda>_. JNull) r))))"

subsection \<open>Test nodes\<close>

text \<open>Home Assistant writes dumps in three shapes.\<close>

definition extract_dump_nodes :: "json \<Rightarrow> json list option" where
  "extract_dump_nodes dump =
     opt_bind (jget dump ''data'') (\<lambda>data.
       case jget data ''node'' of
         Some node \<Rightarrow> Some [node]
       | None \<Rightarrow>
           opt_bind (opt_or (opt_bind (jget data ''server'') (\<lambda>v. jget v ''nodes'')) (jget data ''nodes'')) (\<lambda>nodes.
             case nodes of
               JArr items \<Rightarrow> Some items
             | JObj m \<Rightarrow> Some (bt_values m)
             | _ \<Rightarrow> None))"

definition first_test_id :: "nodes \<Rightarrow> u64" where
  "first_test_id s =
     (case map (\<lambda>d. nd_node_id d + 1) (filter is_test_node (ns_all s)) of
        [] \<Rightarrow> test_node_start
      | i # is \<Rightarrow> fold max is i)"

definition imported_node :: "string \<Rightarrow> u64 \<Rightarrow> json \<Rightarrow> matter_node_data" where
  "imported_node now n dumped =
     (let d = node_new n now in d
       \<lparr>nd_date_commissioned := unwrap_or (opt_bind (jget dumped ''date_commissioned'') as_str) (nd_date_commissioned d),
        nd_last_interview := unwrap_or (opt_bind (jget dumped ''last_interview'') as_str) (nd_last_interview d),
        nd_interview_version := unwrap_or (opt_bind (jget dumped ''interview_version'') as_u64) 0,
        nd_available := unwrap_or (opt_bind (jget dumped ''available'') as_bool) True,
        nd_is_bridge := unwrap_or (opt_bind (jget dumped ''is_bridge'') as_bool) False,
        nd_attributes := unwrap_or (opt_bind (jget dumped ''attributes'') as_object) (nd_attributes d)\<rparr>)"

fun import_all :: "string \<Rightarrow> u64 \<Rightarrow> json list \<Rightarrow> server \<Rightarrow> server" where
  "import_all now n [] s = s"
| "import_all now n (dumped # ds) s =
     (let d = imported_node now n dumped in
      import_all now (n + 1) ds
        (publish (ev_node_added d) (with_nodes (\<lambda>ns. ns_upsert ns (stored_new d)) s)))"

definition import_test_node ::
  "(string \<Rightarrow> string + json) \<Rightarrow> string \<Rightarrow> string + unit \<Rightarrow> args \<Rightarrow> server \<Rightarrow> server \<times> api_result" where
  "import_test_node parse now saved a s =
     (case bind_res (args_req_str a ''dump'') (\<lambda>dump.
             bind_res (map_err (\<lambda>e. err_invalid_args (''Invalid dump: '' @ e)) (parse dump)) (\<lambda>parsed.
             ok_or (err_invalid_args ''Invalid dump format: cannot find node data'') (extract_dump_nodes parsed))) of
        Inl e \<Rightarrow> (s, Inl e)
      | Inr dumped \<Rightarrow>
          (let s1 = request_save SaveAtOnce (import_all now (first_test_id (srv_nodes s)) dumped s) in
           case saved of
             Inl e \<Rightarrow> (s1, Inl (err_sdk (''Failed to persist the imported nodes: '' @ e)))
           | Inr _ \<Rightarrow> (s1, Inr JNull)))"

subsection \<open>Vendor names\<close>

definition vendor_name :: "(string, string) btree \<Rightarrow> u16 \<Rightarrow> string option" where
  "vendor_name table v = bt_get table (show_u v)"

definition vendor_name_from_dcl :: "(ledger \<Rightarrow> u16 \<Rightarrow> string option) \<Rightarrow> u16 \<Rightarrow> server \<Rightarrow> string option" where
  "vendor_name_from_dcl ask v s = opt_bind (ledger_for v s) (\<lambda>l. ask l v)"

definition named_vendor ::
  "(string, string) btree \<Rightarrow> (ledger \<Rightarrow> u16 \<Rightarrow> string option) \<Rightarrow> server \<Rightarrow> u64 \<Rightarrow> (string \<times> json) option" where
  "named_vendor table ask s v =
     (case bt_get table (show_u v) of
        Some name \<Rightarrow> Some (show_u v, JStr name)
      | None \<Rightarrow>
          if unat v \<le> u16_max
          then map_option (\<lambda>name. (show_u v, JStr name)) (vendor_name_from_dcl ask (ucast v) s)
          else None)"

definition get_vendor_names ::
  "(string, string) btree \<Rightarrow> (ledger \<Rightarrow> u16 \<Rightarrow> string option) \<Rightarrow> args \<Rightarrow> server \<Rightarrow> server \<times> api_result" where
  "get_vendor_names table ask a s = (s, map_res (\<lambda>wanted.
      case wanted of
        Some (v # vs) \<Rightarrow> jobj (filter_map (named_vendor table ask s) (v # vs))
      | _ \<Rightarrow> JObj (map (\<lambda>(k, name). (k, JStr name)) table))
     (args_u64_array a ''filter_vendors''))"

subsection \<open>Laws\<close>

lemma word_lt_Suc:
  assumes "w \<noteq> - 1"
  shows "(w :: 'a::len word) < w + 1"
proof -
  have "1 + w \<noteq> 0" using assms by (metis add.commute eq_neg_iff_add_eq_0)
  then have "unat (1 + w) = Suc (unat w)" by (rule unatSuc)
  then show ?thesis by (simp add: word_less_nat_alt add.commute)
qed

lemma fold_max_start: "(i :: 'a::linorder) \<le> fold max is i"
proof (induction "is" arbitrary: i)
  case (Cons j "is")
  show ?case using Cons [of "max j i"] by simp
qed simp

lemma fold_max_ge: "(x :: 'a::linorder) \<in> insert i (set is) \<Longrightarrow> x \<le> fold max is i"
proof (induction "is" arbitrary: i)
  case (Cons j "is")
  show ?case
  proof (cases "x \<in> set is")
    case True
    then show ?thesis using Cons.IH [of "max j i"] by simp
  next
    case False
    then have "x \<le> max j i" using Cons.prems by auto
    then show ?thesis using fold_max_start [of "max j i" "is"] by (simp only: fold_simps comp_def)
  qed
qed simp

lemma ns_all_iff: "nodes_ok s \<Longrightarrow> d \<in> set (ns_all s) \<longleftrightarrow> (\<exists>n. ns_get s n = Some d)"
  by (force simp: ns_all_def bt_values_def ns_get_def nodes_ok_def bt_get_iff)

lemma first_test_id_fresh:
  assumes "nodes_ok s" and "\<not> ns_contains s (- 1)" and "first_test_id s \<le> n"
  shows "\<not> ns_contains s n"
proof
  assume "ns_contains s n"
  then obtain node where g: "bt_get s n = Some node" by (auto simp: ns_contains_def bt_contains_def)
  then have id: "nd_node_id (sn_data node) = n" using nodes_ok_get [OF assms(1)] by (simp add: node_ok_def)
  have n: "n \<noteq> - 1" using g assms(2) by (auto simp: ns_contains_def bt_contains_def)
  have start: "test_node_start \<le> first_test_id s"
  proof (cases "map (\<lambda>d. nd_node_id d + 1) (filter is_test_node (ns_all s))")
    case (Cons i "is")
    then have "i \<in> set (map (\<lambda>d. nd_node_id d + 1) (filter is_test_node (ns_all s)))" by simp
    then obtain d where d: "d \<in> set (ns_all s)" "is_test_node d" "i = nd_node_id d + 1" by auto
    then have "nd_node_id d \<noteq> - 1"
      using assms(2) ns_all_iff [OF assms(1)] nodes_ok_get [OF assms(1)]
      by (fastforce simp: ns_get_def node_ok_def ns_contains_def bt_contains_def)
    then have "nd_node_id d < i" using d(3) word_lt_Suc by simp
    then show ?thesis
      using fold_max_ge [of i i "is"] d(2) Cons by (simp add: first_test_id_def is_test_node_def)
  qed (simp add: first_test_id_def)
  have "is_test_node (sn_data node)" using start assms(3) by (simp add: is_test_node_def id)
  then have "n + 1 \<in> set (map (\<lambda>d. nd_node_id d + 1) (filter is_test_node (ns_all s)))"
    using ns_all_iff [OF assms(1), of "sn_data node"] g id by (force simp: ns_get_def)
  then have "n + 1 \<le> first_test_id s"
    unfolding first_test_id_def by (cases "map (\<lambda>d. nd_node_id d + 1) (filter is_test_node (ns_all s))")
      (simp_all only: list.case list.set insert_iff empty_iff fold_max_ge)
  then show False using assms(3) word_lt_Suc [OF n] by simp
qed

text \<open>The ids an import hands out, and what it leaves.\<close>

definition imported :: "string \<Rightarrow> u64 \<Rightarrow> json list \<Rightarrow> matter_node_data list" where
  "imported now n ds = map (\<lambda>i. imported_node now (n + of_nat i) (ds ! i)) [0..<length ds]"

lemma imported_Cons: "imported now n (d # ds) = imported_node now n d # imported now (n + 1) ds"
  by (simp add: imported_def upt_conv_Cons map_Suc_upt [symmetric] comp_def add.assoc del: upt_Suc map_Suc_upt)

lemma imported_node_id [simp]: "nd_node_id (imported_node now n d) = n"
  by (simp add: imported_node_def Let_def node_new_def)

lemma import_all_published:
  "srv_published (import_all now n ds s) = srv_published s @ map ev_node_added (imported now n ds)"
  by (induction now n ds s rule: import_all.induct) (simp_all add: imported_Cons Let_def, simp add: imported_def)

lemma import_all_frame:
  "(\<And>i. i < length ds \<Longrightarrow> k \<noteq> n + of_nat i) \<Longrightarrow>
   ns_get_stored (srv_nodes (import_all now n ds s)) k = ns_get_stored (srv_nodes s) k"
proof (induction now n ds s rule: import_all.induct)
  case (2 now n dumped ds s)
  have "k \<noteq> n" using "2.prems" [of 0] by simp
  moreover have "i < length ds \<Longrightarrow> k \<noteq> n + 1 + of_nat i" for i using "2.prems" [of "Suc i"] by (simp add: add.assoc)
  ultimately show ?case
    using "2.IH" [OF refl] by (simp add: Let_def ns_get_stored_def ns_upsert_def bt_get_insert_raw stored_new_def)
qed simp

lemma import_all_get:
  assumes "i < length ds" and "length ds \<le> 2 ^ 64"
  shows "ns_get (srv_nodes (import_all now n ds s)) (n + of_nat i)
       = Some (imported_node now (n + of_nat i) (ds ! i))"
  using assms
proof (induction now n ds s arbitrary: i rule: import_all.induct)
  case (2 now n dumped ds s)
  show ?case
  proof (cases i)
    case 0
    have "j < length ds \<Longrightarrow> n \<noteq> n + 1 + of_nat j" for j
    proof
      assume j: "j < length ds" and "n = n + 1 + of_nat j"
      then have "(of_nat (Suc j) :: u64) = 0" by (simp add: add.assoc)
      moreover have "unat (of_nat (Suc j) :: u64) = Suc j" using j "2.prems"(2) by (intro unat_of_nat_small) simp
      ultimately show False by simp
    qed
    from import_all_frame [of ds n "n + 1", OF this] 0 show ?thesis
      by (simp add: Let_def ns_get_def ns_get_stored_def ns_upsert_def bt_get_insert_raw stored_new_def)
  next
    case (Suc j)
    then show ?thesis using "2.IH" [OF refl, of j] "2.prems" by (simp add: Let_def add.assoc)
  qed
qed simp

lemma import_test_node_ok:
  assumes "args_req_str a ''dump'' = Inr dump" and "parse dump = Inr parsed" and "extract_dump_nodes parsed = Some ds"
  shows "fst (import_test_node parse now saved a s)
    = request_save SaveAtOnce (import_all now (first_test_id (srv_nodes s)) ds s)"
  by (simp add: import_test_node_def assms Let_def split: sum.split)

lemma ns_get_removed: "ns_get_stored (fst (ns_remove s n)) k = (if k = n then None else ns_get_stored s k)"
  by (simp add: ns_get_stored_def ns_remove_def bt_get_remove)

subsection \<open>Properties\<close>

text \<open>An import takes fresh ids only: while the id range has room, the nodes of the dump are stored in
  order under consecutive ids that no node held, and announced; every node already in the table,
  commissioned or imported, is left exactly as it was.\<close>

theorem import_takes_fresh_ids:
  assumes "args_req_str a ''dump'' = Inr dump" and "parse dump = Inr parsed" and "extract_dump_nodes parsed = Some ds"
    and "nodes_ok (srv_nodes s)" and "\<not> ns_contains (srv_nodes s) (- 1)"
    and "unat (first_test_id (srv_nodes s)) + length ds \<le> 2 ^ 64"
    and "fst (import_test_node parse now saved a s) = s'"
  shows "srv_published s' = srv_published s @ map ev_node_added (imported now (first_test_id (srv_nodes s)) ds)
    \<and> (\<forall>n. ns_contains (srv_nodes s) n \<longrightarrow> ns_get_stored (srv_nodes s') n = ns_get_stored (srv_nodes s) n)
    \<and> (\<forall>i < length ds. let n = first_test_id (srv_nodes s) + of_nat i in
         \<not> ns_contains (srv_nodes s) n
         \<and> ns_get (srv_nodes s') n = Some (imported_node now n (ds ! i)))"
proof -
  let ?n = "first_test_id (srv_nodes s)"
  have s': "s' = request_save SaveAtOnce (import_all now ?n ds s)"
    using assms(7) import_test_node_ok [where s = s and parse = parse, OF assms(1-3)] by simp
  have fresh: "\<not> ns_contains (srv_nodes s) (?n + of_nat i)" if i: "i < length ds" for i
  proof (rule first_test_id_fresh [OF assms(4,5)])
    have "unat (?n + of_nat i) = unat ?n + i"
      using assms(6) i by (simp add: unat_word_ariths unsigned_of_nat take_bit_nat_def)
    then show "?n \<le> ?n + of_nat i" by (simp add: word_le_nat_alt)
  qed
  then have "ns_get_stored (srv_nodes s') k = ns_get_stored (srv_nodes s) k" if "ns_contains (srv_nodes s) k" for k
    using that import_all_frame [of ds k ?n now s] by (auto simp: s')
  then show ?thesis
    using fresh import_all_get [of _ ds now ?n s] assms(6) by (auto simp: s' import_all_published Let_def)
qed

theorem import_takes_fresh_ids_witness:
  "ns_get (srv_nodes (fst (import_test_node (\<lambda>_. Inr (jobj [(''data'', jobj [(''node'', JObj [])])])) ''t'' (Inr ())
        (jobj [(''dump'', JStr ''d'')]) (server_new [] config_in_memory (runtime_default []) []))))
      (first_test_id (srv_nodes (server_new [] config_in_memory (runtime_default []) [])))
     = Some (imported_node ''t'' (first_test_id (srv_nodes (server_new [] config_in_memory (runtime_default []) []))) (JObj []))"
proof -
  let ?s = "server_new [] config_in_memory (runtime_default []) []" and ?d = "jobj [(''data'', jobj [(''node'', JObj [])])]"
  let ?a = "jobj [(''dump'', JStr ''d'')]"
  have a: "args_req_str ?a ''dump'' = Inr ''d''"
    by (simp add: args_req_str_def required_def args_str_def args_get_def jget_jobj)
  have d: "extract_dump_nodes ?d = Some [JObj []]" by (simp add: extract_dump_nodes_def jget_jobj)
  have n: "nodes_ok (srv_nodes ?s)" "\<not> ns_contains (srv_nodes ?s) (- 1)" "first_test_id (srv_nodes ?s) = test_node_start"
    by (simp_all add: server_new_def nodes_ok_def ns_contains_def bt_contains_def bt_get_def first_test_id_def
        ns_all_def bt_values_def)
  have room: "unat (first_test_id (srv_nodes ?s)) + length [JObj []] \<le> 2 ^ 64"
    unfolding n(3) by (simp add: test_node_start_def)
  from import_takes_fresh_ids [where s = ?s and parse = "\<lambda>_. Inr ?d" and now = "''t''" and saved = "Inr ()",
      OF a refl d n(1,2) room refl]
  show ?thesis by (simp only: Let_def list.size) (drule conjunct2, drule conjunct2, drule spec [of _ 0], simp)
qed

text \<open>A removal that is answered is complete: the node existed and is gone, its removal is the last event,
  the file is written at once, and every other node is untouched. A refused one announces nothing.\<close>

theorem removal_exact:
  "case remove_node saved a s of
     (s', Inl e) \<Rightarrow> srv_published s' = srv_published s
   | (s', Inr v) \<Rightarrow> (\<exists>n. args_req_u64 a ''node_id'' = Inr n
        \<and> ns_get_stored (srv_nodes s) n \<noteq> None
        \<and> srv_published s' = srv_published s @ [ev_node_removed n]
        \<and> srv_saves s' = srv_saves s @ [SaveAtOnce]
        \<and> ns_get_stored (srv_nodes s') = (ns_get_stored (srv_nodes s))(n := None))"
proof (cases "args_req_u64 a ''node_id''")
  case (Inr n)
  then show ?thesis
    by (cases "ns_get_stored (srv_nodes s) n")
       (auto simp: remove_node_def Let_def fun_eq_iff ns_get_removed split: sum.split)
qed (simp add: remove_node_def)

text \<open>A removal that cannot be written is refused, yet the node is gone and no client is told.\<close>

theorem removal_unannounced:
  assumes "args_req_u64 a ''node_id'' = Inr n" and "ns_contains (srv_nodes s) n"
  shows "\<exists>s' err. remove_node (Inl e) a s = (s', Inl err)
    \<and> \<not> ns_contains (srv_nodes s') n \<and> srv_published s' = srv_published s"
  using assms
  by (auto simp: remove_node_def Let_def ns_get_stored_def ns_contains_def bt_contains_def ns_remove_def bt_get_remove)

text \<open>The same for an interview: its values stay in the table unannounced.\<close>

theorem interview_unannounced:
  assumes "ns_get (srv_nodes s) n = Some d"
  shows "\<exists>s' err. apply_interview now (Inl e) n attrs s = (s', Inl err)
    \<and> map_option nd_attributes (ns_get (srv_nodes s') n) = Some attrs \<and> srv_published s' = srv_published s"
  using assms
  by (auto simp: apply_interview_def Let_def ns_apply_interview_def ns_get_def bt_get_update)

text \<open>A ping decides availability: the node is then recorded available exactly when one of the attempts,
  one to ten of them, was answered; a change is announced once and saved, no change is silent.\<close>

theorem ping_decides_availability:
  assumes "require_node a s = Inr n" and "args_u8 a ''attempts'' = Inr k"
    and "ns_get (srv_nodes s) n = Some d" and "ping_node ping a s = (s', r)"
  shows "1 \<le> clamp_attempts k \<and> clamp_attempts k \<le> 10
    \<and> map_option nd_available (ns_get (srv_nodes s') n)
        = Some (\<exists>i < clamp_attempts k. res_ok (ping i) \<noteq> None)
    \<and> srv_published s' = srv_published s
        @ (if (\<exists>i < clamp_attempts k. res_ok (ping i) \<noteq> None) = nd_available d then []
           else [ev_node_updated (d\<lparr>nd_available := \<not> nd_available d\<rparr>)])"
proof -
  let ?r = "list_ex (\<lambda>i. res_ok (ping i) \<noteq> None) [0..<clamp_attempts k]"
  have r: "?r = (\<exists>i < clamp_attempts k. res_ok (ping i) \<noteq> None)" by (auto simp: list_ex_iff)
  obtain node where node: "bt_get (srv_nodes s) n = Some node" "d = sn_data node"
    using assms(3) by (auto simp: ns_get_def)
  show ?thesis
    using assms(4) unfolding r [symmetric]
    by (auto simp: ping_node_def assms(1,2) Let_def ns_set_available_def node ns_get_def bt_get_update clamp_attempts_def)
qed

end
