(* ===== verification/Fabrics.thy ===== *)
theory Fabrics
  imports Nodes_Api
begin

section \<open>Fabrics, access control and bindings (\<open>api/fabrics.rs\<close>)\<close>

text \<open>
  The commands that compose from reads, writes and invokes on a node's operational
  credentials, access control and binding clusters: how their JSON arguments become TLV, and
  how a device's answer to a fabric label is judged. None of them touches the server's state.
\<close>

subsection \<open>Listing fabrics\<close>

record fabric_data =
  fd_fabric_id :: "u64 option"
  fd_vendor_id :: "u16 option"
  fd_fabric_index :: "u8 option"
  fd_fabric_label :: "string option"
  fd_vendor_name :: "string option"

definition fabric_to_value :: "fabric_data \<Rightarrow> json" where
  "fabric_to_value f =
     (let member = (\<lambda>name v. case v of None \<Rightarrow> [] | Some j \<Rightarrow> [(name, j)]) in
      jobj (member ''fabric_id'' (map_option ju64 (fd_fabric_id f))
          @ member ''vendor_id'' (map_option jword (fd_vendor_id f))
          @ member ''fabric_index'' (map_option jword (fd_fabric_index f))
          @ member ''fabric_label'' (map_option JStr (fd_fabric_label f))
          @ member ''vendor_name'' (map_option JStr (fd_vendor_name f))))"

definition fabric_from_tlv_json :: "(string, string) btree \<Rightarrow> json \<Rightarrow> fabric_data" where
  "fabric_from_tlv_json table entry =
     (let vendor = map_option ucast (opt_bind (jget entry ''2'') as_u64) in
      \<lparr>fd_fabric_id = opt_bind (jget entry ''3'') as_u64,
       fd_vendor_id = vendor,
       fd_fabric_index = map_option ucast (opt_bind (jget entry ''254'') as_u64),
       fd_fabric_label = opt_bind (jget entry ''5'') as_str,
       fd_vendor_name = opt_bind vendor (vendor_name table)\<rparr>)"

definition fabrics_path :: string where
  "fabrics_path = format_path 0 62 1"

definition get_matter_fabrics :: "read_op \<Rightarrow> (string, string) btree \<Rightarrow> args \<Rightarrow> server \<Rightarrow> server \<times> api_result" where
  "get_matter_fabrics read table a s = (s,
     bind_res (require_node a s) (\<lambda>n.
     bind_res (parse_path fabrics_path) (\<lambda>path.
     map_res (\<lambda>attrs.
       let raw = unwrap_or (bt_get attrs fabrics_path) JNull;
           entries = unwrap_or (as_array raw) []
       in JArr (map (\<lambda>e. fabric_to_value (fabric_from_tlv_json table e)) entries))
       (read n [path] False))))"

definition remove_matter_fabric :: "invoke_op \<Rightarrow> args \<Rightarrow> server \<Rightarrow> server \<times> api_result" where
  "remove_matter_fabric invoke a s = (s,
     bind_res (require_node a s) (\<lambda>n.
     bind_res (args_req_u64 a ''fabric_index'') (\<lambda>i.
       if i = 0 \<or> i > 255 then Inl (err_invalid_args ''fabric_index must be 1..=255'')
       else map_res (\<lambda>_. JObj []) (invoke n 0 62 10 (NStruct [(0, NU64 i)]) None []))))"

subsection \<open>The fabric label on a device\<close>

definition noc_status_ok :: u64 where "noc_status_ok = 0"
definition noc_status_label_conflict :: u64 where "noc_status_label_conflict = 10"

definition noc_response_result :: "json \<Rightarrow> string \<Rightarrow> api_error + unit" where
  "noc_response_result response label =
     (let status = unwrap_or (opt_bind (jget response ''0'') as_u64) noc_status_ok in
      if status = noc_status_ok then Inr ()
      else Inl (err_sdk
        (if status = noc_status_label_conflict
         then ''the device already has a fabric labelled '' @ quoted label
              @ ''; labels must differ across the fabrics on one device''
         else ''the device refused the fabric label with status '' @ show_u status)))"

definition push_fabric_label :: "invoke_op \<Rightarrow> u64 \<Rightarrow> string \<Rightarrow> api_error + unit" where
  "push_fabric_label invoke n label =
     bind_res (invoke n 0 62 9 (NStruct [(0, NUtf8 label)]) None []) (\<lambda>response. noc_response_result response label)"

subsection \<open>Access control entries\<close>

definition write_result :: "u16 \<Rightarrow> u32 \<Rightarrow> u32 \<Rightarrow> u16 \<Rightarrow> json" where
  "write_result e c attr status = JArr [jobj
     [(''path'', jobj [(''endpoint_id'', jword e), (''cluster_id'', jword c), (''attribute_id'', jword attr)]),
      (''status'', jword status)]]"

definition acl_member :: "json \<Rightarrow> string \<Rightarrow> api_error + tlv_node" where
  "acl_member target name =
     (case jget target name of
        None \<Rightarrow> Inr NNull
      | Some JNull \<Rightarrow> Inr NNull
      | Some (JNum number) \<Rightarrow> map_res NU64
          (ok_or (err_invalid_args (''ACL target '' @ name @ '' must be an integer'')) (num_u64 number))
      | Some _ \<Rightarrow> Inl (err_invalid_args (''ACL target '' @ name @ '' must be an integer or null'')))"

definition acl_target_to_tlv :: "json \<Rightarrow> api_error + tlv_node" where
  "acl_target_to_tlv target =
     bind_res (acl_member target ''cluster'') (\<lambda>cluster'.
     bind_res (acl_member target ''endpoint'') (\<lambda>endpoint.
     bind_res (acl_member target ''device_type'') (\<lambda>device_type.
       Inr (NStruct [(0, cluster'), (1, endpoint), (2, device_type)]))))"

definition acl_list :: "string \<Rightarrow> (json \<Rightarrow> api_error + tlv_node) \<Rightarrow> json \<Rightarrow> api_error + tlv_node" where
  "acl_list name item entry =
     (case jget entry name of
        None \<Rightarrow> Inr NNull
      | Some JNull \<Rightarrow> Inr NNull
      | Some (JArr items) \<Rightarrow> map_res NArray (collect_res item items)
      | Some _ \<Rightarrow> Inl (err_invalid_args (''ACL '' @ name @ '' must be an array'')))"

definition acl_subject :: "json \<Rightarrow> api_error + tlv_node" where
  "acl_subject item = map_res NU64 (ok_or (err_invalid_args ''ACL subjects must be integers'') (as_u64 item))"

definition acl_entry_to_tlv :: "json \<Rightarrow> api_error + tlv_node" where
  "acl_entry_to_tlv entry =
     bind_res (ok_or (err_invalid_args ''Each ACL entry needs a privilege'')
       (opt_bind (jget entry ''privilege'') as_u64)) (\<lambda>privilege.
     bind_res (ok_or (err_invalid_args ''Each ACL entry needs an auth_mode'')
       (opt_bind (jget entry ''auth_mode'') as_u64)) (\<lambda>auth_mode.
     bind_res (acl_list ''subjects'' acl_subject entry) (\<lambda>subjects.
     bind_res (acl_list ''targets'' acl_target_to_tlv entry) (\<lambda>targets.
       Inr (NStruct [(1, NU64 privilege), (2, NU64 auth_mode), (3, subjects), (4, targets)])))))"

definition set_acl_entry :: "write_op \<Rightarrow> args \<Rightarrow> server \<Rightarrow> server \<times> api_result" where
  "set_acl_entry write a s = (s,
     bind_res (require_node a s) (\<lambda>n.
     bind_res (args_req_array a ''entry'') (\<lambda>entries.
     bind_res (collect_res acl_entry_to_tlv entries) (\<lambda>encoded.
       map_res (write_result 0 31 0) (write n 0 31 0 (NArray encoded) None)))))"

subsection \<open>Bindings\<close>

definition binding_member :: "json \<Rightarrow> u8 \<Rightarrow> string \<Rightarrow> api_error + (u8 \<times> tlv_node) list" where
  "binding_member binding tag name =
     (case jget binding name of
        None \<Rightarrow> Inr []
      | Some JNull \<Rightarrow> Inr []
      | Some (JNum number) \<Rightarrow> map_res (\<lambda>v. [(tag, NU64 v)])
          (ok_or (err_invalid_args (''Binding '' @ name @ '' must be an integer'')) (num_u64 number))
      | Some _ \<Rightarrow> Inl (err_invalid_args (''Binding '' @ name @ '' must be an integer'')))"

definition binding_to_tlv :: "json \<Rightarrow> api_error + tlv_node" where
  "binding_to_tlv binding =
     bind_res (binding_member binding 1 ''node'') (\<lambda>node.
     bind_res (binding_member binding 2 ''group'') (\<lambda>grp.
     bind_res (binding_member binding 3 ''endpoint'') (\<lambda>endpoint.
     bind_res (binding_member binding 4 ''cluster'') (\<lambda>cluster'.
       if (node \<noteq> []) = (grp \<noteq> [])
       then Inl (err_invalid_args ''Each binding must target either a node or a group'')
       else Inr (NStruct (sort_by_tag (node @ grp @ endpoint @ cluster')))))))"

definition set_node_binding :: "write_op \<Rightarrow> args \<Rightarrow> server \<Rightarrow> server \<times> api_result" where
  "set_node_binding write a s = (s,
     bind_res (require_node a s) (\<lambda>n.
     bind_res (args_req_u16 a ''endpoint'') (\<lambda>endpoint.
     bind_res (args_req_array a ''bindings'') (\<lambda>bindings.
     bind_res (collect_res binding_to_tlv bindings) (\<lambda>encoded.
       map_res (write_result endpoint 30 0) (write n endpoint 30 0 (NArray encoded) None))))))"

subsection \<open>Laws\<close>

lemma binding_member_ok:
  "binding_member b t name = Inr ms \<longleftrightarrow>
     (ms = [] \<and> (jget b name = None \<or> jget b name = Some JNull))
     \<or> (\<exists>v. ms = [(t, NU64 v)] \<and> jget b name = Some (ju64 v))"
  by (cases "jget b name")
     (auto simp: binding_member_def map_res_Inr ok_or_Inr ju64_def split: json.splits elim!: num_u64.elims)

lemma binding_ok:
  assumes "binding_to_tlv b = Inr node"
  obtains n g e c where "binding_member b 1 ''node'' = Inr n" "binding_member b 2 ''group'' = Inr g"
    "binding_member b 3 ''endpoint'' = Inr e" "binding_member b 4 ''cluster'' = Inr c"
    "(n = []) \<noteq> (g = [])" "node = NStruct (sort_by_tag (n @ g @ e @ c))"
  using assms unfolding binding_to_tlv_def bind_res_Inr by (auto split: if_splits)

lemma binding_members_sorted:
  assumes "binding_member b 1 ''node'' = Inr n" "binding_member b 2 ''group'' = Inr g"
    "binding_member b 3 ''endpoint'' = Inr e" "binding_member b 4 ''cluster'' = Inr c"
  shows "sort_by_tag (n @ g @ e @ c) = n @ g @ e @ c \<and> sorted_wrt (<) (map fst (n @ g @ e @ c))"
  using assms by (auto simp: binding_member_ok sort_by_tag_def)

subsection \<open>Properties\<close>

text \<open>A binding that is written names exactly one target: a node or a group and never both, each
  member carries the integer the client gave under its own tag, an absent member is left out,
  and the tags ascend.\<close>

theorem binding_names_one_target:
  assumes "binding_to_tlv b = Inr node"
  shows "\<exists>ms. node = NStruct ms \<and> sorted_wrt (<) (map fst ms) \<and> fst ` set ms \<subseteq> {1, 2, 3, 4}
    \<and> (1 \<in> fst ` set ms) \<noteq> (2 \<in> fst ` set ms)
    \<and> (\<forall>(t, v) \<in> set ms. \<exists>w. v = NU64 w
         \<and> jget b (if t = 1 then ''node'' else if t = 2 then ''group'' else if t = 3 then ''endpoint'' else ''cluster'')
             = Some (ju64 w))"
proof -
  obtain n g e c where m: "binding_member b 1 ''node'' = Inr n" "binding_member b 2 ''group'' = Inr g"
    "binding_member b 3 ''endpoint'' = Inr e" "binding_member b 4 ''cluster'' = Inr c"
    and one: "(n = []) \<noteq> (g = [])" and node: "node = NStruct (sort_by_tag (n @ g @ e @ c))"
    by (rule binding_ok [OF assms])
  have "n = [] \<or> (\<exists>v. n = [(1, NU64 v)] \<and> jget b ''node'' = Some (ju64 v))"
    "g = [] \<or> (\<exists>v. g = [(2, NU64 v)] \<and> jget b ''group'' = Some (ju64 v))"
    "e = [] \<or> (\<exists>v. e = [(3, NU64 v)] \<and> jget b ''endpoint'' = Some (ju64 v))"
    "c = [] \<or> (\<exists>v. c = [(4, NU64 v)] \<and> jget b ''cluster'' = Some (ju64 v))"
    using m by (auto simp: binding_member_ok)
  then show ?thesis
    using one binding_members_sorted [OF m] by (intro exI [of _ "n @ g @ e @ c"]) (auto simp: node)
qed

theorem binding_names_one_target_witness:
  "\<exists>ms. binding_to_tlv (jobj [(''node'', ju64 7), (''endpoint'', ju64 1)]) = Inr (NStruct ms)
     \<and> (1 \<in> fst ` set ms) \<noteq> (2 \<in> fst ` set ms)"
proof -
  have "binding_to_tlv (jobj [(''node'', ju64 7), (''endpoint'', ju64 1)]) = Inr (NStruct [(1, NU64 7), (3, NU64 1)])"
    by (simp add: binding_to_tlv_def binding_member_def jget_jobj ju64_def sort_by_tag_def)
  from binding_names_one_target [OF this] this show ?thesis by blast
qed

text \<open>A device that refuses the label is never taken for one that accepted it: the push succeeds
  exactly when the device answered and its answer carries no status or the status for success.\<close>

theorem label_refusal_detected:
  "push_fabric_label invoke n label = Inr () \<longleftrightarrow>
     (\<exists>r. invoke n 0 62 9 (NStruct [(0, NUtf8 label)]) None [] = Inr r
        \<and> (\<forall>status. opt_bind (jget r ''0'') as_u64 = Some status \<longrightarrow> status = 0))"
  by (auto simp: push_fabric_label_def noc_response_result_def noc_status_ok_def Let_def bind_res_Inr unwrap_or_def
      split: option.split if_splits option.splits)

text \<open>Nothing malformed reaches a device's access control list: the write happens only when every
  entry converts, and then carries one struct per entry, in order, with the privilege and mode
  given and every subject an integer of the request.\<close>

theorem acl_entry_faithful:
  assumes "acl_entry_to_tlv entry = Inr node"
  shows "\<exists>p m subjects targets. node = NStruct [(1, NU64 p), (2, NU64 m), (3, subjects), (4, targets)]
    \<and> jget entry ''privilege'' = Some (ju64 p) \<and> jget entry ''auth_mode'' = Some (ju64 m)
    \<and> (subjects = NNull \<or> (\<exists>ids. subjects = NArray (map NU64 ids) \<and> jget entry ''subjects'' = Some (JArr (map ju64 ids))))
    \<and> (targets = NNull \<or> (\<exists>items nodes. targets = NArray nodes \<and> jget entry ''targets'' = Some (JArr items)
         \<and> list_all2 (\<lambda>i t. acl_target_to_tlv i = Inr t) items nodes))"
proof -
  have list: "acl_list name item e = Inr t \<Longrightarrow> t = NNull \<or> (\<exists>items nodes. t = NArray nodes
      \<and> jget e name = Some (JArr items) \<and> list_all2 (\<lambda>i t. item i = Inr t) items nodes)" for name item e t
    by (auto simp: acl_list_def map_res_Inr dest!: collect_res_nth split: option.splits json.splits)
  have ids: "list_all2 (\<lambda>i t. acl_subject i = Inr t) items nodes
      \<Longrightarrow> \<exists>ids. nodes = map NU64 ids \<and> items = map ju64 ids" for items nodes
  proof (induction items nodes rule: list_all2_induct)
    case (Cons i items t ts)
    then obtain ids v where "ts = map NU64 ids" "items = map ju64 ids" "t = NU64 v" "i = ju64 v"
      by (auto simp: acl_subject_def map_res_Inr ok_or_Inr as_u64_Some ju64_def)
    then show ?case by (intro exI [of _ "v # ids"]) simp
  qed simp
  obtain p m subjects targets where
      "opt_bind (jget entry ''privilege'') as_u64 = Some p" "opt_bind (jget entry ''auth_mode'') as_u64 = Some m"
      and s: "acl_list ''subjects'' acl_subject entry = Inr subjects"
      and t: "acl_list ''targets'' acl_target_to_tlv entry = Inr targets"
      and node: "node = NStruct [(1, NU64 p), (2, NU64 m), (3, subjects), (4, targets)]"
    using assms unfolding acl_entry_to_tlv_def bind_res_Inr ok_or_Inr by auto
  then have "jget entry ''privilege'' = Some (ju64 p)" "jget entry ''auth_mode'' = Some (ju64 m)"
    by (auto simp: bind_eq_Some_conv as_u64_Some ju64_def)
  moreover have "subjects = NNull \<or> (\<exists>ids. subjects = NArray (map NU64 ids) \<and> jget entry ''subjects'' = Some (JArr (map ju64 ids)))"
    using list [OF s] ids by blast
  ultimately show ?thesis using list [OF t] node by simp
qed

theorem acl_entry_faithful_witness:
  "\<exists>node. acl_entry_to_tlv (jobj [(''privilege'', ju64 5), (''auth_mode'', ju64 2), (''subjects'', JArr [ju64 9])]) = Inr node
     \<and> (\<exists>p m sub tar. node = NStruct [(1, NU64 p), (2, NU64 m), (3, sub), (4, tar)])"
proof -
  have "acl_entry_to_tlv (jobj [(''privilege'', ju64 5), (''auth_mode'', ju64 2), (''subjects'', JArr [ju64 9])])
      = Inr (NStruct [(1, NU64 5), (2, NU64 2), (3, NArray [NU64 9]), (4, NNull)])"
    by (simp add: acl_entry_to_tlv_def acl_list_def acl_subject_def jget_jobj)
  from acl_entry_faithful [OF this] this show ?thesis by blast
qed

end
