(* ===== verification/Server_Info.thy ===== *)
theory Server_Info
  imports Fabrics
begin

section \<open>Server identity, log levels, credentials, the fabric label (\<open>api/server_info.rs\<close>)\<close>

text \<open>
  Arguments: \<open>asked\<close>, what the controller says of its fabric when it is not cached yet; \<open>io\<close>,
  whether the write of the configuration file reaches the disk; the Matter operations.
\<close>

subsection \<open>Log levels\<close>

definition log_levels :: "(string \<times> string) list" where
  "log_levels = [(''critical'', ''critical''), (''fatal'', ''critical''), (''error'', ''error''),
     (''warning'', ''warning''), (''warn'', ''warning''), (''notice'', ''notice''), (''info'', ''info''),
     (''debug'', ''debug'')]"

definition canonical_log_level :: "string \<Rightarrow> string option" where
  "canonical_log_level level = map_option snd (find (\<lambda>(alias, _). eq_ignore_ascii_case alias level) log_levels)"

datatype log_filter = FilterError | FilterWarn | FilterInfo | FilterDebug

definition level_filter :: "string \<Rightarrow> log_filter" where
  "level_filter level =
     (if level = ''critical'' \<or> level = ''error'' then FilterError
      else if level = ''warning'' then FilterWarn
      else if level = ''notice'' \<or> level = ''info'' then FilterInfo
      else if level = ''debug'' then FilterDebug
      else FilterInfo)"

definition get_loglevel :: "args \<Rightarrow> server \<Rightarrow> server \<times> api_result" where
  "get_loglevel a s = (s, Inr (jobj
     [(''console_loglevel'', JStr (srv_console_loglevel s)), (''file_loglevel'', jstr_opt (srv_file_loglevel s))]))"

definition change_level ::
  "string \<Rightarrow> (string \<Rightarrow> server \<Rightarrow> server) \<Rightarrow> args \<Rightarrow> server \<Rightarrow> server \<times> (api_error + unit)" where
  "change_level name set_level a s =
     (case args_str a name of
        Inl e \<Rightarrow> (s, Inl e)
      | Inr None \<Rightarrow> (s, Inr ())
      | Inr (Some level) \<Rightarrow>
          (case canonical_log_level level of
             None \<Rightarrow> (s, Inl (err_invalid_args (''Invalid log level '' @ quoted level)))
           | Some canonical \<Rightarrow> (set_level canonical s, Inr ())))"

definition set_loglevel :: "args \<Rightarrow> server \<Rightarrow> server \<times> api_result" where
  "set_loglevel a s =
     (case change_level ''console_loglevel'' set_console_loglevel a s of
        (s1, Inl e) \<Rightarrow> (s1, Inl e)
      | (s1, Inr _) \<Rightarrow>
          (case change_level ''file_loglevel'' set_file_loglevel a s1 of
             (s2, Inl e) \<Rightarrow> (s2, Inl e)
           | (s2, Inr _) \<Rightarrow> get_loglevel a s2))"

subsection \<open>Server information\<close>

record server_info_data =
  si_fabric_id :: u64
  si_compressed_fabric_id :: u64
  si_fabric_index :: "u8 option"
  si_schema_version :: nat
  si_min_supported_schema_version :: nat
  si_sdk_version :: string
  si_wifi_credentials_set :: bool
  si_wifi_ssid :: "string option"
  si_thread_credentials_set :: bool
  si_bluetooth_enabled :: bool
  si_ble_proxy_enabled :: "bool option"
  si_controller_node_id :: "u64 option"

definition server_info_to_value :: "server_info_data \<Rightarrow> json" where
  "server_info_to_value i =
     (let member = (\<lambda>name v. case v of None \<Rightarrow> [] | Some j \<Rightarrow> [(name, j)]) in
      jobj ([(''fabric_id'', ju64 (si_fabric_id i)), (''compressed_fabric_id'', ju64 (si_compressed_fabric_id i))]
          @ member ''fabric_index'' (map_option jword (si_fabric_index i))
          @ [(''schema_version'', juint (si_schema_version i)),
             (''min_supported_schema_version'', juint (si_min_supported_schema_version i)),
             (''sdk_version'', JStr (si_sdk_version i)), (''wifi_credentials_set'', JBool (si_wifi_credentials_set i))]
          @ member ''wifi_ssid'' (map_option JStr (si_wifi_ssid i))
          @ [(''thread_credentials_set'', JBool (si_thread_credentials_set i)),
             (''bluetooth_enabled'', JBool (si_bluetooth_enabled i))]
          @ member ''ble_proxy_enabled'' (map_option JBool (si_ble_proxy_enabled i))
          @ member ''controller_node_id'' (map_option ju64 (si_controller_node_id i))))"

definition build_server_info :: "api_error + fabric_info \<Rightarrow> server \<Rightarrow> server \<times> (api_error + server_info_data)" where
  "build_server_info asked s =
     (let (s1, r) = fabric_info_of asked s; d = cs_data (srv_config s1); rt = srv_runtime s1 in
      (s1, map_res (\<lambda>fabric.
         \<lparr>si_fabric_id = fi_fabric_id fabric, si_compressed_fabric_id = fi_compressed_fabric_id fabric,
          si_fabric_index = Some (fi_fabric_index fabric), si_schema_version = schema_version,
          si_min_supported_schema_version = min_supported_schema_version, si_sdk_version = ri_sdk_version rt,
          si_wifi_credentials_set = wifi_credentials_set d, si_wifi_ssid = default_wifi_ssid d,
          si_thread_credentials_set = thread_credentials_set d, si_bluetooth_enabled = ri_bluetooth_enabled rt,
          si_ble_proxy_enabled = Some (ri_ble_proxy_enabled rt), si_controller_node_id = Some (fi_node_id fabric)\<rparr>) r))"

definition broadcast_server_info :: "api_error + fabric_info \<Rightarrow> server \<Rightarrow> server" where
  "broadcast_server_info asked s =
     (case build_server_info asked s of
        (s1, Inr info) \<Rightarrow> publish (ev_server_info_updated (server_info_to_value info)) s1
      | (s1, Inl e) \<Rightarrow> s1)"

definition server_info :: "api_error + fabric_info \<Rightarrow> args \<Rightarrow> server \<Rightarrow> server \<times> api_result" where
  "server_info asked a s = (let (s1, r) = build_server_info asked s in (s1, map_res server_info_to_value r))"

definition diagnostics :: "api_error + fabric_info \<Rightarrow> args \<Rightarrow> server \<Rightarrow> server \<times> api_result" where
  "diagnostics asked a s =
     (let (s1, r) = build_server_info asked s in
      (s1, bind_res r (\<lambda>info. map_res (\<lambda>only. jobj
         [(''info'', server_info_to_value info), (''nodes'', nodes_value (ns_all_filtered (srv_nodes s1) only)),
          (''events'', JArr (map node_event_to_value (srv_history s1)))])
         (args_bool_or a ''only_available'' False))))"

subsection \<open>Credentials\<close>

text \<open>A change of the configuration, told to the clients once it is stored.\<close>

definition change_config ::
  "api_error + fabric_info \<Rightarrow> (string \<Rightarrow> api_error) \<Rightarrow> (config_store \<Rightarrow> config_store \<times> (string + unit))
   \<Rightarrow> server \<Rightarrow> server \<times> api_result" where
  "change_config asked fail f s =
     (let (config, r) = f (srv_config s); s1 = s\<lparr>srv_config := config\<rparr> in
      case r of
        Inl e \<Rightarrow> (s1, Inl (fail e))
      | Inr _ \<Rightarrow> (broadcast_server_info asked s1, Inr (JObj [])))"

definition removal_failed :: "string \<Rightarrow> api_error" where
  "removal_failed e = err_sdk (''Failed to persist the credential removal: '' @ e)"

definition handle_set_wifi_credentials :: "api_error + fabric_info \<Rightarrow> bool \<Rightarrow> args \<Rightarrow> server \<Rightarrow> server \<times> api_result" where
  "handle_set_wifi_credentials asked io a s =
     (case bind_res (args_req_str a ''ssid'') (\<lambda>ssid. bind_res (args_str a ''credentials'') (\<lambda>c.
             bind_res (args_str a ''password'') (\<lambda>p. map_res (\<lambda>i. (ssid, opt_or c p, i)) (args_str a ''id'')))) of
        Inl e \<Rightarrow> (s, Inl e)
      | Inr (ssid, credentials, i) \<Rightarrow> change_config asked err_invalid_args (set_wifi_credentials io i ssid credentials) s)"

definition handle_set_thread_dataset :: "api_error + fabric_info \<Rightarrow> bool \<Rightarrow> args \<Rightarrow> server \<Rightarrow> server \<times> api_result" where
  "handle_set_thread_dataset asked io a s =
     (case bind_res (args_req_str a ''dataset'') (\<lambda>dataset.
             if \<not> is_valid_hex dataset then Inl (err_invalid_args (''Invalid Thread operational dataset: must be a ''
                 @ ''non-empty hex string with even length (each byte is two hex characters)''))
             else map_res (Pair dataset) (args_str a ''id'')) of
        Inl e \<Rightarrow> (s, Inl e)
      | Inr (dataset, i) \<Rightarrow> change_config asked err_invalid_args (set_thread_dataset io i dataset) s)"

definition handle_remove_wifi_credentials :: "api_error + fabric_info \<Rightarrow> bool \<Rightarrow> args \<Rightarrow> server \<Rightarrow> server \<times> api_result" where
  "handle_remove_wifi_credentials asked io a s =
     (case args_str a ''id'' of
        Inl e \<Rightarrow> (s, Inl e)
      | Inr i \<Rightarrow> change_config asked removal_failed (remove_wifi_credentials io i) s)"

definition handle_remove_thread_dataset :: "api_error + fabric_info \<Rightarrow> bool \<Rightarrow> args \<Rightarrow> server \<Rightarrow> server \<times> api_result" where
  "handle_remove_thread_dataset asked io a s =
     (case args_str a ''id'' of
        Inl e \<Rightarrow> (s, Inl e)
      | Inr i \<Rightarrow> change_config asked removal_failed (remove_thread_dataset io i) s)"

definition summaries_to_value :: "credential_summaries \<Rightarrow> json" where
  "summaries_to_value m =
     (let member = (\<lambda>name v. case v of None \<Rightarrow> [] | Some x \<Rightarrow> [(name, JStr x)]) in
      jobj [(''wifi'', JArr (map (\<lambda>w. jobj [(''id'', JStr (ws_id w)), (''ssid'', JStr (ws_ssid w))]) (sm_wifi m))),
            (''thread'', JArr (map (\<lambda>t. jobj ([(''id'', JStr (ts_id t))] @ member ''networkName'' (ts_network_name t)
                @ member ''extPanId'' (ts_ext_pan_id t))) (sm_thread m)))])"

definition get_all_credentials :: "args \<Rightarrow> server \<Rightarrow> server \<times> api_result" where
  "get_all_credentials a s = (s, Inr (summaries_to_value (summaries (cs_data (srv_config s)))))"

subsection \<open>The fabric label\<close>

text \<open>The nodes told of a new label; whether each takes it is only logged.\<close>

definition label_targets :: "server \<Rightarrow> u64 list" where
  "label_targets s = map nd_node_id (filter (\<lambda>d. \<not> is_test_node d) (ns_all_filtered (srv_nodes s) True))"

definition label_pushes :: "invoke_op \<Rightarrow> string \<Rightarrow> server \<Rightarrow> (u64 \<times> (api_error + unit)) list" where
  "label_pushes invoke label s = map (\<lambda>n. (n, push_fabric_label invoke n label)) (label_targets s)"

text \<open>\<open>put\<close> is the controller's own fabric table taking the label; \<open>c\<close> is the connection.\<close>

definition store_label :: "api_error + fabric_info \<Rightarrow> bool \<Rightarrow> string \<Rightarrow> server \<Rightarrow> server \<times> api_result" where
  "store_label asked io label s =
     (let (config, r) = set_fabric_label io label (srv_config s); s1 = s\<lparr>srv_config := config\<rparr> in
      case r of
        Inl e \<Rightarrow> (s1, Inl (err_sdk (''Failed to persist the fabric label: '' @ e)))
      | Inr _ \<Rightarrow> (broadcast_server_info asked (update_cached_fabric_label label s1), Inr JNull))"

definition set_default_fabric_label ::
  "api_error + fabric_info \<Rightarrow> (string \<Rightarrow> api_error + unit) \<Rightarrow> bool \<Rightarrow> u64 \<Rightarrow> args \<Rightarrow> server \<Rightarrow> server \<times> api_result" where
  "set_default_fabric_label asked put io c a s =
     (case map_res normalize_fabric_label (args_str a ''label'') of
        Inl e \<Rightarrow> (s, Inl e)
      | Inr label \<Rightarrow>
          if ri_pinned_fabric_label (srv_runtime s) \<noteq> None then (s, Inr JNull)
          else (let (s1, owner) = claim_fabric_label c s in
            if \<not> owner then (s1, Inr JNull)
            else (case put label of Inl e \<Rightarrow> (s1, Inl e) | Inr _ \<Rightarrow> store_label asked io label s1)))"

definition get_fabric_label :: "args \<Rightarrow> server \<Rightarrow> server \<times> api_result" where
  "get_fabric_label a s = (s, Inr (jobj [(''fabric_label'', JStr
     (case ri_pinned_fabric_label (srv_runtime s) of
        Some pinned \<Rightarrow> pinned
      | None \<Rightarrow> cd_fabric_label (cs_data (srv_config s))))]))"

subsection \<open>Laws\<close>

lemma fabric_info_of_cached: "srv_fabric s = Some f \<Longrightarrow> fabric_info_of asked s = (s, Inr f)"
  by (simp add: fabric_info_of_def)

lemma fabric_info_of_frame:
  "srv_published (fst (fabric_info_of asked s)) = srv_published s"
  "srv_config (fst (fabric_info_of asked s)) = srv_config s"
  "srv_runtime (fst (fabric_info_of asked s)) = srv_runtime s"
  "srv_nodes (fst (fabric_info_of asked s)) = srv_nodes s"
  by (auto simp: fabric_info_of_def split: option.split sum.split)

lemma broadcast_frame:
  "srv_config (broadcast_server_info asked s) = srv_config s"
  "srv_nodes (broadcast_server_info asked s) = srv_nodes s"
  using fabric_info_of_frame [of asked s]
  by (auto simp: broadcast_server_info_def build_server_info_def Let_def publish_def split: prod.splits sum.splits)

lemma claim_frame: "srv_config (fst (claim_fabric_label c s)) = srv_config s"
  "srv_published (fst (claim_fabric_label c s)) = srv_published s"
  "srv_fabric (fst (claim_fabric_label c s)) = srv_fabric s"
  "srv_runtime (fst (claim_fabric_label c s)) = srv_runtime s"
  by (simp_all add: claim_fabric_label_def)

lemma broadcast_known:
  assumes "srv_fabric s = Some f"
  shows "\<exists>i. broadcast_server_info asked s = publish (ev_server_info_updated (server_info_to_value i)) s
    \<and> si_fabric_id i = fi_fabric_id f \<and> si_wifi_ssid i = default_wifi_ssid (cs_data (srv_config s))
    \<and> si_wifi_credentials_set i = wifi_credentials_set (cs_data (srv_config s))
    \<and> si_thread_credentials_set i = thread_credentials_set (cs_data (srv_config s))"
  unfolding broadcast_server_info_def build_server_info_def fabric_info_of_cached [OF assms] Let_def prod.case sum.case map_res.simps
  by (rule exI, intro conjI, rule refl) simp_all

lemma default_wifi_set:
  assumes "set_wifi_data None ssid c d = Inr d'"
  shows "default_wifi_ssid d' = Some ssid \<and> wifi_credentials_set d'"
proof -
  have "validate_credential_id default_credential_id = Inr default_credential_id"
    by code_simp
  then show ?thesis using assms
    by (auto simp: set_wifi_data_def effective_id_def Let_def res_simps default_wifi_ssid_def wifi_credentials_set_def)
qed

lemma save_data: "cs_data (fst (config_save io cs)) = cs_data cs"
  by (simp add: config_save_def split: option.split)

lemma wifi_stored_announced:
  assumes "srv_fabric s = Some f"
    and "change_config asked err_invalid_args (set_wifi_credentials io None ssid creds) s = (s', r)"
  shows "case r of
     Inl e \<Rightarrow> srv_published s' = srv_published s
   | Inr v \<Rightarrow> (\<exists>i. srv_published s' = srv_published s @ [ev_server_info_updated (server_info_to_value i)]
        \<and> si_wifi_ssid i = Some ssid \<and> si_wifi_credentials_set i
        \<and> default_wifi_ssid (cs_data (srv_config s')) = Some ssid)"
proof (cases "set_wifi_data None ssid creds (cs_data (srv_config s))")
  case (Inl e)
  then show ?thesis using assms(2) by (auto simp: change_config_def set_wifi_credentials_def)
next
  case (Inr d)
  obtain config w where w: "config_save io ((srv_config s)\<lparr>cs_data := d\<rparr>) = (config, w)"
    by (cases "config_save io ((srv_config s)\<lparr>cs_data := d\<rparr>)")
  have data: "cs_data config = d" using save_data [of io "(srv_config s)\<lparr>cs_data := d\<rparr>"] w by simp
  let ?s1 = "s\<lparr>srv_config := config\<rparr>"
  show ?thesis
  proof (cases w)
    case (Inr u)
    then have s': "s' = broadcast_server_info asked ?s1" "r = Inr (JObj [])"
      using assms(2) \<open>set_wifi_data None ssid creds (cs_data (srv_config s)) = Inr d\<close> w
      by (auto simp: change_config_def set_wifi_credentials_def)
    obtain i where "broadcast_server_info asked ?s1 = publish (ev_server_info_updated (server_info_to_value i)) ?s1"
      "si_wifi_ssid i = default_wifi_ssid d" "si_wifi_credentials_set i = wifi_credentials_set d"
      using broadcast_known [of ?s1 f asked] assms(1) data by auto
    then show ?thesis
      using s' default_wifi_set [OF \<open>set_wifi_data None ssid creds (cs_data (srv_config s)) = Inr d\<close>] broadcast_frame [of asked ?s1] data by auto
  qed (use assms(2) \<open>set_wifi_data None ssid creds (cs_data (srv_config s)) = Inr d\<close> w in
      \<open>auto simp: change_config_def set_wifi_credentials_def\<close>)
qed

lemma store_label_outcome:
  assumes "srv_fabric s = Some f" and "store_label asked io label s = (s', r)"
  shows "cd_fabric_label (cs_data (srv_config s')) = normalize_fabric_label (Some label)
    \<and> (r = Inr JNull \<longleftrightarrow> io \<or> cs_path (srv_config s) = None)
    \<and> length (srv_published s') = length (srv_published s) + (if r = Inr JNull then 1 else 0)
    \<and> srv_fabric s' = Some (if r = Inr JNull then f\<lparr>fi_label := label\<rparr> else f)"
proof -
  obtain config w where w: "set_fabric_label io label (srv_config s) = (config, w)"
    by (cases "set_fabric_label io label (srv_config s)")
  have data: "cd_fabric_label (cs_data config) = normalize_fabric_label (Some label)"
    using mutate_cases [OF w [unfolded set_fabric_label_def Let_def]] by simp
  have ok: "(\<exists>x. w = Inr x) \<longleftrightarrow> io \<or> cs_path (srv_config s) = None"
    using w by (auto simp: set_fabric_label_def config_mutate_def config_save_def Let_def split: option.splits if_splits)
  show ?thesis
  proof (cases w)
    case (Inl e)
    then show ?thesis using assms w ok data by (auto simp: store_label_def Let_def)
  next
    case (Inr x)
    let ?s2 = "update_cached_fabric_label label (s\<lparr>srv_config := config\<rparr>)"
    have f2: "srv_fabric ?s2 = Some (f\<lparr>fi_label := label\<rparr>)" by (simp add: update_cached_fabric_label_def assms(1))
    from broadcast_known [OF f2, of asked] obtain i where
      b: "broadcast_server_info asked ?s2 = publish (ev_server_info_updated (server_info_to_value i)) ?s2" by auto
    have run: "s' = broadcast_server_info asked ?s2" "r = Inr JNull"
      using assms(2) Inr w by (simp_all add: store_label_def Let_def)
    have "srv_config s' = config" "length (srv_published s') = length (srv_published s) + 1"
      "srv_fabric s' = Some (f\<lparr>fi_label := label\<rparr>)"
      using f2 unfolding run(1) b by (simp_all add: publish_def) (simp_all add: update_cached_fabric_label_def)
    then show ?thesis using run(2) ok data Inr by simp
  qed
qed

subsection \<open>Properties\<close>

text \<open>A stored default network is what clients are told: a successful change is announced in exactly one
  event, the last, whose server information carries the network just stored; a refused or
  unwritten one announces nothing.\<close>

theorem credential_change_announced:
  assumes "srv_fabric s = Some f" and "args_str a ''id'' = Inr None"
    and "handle_set_wifi_credentials asked io a s = (s', r)"
  shows "case r of
     Inl e \<Rightarrow> srv_published s' = srv_published s
   | Inr v \<Rightarrow> (\<exists>ssid i. args_req_str a ''ssid'' = Inr ssid
        \<and> srv_published s' = srv_published s @ [ev_server_info_updated (server_info_to_value i)]
        \<and> si_wifi_ssid i = Some ssid \<and> si_wifi_credentials_set i
        \<and> default_wifi_ssid (cs_data (srv_config s')) = Some ssid)"
proof -
  have "(\<exists>e. r = Inl e \<and> s' = s) \<or> (\<exists>ssid creds. args_req_str a ''ssid'' = Inr ssid
      \<and> change_config asked err_invalid_args (set_wifi_credentials io None ssid creds) s = (s', r))"
    using assms(2,3) by (auto simp: handle_set_wifi_credentials_def bind_res_Inl bind_res_Inr map_res_Inl map_res_Inr
        split: sum.splits)
  then show ?thesis
    using wifi_stored_announced [OF assms(1)] by (cases r) fastforce+
qed

text \<open>Setting the label has four outcomes and no other: refused arguments change nothing; a pinned label and
  a connection that does not own it change nothing and succeed; a controller that refuses leaves
  configuration and clients alone; otherwise the label is stored and cached, and one event told.\<close>

theorem label_change_outcomes:
  assumes "srv_fabric s = Some f" and "set_default_fabric_label asked put io c a s = (s', r)"
  shows "case args_str a ''label'' of
     Inl e \<Rightarrow> s' = s \<and> r = Inl e
   | Inr requested \<Rightarrow> (let label = normalize_fabric_label requested in
       if ri_pinned_fabric_label (srv_runtime s) \<noteq> None then s' = s \<and> r = Inr JNull
       else if \<not> (srv_label_owner s = 0 \<or> srv_label_owner s = c) then s' = s \<and> r = Inr JNull
       else (case put label of
           Inl e \<Rightarrow> srv_config s' = srv_config s \<and> srv_published s' = srv_published s \<and> r = Inl e
         | Inr u \<Rightarrow> cd_fabric_label (cs_data (srv_config s')) = normalize_fabric_label (Some label)
             \<and> (r = Inr JNull \<longleftrightarrow> io \<or> cs_path (srv_config s) = None)
             \<and> length (srv_published s') = length (srv_published s) + (if r = Inr JNull then 1 else 0)
             \<and> srv_fabric s' = Some (if r = Inr JNull then f\<lparr>fi_label := label\<rparr> else f)))"
proof (cases "args_str a ''label''")
  case (Inr requested)
  show ?thesis
  proof (cases "ri_pinned_fabric_label (srv_runtime s) \<noteq> None \<or> \<not> snd (claim_fabric_label c s)")
    case True
    then show ?thesis using assms Inr
      by (auto simp: set_default_fabric_label_def claim_fabric_label_def Let_def split: if_splits prod.splits)
  next
    case False
    then obtain s1 where claim: "claim_fabric_label c s = (s1, True)" by (cases "claim_fabric_label c s") auto
    have own: "srv_label_owner s = 0 \<or> srv_label_owner s = c"
      using claim by (auto simp: claim_fabric_label_def split: if_splits)
    have s1: "srv_config s1 = srv_config s" "srv_published s1 = srv_published s" "srv_fabric s1 = Some f"
      using claim_frame [of c s] claim assms(1) by simp_all
    show ?thesis
    proof (cases "put (normalize_fabric_label requested)")
      case (Inl e)
      then show ?thesis using assms(2) \<open>args_str a ''label'' = Inr requested\<close> claim False own s1
        by (auto simp: set_default_fabric_label_def Let_def)
    next
      case put: (Inr u)
      have "store_label asked io (normalize_fabric_label requested) s1 = (s', r)"
        using assms(2) \<open>args_str a ''label'' = Inr requested\<close> claim False put
        by (simp add: set_default_fabric_label_def store_label_def Let_def)
      from store_label_outcome [OF s1(3) this] show ?thesis
        using \<open>args_str a ''label'' = Inr requested\<close> False own put s1 by (simp add: Let_def)
    qed
  qed
qed (use assms in \<open>simp add: set_default_fabric_label_def\<close>)

theorem label_change_outcomes_witness:
  "\<exists>s s'. set_default_fabric_label (Inl (err_sdk [])) (\<lambda>_. Inr ()) True 4 (jobj [(''label'', JStr ''Attic'')]) s = (s', Inr JNull)
     \<and> length (srv_published s') = length (srv_published s) + 1"
proof -
  let ?f = "\<lparr>fi_fabric_id = 1, fi_compressed_fabric_id = 2, fi_fabric_index = 1, fi_node_id = 112233, fi_vendor_id = 0xFFF1,
      fi_label = ''Home''\<rparr>"
  let ?s = "set_fabric_info ?f (server_new [] config_in_memory (runtime_default []) [])"
  let ?a = "jobj [(''label'', JStr ''Attic'')]"
  obtain s' r where run: "set_default_fabric_label (Inl (err_sdk [])) (\<lambda>_. Inr ()) True 4 ?a ?s = (s', r)" by fastforce
  have f: "srv_fabric ?s = Some ?f" by (simp add: set_fabric_info_def)
  have "args_str ?a ''label'' = Inr (Some ''Attic'')"
    by (simp add: args_str_def args_get_def jget_jobj)
  then have "r = Inr JNull \<and> length (srv_published s') = length (srv_published ?s) + 1"
    using label_change_outcomes [OF f run] by (simp add: Let_def set_fabric_info_def server_new_def runtime_default_def)
  then show ?thesis using run by blast
qed

theorem credential_change_announced_witness:
  "\<exists>s s' i. handle_set_wifi_credentials (Inl (err_sdk [])) True
        (jobj [(''ssid'', JStr ''n''), (''credentials'', JStr ''p'')]) s = (s', Inr (JObj []))
     \<and> srv_published s' = srv_published s @ [ev_server_info_updated (server_info_to_value i)] \<and> si_wifi_ssid i = Some ''n''"
proof -
  let ?f = "\<lparr>fi_fabric_id = 1, fi_compressed_fabric_id = 2, fi_fabric_index = 1, fi_node_id = 112233, fi_vendor_id = 0xFFF1,
      fi_label = ''Home''\<rparr>"
  let ?s = "set_fabric_info ?f (server_new [] config_in_memory (runtime_default []) [])"
  let ?a = "jobj [(''ssid'', JStr ''n''), (''credentials'', JStr ''p'')]"
  obtain s' r where run: "handle_set_wifi_credentials (Inl (err_sdk [])) True ?a ?s = (s', r)" by fastforce
  have f: "srv_fabric ?s = Some ?f" by (simp add: set_fabric_info_def)
  have args: "args_str ?a ''id'' = Inr None" "args_str ?a ''ssid'' = Inr (Some ''n'')" "args_str ?a ''password'' = Inr None"
    "args_str ?a ''credentials'' = Inr (Some ''p'')"
    by (simp_all add: args_str_def args_get_def jget_jobj)
  have "validate_credential_id default_credential_id = Inr default_credential_id" by code_simp
  then have "r = Inr (JObj [])"
    using run by (simp add: handle_set_wifi_credentials_def args_req_str_def required_def args change_config_def
        set_wifi_credentials_def set_wifi_data_def effective_id_def require_or_keep_secret_def set_fabric_info_def
        server_new_def config_in_memory_def config_save_def Let_def)
  moreover obtain ssid i where "args_req_str ?a ''ssid'' = Inr ssid"
     "srv_published s' = srv_published ?s @ [ev_server_info_updated (server_info_to_value i)]" "si_wifi_ssid i = Some ssid"
    using credential_change_announced [OF f args(1) run] \<open>r = Inr (JObj [])\<close> by auto
  moreover have "ssid = ''n''"
    using \<open>args_req_str ?a ''ssid'' = Inr ssid\<close> by (simp add: args_req_str_def required_def args)
  ultimately show ?thesis using run by blast
qed

text \<open>The label stored is normalized once more than the one the fabric and the devices are given; cutting
  at 32 characters can leave a space at the end, which the second pass removes.\<close>

theorem stored_label_can_differ:
  "\<exists>x. normalize_fabric_label (Some (normalize_fabric_label (Some x))) \<noteq> normalize_fabric_label (Some x)"
proof -
  have "normalize_fabric_label (Some (normalize_fabric_label (Some ''0123456789012345678901234567890 x'')))
      \<noteq> normalize_fabric_label (Some ''0123456789012345678901234567890 x'')"
    by code_simp
  then show ?thesis by blast
qed

text \<open>The console level changes even when the request as a whole is refused.\<close>

theorem loglevel_half_applied:
  "\<exists>s' e. set_loglevel (jobj [(''console_loglevel'', JStr ''debug''), (''file_loglevel'', JStr ''loud'')])
        (server_new [] config_in_memory (runtime_default []) ''info'') = (s', Inl e)
     \<and> srv_console_loglevel s' = ''debug''"
proof -
  have c: "canonical_log_level ''debug'' = Some ''debug''" "canonical_log_level ''loud'' = None" by code_simp+
  show ?thesis
    by (simp add: set_loglevel_def change_level_def args_str_def args_get_def jget_jobj c set_console_loglevel_def)
qed

end
