(* ===== verification/Icd.thy ===== *)
theory Icd
  imports Server_Info
begin

unbundle bit_operations_syntax

section \<open>Intermittently connected devices (\<open>api/icd.rs\<close>, \<open>matter/checkin.rs\<close>)\<close>

text \<open>
  Registering as a check-in client, what a device's ICD cluster says, and the check-ins it then
  sends. Times are nanoseconds since the epoch. The key generator's output, the clock, base64
  and the check-in codec (which reads a message with a key, or does not) are arguments. A
  handler that adds a device's idle time to a time beyond the clock's range panics: the
  outcome \<open>None\<close> of the functions that read the state.
\<close>

subsection \<open>The state of a device\<close>

datatype icd_operating_mode = Sit | Lit

record icd_state =
  is_supported :: bool
  is_lit_supported :: bool
  is_registered :: bool
  is_operating_mode :: "icd_operating_mode option"
  is_awake :: "bool option"
  is_available :: "bool option"
  is_next_expected_checkin :: "u64 option"

definition icd_unsupported :: icd_state where
  "icd_unsupported = \<lparr>is_supported = False, is_lit_supported = False, is_registered = False,
     is_operating_mode = None, is_awake = None, is_available = None, is_next_expected_checkin = None\<rparr>"

definition icd_state_to_value :: "icd_state \<Rightarrow> json" where
  "icd_state_to_value i = jobj
     [(''supported'', JBool (is_supported i)), (''lit_supported'', JBool (is_lit_supported i)),
      (''registered'', JBool (is_registered i)),
      (''operating_mode'', jopt (map_option (\<lambda>m. JStr (case m of Sit \<Rightarrow> ''SIT'' | Lit \<Rightarrow> ''LIT'')) (is_operating_mode i))),
      (''awake'', jopt (map_option JBool (is_awake i))), (''available'', jopt (map_option JBool (is_available i))),
      (''next_expected_checkin'', jopt (map_option ju64 (is_next_expected_checkin i)))]"

definition icd_awake :: "nat \<Rightarrow> nat option \<Rightarrow> u64 option \<Rightarrow> bool option" where
  "icd_awake now seen active_ms =
     opt_bind seen (\<lambda>t. if now < t then None
       else map_option (\<lambda>ms. now - t < unat ms * 10 ^ 6) active_ms)"

text \<open>\<open>SystemTime + Duration\<close> panics when the seconds leave 63 bits.\<close>

definition next_expected_checkin :: "nat option \<Rightarrow> u64 option \<Rightarrow> u64 option option" where
  "next_expected_checkin seen idle_secs =
     (case (seen, idle_secs) of
        (Some t, Some idle) \<Rightarrow>
          (if t div 10 ^ 9 + unat idle \<ge> 2 ^ 63 then None
           else Some (Some (of_nat ((t + unat idle * 10 ^ 9) div 10 ^ 6))))
      | _ \<Rightarrow> Some None)"

definition icd_attribute :: "attributes_data \<Rightarrow> u32 \<Rightarrow> json option" where
  "icd_attribute attrs i = bt_get attrs (format_path 0 70 i)"

definition icd_mode :: "u64 option \<Rightarrow> icd_operating_mode option" where
  "icd_mode v = (if v = Some 0 then Some Sit else if v = Some 1 then Some Lit else None)"

definition icd_registered :: "u64 option \<Rightarrow> attributes_data \<Rightarrow> bool" where
  "icd_registered controller attrs =
     unwrap_or (map_option (list_ex (\<lambda>client. opt_bind (jget client ''1'') as_u64 = controller))
       (opt_bind (icd_attribute attrs 3) as_array)) False"

definition read_icd_state ::
  "read_op \<Rightarrow> api_error + fabric_info \<Rightarrow> nat \<Rightarrow> u64 \<Rightarrow> server \<Rightarrow> server \<times> (api_error + icd_state) option" where
  "read_icd_state read asked now n s =
     (case parse_path ''0/70/*'' of
        Inl e \<Rightarrow> (s, Some (Inl e))
      | Inr path \<Rightarrow>
          (case read n [path] False of
             Inl _ \<Rightarrow> (s, Some (Inr icd_unsupported))
           | Inr attrs \<Rightarrow>
               if attrs = [] then (s, Some (Inr icd_unsupported))
               else (let (s1, fabric) = fabric_info_of asked s;
                   controller = res_ok (map_res fi_node_id fabric);
                   number = (\<lambda>i. opt_bind (icd_attribute attrs i) as_u64);
                   feature_map = unwrap_or (number 65532) 0;
                   seen = last_check_in n s1
                 in (s1, map_option (\<lambda>due. Inr
                   \<lparr>is_supported = True, is_lit_supported = (feature_map AND 4 \<noteq> 0),
                    is_registered = icd_registered controller attrs, is_operating_mode = icd_mode (number 8),
                    is_awake = icd_awake now seen (number 1),
                    is_available = map_option nd_available (ns_get (srv_nodes s1) n),
                    is_next_expected_checkin = due\<rparr>)
                   (next_expected_checkin seen (number 0))))))"

text \<open>The answer a handler gives after reading the state.\<close>

definition report_icd_state :: "server \<times> (api_error + icd_state) option \<Rightarrow> server \<times> api_result option" where
  "report_icd_state r = map_prod id (map_option (map_res icd_state_to_value)) r"

definition get_icd_state ::
  "read_op \<Rightarrow> api_error + fabric_info \<Rightarrow> nat \<Rightarrow> args \<Rightarrow> server \<Rightarrow> server \<times> api_result option" where
  "get_icd_state read asked now a s =
     (case require_node a s of
        Inl e \<Rightarrow> (s, Some (Inl e))
      | Inr n \<Rightarrow> report_icd_state (read_icd_state read asked now n s))"

subsection \<open>Registration\<close>

definition icd_key_len :: nat where "icd_key_len = 16"

definition other_vendor_admins ::
  "read_op \<Rightarrow> api_error + fabric_info \<Rightarrow> u64 \<Rightarrow> u64 list \<Rightarrow> server \<Rightarrow> server \<times> (api_error + u16 list)" where
  "other_vendor_admins read asked n ignored s =
     (let (s1, fabric) = fabric_info_of asked s in
      (s1, bind_res fabric (\<lambda>f. bind_res (parse_path fabrics_path) (\<lambda>path. map_res (\<lambda>attrs.
         case opt_bind (bt_get attrs fabrics_path) as_array of
           None \<Rightarrow> []
         | Some entries \<Rightarrow> dedup_sorted (map ucast
             (filter (\<lambda>v. v \<noteq> ucast (fi_vendor_id f) \<and> v \<notin> set ignored)
               (filter_map (\<lambda>entry. opt_bind (jget entry ''2'') as_u64) entries))))
         (read n [path] False)))))"

definition icd_consent ::
  "read_op \<Rightarrow> api_error + fabric_info \<Rightarrow> bool \<Rightarrow> u64 list \<Rightarrow> u64 \<Rightarrow> server \<Rightarrow> server \<times> (api_error + unit)" where
  "icd_consent read asked allow ignored n s =
     (if allow then (s, Inr ())
      else map_prod id (\<lambda>r. bind_res r (\<lambda>others. if others = [] then Inr () else Inl (err_icd_multi_admin others)))
             (other_vendor_admins read asked n ignored s))"

definition register_icd ::
  "read_op \<Rightarrow> invoke_op \<Rightarrow> api_error + fabric_info \<Rightarrow> (bytes \<Rightarrow> string) \<Rightarrow> bytes \<Rightarrow> bool \<Rightarrow> nat \<Rightarrow> args \<Rightarrow> server
   \<Rightarrow> server \<times> api_result option" where
  "register_icd read invoke asked enc key io now a s =
     (case bind_res (require_node a s) (\<lambda>n. bind_res (args_bool_or a ''allow_multi_admin'' False) (\<lambda>allow.
             map_res (\<lambda>ignored. (n, allow, unwrap_or ignored [])) (args_u64_array a ''ignored_vendors''))) of
        Inl e \<Rightarrow> (s, Some (Inl e))
      | Inr (n, allow, ignored) \<Rightarrow>
          (case icd_consent read asked allow ignored n s of
             (s1, Inl e) \<Rightarrow> (s1, Some (Inl e))
           | (s1, Inr _) \<Rightarrow>
               (case fabric_info_of asked s1 of
                  (s2, Inl e) \<Rightarrow> (s2, Some (Inl e))
                | (s2, Inr f) \<Rightarrow>
                    (case invoke n 0 70 0 (NStruct [(0, NU64 (fi_node_id f)), (1, NU64 (fi_node_id f)), (2, NBytes key)])
                            None [] of
                       Inl e \<Rightarrow> (s2, Some (Inl e))
                     | Inr _ \<Rightarrow>
                         (let s3 = s2\<lparr>srv_config := fst (set_icd_registration enc io n key (srv_config s2))\<rparr>
                          in report_icd_state (read_icd_state read asked now n s3))))))"

definition forced_state :: "u64 \<Rightarrow> server \<Rightarrow> icd_state" where
  "forced_state n s = icd_unsupported\<lparr>is_supported := True, is_available := map_option nd_available (ns_get (srv_nodes s) n)\<rparr>"

definition unregister_icd ::
  "read_op \<Rightarrow> invoke_op \<Rightarrow> api_error + fabric_info \<Rightarrow> bool \<Rightarrow> nat \<Rightarrow> args \<Rightarrow> server \<Rightarrow> server \<times> api_result option" where
  "unregister_icd read invoke asked io now a s =
     (case bind_res (require_node a s) (\<lambda>n. map_res (Pair n) (args_bool_or a ''force'' False)) of
        Inl e \<Rightarrow> (s, Some (Inl e))
      | Inr (n, force) \<Rightarrow>
          (case fabric_info_of asked s of
             (s1, Inl e) \<Rightarrow> (s1, Some (Inl e))
           | (s1, Inr f) \<Rightarrow>
               (let s2 = s1\<lparr>srv_config := fst (remove_icd_registration io n (srv_config s1))\<rparr> in
                if \<not> force then
                  (case invoke n 0 70 2 (NStruct [(0, NU64 (fi_node_id f))]) None [] of
                     Inl e \<Rightarrow> (s2, Some (Inl e))
                   | Inr _ \<Rightarrow> report_icd_state (read_icd_state read asked now n s2))
                else (s2, Some (Inr (icd_state_to_value (forced_state n s2)))))))"

text \<open>The invoke and the ping of a resync are best effort: their outcome is dropped.\<close>

definition resync_icd :: "api_error + fabric_info \<Rightarrow> args \<Rightarrow> server \<Rightarrow> server \<times> api_result" where
  "resync_icd asked a s =
     (case require_node a s of
        Inl e \<Rightarrow> (s, Inl e)
      | Inr n \<Rightarrow> (case fabric_info_of asked s of (s1, f) \<Rightarrow> (s1, map_res (\<lambda>_. JNull) f)))"

subsection \<open>Check-ins\<close>

text \<open>\<open>key_ok\<close> accepts keys of the cipher's length, \<open>parse\<close> is the codec: the counter a key reads in a
  payload. A message no key reads is dropped; a counter that does not advance is a replay.\<close>

fun identify_among ::
  "(bytes \<Rightarrow> bool) \<Rightarrow> (bytes \<Rightarrow> bytes \<Rightarrow> u32 option) \<Rightarrow> bytes \<Rightarrow> (u64 \<times> bytes \<times> u32 option) list \<Rightarrow> (u64 \<times> u32) option" where
  "identify_among key_ok parse payload [] = None"
| "identify_among key_ok parse payload ((n, key, seen) # rs) =
     (if \<not> key_ok key then identify_among key_ok parse payload rs
      else (case parse key payload of
          None \<Rightarrow> identify_among key_ok parse payload rs
        | Some counter \<Rightarrow>
            if (case seen of None \<Rightarrow> False | Some l \<Rightarrow> counter \<le> l) then None
            else Some (n, counter)))"

definition identify ::
  "(string \<Rightarrow> bytes option) \<Rightarrow> (bytes \<Rightarrow> bool) \<Rightarrow> (bytes \<Rightarrow> bytes \<Rightarrow> u32 option) \<Rightarrow> bytes \<Rightarrow> config_data \<Rightarrow> (u64 \<times> u32) option" where
  "identify dec key_ok parse payload d = identify_among key_ok parse payload (icd_registrations dec d)"

definition check_in ::
  "(string \<Rightarrow> bytes option) \<Rightarrow> (bytes \<Rightarrow> bool) \<Rightarrow> (bytes \<Rightarrow> bytes \<Rightarrow> u32 option) \<Rightarrow> bool \<Rightarrow> nat \<Rightarrow> bytes \<Rightarrow> server \<Rightarrow> server" where
  "check_in dec key_ok parse io now payload s =
     (case identify dec key_ok parse payload (cs_data (srv_config s)) of
        None \<Rightarrow> s
      | Some (n, counter) \<Rightarrow>
          note_check_in n now (s\<lparr>srv_config := fst (note_icd_counter io n counter (srv_config s))\<rparr>))"

text \<open>The messages accepted while a sequence of payloads arrives, each with its time and the fate of
  its write.\<close>

fun accepted ::
  "(string \<Rightarrow> bytes option) \<Rightarrow> (bytes \<Rightarrow> bool) \<Rightarrow> (bytes \<Rightarrow> bytes \<Rightarrow> u32 option) \<Rightarrow> (bytes \<times> nat \<times> bool) list \<Rightarrow> server
   \<Rightarrow> (u64 \<times> u32) list" where
  "accepted dec key_ok parse [] s = []"
| "accepted dec key_ok parse ((payload, now, io) # ps) s =
     (case identify dec key_ok parse payload (cs_data (srv_config s)) of None \<Rightarrow> [] | Some nc \<Rightarrow> [nc])
      @ accepted dec key_ok parse ps (check_in dec key_ok parse io now payload s)"

subsection \<open>Laws\<close>

definition last_counter :: "u64 \<Rightarrow> server \<Rightarrow> u32 option" where
  "last_counter n s = opt_bind (icd_get (cd_icd_registrations (cs_data (srv_config s))) n) snd"

lemma identify_among_sound:
  "identify_among key_ok parse payload rs = Some (n, c) \<Longrightarrow>
     \<exists>key seen. (n, key, seen) \<in> set rs \<and> parse key payload = Some c \<and> key_ok key
       \<and> (\<forall>l. seen = Some l \<longrightarrow> l < c)"
proof (induction rs rule: list.induct)
  case (Cons r rs)
  obtain m key seen where r: "r = (m, key, seen)" by (cases r)
  show ?case
  proof (cases "key_ok key \<and> parse key payload \<noteq> None")
    case True
    then have "n = m \<and> parse key payload = Some c \<and> (\<forall>l. seen = Some l \<longrightarrow> l < c)"
      using Cons.prems r by (auto simp: not_le split: if_splits option.splits)
    then show ?thesis using True r by auto
  next
    case False
    then show ?thesis using Cons r by (auto split: if_splits)
  qed
qed simp

lemma icd_get_in: "icd_ok es \<Longrightarrow> e \<in> set es \<Longrightarrow> icd_get es (ie_node_id e) = Some (ie_key e, ie_counter e)"
proof (induction es)
  case (Cons x es)
  then show ?case by (cases "x = e") (auto simp: icd_ok_def icd_get_def)
qed simp

lemma icd_ok_note:
  "map ie_node_id (update_first (\<lambda>e. ie_node_id e = n) (\<lambda>e. e\<lparr>ie_counter := Some c\<rparr>) es) = map ie_node_id es"
  by (induction es) auto

lemma identify_advances:
  assumes "icd_ok (cd_icd_registrations d)" and "identify dec key_ok parse payload d = Some (n, c)"
  shows "\<exists>key seen. icd_get (cd_icd_registrations d) n = Some (key, seen) \<and> (\<forall>l. seen = Some l \<longrightarrow> l < c)"
proof -
  obtain raw seen where "(n, raw, seen) \<in> set (icd_registrations dec d)" and l: "\<forall>l. seen = Some l \<longrightarrow> l < c"
    using identify_among_sound assms(2) unfolding identify_def by blast
  then obtain e where "e \<in> set (cd_icd_registrations d)" "ie_node_id e = n" "ie_counter e = seen"
    by (auto simp: icd_registrations_def)
  then show ?thesis using icd_get_in [OF assms(1)] l by fastforce
qed

lemma check_in_config:
  "cd_icd_registrations (cs_data (srv_config (check_in dec key_ok parse io now payload s))) =
     (case identify dec key_ok parse payload (cs_data (srv_config s)) of
        None \<Rightarrow> cd_icd_registrations (cs_data (srv_config s))
      | Some (n, c) \<Rightarrow> update_first (\<lambda>e. ie_node_id e = n) (\<lambda>e. e\<lparr>ie_counter := Some c\<rparr>)
          (cd_icd_registrations (cs_data (srv_config s))))"
  by (simp add: check_in_def note_check_in_def note_icd_counter_def mutate_fst split: option.split prod.split)

lemma accepted_ascend:
  assumes "icd_ok (cd_icd_registrations (cs_data (srv_config s)))"
  shows "sorted_wrt (<) (map snd (filter (\<lambda>nc. fst nc = k) (accepted dec key_ok parse ps s)))
    \<and> (\<forall>nc \<in> set (accepted dec key_ok parse ps s). fst nc = k \<longrightarrow> (\<forall>l. last_counter k s = Some l \<longrightarrow> l < snd nc))"
  using assms
proof (induction dec key_ok parse ps s rule: accepted.induct)
  case (2 dec key_ok parse payload now io ps s)
  let ?d = "cs_data (srv_config s)" and ?s' = "check_in dec key_ok parse io now payload s"
  have ok: "icd_ok (cd_icd_registrations (cs_data (srv_config ?s')))"
    using "2.prems" by (auto simp: check_in_config icd_ok_def icd_ok_note split: option.split prod.split)
  show ?case
  proof (cases "identify dec key_ok parse payload ?d")
    case None
    then have "last_counter k ?s' = last_counter k s" by (simp add: last_counter_def check_in_config)
    then show ?thesis using "2.IH" [OF ok] None by simp
  next
    case (Some nc)
    obtain n c where nc: "nc = (n, c)" by (cases nc)
    obtain key seen where g: "icd_get (cd_icd_registrations ?d) n = Some (key, seen)" "\<forall>l. seen = Some l \<longrightarrow> l < c"
      using identify_advances [OF "2.prems"] Some nc by blast
    have after: "last_counter k ?s' = (if k = n then Some c else last_counter k s)"
      using g(1) Some nc by (simp add: last_counter_def check_in_config icd_get_note)
    show ?thesis
    proof (cases "k = n")
      case True
      then have "last_counter n s = seen" using g(1) by (simp add: last_counter_def)
      then show ?thesis using "2.IH" [OF ok] Some nc after g(2) True by (auto intro: less_trans)
    next
      case False
      then show ?thesis using "2.IH" [OF ok] Some nc after by auto
    qed
  qed
qed simp

subsection \<open>Properties\<close>

text \<open>C25: a recorded check-in is never accepted again: over any sequence of messages, with any writes of
  the file failing, the counters accepted from a node strictly increase, and exceed the last one
  stored for it.\<close>

theorem checkins_never_replayed:
  assumes "icd_ok (cd_icd_registrations (cs_data (srv_config s)))"
  shows "sorted_wrt (<) (map snd (filter (\<lambda>nc. fst nc = k) (accepted dec key_ok parse ps s)))
    \<and> (\<forall>c. (k, c) \<in> set (accepted dec key_ok parse ps s) \<longrightarrow> (\<forall>l. last_counter k s = Some l \<longrightarrow> l < c))"
  using accepted_ascend [OF assms] by fastforce

theorem checkins_never_replayed_witness:
  "\<exists>s. accepted (\<lambda>_. Some [1]) (\<lambda>_. True) (\<lambda>_ _. Some 5) [([], 0, True), ([], 1, False)] s = [(7, 5)]
     \<and> sorted_wrt (<) (map snd (filter (\<lambda>nc. fst nc = 7)
         (accepted (\<lambda>_. Some [1]) (\<lambda>_. True) (\<lambda>_ _. Some 5) [([], 0, True), ([], 1, False)] s)))"
proof -
  let ?c = "config_in_memory\<lparr>cs_data := config_default
     \<lparr>cd_icd_registrations := [\<lparr>ie_node_id = 7, ie_key = ''k'', ie_counter = Some 4\<rparr>]\<rparr>\<rparr>"
  let ?s = "server_new [] ?c (runtime_default []) []"
  have ok: "icd_ok (cd_icd_registrations (cs_data (srv_config ?s)))" by (simp add: server_new_def icd_ok_def)
  have "accepted (\<lambda>_. Some [1]) (\<lambda>_. True) (\<lambda>_ _. Some 5) [([], 0, True), ([], 1, False)] ?s = [(7, 5)]"
    by (simp add: identify_def icd_registrations_def server_new_def check_in_def note_check_in_def
        note_icd_counter_def mutate_fst)
  then show ?thesis
    using checkins_never_replayed [OF ok, of 7 "\<lambda>_. Some [1]" "\<lambda>_. True" "\<lambda>_ _. Some 5"] by blast
qed

text \<open>Without consent, a device that another ecosystem administers is left alone: registration is refused
  with the sorted list of those vendors before the device is asked anything, and no key is kept.\<close>

theorem multi_admin_protected:
  assumes "require_node a s = Inr n" and "args_bool_or a ''allow_multi_admin'' False = Inr False"
    and "args_u64_array a ''ignored_vendors'' = Inr ignored"
    and "other_vendor_admins read asked n (unwrap_or ignored []) s = (s1, Inr (v # vs))"
  shows "register_icd read invoke asked enc key io now a s = (s1, Some (Inl (err_icd_multi_admin (v # vs))))
    \<and> srv_config s1 = srv_config s \<and> sorted_wrt (<) (v # vs)"
proof -
  have "srv_config s1 = srv_config s"
    using assms(4) fabric_info_of_frame(2) [of asked s] by (auto simp: other_vendor_admins_def split: prod.splits)
  moreover have "sorted_wrt (<) (v # vs)"
  proof -
    obtain xs where "v # vs = dedup_sorted (xs :: u16 list)"
      using assms(4) unfolding other_vendor_admins_def
      by (auto simp: map_res_Inr bind_res_Inr split: prod.splits option.splits)
    then show ?thesis using dedup_sorted_strict by metis
  qed
  ultimately show ?thesis
    using assms by (simp add: register_icd_def icd_consent_def)
qed

theorem multi_admin_protected_witness:
  "\<exists>s s1. register_icd (\<lambda>_ _ _. Inr [(fabrics_path, JArr [jobj [(''2'', ju64 0x1234)]])]) (\<lambda>_ _ _ _ _ _ _. Inr JNull)
       (Inl (err_sdk [])) (\<lambda>_. []) [] True 0 (jobj [(''node_id'', ju64 7)]) s = (s1, Some (Inl (err_icd_multi_admin [0x1234])))"
proof -
  let ?f = "\<lparr>fi_fabric_id = 1, fi_compressed_fabric_id = 2, fi_fabric_index = 1, fi_node_id = 112233, fi_vendor_id = 0xFFF1,
      fi_label = ''Home''\<rparr>"
  let ?s = "set_fabric_info ?f (server_new [(7, stored_new (node_new 7 ''t''))] config_in_memory (runtime_default []) [])"
  let ?a = "jobj [(''node_id'', ju64 7)]" and ?r = "\<lambda>_ _ _. Inr [(fabrics_path, JArr [jobj [(''2'', ju64 0x1234)]])]"
  have n: "require_node ?a ?s = Inr 7"
    by (simp add: require_node_def args_req_u64_def required_def args_u64_def args_get_def jget_jobj ju64_def
        set_fabric_info_def server_new_def ns_contains_def bt_contains_def bt_get_def)
  have a: "args_bool_or ?a ''allow_multi_admin'' False = Inr False" "args_u64_array ?a ''ignored_vendors'' = Inr None"
    by (simp_all add: args_bool_or_def args_bool_def args_u64_array_def args_array_def args_get_def jget_jobj)
  have "parse_path fabrics_path = Inr \<lparr>pp_endpoint = Some 0, pp_cluster = Some 62, pp_attribute = Some 1\<rparr>"
    by (simp only: fabrics_path_def format_render parse_render)
  then have "other_vendor_admins ?r (Inl (err_sdk [])) 7 (unwrap_or None []) ?s = (?s, Inr [0x1234])"
    by (simp add: other_vendor_admins_def fabric_info_of_def set_fabric_info_def bt_get_def jget_jobj dedup_sorted_def)
  from multi_admin_protected [OF n a this] show ?thesis by blast
qed

text \<open>A device whose idle time lies beyond the clock's range makes the handler panic.\<close>

theorem huge_idle_time_panics: "next_expected_checkin (Some t) (Some (- 1)) = None"
  by (simp add: next_expected_checkin_def unsigned_minus_1_eq_mask mask_eq_exp_minus_1)

text \<open>When the controller's own id is not known, a client entry that names none counts as this controller.\<close>

theorem unknown_controller_registered: "icd_registered None [(''0/70/3'', JArr [JObj []])]"
proof -
  have "format_path 0 70 3 = ''0/70/3''" by code_simp
  then show ?thesis by (simp add: icd_registered_def icd_attribute_def bt_get_def)
qed

end
