(* ===== verification/Migrate_Value.thy ===== *)
theory Migrate_Value
  imports Json Errors
begin

section \<open>The value encoding of matter.js (src/server/src/migrate/value.rs)\<close>

text \<open>
  matter.js stores JSON in which 64-bit integers and byte strings are strings holding a small
  tagged object, and a map is such a string holding another document. \<open>mj_from_json\<close> resolves the
  tags; it never fails. The JSON parser and the decimal form of a float are not part of the
  repository, so they are a record of parameters, \<open>text_lib\<close>. The one recursion that is not on
  the structure of the document is the parse of the text of a \<open>Map\<close> tag: it runs on fuel, and
  the fuel \<open>mj_from_json\<close> takes is enough for every parser whose strings are shorter than its text
  (\<open>decoding_terminates\<close>). A float is its rational value, \<open>MjNumber None\<close> one that is not finite.
\<close>

record text_lib =
  parse_json :: "string \<Rightarrow> string + json"
  show_float :: "rat \<Rightarrow> string"
  parse_f64 :: "string \<Rightarrow> rat option option"

datatype mj_value =
    MjNull
  | MjBool bool
  | MjNumber "rat option"
  | MjBigInt int
  | MjString string
  | MjBytes bytes
  | MjArray "mj_value list"
  | MjObject "(string \<times> mj_value) list"

definition type_key :: string where "type_key = ''__object__''"
definition value_key :: string where "value_key = ''__value__''"

subsection \<open>Numbers and bytes\<close>

definition mj_number :: "number \<Rightarrow> mj_value" where
  "mj_number n = (case num_u64 n of
       Some v \<Rightarrow> MjBigInt (uint v)
     | None \<Rightarrow> (case num_i64 n of
         Some i \<Rightarrow> MjBigInt i
       | None \<Rightarrow> (case n of Float r \<Rightarrow> MjNumber (Some r) | _ \<Rightarrow> MjNumber (Some 0))))"

text \<open>\<open>str::parse::<i128>\<close>: a sign, at least one digit, no overflow.\<close>

definition parse_i128 :: "string \<Rightarrow> int option" where
  "parse_i128 s =
     (if starts_with ''-'' s then
        (if tl s = [] then None
         else opt_filter (\<lambda>i. - (2 ^ 127) \<le> i) (map_option (\<lambda>n. - int n) (digits_acc 10 0 (tl s))))
      else map_option int (parse_uint 10 (2 ^ 127 - 1) s))"

definition show_number :: "'z text_lib_scheme \<Rightarrow> number \<Rightarrow> string" where
  "show_number L n = (case n of
     PosInt v \<Rightarrow> show_u v | NegInt i \<Rightarrow> show_int i | Float r \<Rightarrow> show_float L r)"

definition number_like :: "'z text_lib_scheme \<Rightarrow> json \<Rightarrow> string option" where
  "number_like L v = (case v of
     JStr t \<Rightarrow> Some t | JNum n \<Rightarrow> Some (show_number L n) | _ \<Rightarrow> None)"

definition decode_pair :: "string \<Rightarrow> u8 option" where
  "decode_pair pair =
     (if utf8_ok (map byte_of pair)
      then if length pair = 2 then parse_hex_byte pair else None
      else None)"

definition decode_hex :: "string \<Rightarrow> bytes option" where
  "decode_hex hex = collect_opt decode_pair (pairs hex)"

subsection \<open>Tagged strings\<close>

definition wide_tags :: "string list" where
  "wide_tags = [''BigInt'', ''NodeId'', ''FabricId'', ''EventNumber'']"

definition legacy_tags :: "string list" where
  "legacy_tags = [''AttributeId'', ''CaseAuthenticatedTag'', ''ClusterId'', ''CommandId'',
     ''DataVersion'', ''DeviceTypeId'', ''EndpointNumber'', ''EntryIndex'', ''EventId'',
     ''FabricIndex'', ''FieldId'', ''GroupId'', ''VendorId'', ''Interval'']"

text \<open>Every tag but \<open>Map\<close>.\<close>

definition decode_tag :: "'z text_lib_scheme \<Rightarrow> string \<Rightarrow> json option \<Rightarrow> mj_value option" where
  "decode_tag L kind payload =
     (if kind = ''Undefined'' then Some MjNull
      else if kind \<in> set wide_tags then
        map_option MjBigInt (opt_bind (opt_bind payload (number_like L)) parse_i128)
      else if kind = ''Uint8Array'' then
        map_option MjBytes (opt_bind (opt_bind payload as_str) decode_hex)
      else if kind \<in> set legacy_tags then
        opt_bind (opt_bind payload (number_like L)) (\<lambda>digits.
          opt_or (map_option MjBigInt (parse_i128 digits)) (map_option MjNumber (parse_f64 L digits)))
      else None)"

definition tag_prefix :: string where
  "tag_prefix = CHR ''{'' # CHR 0x22 # type_key @ [CHR 0x22, CHR '':'', CHR 0x22]"

definition looks_tagged :: "string \<Rightarrow> bool" where
  "looks_tagged text = (starts_with tag_prefix text \<and> ends_with_char CHR ''}'' text)"

text \<open>The tag and the payload of a string that is the encoding.\<close>

definition tagged_parts :: "'z text_lib_scheme \<Rightarrow> string \<Rightarrow> (string \<times> json option) option" where
  "tagged_parts L text =
     (if \<not> looks_tagged text then None
      else opt_bind (res_ok (parse_json L text)) (\<lambda>tagged.
           opt_bind (opt_bind (jget tagged type_key) as_str) (\<lambda>kind.
             Some (kind, jget tagged value_key))))"

text \<open>The document inside a \<open>Map\<close> tag, if there is one to be parsed.\<close>

definition map_document :: "'z text_lib_scheme \<Rightarrow> json option \<Rightarrow> json option" where
  "map_document L payload = opt_bind (opt_bind payload as_str) (\<lambda>inner. res_ok (parse_json L inner))"

lemma collect_opt_cong [fundef_cong]:
  "xs = ys \<Longrightarrow> (\<And>x. x \<in> set ys \<Longrightarrow> f x = g x) \<Longrightarrow> collect_opt f xs = collect_opt g ys"
  by (induction ys arbitrary: xs) (auto split: option.splits)

fun mj_from_json_with :: "(string \<Rightarrow> mj_value option) \<Rightarrow> json \<Rightarrow> mj_value option" where
  "mj_from_json_with str JNull = Some MjNull"
| "mj_from_json_with str (JBool b) = Some (MjBool b)"
| "mj_from_json_with str (JNum n) = Some (mj_number n)"
| "mj_from_json_with str (JStr t) = str t"
| "mj_from_json_with str (JArr xs) = map_option MjArray (collect_opt (mj_from_json_with str) xs)"
| "mj_from_json_with str (JObj m) = map_option MjObject
     (collect_opt (\<lambda>(k, v). map_option (Pair k) (mj_from_json_with str v)) m)"

fun from_string_fuel :: "'z text_lib_scheme \<Rightarrow> nat \<Rightarrow> string \<Rightarrow> mj_value option" where
  "from_string_fuel L 0 text = None"
| "from_string_fuel L (Suc fuel) text =
     (case tagged_parts L text of
        None \<Rightarrow> Some (MjString text)
      | Some (kind, payload) \<Rightarrow>
          if kind = ''Map'' then
            (case map_document L payload of
               None \<Rightarrow> Some (MjString text)
             | Some document \<Rightarrow> mj_from_json_with (from_string_fuel L fuel) document)
          else Some (unwrap_or (decode_tag L kind payload) (MjString text)))"

text \<open>One more than the length of the longest string of a document.\<close>

fun longest :: "json \<Rightarrow> nat" where
  "longest (JStr t) = Suc (length t)"
| "longest (JArr xs) = fold max (map longest xs) 0"
| "longest (JObj m) = fold max (map (\<lambda>(k, v). longest v) m) 0"
| "longest _ = 0"

definition mj_from_json_fuel :: "'z text_lib_scheme \<Rightarrow> nat \<Rightarrow> json \<Rightarrow> mj_value option" where
  "mj_from_json_fuel L fuel raw = mj_from_json_with (from_string_fuel L fuel) raw"

definition mj_from_json :: "'z text_lib_scheme \<Rightarrow> json \<Rightarrow> mj_value" where
  "mj_from_json L raw = unwrap_or (mj_from_json_fuel L (longest raw) raw) MjNull"

definition mj_from_json_str :: "'z text_lib_scheme \<Rightarrow> string \<Rightarrow> string list + mj_value" where
  "mj_from_json_str L text = map_res (mj_from_json L)
     (map_err (\<lambda>e. [''parsing a matter.js storage value'', e]) (parse_json L text))"

subsection \<open>Typed access\<close>

fun mj_str :: "mj_value \<Rightarrow> string option" where
  "mj_str (MjString t) = Some t"
| "mj_str _ = None"

fun mj_bool :: "mj_value \<Rightarrow> bool option" where
  "mj_bool (MjBool b) = Some b"
| "mj_bool _ = None"

fun mj_bytes :: "mj_value \<Rightarrow> bytes option" where
  "mj_bytes (MjBytes b) = Some b"
| "mj_bytes _ = None"

text \<open>\<open>value as u64\<close> saturates; a \<open>u64\<close> is parsed from text like any unsigned number.\<close>

fun mj_u64 :: "mj_value \<Rightarrow> u64 option" where
  "mj_u64 (MjNumber (Some r)) =
     (if 0 \<le> r \<and> of_int \<lfloor>r\<rfloor> = r then Some (of_int (min \<lfloor>r\<rfloor> (2 ^ 64 - 1))) else None)"
| "mj_u64 (MjBigInt i) = (if 0 \<le> i \<and> i < 2 ^ 64 then Some (of_int i) else None)"
| "mj_u64 (MjString t) = parse_dec t"
| "mj_u64 _ = None"

fun mj_array :: "mj_value \<Rightarrow> mj_value list option" where
  "mj_array (MjArray xs) = Some xs"
| "mj_array _ = None"

fun mj_get :: "mj_value \<Rightarrow> string \<Rightarrow> mj_value option" where
  "mj_get (MjObject m) k = opt_filter (\<lambda>v. v \<noteq> MjNull) (bt_get m k)"
| "mj_get _ k = None"

subsection \<open>Decoding returns\<close>

text \<open>What is assumed of the parser: the strings of a document are shorter than its text, since
  each is written between two quotes.\<close>

definition text_shrinks :: "'z text_lib_scheme \<Rightarrow> bool" where
  "text_shrinks L = (\<forall>s v. parse_json L s = Inr v \<longrightarrow> longest v \<le> length s)"

lemma fold_max_le: "fold max (xs :: nat list) a \<le> n \<longleftrightarrow> a \<le> n \<and> (\<forall>x \<in> set xs. x \<le> n)"
  by (induction xs arbitrary: a) auto

lemma longest_arr: "longest (JArr xs) \<le> n \<longleftrightarrow> (\<forall>x \<in> set xs. longest x \<le> n)"
  by (simp add: fold_max_le)

lemma longest_obj: "longest (JObj m) \<le> n \<longleftrightarrow> (\<forall>(k, v) \<in> set m. longest v \<le> n)"
  by (auto simp add: fold_max_le)

declare longest.simps(2,3) [simp del]

lemma collect_opt_total:
  "(\<And>x. x \<in> set xs \<Longrightarrow> \<exists>y. f x = Some y \<and> g x = Some y) \<Longrightarrow>
   \<exists>ys. collect_opt f xs = Some ys \<and> collect_opt g xs = Some ys"
proof (induction xs)
  case (Cons a xs)
  obtain y where "f a = Some y" "g a = Some y" using Cons.prems [of a] by auto
  then show ?case using Cons by auto
qed simp

lemma mj_from_json_with_total:
  assumes "\<And>t :: string. Suc (length t) \<le> longest raw \<Longrightarrow> \<exists>v. f t = Some v \<and> g t = Some v"
  shows "\<exists>v. mj_from_json_with f raw = Some v \<and> mj_from_json_with g raw = Some v"
  using assms
proof (induction g raw rule: mj_from_json_with.induct)
  case (5 str xs)
  have "\<exists>y. mj_from_json_with f x = Some y \<and> mj_from_json_with str x = Some y" if x: "x \<in> set xs" for x
  proof (rule "5.IH" [OF x])
    fix t :: string assume "Suc (length t) \<le> longest x"
    then have "Suc (length t) \<le> longest (JArr xs)"
      using x longest_arr [of xs "longest (JArr xs)"] by fastforce
    then show "\<exists>v. f t = Some v \<and> str t = Some v" by (rule "5.prems")
  qed
  then have "\<exists>ys. collect_opt (mj_from_json_with f) xs = Some ys \<and> collect_opt (mj_from_json_with str) xs = Some ys"
    by (rule collect_opt_total)
  then show ?case by auto
next
  case (6 str m)
  let ?field = "\<lambda>h (k, v). map_option (Pair k) (mj_from_json_with h v)"
  have "\<exists>y. ?field f x = Some y \<and> ?field str x = Some y" if x: "x \<in> set m" for x
  proof -
    have "\<exists>y. mj_from_json_with f (snd x) = Some y \<and> mj_from_json_with str (snd x) = Some y"
    proof (rule "6.IH" [OF x, of "fst x"])
      fix t :: string assume "Suc (length t) \<le> longest (snd x)"
      then have "Suc (length t) \<le> longest (JObj m)"
        using x longest_obj [of m "longest (JObj m)"] by (cases x) fastforce
      then show "\<exists>v. f t = Some v \<and> str t = Some v" by (rule "6.prems")
    qed simp
    then show ?thesis by (cases x) auto
  qed
  then have "\<exists>ys. collect_opt (?field f) m = Some ys \<and> collect_opt (?field str) m = Some ys"
    by (rule collect_opt_total)
  then show ?case by auto
qed simp_all

lemma res_ok_Some: "res_ok r = Some a \<longleftrightarrow> r = Inr a"
  by (simp add: res_ok_def split: sum.splits)

lemma map_document_shorter:
  assumes "text_shrinks L" and "tagged_parts L text = Some (kind, payload)"
    and "map_document L payload = Some document"
  shows "longest document < length text"
proof -
  obtain tagged where t: "parse_json L text = Inr tagged" and p: "payload = jget tagged value_key"
    using assms(2) by (auto simp: tagged_parts_def bind_eq_Some_conv res_ok_Some split: if_splits)
  obtain inner where i: "payload = Some (JStr inner)" and d: "parse_json L inner = Inr document"
    using assms(3) unfolding map_document_def
    by (auto simp: bind_eq_Some_conv as_str_Some res_ok_Some)
  obtain m where m: "tagged = JObj m" using p i by (cases tagged) simp_all
  have "(value_key, JStr inner) \<in> set m" using p i m by (simp add: bt_get_in)
  then have "Suc (length inner) \<le> longest tagged"
    unfolding m using longest_obj [of m "longest (JObj m)"] by fastforce
  also have "\<dots> \<le> length text" using assms(1) t unfolding text_shrinks_def by blast
  finally show ?thesis using assms(1) d unfolding text_shrinks_def by (meson Suc_le_eq le_less_trans)
qed

lemma from_string_total:
  assumes "text_shrinks L"
  shows "length w < m \<Longrightarrow> length w < n \<Longrightarrow>
    \<exists>v. from_string_fuel L m w = Some v \<and> from_string_fuel L n w = Some v"
proof (induction "length w" arbitrary: w m n rule: less_induct)
  case less
  obtain m' n' where s: "m = Suc m'" "n = Suc n'" using less.prems by (metis gr0_implies_Suc less_zeroE neq0_conv)
  show ?case
  proof (cases "tagged_parts L w")
    case (Some kp)
    obtain kind payload where kp: "kp = (kind, payload)" by (cases kp)
    show ?thesis
    proof (cases "map_document L payload")
      case (Some document)
      have d: "longest document < length w"
        using map_document_shorter [OF assms _ Some] \<open>tagged_parts L w = Some kp\<close> kp by blast
      have "\<exists>v. mj_from_json_with (from_string_fuel L m') document = Some v
              \<and> mj_from_json_with (from_string_fuel L n') document = Some v"
        by (rule mj_from_json_with_total, rule less.hyps) (use d less.prems s in auto)
      then show ?thesis using \<open>tagged_parts L w = Some kp\<close> kp Some s by auto
    qed (use \<open>tagged_parts L w = Some kp\<close> kp s in auto)
  qed (simp add: s)
qed

lemma mj_from_json_fuel_total:
  assumes "text_shrinks L" and "longest raw \<le> fuel"
  shows "mj_from_json_fuel L fuel raw = Some (mj_from_json L raw)"
proof -
  have "\<exists>v. mj_from_json_fuel L fuel raw = Some v \<and> mj_from_json_fuel L (longest raw) raw = Some v"
    unfolding mj_from_json_fuel_def
    by (rule mj_from_json_with_total, rule from_string_total [OF assms(1)]) (use assms(2) in auto)
  then show ?thesis by (auto simp: mj_from_json_def)
qed

text \<open>The equations of the source, for a parser whose documents shrink.\<close>

lemma mj_from_json_arr:
  assumes "text_shrinks L"
  shows "mj_from_json L (JArr xs) = MjArray (map (mj_from_json L) xs)"
proof -
  have "collect_opt (mj_from_json_with (from_string_fuel L (longest (JArr xs)))) xs
        = Some (map (mj_from_json L) xs)"
    using mj_from_json_fuel_total [OF assms] longest_arr [of xs "longest (JArr xs)"]
    by (intro collect_opt_ok) (simp add: mj_from_json_fuel_def)
  then show ?thesis by (simp add: mj_from_json_def mj_from_json_fuel_def)
qed

lemma mj_from_json_obj:
  assumes "text_shrinks L"
  shows "mj_from_json L (JObj m) = MjObject (map (\<lambda>(k, v). (k, mj_from_json L v)) m)"
proof -
  have "collect_opt (\<lambda>(k, v). map_option (Pair k)
          (mj_from_json_with (from_string_fuel L (longest (JObj m))) v)) m
        = Some (map (\<lambda>(k, v). (k, mj_from_json L v)) m)"
    using mj_from_json_fuel_total [OF assms] longest_obj [of m "longest (JObj m)"]
    by (intro collect_opt_ok) (fastforce simp add: mj_from_json_fuel_def)
  then show ?thesis by (simp add: mj_from_json_def mj_from_json_fuel_def)
qed

lemma mj_from_json_str_value:
  assumes "text_shrinks L"
  shows "mj_from_json L (JStr t) =
    (case tagged_parts L t of
       None \<Rightarrow> MjString t
     | Some (kind, payload) \<Rightarrow>
         if kind = ''Map'' then unwrap_or (map_option (mj_from_json L) (map_document L payload)) (MjString t)
         else unwrap_or (decode_tag L kind payload) (MjString t))"
proof (cases "tagged_parts L t")
  case (Some kp)
  obtain kind payload where kp: "kp = (kind, payload)" by (cases kp)
  have "mj_from_json_with (from_string_fuel L (length t)) d = Some (mj_from_json L d)"
    if "map_document L payload = Some d" for d
    using map_document_shorter [OF assms Some [unfolded kp] that]
      mj_from_json_fuel_total [OF assms, of d "length t"] by (simp add: mj_from_json_fuel_def)
  then show ?thesis
    using Some kp by (auto simp: mj_from_json_def mj_from_json_fuel_def split: option.splits)
qed (simp add: mj_from_json_def mj_from_json_fuel_def)

text \<open>Decoding a stored value always ends, whatever tags are nested in its strings: with fuel for its
  longest string (and with any more of it) the decoder returns the same value.\<close>
theorem decoding_terminates:
  assumes "text_shrinks L"
  shows "longest raw \<le> fuel \<longrightarrow> mj_from_json_fuel L fuel raw = Some (mj_from_json L raw)"
  using mj_from_json_fuel_total [OF assms] by blast

definition no_parser :: text_lib where
  "no_parser = \<lparr>parse_json = (\<lambda>_. Inl ''expected value''), show_float = (\<lambda>_. []),
                 parse_f64 = (\<lambda>_. None)\<rparr>"

lemma no_parser_shrinks: "text_shrinks no_parser"
  by (simp add: text_shrinks_def no_parser_def)

theorem decoding_terminates_witness:
  "mj_from_json_fuel no_parser 5 (JArr [JStr ''abcd'']) = Some (MjArray [MjString ''abcd''])"
proof -
  have "longest (JArr [JStr ''abcd'']) \<le> 5" by (simp add: longest.simps(2))
  then have "mj_from_json_fuel no_parser 5 (JArr [JStr ''abcd'']) = Some (mj_from_json no_parser (JArr [JStr ''abcd'']))"
    using decoding_terminates [OF no_parser_shrinks] by blast
  then show ?thesis
    by (simp add: mj_from_json_arr [OF no_parser_shrinks] mj_from_json_str_value [OF no_parser_shrinks]
        tagged_parts_def looks_tagged_def tag_prefix_def type_key_def starts_with_def)
qed

subsection \<open>Identifiers and byte strings\<close>

lemma show_nat_no_minus: "\<not> starts_with ''-'' (show_nat n)"
proof -
  obtain c cs where s: "show_nat n = c # cs" by (cases "show_nat n") auto
  then have "is_digit c" using show_nat_digits [of c n] by simp
  then have "c \<noteq> CHR ''-''" using digit_not by blast
  with s show ?thesis by (auto simp: starts_with_def)
qed

lemma parse_i128_show: "parse_i128 (show_u (n :: u64)) = Some (uint n)"
proof -
  have "unat n < 2 ^ 64" using unat_bound [of n] by simp
  then have "unat n \<le> 2 ^ 127 - 1" by simp
  then show ?thesis by (simp add: parse_i128_def show_u_def show_nat_no_minus parse_show)
qed

lemma mj_u64_bigint: "mj_u64 (MjBigInt (uint (n :: u64))) = Some n"
proof -
  have "uint n < 2 ^ 64" using unsigned_less [of n, where 'a = int] by simp
  then show ?thesis by simp
qed

lemma decode_tag_id:
  assumes "kind \<in> set (wide_tags @ legacy_tags)" and "number_like L p = Some (show_u (n :: u64))"
  shows "decode_tag L kind (Some p) = Some (MjBigInt (uint n))"
proof -
  have "kind \<noteq> ''Undefined''" "kind \<noteq> ''Uint8Array''"
    using assms(1) by (auto simp: wide_tags_def legacy_tags_def)
  then show ?thesis using assms by (auto simp: decode_tag_def parse_i128_show)
qed

text \<open>An identifier of 64 bits survives in every spelling matter.js has for it: as a plain JSON number,
  as any of the tagged forms with the digits as text or as a number, and as bare text.\<close>
theorem stored_ids_exact:
  "mj_u64 (mj_from_json L (JNum (PosInt n))) = Some n
   \<and> list_all (\<lambda>kind.
        opt_bind (decode_tag L kind (Some (JStr (show_u n)))) mj_u64 = Some n
        \<and> opt_bind (decode_tag L kind (Some (JNum (PosInt n)))) mj_u64 = Some n)
      (wide_tags @ legacy_tags)
   \<and> mj_u64 (MjString (show_u n)) = Some n"
proof (intro conjI)
  show "mj_u64 (mj_from_json L (JNum (PosInt n))) = Some n"
    using mj_u64_bigint [of n] by (simp add: mj_from_json_def mj_from_json_fuel_def mj_number_def)
  show "mj_u64 (MjString (show_u n)) = Some n" by (simp add: parse_dec_show)
  have "opt_bind (decode_tag L kind (Some p)) mj_u64 = Some n"
    if "kind \<in> set (wide_tags @ legacy_tags)" and "number_like L p = Some (show_u n)" for kind p
    using decode_tag_id [OF that] mj_u64_bigint [of n] by simp
  then show "list_all (\<lambda>kind.
        opt_bind (decode_tag L kind (Some (JStr (show_u n)))) mj_u64 = Some n
        \<and> opt_bind (decode_tag L kind (Some (JNum (PosInt n)))) mj_u64 = Some n)
      (wide_tags @ legacy_tags)"
    unfolding list_all_iff by (simp only: ball_conj_distrib) (simp add: number_like_def show_number_def)
qed

lemma decode_hex_length: "decode_hex hex = Some bs \<Longrightarrow> length hex = 2 * length bs"
  unfolding decode_hex_def
proof (induction hex arbitrary: bs rule: pairs.induct)
  case (1 a b s)
  then show ?case by (auto split: option.splits)
qed (simp_all add: decode_pair_def split: option.splits if_splits)

lemma hex_digit_ascii: "d < 16 \<Longrightarrow> byte_of (hex_digit d) < 0x80"
  by (simp add: hex_digit_def byte_of_char_of)

lemma decode_pair_hex: "decode_pair (hex_byte b) = Some b"
proof -
  have "utf8_ok (map byte_of (hex_byte b))"
    using hex_digit_ascii [OF unat_div16 [of b]] hex_digit_ascii [of "unat b mod 16"]
    by (simp add: hex_byte_def)
  then show ?thesis by (simp add: decode_pair_def parse_hex_byte_hex) (simp add: hex_byte_def)
qed

lemma decode_hex_to_hex: "decode_hex (to_hex_upper bs) = Some bs"
  by (simp add: decode_hex_def pairs_to_hex) (induction bs, simp_all add: decode_pair_hex)

end
