(* ===== verification/Migrate_Store.thy ===== *)
theory Migrate_Store
  imports Migrate_Value
begin

section \<open>A matterjs-server storage directory (src/server/src/migrate/store.rs)\<close>

text \<open>
  One namespace per subdirectory, in one of three layouts (a snapshot and a log, one file per key,
  one file), normalised into one map from context paths to keys and values. The file system is an
  argument: a tree of \<open>fs\<close>, in which a file has its bytes (or the error reading it) and its
  modification time, a directory its listing (or the error), in the order \<open>read_dir\<close> gives, and a
  link its target, since \<open>is_file\<close> follows links and \<open>DirEntry::file_type\<close> does not. Decompression
  and the text of a UTF-8 error are parameters. An error is the chain of messages of an
  \<open>anyhow::Error\<close>, outermost first.
\<close>

type_synonym err_chain = "string list"

definition with_context :: "string \<Rightarrow> err_chain + 'a \<Rightarrow> err_chain + 'a" where
  "with_context c r = map_err (Cons c) r"

definition io_err :: "string + 'a \<Rightarrow> err_chain + 'a" where
  "io_err r = map_err (\<lambda>e. [e]) r"

subsection \<open>The file system\<close>

datatype fs =
    FsFile (fs_bytes: "string + bytes") (fs_modified: "nat option")
  | FsDir "string + (string \<times> fs) list"
  | FsLink "fs option"

record store_lib = text_lib +
  gunzip :: "bytes \<Rightarrow> string + string"
  utf8_error :: "bytes \<Rightarrow> string"

fun fs_target :: "fs \<Rightarrow> fs option" where
  "fs_target (FsLink None) = None"
| "fs_target (FsLink (Some t)) = fs_target t"
| "fs_target t = Some t"

definition is_plain_file :: "fs \<Rightarrow> bool" where
  "is_plain_file t = (case t of FsFile _ _ \<Rightarrow> True | _ \<Rightarrow> False)"

definition is_plain_dir :: "fs \<Rightarrow> bool" where
  "is_plain_dir t = (case t of FsDir _ \<Rightarrow> True | _ \<Rightarrow> False)"

definition is_file :: "fs option \<Rightarrow> bool" where
  "is_file t = (case opt_bind t fs_target of Some u \<Rightarrow> is_plain_file u | None \<Rightarrow> False)"

definition is_dir :: "fs option \<Rightarrow> bool" where
  "is_dir t = (case opt_bind t fs_target of Some u \<Rightarrow> is_plain_dir u | None \<Rightarrow> False)"

definition fs_join :: "fs \<Rightarrow> string \<Rightarrow> fs option" where
  "fs_join dir name = (case fs_target dir of
     Some (FsDir (Inr es)) \<Rightarrow> map_of es name | _ \<Rightarrow> None)"

definition path_join :: "string \<Rightarrow> string \<Rightarrow> string" where
  "path_join path name =
     (if path = [] \<or> ends_with_char CHR ''/'' path then path @ name else path @ ''/'' @ name)"

definition no_such_file :: string where
  "no_such_file = ''No such file or directory (os error 2)''"

definition read_dir :: "fs option \<Rightarrow> string + (string \<times> fs) list" where
  "read_dir t = (case opt_bind t fs_target of
     Some (FsDir r) \<Rightarrow> r
   | Some _ \<Rightarrow> Inl ''Not a directory (os error 20)''
   | None \<Rightarrow> Inl no_such_file)"

definition fs_read :: "fs option \<Rightarrow> string + bytes" where
  "fs_read t = (case opt_bind t fs_target of
     Some (FsFile b _) \<Rightarrow> b
   | Some _ \<Rightarrow> Inl ''Is a directory (os error 21)''
   | None \<Rightarrow> Inl no_such_file)"

definition read_to_string :: "fs option \<Rightarrow> string + string" where
  "read_to_string t = bind_res (fs_read t) (\<lambda>b.
     ok_or ''stream did not contain valid UTF-8'' (from_utf8 b))"

definition modified :: "fs option \<Rightarrow> nat option" where
  "modified t = (case opt_bind t fs_target of Some (FsFile _ m) \<Rightarrow> m | _ \<Rightarrow> None)"

subsection \<open>Drivers and namespaces\<close>

datatype driver = Wal | File | Json

definition driver_parse :: "string \<Rightarrow> driver option" where
  "driver_parse kind =
     (if kind = ''wal'' then Some Wal
      else if kind = ''file'' then Some File
      else if kind = ''json'' then Some Json
      else None)"

type_synonym contexts = "(string, (string, mj_value) btree) btree"

record namespace =
  mn_name :: string
  mn_driver :: driver
  mn_contexts :: contexts

definition namespace_context :: "namespace \<Rightarrow> string list \<Rightarrow> (string, mj_value) btree option" where
  "namespace_context ns path = bt_get (mn_contexts ns) (join_with ''.'' path)"

definition namespace_get :: "namespace \<Rightarrow> string list \<Rightarrow> string \<Rightarrow> mj_value option" where
  "namespace_get ns path key = opt_bind (bt_get (mn_contexts ns) (join_with ''.'' path)) (\<lambda>c. bt_get c key)"

definition child_prefix :: "string list \<Rightarrow> string" where
  "child_prefix path = (if path = [] then [] else join_with ''.'' path @ ''.'')"

definition child_name :: "string \<Rightarrow> string \<Rightarrow> string option" where
  "child_name prefix path =
     opt_bind (strip_prefix prefix path) (\<lambda>rest.
       if prefix = [] \<and> path = [] then None else Some (hd (split_on CHR ''.'' rest)))"

definition child_contexts :: "namespace \<Rightarrow> string list \<Rightarrow> string list" where
  "child_contexts ns path =
     dedup_sorted (filter (\<lambda>name. name \<noteq> [])
       (filter_map (child_name (child_prefix path)) (bt_keys (mn_contexts ns))))"

definition namespace_is_empty :: "namespace \<Rightarrow> bool" where
  "namespace_is_empty ns = list_all (\<lambda>c. c = []) (bt_values (mn_contexts ns))"

subsection \<open>Which driver\<close>

definition is_reserved :: "string \<Rightarrow> bool" where
  "is_reserved name = (name \<in> {''driver.json'', ''matter.lock'', ''matter.pid''})"

definition read_descriptor_kind :: "store_lib \<Rightarrow> string \<Rightarrow> fs \<Rightarrow> err_chain + string option" where
  "read_descriptor_kind L path dir =
     (let descriptor = path_join path ''driver.json''; file = fs_join dir ''driver.json'' in
      if \<not> is_file file then Inr None
      else bind_res (with_context (''reading '' @ descriptor) (io_err (read_to_string file))) (\<lambda>txt.
           bind_res (with_context (''parsing '' @ descriptor) (io_err (parse_json L txt))) (\<lambda>parsed.
             if opt_bind (jget parsed ''type'') as_str = Some ''blob'' then Inr (Some ''blob'')
             else Inr (opt_bind (jget parsed ''kind'') as_str))))"

definition detect_driver :: "store_lib \<Rightarrow> string \<Rightarrow> fs \<Rightarrow> err_chain + driver option option" where
  "detect_driver L path dir =
     bind_res (read_descriptor_kind L path dir) (\<lambda>k. case k of
       Some kind \<Rightarrow> Inr (Some (driver_parse kind))
     | None \<Rightarrow>
         if is_dir (fs_join dir ''wal'') \<or> is_file (fs_join dir ''snapshot.json.gz'')
            \<or> is_file (fs_join dir ''snapshot.json'') then Inr (Some (Some Wal))
         else if is_file (fs_join dir ''storage.json'') then Inr (Some (Some Json))
         else bind_res (with_context (''listing '' @ path) (io_err (read_dir (Some dir)))) (\<lambda>es.
           Inr (if list_ex (\<lambda>(name, t). is_plain_file t \<and> \<not> is_reserved name) es
                then Some (Some File) else None)))"

subsection \<open>The \<open>json\<close> layout\<close>

definition ctx_entry :: "string \<Rightarrow> contexts \<Rightarrow> (string, mj_value) btree" where
  "ctx_entry key cs = unwrap_or (bt_get cs key) []"

definition store_values :: "'z text_lib_scheme \<Rightarrow> string \<Rightarrow> (string, json) btree \<Rightarrow> contexts \<Rightarrow> contexts" where
  "store_values L key values cs =
     bt_insert key (bt_extend (ctx_entry key cs) (map (\<lambda>(k, v). (k, mj_from_json L v)) values)) cs"

definition store_data :: "'z text_lib_scheme \<Rightarrow> json \<Rightarrow> contexts" where
  "store_data L raw = (case as_object raw of
       None \<Rightarrow> []
     | Some members \<Rightarrow> fold (\<lambda>(context, v) cs. case as_object v of
           None \<Rightarrow> cs
         | Some values \<Rightarrow> store_values L context values cs) members [])"

definition read_json :: "store_lib \<Rightarrow> string \<Rightarrow> fs \<Rightarrow> err_chain + contexts" where
  "read_json L path dir =
     (let file = path_join path ''storage.json'' in
      bind_res (with_context (''reading '' @ file) (io_err (read_to_string (fs_join dir ''storage.json'')))) (\<lambda>txt.
      bind_res (with_context (''parsing '' @ file) (io_err (parse_json L txt))) (\<lambda>raw.
        Inr (store_data L raw))))"

subsection \<open>The \<open>file\<close> layout\<close>

fun percent_bytes :: "string \<Rightarrow> bytes option" where
  "percent_bytes [] = Some []"
| "percent_bytes (c # cs) =
     (if c = CHR ''%'' \<and> 2 \<le> length cs then
        (if \<not> utf8_ok (map byte_of (take 2 cs)) then None
         else (case parse_hex_byte (take 2 cs) of
             Some b \<Rightarrow> map_option (Cons b) (percent_bytes (drop 2 cs))
           | None \<Rightarrow> map_option (Cons (of_nat (byte_of c))) (percent_bytes cs)))
      else map_option (Cons (of_nat (byte_of c))) (percent_bytes cs))"

definition percent_decode :: "store_lib \<Rightarrow> string \<Rightarrow> err_chain + string" where
  "percent_decode L name = (case percent_bytes name of
       None \<Rightarrow> Inl [utf8_error L (bytes_of_str name)]
     | Some out \<Rightarrow> with_context (''decoding the storage filename '' @ quoted name)
         (ok_or [utf8_error L out] (from_utf8 out)))"

fun read_file_entries :: "store_lib \<Rightarrow> string \<Rightarrow> (string \<times> fs) list \<Rightarrow> contexts \<Rightarrow> err_chain + contexts" where
  "read_file_entries L path [] cs = Inr cs"
| "read_file_entries L path ((raw_name, t) # es) cs =
     (if \<not> is_plain_file t \<or> is_reserved raw_name \<or> ends_with ''.tmp'' raw_name
      then read_file_entries L path es cs
      else bind_res (percent_decode L raw_name) (\<lambda>decoded.
        let parts = split_on CHR ''.'' decoded; key = last parts; context = join_with ''.'' (butlast parts) in
        bind_res (with_context (''reading '' @ path_join path raw_name) (io_err (read_to_string (Some t)))) (\<lambda>txt.
          case mj_from_json_str L txt of
            Inl _ \<Rightarrow> read_file_entries L path es cs
          | Inr v \<Rightarrow> read_file_entries L path es
              (bt_insert context (bt_insert key v (ctx_entry context cs)) cs))))"

definition read_files :: "store_lib \<Rightarrow> string \<Rightarrow> fs \<Rightarrow> err_chain + contexts" where
  "read_files L path dir = bind_res (io_err (read_dir (Some dir))) (\<lambda>es. read_file_entries L path es [])"

subsection \<open>The \<open>wal\<close> layout\<close>

text \<open>A position in the log: the segment and the line within it, in lexicographic order.\<close>

type_synonym commit_id = "nat \<times> nat"

definition at_or_before :: "commit_id \<Rightarrow> commit_id \<Rightarrow> bool" where
  "at_or_before p q = (fst p < fst q \<or> fst p = fst q \<and> snd p \<le> snd q)"

record snapshot =
  sn_contexts :: contexts
  sn_commit :: "commit_id option"

definition read_maybe_gzipped :: "store_lib \<Rightarrow> string \<Rightarrow> fs option \<Rightarrow> err_chain + string" where
  "read_maybe_gzipped L path t =
     bind_res (with_context (''reading '' @ path) (io_err (fs_read t))) (\<lambda>b.
       if take 2 b = [0x1f, 0x8b] then with_context (''decompressing '' @ path) (io_err (gunzip L b))
       else with_context (path @ '' is not UTF-8'') (ok_or [utf8_error L b] (from_utf8 b)))"

definition read_lines :: "store_lib \<Rightarrow> string \<Rightarrow> fs option \<Rightarrow> err_chain + string list" where
  "read_lines L path t = map_res (split_on CHR 0x0A) (read_maybe_gzipped L path t)"

definition newer :: "fs option \<Rightarrow> fs option \<Rightarrow> bool" where
  "newer a b = (case (modified a, modified b) of (Some x, Some y) \<Rightarrow> y \<le> x | _ \<Rightarrow> True)"

definition snapshot_source :: "fs \<Rightarrow> string option" where
  "snapshot_source dir =
     (let gz = ''snapshot.json.gz''; plain = ''snapshot.json'' in
      case (is_file (fs_join dir gz), is_file (fs_join dir plain)) of
        (True, True) \<Rightarrow> Some (if newer (fs_join dir gz) (fs_join dir plain) then gz else plain)
      | (True, False) \<Rightarrow> Some gz
      | (False, True) \<Rightarrow> Some plain
      | (False, False) \<Rightarrow> None)"

definition snapshot_commit :: "json \<Rightarrow> commit_id option" where
  "snapshot_commit raw =
     opt_bind (jget raw ''commitId'') (\<lambda>i.
     opt_bind (opt_bind (jget i ''segment'') as_u64) (\<lambda>seg.
     opt_bind (jget i ''offset'') (\<lambda>off. Some (unat seg, unat (unwrap_or (as_u64 off) 0)))))"

definition read_snapshot :: "store_lib \<Rightarrow> string \<Rightarrow> fs \<Rightarrow> err_chain + snapshot option" where
  "read_snapshot L path dir = (case snapshot_source dir of
       None \<Rightarrow> Inr None
     | Some name \<Rightarrow>
         let source = path_join path name in
         bind_res (read_maybe_gzipped L source (fs_join dir name)) (\<lambda>txt.
         bind_res (with_context (''parsing the snapshot '' @ source) (io_err (parse_json L txt))) (\<lambda>raw.
         bind_res (ok_or [''the snapshot '' @ source @ '' has no data''] (jget raw ''data'')) (\<lambda>data.
           Inr (Some \<lparr>sn_contexts = store_data L data, sn_commit = snapshot_commit raw\<rparr>)))))"

definition segment_digits :: "string \<Rightarrow> (string \<times> bool) option" where
  "segment_digits name = (case strip_suffix ''.jsonl.gz'' name of
       Some digits \<Rightarrow> Some (digits, True)
     | None \<Rightarrow> map_option (\<lambda>digits. (digits, False)) (strip_suffix ''.jsonl'' name))"

fun add_segments :: "string \<Rightarrow> (string \<times> fs) list \<Rightarrow> (nat, string \<times> fs) btree
    \<Rightarrow> err_chain + (nat, string \<times> fs) btree" where
  "add_segments path [] segs = Inr segs"
| "add_segments path ((name, t) # es) segs =
     (if \<not> is_plain_file t then add_segments path es segs
      else case segment_digits name of
        None \<Rightarrow> add_segments path es segs
      | Some (digits, compressed) \<Rightarrow>
          if length digits \<noteq> 8 \<or> \<not> list_all is_hexdigit digits then add_segments path es segs
          else bind_res (ok_or [''invalid digit found in string''] (parse_uint 16 u64_max digits)) (\<lambda>segment.
            add_segments path es
              (if compressed \<or> \<not> bt_contains segs segment
               then bt_insert segment (path_join path name, t) segs else segs)))"

definition wal_segments :: "string \<Rightarrow> fs option \<Rightarrow> err_chain + (nat, string \<times> fs) btree" where
  "wal_segments path dir = bind_res (io_err (read_dir dir)) (\<lambda>es. add_segments path es [])"

definition apply_op :: "'z text_lib_scheme \<Rightarrow> json \<Rightarrow> contexts \<Rightarrow> contexts" where
  "apply_op L op cs =
     (let kind = opt_bind (jget op ''op'') as_str;
          key = unwrap_or (opt_bind (jget op ''key'') as_str) []
      in if kind = Some ''upd'' then
           (case opt_bind (jget op ''values'') as_object of
              None \<Rightarrow> cs
            | Some values \<Rightarrow> store_values L key values cs)
         else if kind = Some ''del'' then
           (case opt_bind (jget op ''values'') as_array of
              Some names \<Rightarrow> bt_update key (\<lambda>c. fold bt_remove (filter_map as_str names) c) cs
            | None \<Rightarrow>
                if key = [] then []
                else bt_retain (\<lambda>path _. \<not> starts_with (key @ ''.'') path) (bt_remove key cs))
         else cs)"

text \<open>A line that is not JSON, or that holds no operations, changes nothing; no line is an error.\<close>

definition commit_ops :: "'z text_lib_scheme \<Rightarrow> string \<Rightarrow> json list" where
  "commit_ops L line = (case parse_json L line of
       Inl _ \<Rightarrow> []
     | Inr commit \<Rightarrow> unwrap_or (as_array (unwrap_or (jget commit ''ops'') commit)) [])"

definition apply_commit :: "'z text_lib_scheme \<Rightarrow> string \<Rightarrow> contexts \<Rightarrow> contexts" where
  "apply_commit L line cs = fold (apply_op L) (commit_ops L line) cs"

definition replay_line ::
  "'z text_lib_scheme \<Rightarrow> commit_id option \<Rightarrow> commit_id \<Rightarrow> string \<Rightarrow> contexts \<Rightarrow> contexts" where
  "replay_line L after pos line cs =
     (if (case after of None \<Rightarrow> False | Some snap \<Rightarrow> at_or_before pos snap) then cs
      else if trim line = [] then cs
      else apply_commit L line cs)"

fun replay_segments :: "store_lib \<Rightarrow> commit_id option \<Rightarrow> (nat \<times> string \<times> fs) list \<Rightarrow> contexts
    \<Rightarrow> err_chain + contexts" where
  "replay_segments L after [] cs = Inr cs"
| "replay_segments L after ((segment, path, t) # segs) cs =
     bind_res (read_lines L path (Some t)) (\<lambda>ls.
       replay_segments L after segs
         (fold (\<lambda>(offset, line). replay_line L after (segment, offset) line)
           (List.enumerate 0 ls) cs))"

definition read_wal :: "store_lib \<Rightarrow> string \<Rightarrow> fs \<Rightarrow> err_chain + contexts" where
  "read_wal L path dir =
     bind_res (read_snapshot L path dir) (\<lambda>snap.
       let (cs, after) = (case snap of None \<Rightarrow> ([], None) | Some s \<Rightarrow> (sn_contexts s, sn_commit s));
           wal = fs_join dir ''wal''
       in if is_dir wal
          then bind_res (wal_segments (path_join path ''wal'') wal) (\<lambda>segs. replay_segments L after segs cs)
          else Inr cs)"

subsection \<open>The storage directory\<close>

datatype loaded = LoadedNamespace namespace | Unsupported string

record mj_storage =
  ms_root :: string
  ms_namespaces :: "(string, loaded) btree"

definition read_driver :: "store_lib \<Rightarrow> driver \<Rightarrow> string \<Rightarrow> fs \<Rightarrow> err_chain + contexts" where
  "read_driver L d path dir = (case d of
     Wal \<Rightarrow> read_wal L path dir | File \<Rightarrow> read_files L path dir | Json \<Rightarrow> read_json L path dir)"

fun open_entries :: "store_lib \<Rightarrow> string \<Rightarrow> (string \<times> fs) list \<Rightarrow> (string, loaded) btree
    \<Rightarrow> err_chain + (string, loaded) btree" where
  "open_entries L base [] ns = Inr ns"
| "open_entries L base ((name, dir) # es) ns =
     (if \<not> is_plain_dir dir then open_entries L base es ns
      else let path = path_join base name in
        bind_res (detect_driver L path dir) (\<lambda>found. case found of
            None \<Rightarrow> open_entries L base es ns
          | Some (Some driver) \<Rightarrow>
              bind_res (with_context (''reading the '' @ quoted name @ '' namespace at '' @ path)
                          (read_driver L driver path dir)) (\<lambda>contexts.
                open_entries L base es (bt_insert name
                  (LoadedNamespace \<lparr>mn_name = name, mn_driver = driver, mn_contexts = contexts\<rparr>) ns))
          | Some None \<Rightarrow>
              bind_res (read_descriptor_kind L path dir) (\<lambda>kind.
                open_entries L base es (bt_insert name (Unsupported (unwrap_or kind ''unknown'')) ns))))"

definition storage_open :: "store_lib \<Rightarrow> string \<Rightarrow> fs option \<Rightarrow> err_chain + mj_storage" where
  "storage_open L base t =
     (if \<not> is_dir t then Inl [quoted base @ '' is not a directory; point --import-matterjs at matterjs-server's --storage-path (the directory holding 'config' and 'server')'']
      else bind_res (with_context (''listing '' @ base) (io_err (read_dir t))) (\<lambda>es.
        map_res (\<lambda>ns. \<lparr>ms_root = base, ms_namespaces = ns\<rparr>) (open_entries L base es [])))"

definition storage_namespace :: "mj_storage \<Rightarrow> string \<Rightarrow> err_chain + namespace" where
  "storage_namespace st name = (case bt_get (ms_namespaces st) name of
       Some (LoadedNamespace ns) \<Rightarrow> Inr ns
     | Some (Unsupported driver) \<Rightarrow> Inl [''the '' @ quoted name @ '' namespace in '' @ ms_root st
         @ '' was written by matter.js's '' @ quoted driver
         @ '' storage driver, which this importer cannot read. Start matterjs-server once with MATTER_STORAGE_DRIVER=wal to convert it, then import again'']
     | None \<Rightarrow> Inl [''no '' @ quoted name @ '' namespace in '' @ ms_root st
         @ ''. Point --import-matterjs at matterjs-server's --storage-path (the directory holding 'config' and 'server')''])"

definition has_namespace :: "mj_storage \<Rightarrow> string \<Rightarrow> bool" where
  "has_namespace st name = (case bt_get (ms_namespaces st) name of
     Some (LoadedNamespace _) \<Rightarrow> True | _ \<Rightarrow> False)"

definition namespace_names :: "mj_storage \<Rightarrow> string list" where
  "namespace_names st = bt_keys (ms_namespaces st)"

subsection \<open>What the operations of the log mean\<close>

text \<open>The abstract store: a context either does not exist or is a partial map.\<close>

type_synonym store_view = "string \<Rightarrow> (string \<Rightarrow> mj_value option) option"

definition view :: "contexts \<Rightarrow> store_view" where
  "view cs path = map_option bt_get (bt_get cs path)"

definition contexts_ok :: "contexts \<Rightarrow> bool" where
  "contexts_ok cs = (bt_ok cs \<and> (\<forall>c \<in> set (bt_values cs). bt_ok c))"

datatype log_op =
    Upd string "string \<Rightarrow> mj_value option"
  | DelKeys string "string set"
  | DelTree string
  | Nop

definition beneath :: "string \<Rightarrow> string \<Rightarrow> bool" where
  "beneath k path = (k = [] \<or> path = k \<or> starts_with (k @ ''.'') path)"

fun log_step :: "log_op \<Rightarrow> store_view \<Rightarrow> store_view" where
  "log_step (Upd k m) v = v(k \<mapsto> unwrap_or (v k) Map.empty ++ m)"
| "log_step (DelKeys k names) v = v(k := map_option (\<lambda>c. c |` (- names)) (v k))"
| "log_step (DelTree k) v = (\<lambda>path. if beneath k path then None else v path)"
| "log_step Nop v = v"

definition log_op_of :: "'z text_lib_scheme \<Rightarrow> json \<Rightarrow> log_op" where
  "log_op_of L op =
     (let key = unwrap_or (opt_bind (jget op ''key'') as_str) []; values = jget op ''values'' in
      if jget op ''op'' = Some (JStr ''upd'') then
        (case values of
           Some (JObj m) \<Rightarrow> Upd key (map_option (mj_from_json L) \<circ> map_of (rev m))
         | _ \<Rightarrow> Nop)
      else if jget op ''op'' = Some (JStr ''del'') then
        (case values of
           Some (JArr names) \<Rightarrow> DelKeys key {name. JStr name \<in> set names}
         | _ \<Rightarrow> DelTree key)
      else Nop)"

lemma contexts_ok_get: "contexts_ok cs \<Longrightarrow> bt_get cs k = Some c \<Longrightarrow> bt_ok c"
  using bt_get_in [of cs k c] by (force simp: contexts_ok_def bt_values_def)

lemma bt_values_mem: "bt_ok cs \<Longrightarrow> c \<in> set (bt_values cs) \<longleftrightarrow> (\<exists>k. bt_get cs k = Some c)"
  using bt_get_iff [of cs] by (force simp: bt_values_def)

lemma contexts_ok_iff: "contexts_ok cs \<longleftrightarrow> bt_ok cs \<and> (\<forall>k c. bt_get cs k = Some c \<longrightarrow> bt_ok c)"
  using bt_values_mem [of cs] unfolding contexts_ok_def by blast

lemma ctx_entry_ok: "contexts_ok cs \<Longrightarrow> bt_ok (ctx_entry k cs)"
  using contexts_ok_get [of cs k] by (cases "bt_get cs k") (simp_all add: ctx_entry_def)

lemma contexts_ok_insert: "contexts_ok cs \<Longrightarrow> bt_ok c \<Longrightarrow> contexts_ok (bt_insert k c cs)"
  by (simp add: contexts_ok_iff bt_ok_insert bt_get_insert_raw)

lemma view_insert: "contexts_ok cs \<Longrightarrow> view (bt_insert k c cs) = (view cs)(k \<mapsto> bt_get c)"
  by (simp add: view_def bt_get_insert_raw fun_eq_iff)

lemma unwrap_view: "unwrap_or (view cs k) Map.empty = bt_get (ctx_entry k cs)"
  by (cases "bt_get cs k") (simp_all add: view_def ctx_entry_def bt_get_def fun_eq_iff)

lemma map_of_rev_values:
  "map_of (rev (map (\<lambda>(k, v). (k, f v)) m)) = map_option f \<circ> map_of (rev m)"
  by (simp add: rev_map map_of_map)

lemma store_values_spec:
  assumes "contexts_ok cs"
  shows "contexts_ok (store_values L k m cs)"
    and "view (store_values L k m cs) = log_step (Upd k (map_option (mj_from_json L) \<circ> map_of (rev m))) (view cs)"
proof -
  let ?c = "bt_extend (ctx_entry k cs) (map (\<lambda>(k, v). (k, mj_from_json L v)) m)"
  have ok: "bt_ok ?c" by (simp add: ctx_entry_ok [OF assms])
  show "contexts_ok (store_values L k m cs)"
    unfolding store_values_def by (rule contexts_ok_insert [OF assms ok])
  have "bt_get ?c = bt_get (ctx_entry k cs) ++ (map_option (mj_from_json L) \<circ> map_of (rev m))"
    by (simp add: bt_get_extend [OF ctx_entry_ok [OF assms]] map_of_rev_values)
  then show "view (store_values L k m cs) = log_step (Upd k (map_option (mj_from_json L) \<circ> map_of (rev m))) (view cs)"
    by (simp add: store_values_def view_insert [OF assms] unwrap_view)
qed

lemma bt_ok_removes: "bt_ok c \<Longrightarrow> bt_ok (fold bt_remove ks c)"
  by (induction ks arbitrary: c) (simp_all add: bt_ok_remove)

lemma bt_get_removes: "bt_get (fold bt_remove ks c) = bt_get c |` (- set ks)"
  by (induction ks arbitrary: c) (auto simp: bt_get_remove restrict_map_def fun_eq_iff)

lemma delete_keys_spec:
  assumes "contexts_ok cs"
  shows "contexts_ok (bt_update k (\<lambda>c. fold bt_remove ks c) cs)"
    and "view (bt_update k (\<lambda>c. fold bt_remove ks c) cs) = log_step (DelKeys k (set ks)) (view cs)"
proof -
  show "contexts_ok (bt_update k (\<lambda>c. fold bt_remove ks c) cs)"
    using assms by (auto simp: contexts_ok_iff bt_get_update bt_ok_removes)
  show "view (bt_update k (\<lambda>c. fold bt_remove ks c) cs) = log_step (DelKeys k (set ks)) (view cs)"
    by (rule ext) (simp add: view_def bt_get_update option.map_comp comp_def bt_get_removes)
qed

definition delete_tree :: "string \<Rightarrow> contexts \<Rightarrow> contexts" where
  "delete_tree k cs = (if k = [] then []
     else bt_retain (\<lambda>path _. \<not> starts_with (k @ ''.'') path) (bt_remove k cs))"

lemma delete_tree_spec:
  assumes "contexts_ok cs"
  shows "contexts_ok (delete_tree k cs)" and "view (delete_tree k cs) = log_step (DelTree k) (view cs)"
proof -
  have ok: "bt_ok cs" using assms by (simp add: contexts_ok_iff)
  have get: "bt_get (delete_tree k cs) path = (if beneath k path then None else bt_get cs path)" for path
    using ok by (simp add: delete_tree_def beneath_def bt_get_retain bt_ok_remove bt_get_remove
        bt_get_def [of "[]"] opt_filter_def split: option.splits)
  show "contexts_ok (delete_tree k cs)"
    using assms ok by (simp add: contexts_ok_iff get) (simp add: delete_tree_def bt_ok_retain bt_ok_remove)
  show "view (delete_tree k cs) = log_step (DelTree k) (view cs)"
    by (simp add: view_def get fun_eq_iff)
qed

lemma bind_as_str: "opt_bind x as_str = Some s \<longleftrightarrow> x = Some (JStr s)"
  by (simp add: bind_eq_Some_conv as_str_Some)

lemma filter_map_strs: "set (filter_map as_str names) = {name. JStr name \<in> set names}"
  by (auto simp: as_str_Some)

text \<open>The bridge from the parsed operation to the function it performs.\<close>

lemma apply_op_cases:
  "apply_op L op cs =
    (case log_op_of L op of
       Upd k _ \<Rightarrow> store_values L k (the (opt_bind (jget op ''values'') as_object)) cs
     | DelKeys k _ \<Rightarrow> bt_update k (\<lambda>c. fold bt_remove
         (filter_map as_str (the (opt_bind (jget op ''values'') as_array))) c) cs
     | DelTree k \<Rightarrow> delete_tree k cs
     | Nop \<Rightarrow> cs)"
  unfolding apply_op_def log_op_of_def delete_tree_def Let_def bind_as_str
  by (cases "jget op ''values''") (auto split: json.split)

lemma apply_op_refines:
  assumes "contexts_ok cs"
  shows "contexts_ok (apply_op L op cs) \<and> view (apply_op L op cs) = log_step (log_op_of L op) (view cs)"
proof (cases "log_op_of L op")
  case (Upd k m)
  then obtain vs where "jget op ''values'' = Some (JObj vs)" "m = map_option (mj_from_json L) \<circ> map_of (rev vs)"
    by (auto simp: log_op_of_def Let_def split: if_splits option.splits json.splits)
  with Upd store_values_spec [OF assms, of L] show ?thesis by (simp add: apply_op_cases)
next
  case (DelKeys k ns)
  then obtain names where "jget op ''values'' = Some (JArr names)" "ns = {name. JStr name \<in> set names}"
    by (auto simp: log_op_of_def Let_def split: if_splits option.splits json.splits)
  with DelKeys delete_keys_spec [OF assms] show ?thesis
    by (simp add: apply_op_cases filter_map_strs [symmetric] del: set_filter_map)
qed (simp_all add: apply_op_cases delete_tree_spec assms del: log_step.simps(3))

text \<open>C21: Applying a commit refines the abstract log: every operation of the line, in order, adds the named keys
  to its context, removes them from it, or removes a context with everything beneath it, and
  changes nothing else; a malformed line is no operation.\<close>
theorem commit_refines_log:
  assumes "contexts_ok cs"
  shows "view (apply_commit L line cs) = fold (\<lambda>op. log_step (log_op_of L op)) (commit_ops L line) (view cs)
    \<and> contexts_ok (apply_commit L line cs)"
proof -
  have "contexts_ok (fold (apply_op L) ops cs)
      \<and> view (fold (apply_op L) ops cs) = fold (\<lambda>op. log_step (log_op_of L op)) ops (view cs)" for ops
    using assms by (induction ops arbitrary: cs) (simp_all add: apply_op_refines)
  then show ?thesis by (simp add: apply_commit_def)
qed

text \<open>A reader of a few known documents, for concrete inputs.\<close>

definition documents :: "(string \<times> json) list \<Rightarrow> store_lib" where
  "documents ds = \<lparr>parse_json = (\<lambda>s. ok_or ''expected value'' (map_of ds s)),
     show_float = (\<lambda>_. []), parse_f64 = (\<lambda>_. None), gunzip = (\<lambda>_. Inl ''corrupt gzip stream''),
     utf8_error = (\<lambda>_. ''invalid utf-8 sequence'')\<rparr>"

definition drop_peers :: json where
  "drop_peers = JArr [jobj [(''op'', JStr ''del''), (''key'', JStr ''nodes'')]]"

theorem commit_refines_log_witness:
  "view (apply_commit (documents [(''L'', drop_peers)]) ''L''
      [(''nodes'', []), (''nodes.peer1'', []), (''nodes2'', [])]) ''nodes2'' = Some Map.empty"
proof -
  let ?cs = "[(''nodes'', []), (''nodes.peer1'', []), (''nodes2'', [])] :: contexts"
  have ok: "contexts_ok ?cs" 
  proof -
    have "sorted_wrt (<) [''nodes'', ''nodes.peer1'', ''nodes2'']" by code_simp
    then show ?thesis by (simp add: contexts_ok_def bt_ok_def bt_values_def)
  qed
  have ops: "commit_ops (documents [(''L'', drop_peers)]) ''L''
      = [jobj [(''op'', JStr ''del''), (''key'', JStr ''nodes'')]]"
    by (simp add: commit_ops_def documents_def drop_peers_def)
  have op: "log_op_of L (jobj [(''op'', JStr ''del''), (''key'', JStr ''nodes'')]) = DelTree ''nodes''"
    for L :: store_lib
    by (simp add: log_op_of_def jget_jobj)
  show ?thesis
    using commit_refines_log [OF ok, of "documents [(''L'', drop_peers)]" "''L''"]
    by (simp add: ops op beneath_def starts_with_def view_def bt_get_def fun_eq_iff)
qed

subsection \<open>Replaying the log on a snapshot\<close>

text \<open>The log with the position of every line, blank ones included.\<close>

definition segment_log :: "nat \<Rightarrow> string list \<Rightarrow> (commit_id \<times> string) list" where
  "segment_log seg ls = map (\<lambda>(offset, line). ((seg, offset), line)) (List.enumerate 0 ls)"

fun read_log :: "store_lib \<Rightarrow> (nat \<times> string \<times> fs) list \<Rightarrow> err_chain + (commit_id \<times> string) list" where
  "read_log L [] = Inr []"
| "read_log L ((seg, path, t) # segs) =
     bind_res (read_lines L path (Some t)) (\<lambda>ls. map_res (\<lambda>hist. segment_log seg ls @ hist) (read_log L segs))"

definition replay :: "'z text_lib_scheme \<Rightarrow> commit_id option \<Rightarrow> (commit_id \<times> string) list \<Rightarrow> contexts \<Rightarrow> contexts" where
  "replay L after = fold (\<lambda>(pos, line). replay_line L after pos line)"

lemma replay_append: "replay L a (xs @ ys) cs = replay L a ys (replay L a xs cs)"
  by (simp add: replay_def)

lemma replay_segments_log:
  "replay_segments L after segs cs = map_res (\<lambda>hist. replay L after hist cs) (read_log L segs)"
proof (induction segs arbitrary: cs)
  case (Cons x segs)
  obtain seg path t where x: "x = (seg, path, t)" by (cases x)
  have "fold (\<lambda>(offset, line). replay_line L after (seg, offset) line) (List.enumerate 0 ls) cs
      = replay L after (segment_log seg ls) cs" for ls
    by (simp add: replay_def segment_log_def fold_map comp_def case_prod_beta')
  then show ?case
    by (cases "read_lines L path (Some t)"; cases "read_log L segs") (simp_all add: x Cons replay_append)
qed (simp add: replay_def)

definition covered :: "commit_id \<Rightarrow> commit_id \<times> string \<Rightarrow> bool" where
  "covered snap e = at_or_before (fst e) snap"

lemma replay_covered: "replay L (Some snap) hist cs = replay L None (filter (\<lambda>e. \<not> covered snap e) hist) cs"
  by (induction hist arbitrary: cs) (auto simp: replay_def replay_line_def covered_def)

text \<open>Positions grow along the log, so what a snapshot covers is a prefix of it.\<close>

definition log_sorted :: "(commit_id \<times> string) list \<Rightarrow> bool" where
  "log_sorted hist = sorted_wrt (\<lambda>a b. at_or_before (fst a) (fst b)) hist"

lemma segment_log_fst: "e \<in> set (segment_log seg ls) \<Longrightarrow> fst (fst e) = seg"
  by (auto simp: segment_log_def)

lemma segment_log_sorted: "log_sorted (segment_log seg ls)"
  by (auto simp: log_sorted_def segment_log_def sorted_wrt_map at_or_before_def sorted_wrt_iff_nth_less
      nth_enumerate_eq)

lemma read_log_segments: "read_log L segs = Inr hist \<Longrightarrow> e \<in> set hist \<Longrightarrow> fst (fst e) \<in> fst ` set segs"
proof (induction segs arbitrary: hist)
  case (Cons x segs)
  then show ?case
    by (cases x) (auto simp: res_simps dest: segment_log_fst)
qed simp

lemma read_log_sorted: "bt_ok segs \<Longrightarrow> read_log L segs = Inr hist \<Longrightarrow> log_sorted hist"
proof (induction L segs arbitrary: hist rule: read_log.induct)
  case (2 L seg path t segs)
  then obtain ls rest where l: "hist = segment_log seg ls @ rest" and r: "read_log L segs = Inr rest"
    and rl: "read_lines L path (Some t) = Inr ls"
    by (auto simp: res_simps)
  have "log_sorted rest" using 2 rl r by (simp add: bt_ok_Cons)
  moreover have "fst (fst a) < fst (fst b)" if "a \<in> set (segment_log seg ls)" "b \<in> set rest" for a b
    using segment_log_fst [OF that(1)] read_log_segments [OF r that(2)] "2.prems"(1)
    by (auto simp add: bt_ok_Cons)
  ultimately show ?case
    using segment_log_sorted [of seg ls]
    unfolding l log_sorted_def sorted_wrt_append by (simp add: at_or_before_def)
qed (simp add: log_sorted_def)

lemma at_or_before_trans: "at_or_before p q \<Longrightarrow> at_or_before q r \<Longrightarrow> at_or_before p r"
  by (auto simp: at_or_before_def)

lemma covered_prefix:
  assumes "log_sorted hist"
  shows "hist = filter (covered snap) hist @ filter (\<lambda>e. \<not> covered snap e) hist"
  using assms
proof (induction hist)
  case (Cons e hist)
  then have s: "log_sorted hist" and b: "\<And>x. x \<in> set hist \<Longrightarrow> at_or_before (fst e) (fst x)"
    by (simp_all add: log_sorted_def)
  show ?case
  proof (cases "covered snap e")
    case False
    then have "\<not> covered snap x" if "x \<in> set hist" for x
      using b [OF that] at_or_before_trans unfolding covered_def by blast
    then have "filter (covered snap) hist = []" by (simp add: filter_empty_conv)
    then show ?thesis using False Cons.IH [OF s] by simp
  qed (use Cons.IH [OF s] in simp)
qed simp

lemma add_segments_ok: "bt_ok segs \<Longrightarrow> add_segments path es segs = Inr out \<Longrightarrow> bt_ok out"
proof (induction es arbitrary: segs)
  case (Cons e es)
  obtain name t where e: "e = (name, t)" by (cases e)
  show ?case
    using Cons.prems(2) by (auto simp: e res_simps split: if_splits option.splits
        intro: Cons.IH [OF Cons.prems(1)] Cons.IH [OF bt_ok_insert [OF Cons.prems(1)]])
qed simp

lemma wal_segments_ok: "wal_segments path dir = Inr segs \<Longrightarrow> bt_ok segs"
  by (auto simp: wal_segments_def res_simps intro: add_segments_ok [OF bt_ok_Nil])


definition touch :: "string \<Rightarrow> json" where
  "touch context = JArr [jobj [(''op'', JStr ''upd''), (''key'', JStr context), (''values'', JObj [])]]"

definition small_lib :: store_lib where
  "small_lib = documents
     [(''S'', jobj [(''commitId'', jobj [(''segment'', ju64 0), (''offset'', ju64 0)]),
                    (''data'', JObj [(''nodes'', JObj [])])]),
      (''A'', touch ''nodes''), (''B'', touch ''fabrics'')]"

definition small_dir :: fs where
  "small_dir = FsDir (Inr
     [(''snapshot.json'', FsFile (Inr [0x53]) None),
      (''wal'', FsDir (Inr [(''00000000.jsonl'', FsFile (Inr [0x41, 0x0A, 0x42]) None)]))])"

lemma small_files:
  "fs_join small_dir ''snapshot.json'' = Some (FsFile (Inr [0x53]) None)" "fs_join small_dir ''snapshot.json.gz'' = None"
  "fs_join small_dir ''wal'' = Some (FsDir (Inr [(''00000000.jsonl'', FsFile (Inr [0x41, 0x0A, 0x42]) None)]))"
  by (simp_all add: fs_join_def small_dir_def)

lemma small_texts:
  "from_utf8 [0x53] = Some ''S''" "from_utf8 [0x41, 0x0A, 0x42] = Some [CHR ''A'', CHR 0x0A, CHR ''B'']"
proof -
  have cs: "char_of (83 :: nat) = CHR ''S''" "char_of (65 :: nat) = CHR ''A''"
    "char_of (10 :: nat) = CHR 0x0A" "char_of (66 :: nat) = CHR ''B''"
    by code_simp+
  show "from_utf8 [0x53] = Some ''S''" "from_utf8 [0x41, 0x0A, 0x42] = Some [CHR ''A'', CHR 0x0A, CHR ''B'']"
    by (simp_all add: from_utf8_def str_of_bytes_def cs)
qed

lemma small_documents:
  "parse_json small_lib ''S'' = Inr (jobj [(''commitId'', jobj [(''segment'', ju64 0), (''offset'', ju64 0)]),
     (''data'', JObj [(''nodes'', JObj [])])])"
  "parse_json small_lib ''A'' = Inr (touch ''nodes'')" "parse_json small_lib ''B'' = Inr (touch ''fabrics'')"
  by (simp_all add: small_lib_def documents_def)

lemma small_snapshot:
  "read_snapshot small_lib ''s'' small_dir = Inr (Some \<lparr>sn_contexts = [(''nodes'', [])], sn_commit = Some (0, 0)\<rparr>)"
proof -
  have src: "snapshot_source small_dir = Some ''snapshot.json''"
    by (simp add: snapshot_source_def small_files is_file_def is_plain_file_def Let_def)
  show ?thesis
    by (simp add: read_snapshot_def src Let_def read_maybe_gzipped_def small_files fs_read_def io_err_def
        with_context_def small_texts small_documents jget_jobj snapshot_commit_def store_data_def store_values_def
        ctx_entry_def bt_get_def bt_extend_def)
qed


subsection \<open>File names\<close>

text \<open>\<open>encodeURIComponent\<close>, which matter.js names the files with: the unreserved characters stay, every
  other byte becomes a percent sign and two hexadecimal digits.\<close>

definition uri_unreserved :: "char \<Rightarrow> bool" where
  "uri_unreserved c = (is_alphanumeric c \<or> c \<in> set ''-_.!~*()'' \<or> c = CHR 0x27)"

definition uri_encode :: "string \<Rightarrow> string" where
  "uri_encode s = concat (map (\<lambda>c. if uri_unreserved c then [c] else CHR ''%'' # hex_byte (of_nat (byte_of c))) s)"

lemma percent_not_unreserved: "\<not> uri_unreserved CHR ''%''"
  by code_simp

lemma percent_bytes_encode: "percent_bytes (uri_encode s) = Some (bytes_of_str s)"
proof (induction s)
  case (Cons c s)
  let ?b = "of_nat (byte_of c) :: u8"
  show ?case
  proof (cases "uri_unreserved c")
    case True
    then have "c \<noteq> CHR ''%''" using percent_not_unreserved by metis
    then show ?thesis using Cons True by (simp add: uri_encode_def bytes_of_str_def)
  next
    case False
    have "utf8_ok (map byte_of (hex_byte ?b))"
      using decode_pair_hex [of ?b] by (simp add: decode_pair_def split: if_splits)
    moreover have "take 2 (hex_byte ?b @ t) = hex_byte ?b" "drop 2 (hex_byte ?b @ t) = t"
      "2 \<le> length (hex_byte ?b @ t)" for t
      by (simp_all add: hex_byte_def)
    ultimately show ?thesis
      using Cons False by (simp add: uri_encode_def bytes_of_str_def parse_hex_byte_hex)
  qed
qed (simp_all add: uri_encode_def bytes_of_str_def)

text \<open>The one-file-per-key layout is read back under the keys it was written with: decoding the percent
  encoding of any UTF-8 text gives that text.\<close>
theorem filename_roundtrip:
  assumes "utf8_ok (map byte_of s)"
  shows "percent_decode L (uri_encode s) = Inr s"
  using assms by (simp add: percent_decode_def percent_bytes_encode from_utf8_def unat_bytes_of_str
      with_context_def)

theorem filename_roundtrip_witness:
  "percent_decode small_lib ''nodes%2Fpeer1.endpoints'' = Inr ''nodes/peer1.endpoints''"
proof -
  have "utf8_ok (map byte_of ''nodes/peer1.endpoints'')" by code_simp
  moreover have "uri_encode ''nodes/peer1.endpoints'' = ''nodes%2Fpeer1.endpoints''" by code_simp
  ultimately show ?thesis using filename_roundtrip by metis
qed

end
