(* ===== verification/Migrate_Model.thy ===== *)
theory Migrate_Model
  imports Migrate_Store Node_Persist Config_Store
begin

section \<open>What an import takes out of the storage (src/server/src/migrate/model.rs, mod.rs)\<close>

text \<open>
  Extraction of the fabric, the nodes and the settings from a storage directory that has been
  read, and the step that writes nodes and settings into this server's stores. Every place a value
  has lived in is tried in the order of the source. The date formatting of \<open>chrono\<close>, the current
  time and the results of the writes are parameters.
\<close>

definition config_namespace :: string where "config_namespace = ''config''"
definition default_controller_namespace :: string where "default_controller_namespace = ''server''"
definition fabric_contexts :: "string list" where
  "fabric_contexts = [''credentials'', ''MatterController'', ''certificates'']"
definition ca_contexts :: "string list" where
  "ca_contexts = [''credentials'', ''certificates'', ''RootCertificateManager'']"
definition secret_key_len :: nat where "secret_key_len = 32"
definition epoch_key_len :: nat where "epoch_key_len = 16"

record imported_fabric =
  if_root_cert :: bytes
  if_noc :: bytes
  if_icac :: bytes
  if_operational_key :: bytes
  if_ipk_epoch_key :: bytes
  if_vendor_id :: u16
  if_node_id :: u64
  if_fabric_id :: u64
  if_fabric_index :: u8
  if_label :: string
  if_issuer_key :: bytes
  if_issuer_is_icac :: bool
  if_compressed_fabric_id :: "u64 option"

record import_node =
  in_node_id :: u64
  in_commissioned_at :: "u64 option"
  in_fabric_index_on_peer :: "u8 option"
  in_addresses :: "string list"

record imported_config =
  ic_fabric_label :: "string option"
  ic_next_node_id :: "u64 option"
  ic_wifi :: "(string \<times> string \<times> string) list"
  ic_thread :: "(string \<times> string) list"

definition imported_config_default :: imported_config where
  "imported_config_default = \<lparr>ic_fabric_label = None, ic_next_node_id = None, ic_wifi = [], ic_thread = []\<rparr>"

subsection \<open>The fabric\<close>

definition has_certificate :: "mj_value \<Rightarrow> bool" where
  "has_certificate fabric = (mj_get fabric ''operationalCert'' \<noteq> None)"

definition fabric_in_context :: "namespace \<Rightarrow> string \<Rightarrow> mj_value option" where
  "fabric_in_context ns context = opt_filter has_certificate (namespace_get ns [context] ''fabric'')"

fun first_some :: "('a \<Rightarrow> 'b option) \<Rightarrow> 'a list \<Rightarrow> 'b option" where
  "first_some f [] = None"
| "first_some f (x # xs) = opt_or (f x) (first_some f xs)"

definition fabric_config :: "namespace \<Rightarrow> mj_value option" where
  "fabric_config ns =
     opt_or (first_some (fabric_in_context ns) fabric_contexts)
       (opt_bind (namespace_get ns [''fabrics''] ''fabrics'') (\<lambda>v.
        opt_bind (mj_array v) (\<lambda>items. find has_certificate items)))"

definition find_controller_namespace :: "mj_storage \<Rightarrow> string option \<Rightarrow> err_chain + namespace" where
  "find_controller_namespace st requested =
     (let names = join_with '', '' (namespace_names st);
          holds = (\<lambda>ns. fabric_config ns \<noteq> None)
      in case requested of
        Some name \<Rightarrow> bind_res (storage_namespace st name) (\<lambda>ns.
          if \<not> holds ns then Inl [''the '' @ quoted name @ '' namespace holds no controller fabric. Namespaces present: '' @ names]
          else Inr ns)
      | None \<Rightarrow>
          let default = (if has_namespace st default_controller_namespace
                         then opt_filter holds (res_ok (storage_namespace st default_controller_namespace))
                         else None);
              candidates = filter holds (filter_map (\<lambda>n. res_ok (storage_namespace st n)) (namespace_names st))
          in case default of
               Some ns \<Rightarrow> Inr ns
             | None \<Rightarrow>
                 (case candidates of
                    [ns] \<Rightarrow> Inr ns
                  | [] \<Rightarrow> Inl [''no controller fabric found in any namespace ('' @ names
                      @ ''). Nothing was commissioned with this storage directory, or it belongs to a different application'']
                  | _ \<Rightarrow> Inl [''several namespaces hold a fabric ('' @ join_with '', '' (map mn_name candidates)
                      @ ''). This importer migrates one fabric; name the one to import with --import-matterjs-namespace'']))"

definition no_readable :: "string \<Rightarrow> err_chain" where
  "no_readable field = [''the stored fabric has no readable '' @ quoted field]"

definition required_bytes :: "mj_value \<Rightarrow> string \<Rightarrow> err_chain + bytes" where
  "required_bytes v field = ok_or (no_readable field) (opt_bind (mj_get v field) mj_bytes)"

definition required_u64 :: "mj_value \<Rightarrow> string \<Rightarrow> err_chain + u64" where
  "required_u64 v field = ok_or (no_readable field) (opt_bind (mj_get v field) mj_u64)"

definition private_key :: "mj_value \<Rightarrow> err_chain + bytes" where
  "private_key v =
     bind_res (case v of
         MjBytes b \<Rightarrow> Inr b
       | _ \<Rightarrow> ok_or [''no private key in the stored key pair''] (opt_bind (mj_get v ''privateKey'') mj_bytes)) (\<lambda>b.
       if length b \<noteq> secret_key_len
       then Inl [''a stored private key is '' @ show_nat (length b) @ '' bytes, expected '' @ show_nat secret_key_len]
       else Inr b)"

definition compressed_fabric_id :: "mj_value \<Rightarrow> u64 option" where
  "compressed_fabric_id fabric =
     opt_or (opt_bind (mj_get fabric ''globalId'') mj_u64)
       (opt_bind (opt_bind (mj_get fabric ''operationalId'') mj_bytes) (\<lambda>b.
          if length b = 8 then Some (word_rcat b) else None))"

definition read_issuer_key :: "namespace \<Rightarrow> bool \<Rightarrow> err_chain + bytes \<times> bool" where
  "read_issuer_key ns has_icac =
     (case find (\<lambda>c. namespace_get ns [c] ''rootCertBytes'' \<noteq> None) ca_contexts of
        None \<Rightarrow> Inl [''the '' @ quoted (mn_name ns) @ '' namespace holds a fabric but no certificate authority, so this server could not issue certificates to newly commissioned devices'']
      | Some c \<Rightarrow>
          if has_icac then
            (case namespace_get ns [c] ''icacKeyPair'' of
               Some pair \<Rightarrow> map_res (\<lambda>k. (k, True)) (with_context ''reading the intermediate CA key'' (private_key pair))
             | None \<Rightarrow> Inl [''the fabric's certificates run through an intermediate CA, but its private key is not in the ''
                 @ quoted (mn_name ns) @ '' storage. matterjs-server could not commission new devices with this storage either; the fabric has to be recreated''])
          else
            (case namespace_get ns [c] ''rootKeyPair'' of
               Some pair \<Rightarrow> map_res (\<lambda>k. (k, False)) (with_context ''reading the root CA key'' (private_key pair))
             | None \<Rightarrow> Inl [''the certificate authority in '' @ quoted (mn_name ns)
                 @ '' has no root key, so this server could not issue certificates to newly commissioned devices'']))"

text \<open>\<open>T::try_from\<close> of a 64-bit value.\<close>

definition try_narrow :: "u64 \<Rightarrow> 'a::len word option" where
  "try_narrow n = (if unat n < 2 ^ LENGTH('a) then Some (ucast n) else None)"

definition out_of_range :: string where
  "out_of_range = ''out of range integral type conversion attempted''"

definition read_fabric :: "namespace \<Rightarrow> err_chain + imported_fabric" where
  "read_fabric ns =
     bind_res (ok_or [''no fabric in the '' @ quoted (mn_name ns) @ '' namespace''] (fabric_config ns)) (\<lambda>fabric.
     bind_res (required_bytes fabric ''rootCert'') (\<lambda>root_cert.
     bind_res (required_bytes fabric ''operationalCert'') (\<lambda>noc.
     let icac = unwrap_or (opt_bind (mj_get fabric ''intermediateCACert'') mj_bytes) [] in
     bind_res (ok_or [''the stored fabric has no operational key pair''] (mj_get fabric ''keyPair'')) (\<lambda>pair.
     bind_res (with_context ''reading the controller's operational key'' (private_key pair)) (\<lambda>operational_key.
     bind_res (required_bytes fabric ''identityProtectionKey'') (\<lambda>ipk.
     if length ipk \<noteq> epoch_key_len
     then Inl [''the identity protection key is '' @ show_nat (length ipk) @ '' bytes, expected '' @ show_nat epoch_key_len]
     else
     bind_res (required_u64 fabric ''nodeId'') (\<lambda>node_id.
     bind_res (required_u64 fabric ''fabricId'') (\<lambda>fabric_id.
     bind_res (bind_res (required_u64 fabric ''rootVendorId'') (\<lambda>v.
        ok_or [''the stored vendor id does not fit in 16 bits'', out_of_range] (try_narrow v))) (\<lambda>vendor_id.
     bind_res (ok_or [''the stored fabric index does not fit in 8 bits'', out_of_range]
        (try_narrow (unwrap_or (opt_bind (mj_get fabric ''fabricIndex'') mj_u64) 1))) (\<lambda>fabric_index.
     let label = unwrap_or (opt_bind (mj_get fabric ''label'') mj_str) [] in
     bind_res (read_issuer_key ns (icac \<noteq> [])) (\<lambda>(issuer_key, issuer_is_icac).
       Inr \<lparr>if_root_cert = root_cert, if_noc = noc, if_icac = icac, if_operational_key = operational_key,
            if_ipk_epoch_key = ipk, if_vendor_id = vendor_id, if_node_id = node_id,
            if_fabric_id = fabric_id, if_fabric_index = fabric_index, if_label = label,
            if_issuer_key = issuer_key, if_issuer_is_icac = issuer_is_icac,
            if_compressed_fabric_id = compressed_fabric_id fabric\<rparr>)))))))))))"

subsection \<open>The nodes\<close>

type_synonym node_table = "(u64, import_node) btree"

definition bare_node :: "u64 \<Rightarrow> import_node" where
  "bare_node n = \<lparr>in_node_id = n, in_commissioned_at = None, in_fabric_index_on_peer = None, in_addresses = []\<rparr>"

definition record_node :: "u64 \<Rightarrow> node_table \<Rightarrow> node_table" where
  "record_node n t = (if bt_contains t n then t else bt_insert n (bare_node n) t)"

definition listed_id :: "mj_value \<Rightarrow> u64 option" where
  "listed_id entry = (case entry of
     MjArray pair \<Rightarrow> (case pair of [] \<Rightarrow> None | x # _ \<Rightarrow> mj_u64 x) | v \<Rightarrow> mj_u64 v)"

definition listed_ids :: "namespace \<Rightarrow> u64 list" where
  "listed_ids ns = (case opt_bind (namespace_get ns [''nodes''] ''commissionedNodes'') mj_array of
     None \<Rightarrow> [] | Some entries \<Rightarrow> filter_map listed_id entries)"

definition peer_addresses :: "(string, mj_value) btree \<Rightarrow> string list" where
  "peer_addresses c = unwrap_or (map_option (filter_map (\<lambda>a. opt_bind (mj_get a ''ip'') mj_str))
     (opt_bind (bt_get c ''addresses'') mj_array)) []"

definition peer_state :: "namespace \<Rightarrow> string \<Rightarrow> import_node option" where
  "peer_state ns peer =
     opt_bind (namespace_context ns [''nodes'', peer, ''endpoints'', ''0'', ''commissioning'']) (\<lambda>c.
     opt_bind (opt_bind (opt_bind (bt_get c ''peerAddress'') (\<lambda>a. mj_get a ''nodeId'')) mj_u64) (\<lambda>n.
       Some \<lparr>in_node_id = n,
             in_commissioned_at = opt_bind (bt_get c ''commissionedAt'') mj_u64,
             in_fabric_index_on_peer = opt_bind (opt_bind (bt_get c ''fabricIndexOnPeer'') mj_u64) try_narrow,
             in_addresses = peer_addresses c\<rparr>))"

definition legacy_id :: "string \<Rightarrow> u64 option" where
  "legacy_id context = opt_bind (strip_prefix ''node-'' context) parse_dec"

definition record_peer :: "import_node \<Rightarrow> node_table \<Rightarrow> node_table" where
  "record_peer p t = bt_insert (in_node_id p) p t"

definition read_nodes :: "namespace \<Rightarrow> import_node list" where
  "read_nodes ns =
     bt_values (fold record_node (filter_map legacy_id (child_contexts ns []))
       (fold record_peer (filter_map (peer_state ns) (child_contexts ns [''nodes'']))
         (fold record_node (listed_ids ns) [])))"

subsection \<open>The settings\<close>

definition nonempty_text :: "(string, mj_value) btree \<Rightarrow> string \<Rightarrow> string option" where
  "nonempty_text values key = opt_filter (\<lambda>s. s \<noteq> []) (opt_bind (bt_get values key) mj_str)"

definition str_field :: "mj_value \<Rightarrow> string \<Rightarrow> string option" where
  "str_field entry key = opt_bind (mj_get entry key) mj_str"

definition wifi_entry_of :: "mj_value \<Rightarrow> (string \<times> string \<times> string) option" where
  "wifi_entry_of e = opt_bind (str_field e ''id'') (\<lambda>i. opt_bind (str_field e ''ssid'') (\<lambda>s.
     opt_bind (str_field e ''credentials'') (\<lambda>c. Some (i, s, c))))"

definition thread_entry_of :: "mj_value \<Rightarrow> (string \<times> string) option" where
  "thread_entry_of e = opt_bind (str_field e ''id'') (\<lambda>i. opt_bind (str_field e ''dataset'') (\<lambda>d. Some (i, d)))"

definition listed_entries :: "(mj_value \<Rightarrow> 'a option) \<Rightarrow> (string, mj_value) btree \<Rightarrow> string \<Rightarrow> 'a list" where
  "listed_entries f values key = (case opt_bind (bt_get values key) mj_array of
     None \<Rightarrow> [] | Some entries \<Rightarrow> filter_map f entries)"

definition config_of_values :: "(string, mj_value) btree \<Rightarrow> imported_config" where
  "config_of_values values =
     \<lparr>ic_fabric_label = nonempty_text values ''fabricLabel'',
      ic_next_node_id = opt_bind (bt_get values ''nextNodeId'') mj_u64,
      ic_wifi = (case (nonempty_text values ''wifiSsid'', nonempty_text values ''wifiCredentials'') of
           (Some ssid, Some credentials) \<Rightarrow> [(''default'', ssid, credentials)] | _ \<Rightarrow> [])
         @ listed_entries wifi_entry_of values ''additionalWifiCredentials'',
      ic_thread = (case nonempty_text values ''threadDataset'' of
           Some dataset \<Rightarrow> [(''default'', dataset)] | None \<Rightarrow> [])
         @ listed_entries thread_entry_of values ''additionalThreadCredentials''\<rparr>"

definition read_config :: "mj_storage \<Rightarrow> err_chain + imported_config" where
  "read_config st =
     (if \<not> has_namespace st config_namespace then Inr imported_config_default
      else bind_res (storage_namespace st config_namespace) (\<lambda>ns.
        case namespace_context ns [''values''] of
          None \<Rightarrow> Inr imported_config_default
        | Some values \<Rightarrow> Inr (config_of_values values)))"

subsection \<open>The whole source\<close>

record mj_import =
  im_fabric :: imported_fabric
  im_nodes :: "import_node list"
  im_config :: imported_config
  im_namespace :: string

definition migrate_read :: "store_lib \<Rightarrow> string \<Rightarrow> fs option \<Rightarrow> string option \<Rightarrow> err_chain + mj_import" where
  "migrate_read L path t requested =
     bind_res (storage_open L path t) (\<lambda>st.
     bind_res (find_controller_namespace st requested) (\<lambda>controller.
     bind_res (with_context (''reading the fabric from '' @ quoted (mn_name controller)) (read_fabric controller)) (\<lambda>fabric.
     let nodes = read_nodes controller in
     bind_res (read_config st) (\<lambda>config.
       Inr \<lparr>im_fabric = fabric, im_nodes = nodes, im_config = config, im_namespace = mn_name controller\<rparr>))))"

subsection \<open>The report of a dry run\<close>

text \<open>\<open>{:016x}\<close> and \<open>{:<24}\<close>: lower-case digits padded with zeros, a label padded with spaces
  (the labels are ASCII).\<close>

definition hex_padded :: "nat \<Rightarrow> nat \<Rightarrow> string" where
  "hex_padded width n = map (\<lambda>i. lower_char (hex_digit (n div 16 ^ i mod 16))) (rev [0..<width])"

definition summary_row :: "string \<Rightarrow> string \<Rightarrow> string" where
  "summary_row label v =
     (let head = (if label = [] then [] else label @ '':'')
      in head @ replicate (24 - length head) CHR '' '' @ v @ [CHR 0x0A])"

definition em_dash :: string where
  "em_dash = [CHR 0xE2, CHR 0x80, CHR 0x94]"

definition summarise :: "string list \<Rightarrow> string" where
  "summarise items = (if items = [] then ''none'' else join_with '', '' items)"

definition node_row :: "import_node \<Rightarrow> string" where
  "node_row n = summary_row [] (show_u (in_node_id n) @ '' '' @ em_dash @ '' '' @ show_nat (length (in_addresses n))
     @ '' address(es)'' @ (case in_fabric_index_on_peer n of
         Some i \<Rightarrow> '', fabric index '' @ show_u i @ '' on the device'' | None \<Rightarrow> []))"

definition summary :: "mj_import \<Rightarrow> string" where
  "summary im =
     (let f = im_fabric im; c = im_config im in
      summary_row ''Namespace'' (im_namespace im)
      @ summary_row ''Fabric id'' (''0x'' @ hex_padded 16 (unat (if_fabric_id f)))
      @ summary_row ''Controller node id''
          (''0x'' @ hex_padded 16 (unat (if_node_id f)) @ '' ('' @ show_u (if_node_id f) @ '')'')
      @ summary_row ''Vendor id'' (''0x'' @ hex_padded 4 (unat (if_vendor_id f)))
      @ summary_row ''Fabric label'' (if if_label f = [] then ''(none)'' else if_label f)
      @ summary_row ''Device NOCs signed by'' (if if_issuer_is_icac f then ''the intermediate CA'' else ''the root CA'')
      @ summary_row ''Compressed fabric id'' (case if_compressed_fabric_id f of
            Some i \<Rightarrow> ''0x'' @ hex_padded 16 (unat i) @ '' (checked on import)''
          | None \<Rightarrow> ''not stored by the source (derived here)'')
      @ summary_row ''Nodes'' (show_nat (length (im_nodes im)))
      @ concat (map node_row (im_nodes im))
      @ summary_row ''Wi-Fi credentials'' (summarise (map (\<lambda>(i, ssid, _). i @ '' ('' @ ssid @ '')'') (ic_wifi c)))
      @ summary_row ''Thread datasets'' (summarise (map fst (ic_thread c)))
      @ summary_row ''Next node id'' (case ic_next_node_id c of Some n \<Rightarrow> show_u n | None \<Rightarrow> ''(not stored)'')
      @ [CHR 0x0A] @ ''Attributes are not copied: each node is read from the device on its first poll after startup.''
      @ [CHR 0x0A])"

subsection \<open>Writing nodes and settings\<close>

definition commissioned_at :: "(u64 \<Rightarrow> string option) \<Rightarrow> string \<Rightarrow> u64 option \<Rightarrow> string" where
  "commissioned_at date_text now millis =
     unwrap_or (opt_bind (opt_filter (\<lambda>m. unat m < 2 ^ 63) millis) date_text) now"

definition stored_import :: "(u64 \<Rightarrow> string option) \<Rightarrow> string \<Rightarrow> import_node \<Rightarrow> stored_node" where
  "stored_import date_text now n =
     (let stored = stored_new (node_new (in_node_id n) (commissioned_at date_text now (in_commissioned_at n)))
      in stored\<lparr>sn_data := (sn_data stored)\<lparr>nd_available := False\<rparr>,
                sn_ip_addresses := in_addresses n,
                sn_device_fabric_index := in_fabric_index_on_peer n\<rparr>)"

text \<open>The settings an import applies, in order; each is one validated and saved change.\<close>

datatype setting = Label string | Above u64 | Wifi string string string | Dataset string string

definition import_settings :: "mj_import \<Rightarrow> setting list" where
  "import_settings im =
     (case ic_fabric_label (im_config im) of None \<Rightarrow> [] | Some l \<Rightarrow> [Label l])
     @ (case ic_next_node_id (im_config im) of None \<Rightarrow> [] | Some n \<Rightarrow> [Above (saturating_sub n 1)])
     @ map (\<lambda>n. Above (in_node_id n)) (im_nodes im)
     @ map (\<lambda>(i, s, c). Wifi i s c) (ic_wifi (im_config im))
     @ map (\<lambda>(i, d). Dataset i d) (ic_thread (im_config im))"

fun apply_setting :: "bool \<Rightarrow> setting \<Rightarrow> config_store \<Rightarrow> config_store \<times> (err_chain + unit)" where
  "apply_setting io (Label l) cs = (let (cs', r) = set_fabric_label io l cs in (cs', map_res (\<lambda>_. ()) (io_err r)))"
| "apply_setting io (Above n) cs = (let (cs', r) = reserve_node_ids_above io n cs in (cs', io_err r))"
| "apply_setting io (Wifi i s c) cs = (let (cs', r) = set_wifi_credentials io (Some i) s (Some c) cs
     in (cs', map_err (\<lambda>e. [''importing the '' @ quoted i @ '' Wi-Fi credentials: '' @ e]) r))"
| "apply_setting io (Dataset i d) cs = (let (cs', r) = set_thread_dataset io (Some i) d cs
     in (cs', map_err (\<lambda>e. [''importing the '' @ quoted i @ '' Thread dataset: '' @ e]) r))"

text \<open>The \<open>?\<close> after each of them; \<open>io k\<close> is whether the write of the k-th succeeds.\<close>

fun apply_settings :: "(nat \<Rightarrow> bool) \<Rightarrow> nat \<Rightarrow> setting list \<Rightarrow> config_store \<Rightarrow> config_store \<times> (err_chain + unit)" where
  "apply_settings io k [] cs = (cs, Inr ())"
| "apply_settings io k (s # ss) cs =
     (let (cs', r) = apply_setting (io k) s cs in
      case r of Inl e \<Rightarrow> (cs', Inl e) | Inr _ \<Rightarrow> apply_settings io (Suc k) ss cs')"

record server_files =
  sf_nodes :: "stored_node list option"
  sf_config :: "json option"

record apply_env =
  ae_date_text :: "u64 \<Rightarrow> string option"
  ae_now :: string
  ae_nodes_load :: "err_chain option"
  ae_nodes_write :: bool
  ae_config_write :: "nat \<Rightarrow> bool"

definition apply_state :: "apply_env \<Rightarrow> mj_import \<Rightarrow> string \<Rightarrow> server_files \<Rightarrow> server_files \<times> (err_chain + unit)" where
  "apply_state env im path files =
     (case ae_nodes_load env of
        Some e \<Rightarrow> (files, Inl e)
      | None \<Rightarrow>
          let nodes = fold (\<lambda>n t. ns_upsert t (stored_import (ae_date_text env) (ae_now env) n))
                        (im_nodes im) (load_nodes (sf_nodes files))
          in if \<not> ae_nodes_write env then (files, Inl [''writing node state '' @ path_join path ''nodes.json''])
             else
               let files1 = files\<lparr>sf_nodes := Some (snapshot_of nodes)\<rparr> in
               case config_load (path_join path ''config.json'') (sf_config files) of
                 Inl e \<Rightarrow> (files1, Inl [e])
               | Inr cs \<Rightarrow>
                   (case apply_settings (ae_config_write env) 0 (import_settings im) cs of
                      (cs', r) \<Rightarrow> (files1\<lparr>sf_config := cs_disk cs'\<rparr>, r)))"

subsection \<open>The imported fabric is one rs-matter can install\<close>

lemma private_key_len: "private_key v = Inr k \<Longrightarrow> length k = secret_key_len"
  unfolding private_key_def by (auto simp: res_simps split: if_splits)

lemma issuer_key_exact:
  "read_issuer_key ns has_icac = Inr (k, via_icac) \<Longrightarrow> length k = secret_key_len \<and> via_icac = has_icac"
  unfolding read_issuer_key_def with_context_def
  by (auto simp: res_simps private_key_len split: option.splits if_splits)

lemma required_bytes_Inr: "required_bytes v field = Inr b \<longleftrightarrow> mj_get v field = Some (MjBytes b)"
proof -
  have "mj_bytes x = Some b \<longleftrightarrow> x = MjBytes b" for x by (cases x) auto
  then show ?thesis by (simp add: required_bytes_def res_simps bind_eq_Some_conv)
qed

text \<open>What is imported as the fabric can be installed: the operational and the issuing key are P-256 private
  keys of 32 bytes and the epoch key has 16; new devices are signed by the intermediate CA exactly when
  the fabric has one; the root and operational certificates and the fabric and node ids are the stored ones.\<close>
theorem imported_fabric_installable:
  assumes "read_fabric ns = Inr f"
  shows "length (if_operational_key f) = 32 \<and> length (if_issuer_key f) = 32 \<and> length (if_ipk_epoch_key f) = 16
    \<and> (if_issuer_is_icac f \<longleftrightarrow> if_icac f \<noteq> [])
    \<and> (\<exists>fabric. fabric_config ns = Some fabric
         \<and> mj_get fabric ''rootCert'' = Some (MjBytes (if_root_cert f))
         \<and> mj_get fabric ''operationalCert'' = Some (MjBytes (if_noc f))
         \<and> opt_bind (mj_get fabric ''nodeId'') mj_u64 = Some (if_node_id f)
         \<and> opt_bind (mj_get fabric ''fabricId'') mj_u64 = Some (if_fabric_id f))"
proof -
  obtain fabric noc key ipk issuer where f: "fabric_config ns = Some fabric"
    and r: "required_bytes fabric ''rootCert'' = Inr (if_root_cert f)"
    and n: "required_bytes fabric ''operationalCert'' = Inr (if_noc f)"
    and k: "private_key key = Inr (if_operational_key f)"
    and e: "length (if_ipk_epoch_key f) = epoch_key_len"
    and i: "required_u64 fabric ''nodeId'' = Inr (if_node_id f)" "required_u64 fabric ''fabricId'' = Inr (if_fabric_id f)"
    and s: "read_issuer_key ns (if_icac f \<noteq> []) = Inr (if_issuer_key f, if_issuer_is_icac f)"
    using assms unfolding read_fabric_def Let_def
    by (auto simp: bind_res_Inr ok_or_Inr with_context_def map_err_Inr split: if_splits)
  show ?thesis
    using f r n i private_key_len [OF k] e issuer_key_exact [OF s]
    by (simp add: required_bytes_Inr required_u64_def ok_or_Inr secret_key_len_def epoch_key_len_def)
qed

subsection \<open>Which namespace\<close>

definition loaded_namespace :: "mj_storage \<Rightarrow> string \<Rightarrow> namespace option" where
  "loaded_namespace st name = (case bt_get (ms_namespaces st) name of
     Some (LoadedNamespace ns) \<Rightarrow> Some ns | _ \<Rightarrow> None)"

definition holders :: "mj_storage \<Rightarrow> namespace list" where
  "holders st = filter (\<lambda>ns. fabric_config ns \<noteq> None) (filter_map (loaded_namespace st) (namespace_names st))"

lemma storage_namespace_ok: "res_ok (storage_namespace st name) = loaded_namespace st name"
  by (simp add: storage_namespace_def loaded_namespace_def res_ok_def split: option.splits loaded.splits)

lemma has_namespace_loaded: "has_namespace st name \<longleftrightarrow> loaded_namespace st name \<noteq> None"
  by (simp add: has_namespace_def loaded_namespace_def split: option.splits loaded.splits)

lemma storage_namespace_Inr: "storage_namespace st name = Inr ns \<longleftrightarrow> loaded_namespace st name = Some ns"
  by (simp add: storage_namespace_ok [symmetric] res_ok_Some)

text \<open>The controller's namespace is never guessed: the one the operator names, if it holds a fabric; else
  \<open>server\<close>, if it does; else the only namespace that holds one, and with none or several the import
  is refused.\<close>
theorem controller_choice:
  "find_controller_namespace st requested = Inr ns \<longleftrightarrow>
     fabric_config ns \<noteq> None
     \<and> (case requested of
          Some name \<Rightarrow> loaded_namespace st name = Some ns
        | None \<Rightarrow> loaded_namespace st ''server'' = Some ns
            \<or> (opt_filter (\<lambda>n. fabric_config n \<noteq> None) (loaded_namespace st ''server'') = None \<and> holders st = [ns]))"
proof (cases requested)
  case (Some name)
  then show ?thesis
    by (auto simp: find_controller_namespace_def Let_def bind_res_Inr storage_namespace_Inr)
next
  case None
  have h: "holders st = [ns] \<Longrightarrow> fabric_config ns \<noteq> None"
    unfolding holders_def by (auto simp: filter_eq_Cons_iff)
  show ?thesis
  proof (cases "opt_filter (\<lambda>n. fabric_config n \<noteq> None) (loaded_namespace st ''server'')")
    case (Some d)
    then show ?thesis
      using None by (auto simp: find_controller_namespace_def Let_def storage_namespace_ok
          has_namespace_loaded default_controller_namespace_def opt_filter_Some)
  next
    case n: None
    have s: "loaded_namespace st ''server'' = Some ns \<Longrightarrow> fabric_config ns = None"
      using n by (simp add: opt_filter_def split: if_splits)
    show ?thesis
      using None n s h by (auto simp: find_controller_namespace_def Let_def storage_namespace_ok
          has_namespace_loaded default_controller_namespace_def holders_def split: list.splits)
  qed
qed

subsection \<open>The nodes are the union of the three layouts\<close>

definition peers :: "namespace \<Rightarrow> import_node list" where
  "peers ns = filter_map (peer_state ns) (child_contexts ns [''nodes''])"

definition legacy_ids :: "namespace \<Rightarrow> u64 list" where
  "legacy_ids ns = filter_map legacy_id (child_contexts ns [])"

definition table_ok :: "node_table \<Rightarrow> bool" where
  "table_ok t = (bt_ok t \<and> (\<forall>k n. bt_get t k = Some n \<longrightarrow> in_node_id n = k))"

lemma table_ok_record: "table_ok t \<Longrightarrow> table_ok (record_node n t)"
  by (simp add: table_ok_def record_node_def bt_ok_insert bt_get_insert_raw bare_node_def)

lemma table_ok_peer: "table_ok t \<Longrightarrow> table_ok (record_peer p t)"
  by (simp add: table_ok_def record_peer_def bt_ok_insert bt_get_insert_raw)

lemma get_record_node:
  "bt_get (record_node n t) k = (if bt_get t k = None \<and> k = n then Some (bare_node n) else bt_get t k)"
  by (auto simp: record_node_def bt_contains_def bt_get_insert_raw)

lemma fold_record_node:
  "table_ok t \<Longrightarrow> table_ok (fold record_node xs t)
     \<and> bt_get (fold record_node xs t) k = (if bt_get t k = None \<and> k \<in> set xs then Some (bare_node k) else bt_get t k)"
  by (induction xs arbitrary: t) (auto simp: table_ok_record get_record_node)

lemma fold_record_peer:
  "table_ok t \<Longrightarrow> table_ok (fold record_peer ps t)
     \<and> bt_get (fold record_peer ps t) k = opt_or (find (\<lambda>p. in_node_id p = k) (rev ps)) (bt_get t k)"
proof (induction ps rule: rev_induct)
  case (snoc p ps)
  then show ?case by (simp add: table_ok_peer) (simp add: record_peer_def bt_get_insert_raw)
qed (simp add: table_ok_def)

lemma bt_values_nodes: "table_ok t \<Longrightarrow> map in_node_id (bt_values t) = bt_keys t"
  using bt_get_iff [of t] by (force simp: table_ok_def bt_values_def bt_keys_def)

definition node_table_of :: "namespace \<Rightarrow> node_table" where
  "node_table_of ns = fold record_node (legacy_ids ns) (fold record_peer (peers ns) (fold record_node (listed_ids ns) []))"

lemma node_table_facts:
  "table_ok (node_table_of ns)"
  "bt_get (node_table_of ns) k =
     opt_or (find (\<lambda>p. in_node_id p = k) (rev (peers ns)))
       (if k \<in> set (listed_ids ns) \<union> set (legacy_ids ns) then Some (bare_node k) else None)"
proof -
  have z: "table_ok []" by (simp add: table_ok_def bt_get_def)
  note a = fold_record_node [OF z, of "listed_ids ns"]
  note b = fold_record_peer [OF conjunct1 [OF a], of "peers ns"]
  note c = fold_record_node [OF conjunct1 [OF b], of "legacy_ids ns"]
  show "table_ok (node_table_of ns)" using c by (simp add: node_table_of_def)
  have "bt_get ([] :: node_table) k = None" by (simp add: bt_get_def)
  then show "bt_get (node_table_of ns) k =
     opt_or (find (\<lambda>p. in_node_id p = k) (rev (peers ns)))
       (if k \<in> set (listed_ids ns) \<union> set (legacy_ids ns) then Some (bare_node k) else None)"
    using a [of k] b [of k] c [of k]
    by (cases "find (\<lambda>p. in_node_id p = k) (rev (peers ns))") (simp_all add: node_table_of_def)
qed

lemma read_nodes_table: "read_nodes ns = bt_values (node_table_of ns)"
  by (simp add: read_nodes_def node_table_of_def peers_def legacy_ids_def)

text \<open>Every node any of the three layouts mentions is imported, once, in ascending order of its id: the details
  are those of the peer state with that id, and a node only listed is imported bare.\<close>
theorem nodes_imported_exact:
  "sorted_wrt (<) (map in_node_id (read_nodes ns))
   \<and> set (map in_node_id (read_nodes ns)) = set (listed_ids ns) \<union> in_node_id ` set (peers ns) \<union> set (legacy_ids ns)
   \<and> set (read_nodes ns) \<subseteq> set (peers ns) \<union> range bare_node"
proof (intro conjI)
  let ?t = "node_table_of ns"
  have ok: "bt_ok ?t" "table_ok ?t" using node_table_facts(1) [of ns] by (simp_all add: table_ok_def)
  show "sorted_wrt (<) (map in_node_id (read_nodes ns))"
    by (simp only: read_nodes_table bt_values_nodes [OF ok(2)] bt_keys_sorted [OF ok(1)])
  have none: "find (\<lambda>p. in_node_id p = k) (rev (peers ns)) = None \<longleftrightarrow> k \<notin> in_node_id ` set (peers ns)" for k
    by (auto simp: find_None_iff)
  show "set (map in_node_id (read_nodes ns)) = set (listed_ids ns) \<union> in_node_id ` set (peers ns) \<union> set (legacy_ids ns)"
    unfolding read_nodes_table bt_values_nodes [OF ok(2)] set_bt_keys node_table_facts(2)
    using none by (auto simp: opt_or_def split: option.splits)
  show "set (read_nodes ns) \<subseteq> set (peers ns) \<union> range bare_node"
  proof
    fix n assume "n \<in> set (read_nodes ns)"
    then obtain k where "bt_get ?t k = Some n"
      using bt_get_iff [OF ok(1)] by (auto simp: read_nodes_table bt_values_def)
    then show "n \<in> set (peers ns) \<union> range bare_node"
      unfolding node_table_facts(2)
      by (auto simp: opt_or_def dest: find_Some_D split: option.splits if_splits)
  qed
qed

subsection \<open>What applying an import does\<close>

text \<open>A setting as an operation of the configuration store.\<close>

fun setting_op :: "setting \<Rightarrow> config_op" where
  "setting_op (Label l) = SetLabel l"
| "setting_op (Above n) = ReserveAbove n"
| "setting_op (Wifi i s c) = SetWifi (Some i) s (Some c)"
| "setting_op (Dataset i d) = SetThread (Some i) d"

definition no_enc :: "bytes \<Rightarrow> string" where "no_enc b = []"

lemma apply_setting_op: "fst (apply_setting io s cs) = fst (config_apply no_enc io (setting_op s) cs)"
  by (cases s) (simp_all add: split_def Let_def)

lemma apply_setting_data:
  "cs_data (fst (apply_setting io s cs)) = op_data no_enc (setting_op s) (cs_data cs)
   \<and> writes cs (fst (apply_setting io s cs))"
  by (simp add: apply_setting_op apply_data)

lemma save_Inr: "config_save io cs = (cs', Inr ()) \<Longrightarrow> cs_path cs = Some path \<Longrightarrow>
    cs_disk cs' = Some (config_to_json (cs_data cs'))"
  by (auto simp: config_save_def split: if_splits)

lemma mutate_Inr: "config_mutate io f cs = (cs', Inr a) \<Longrightarrow> cs_path cs = Some path \<Longrightarrow>
    cs_disk cs' = Some (config_to_json (cs_data cs'))"
  using mutate_cases [of io f cs cs' "Inr a"] by auto

lemma apply_setting_saved:
  assumes "apply_setting io s cs = (cs', Inr ())" and "cs_path cs = Some path"
  shows "cs_disk cs' = Some (config_to_json (cs_data cs'))"
proof (cases s)
  case (Label l)
  then obtain a where "set_fabric_label io l cs = (cs', Inr a)"
    using assms(1) by (auto simp: split_def Let_def res_simps io_err_def prod_eq_iff)
  then show ?thesis using mutate_Inr assms(2) by (fastforce simp: set_fabric_label_def Let_def)
next
  case (Above n)
  then have "reserve_node_ids_above io n cs = (cs', Inr ())"
    using assms(1) by (auto simp: split_def Let_def res_simps io_err_def prod_eq_iff)
  then show ?thesis using mutate_Inr assms(2) by (fastforce simp: reserve_node_ids_above_def)
next
  case (Wifi i ssid c)
  then have "set_wifi_credentials io (Some i) ssid (Some c) cs = (cs', Inr ())"
    using assms(1) by (auto simp: split_def Let_def res_simps prod_eq_iff)
  then show ?thesis
    using save_Inr assms(2) by (fastforce simp: set_wifi_credentials_def split: sum.splits)
next
  case (Dataset i d)
  then have "set_thread_dataset io (Some i) d cs = (cs', Inr ())"
    using assms(1) by (auto simp: split_def Let_def res_simps prod_eq_iff)
  then show ?thesis
    using save_Inr assms(2) by (fastforce simp: set_thread_dataset_def split: sum.splits)
qed

lemma setting_room: "counter_room (setting_op s) d \<longleftrightarrow> (\<forall>n. s = Above n \<longrightarrow> n < 0xFFFFFFFFFFFFFFFF)"
  by (cases s) auto

text \<open>Once every setting has been applied, the counter has passed each id reserved.\<close>

lemma apply_settings_counter:
  assumes "apply_settings io k ss cs = (cs', Inr ())"
    and "\<And>n. Above n \<in> set ss \<Longrightarrow> n < 0xFFFFFFFFFFFFFFFF"
  shows "cd_next_node_id (cs_data cs) \<le> cd_next_node_id (cs_data cs')
    \<and> (\<forall>n. Above n \<in> set ss \<longrightarrow> n < cd_next_node_id (cs_data cs'))"
  using assms
proof (induction ss arbitrary: k cs)
  case (Cons s ss)
  obtain cs1 where a: "apply_setting (io k) s cs = (cs1, Inr ())"
    and r: "apply_settings io (Suc k) ss cs1 = (cs', Inr ())"
    using Cons.prems(1) by (auto simp: split_def Let_def prod_eq_iff split: sum.splits)
  have d: "cs_data cs1 = op_data no_enc (setting_op s) (cs_data cs)"
    using apply_setting_data [of "io k" s cs] a by simp
  have "counter_room (setting_op s) (cs_data cs)" using Cons.prems(2) by (auto simp: setting_room)
  then have m: "cd_next_node_id (cs_data cs) \<le> cd_next_node_id (cs_data cs1)"
    unfolding d by (rule op_counter)
  have "n < cd_next_node_id (cs_data cs1)" if "s = Above n" for n
    using that d word_Suc [of n] Cons.prems(2) [of n] by (auto simp: not_le)
  then show ?case using Cons.IH [OF r] Cons.prems(2) m by (auto intro: less_le_trans order_trans)
qed simp

lemma apply_settings_saved:
  assumes "apply_settings io k ss cs = (cs', Inr ())" and "cs_path cs = Some path"
  shows "cs_path cs' = Some path \<and> (cs_disk cs' = cs_disk cs \<and> ss = [] \<or> cs_disk cs' = Some (config_to_json (cs_data cs')))"
  using assms
proof (induction ss arbitrary: k cs)
  case (Cons s ss)
  obtain cs1 where a: "apply_setting (io k) s cs = (cs1, Inr ())"
    and r: "apply_settings io (Suc k) ss cs1 = (cs', Inr ())"
    using Cons.prems(1) by (auto simp: split_def Let_def prod_eq_iff split: sum.splits)
  have p: "cs_path cs1 = Some path"
    using apply_setting_data [of "io k" s cs] a Cons.prems(2) by (simp add: writes_def)
  have "ss = [] \<Longrightarrow> cs' = cs1" using r by simp
  then show ?case using Cons.IH [OF r p] apply_setting_saved [OF a Cons.prems(2)] p by auto
qed simp

lemma import_above: "n \<in> set (im_nodes im) \<Longrightarrow> Above (in_node_id n) \<in> set (import_settings im)"
  by (simp add: import_settings_def)

text \<open>Nodes with distinct ids are each found under their own.\<close>

lemma upserts_get:
  assumes "distinct (map in_node_id ns)" and "n \<in> set ns"
  shows "bt_get (fold (\<lambda>n t. ns_upsert t (stored_import f w n)) ns t) (in_node_id n) = Some (stored_import f w n)"
  using assms
proof (induction ns arbitrary: t)
  case (Cons m ns)
  have key: "nd_node_id (sn_data (stored_import f w x)) = in_node_id x" for x
    by (simp add: stored_import_def stored_new_def node_new_def Let_def)
  have other: "bt_get (fold (\<lambda>n t. ns_upsert t (stored_import f w n)) ns t) k = bt_get t k"
    if "k \<notin> in_node_id ` set ns" for k t
    using that by (induction ns arbitrary: t) (simp_all add: ns_upsert_def key bt_get_insert_raw)
  show ?case
  proof (cases "n = m")
    case True
    then show ?thesis
      using Cons.prems(1) other [of "in_node_id m"] by (simp add: ns_upsert_def key bt_get_insert_raw)
  next
    case False
    then show ?thesis using Cons by simp
  qed
qed simp

text \<open>C22: After a successful import the node ids are safe: a server started on the files it left loads a counter
  above every imported id, so no id it hands out is one of theirs, and each node is in the node file
  with its addresses, marked unavailable until it is polled.\<close>
theorem import_protects_nodes:
  assumes "apply_state env im path files = (files', Inr ())"
    and "distinct (map in_node_id (im_nodes im))" and "n \<in> set (im_nodes im)"
    and "list_all (\<lambda>m. in_node_id m < 0xFFFFFFFFFFFFFFFF) (im_nodes im)"
  shows "\<exists>cs. config_load (path_join path ''config.json'') (sf_config files') = Inr cs
      \<and> in_node_id n < cd_next_node_id (cs_data cs)
      \<and> (\<exists>saved. sf_nodes files' = Some saved \<and> stored_import (ae_date_text env) (ae_now env) n \<in> set saved)
      \<and> \<not> nd_available (sn_data (stored_import (ae_date_text env) (ae_now env) n))
      \<and> sn_ip_addresses (stored_import (ae_date_text env) (ae_now env) n) = in_addresses n"
proof -
  let ?nodes = "fold (\<lambda>n t. ns_upsert t (stored_import (ae_date_text env) (ae_now env) n)) (im_nodes im) (load_nodes (sf_nodes files))"
  obtain cs cs' where c: "config_load (path_join path ''config.json'') (sf_config files) = Inr cs"
    and a: "apply_settings (ae_config_write env) 0 (import_settings im) cs = (cs', Inr ())"
    and f: "files' = files\<lparr>sf_nodes := Some (snapshot_of ?nodes), sf_config := cs_disk cs'\<rparr>"
    using assms(1) by (auto simp: apply_state_def Let_def split: option.splits if_splits sum.splits prod.splits)
  have p: "cs_path cs = Some (path_join path ''config.json'')"
    using c by (auto simp: config_load_def res_simps)
  have room: "m < 0xFFFFFFFFFFFFFFFF" if "Above m \<in> set (import_settings im)" for m
  proof -
    have "saturating_sub x 1 < 0xFFFFFFFFFFFFFFFF" for x :: u64
    proof (cases "x = 0")
      case False
      then have "unat (x - 1) < unat x" by (simp add: unat_minus_one unat_gt_0)
      then show ?thesis
        using False unat_bound [of x]
        by (simp add: saturating_sub_def word_less_nat_alt word_le_nat_alt Suc_le_eq unat_gt_0)
    qed (simp add: saturating_sub_def)
    then show ?thesis
      using that assms(4) by (auto simp: import_settings_def list_all_iff split: option.splits)
  qed
  have "cs_disk cs' = Some (config_to_json (cs_data cs'))"
    using apply_settings_saved [OF a p] import_above [OF assms(3)] by auto
  moreover have "in_node_id n < cd_next_node_id (cs_data cs')"
    using apply_settings_counter [OF a room] import_above [OF assms(3)] by blast
  moreover have "stored_import (ae_date_text env) (ae_now env) n \<in> set (snapshot_of ?nodes)"
    using bt_get_in [OF upserts_get [OF assms(2,3)]] by (force simp: snapshot_of_def bt_values_def)
  ultimately show ?thesis
    by (simp add: f config_load_def config_rt) (simp add: stored_import_def stored_new_def Let_def)
qed

subsection \<open>A credential the validation refuses\<close>

definition no_credentials :: "config_data \<Rightarrow> bool" where
  "no_credentials d = (cd_wifi_ssid d = None \<and> cd_wifi_credentials d = None \<and> cd_additional_wifi d = []
     \<and> cd_thread_dataset d = None \<and> cd_additional_thread d = [])"

lemma refused_alike:
  "no_credentials d \<Longrightarrow> set_wifi_data i s c config_default = Inl e \<Longrightarrow> set_wifi_data i s c d = Inl e"
  by (auto simp: no_credentials_def set_wifi_data_def config_default_def res_simps Let_def
      assert_no_case_clash_def split: if_splits)

fun plain_setting :: "setting \<Rightarrow> bool" where
  "plain_setting (Label l) = True"
| "plain_setting (Above n) = True"
| "plain_setting _ = False"

lemma plain_setting_ok:
  assumes "plain_setting s" and "cs_path cs = Some path"
  shows "\<exists>cs'. apply_setting True s cs = (cs', Inr ()) \<and> cs_path cs' = Some path
    \<and> cs_disk cs' = Some (config_to_json (cs_data cs'))
    \<and> (no_credentials (cs_data cs) \<longrightarrow> no_credentials (cs_data cs'))"
  using assms
  by (cases s) (auto simp: set_fabric_label_def reserve_node_ids_above_def config_mutate_def config_save_def
      io_err_def no_credentials_def Let_def)

definition bare_file :: "json option \<Rightarrow> bool" where
  "bare_file f = (case f of None \<Rightarrow> True
     | Some v \<Rightarrow> (case config_from_json v of None \<Rightarrow> False | Some d \<Rightarrow> no_credentials d))"

lemma plain_settings_ok:
  assumes "list_all plain_setting pre" and "cs_path cs = Some path"
    and "no_credentials (cs_data cs)" and "bare_file (cs_disk cs)"
  shows "\<exists>cs' k'. apply_settings (\<lambda>_. True) k (pre @ post) cs = apply_settings (\<lambda>_. True) k' post cs'
    \<and> no_credentials (cs_data cs') \<and> bare_file (cs_disk cs') \<and> cs_path cs' = Some path"
  using assms
proof (induction pre arbitrary: k cs)
  case (Cons s pre)
  obtain cs1 where a: "apply_setting True s cs = (cs1, Inr ())" and p: "cs_path cs1 = Some path"
    and d: "cs_disk cs1 = Some (config_to_json (cs_data cs1))" and n: "no_credentials (cs_data cs1)"
    using plain_setting_ok [of s cs path] Cons.prems by auto
  have "bare_file (cs_disk cs1)" using d n by (simp add: bare_file_def config_rt)
  then show ?case using Cons.IH [OF _ p n] Cons.prems(1) a by simp
qed auto

text \<open>An import that meets a Wi-Fi credential this server's validation refuses (say an open network, stored
  with an empty password) fails after the nodes were written, with the error naming the credential:
  no later Wi-Fi credential and no Thread dataset has been stored, although every one of them was read.\<close>
theorem refused_credential_strands_import:
  assumes "ae_nodes_load env = None" and "ae_nodes_write env" and "ae_config_write env = (\<lambda>_. True)"
    and "sf_config files = None" and "ic_wifi (im_config im) = (i, s, c) # rest"
    and "set_wifi_data (Some i) s (Some c) config_default = Inl e"
  shows "\<exists>nodes disk. apply_state env im path files =
        (\<lparr>sf_nodes = Some nodes, sf_config = disk\<rparr>, Inl [''importing the '' @ quoted i @ '' Wi-Fi credentials: '' @ e])
      \<and> bare_file disk"
proof -
  define cs0 where "cs0 = \<lparr>cs_data = config_default, cs_path = Some (path_join path ''config.json''), cs_disk = None\<rparr>"
  have load: "config_load (path_join path ''config.json'') None = Inr cs0"
    by (simp add: config_load_def cs0_def)
  define pre where "pre = (case ic_fabric_label (im_config im) of None \<Rightarrow> [] | Some l \<Rightarrow> [Label l])
     @ (case ic_next_node_id (im_config im) of None \<Rightarrow> [] | Some n \<Rightarrow> [Above (saturating_sub n 1)])
     @ map (\<lambda>n. Above (in_node_id n)) (im_nodes im)"
  obtain post where split: "import_settings im = pre @ Wifi i s c # post"
    using assms(5) by (simp add: import_settings_def pre_def)
  have pre: "list_all plain_setting pre" by (auto simp: pre_def list_all_iff split: option.splits)
  obtain cs' k' where cs': "apply_settings (\<lambda>_. True) 0 (import_settings im) cs0
        = apply_settings (\<lambda>_. True) k' (Wifi i s c # post) cs'"
      "no_credentials (cs_data cs')" "bare_file (cs_disk cs')"
    using plain_settings_ok [OF pre, of cs0 "path_join path ''config.json''" 0 "Wifi i s c # post"]
    by (auto simp: split cs0_def no_credentials_def config_default_def bare_file_def)
  have "apply_setting True (Wifi i s c) cs' = (cs', Inl [''importing the '' @ quoted i @ '' Wi-Fi credentials: '' @ e])"
    using refused_alike [OF cs'(2) assms(6)] by (simp add: set_wifi_credentials_def)
  then have "apply_settings (\<lambda>_. True) 0 (import_settings im) cs0
      = (cs', Inl [''importing the '' @ quoted i @ '' Wi-Fi credentials: '' @ e])"
    by (simp only: cs'(1) apply_settings.simps Let_def prod.case sum.case)
  then show ?thesis
    using assms(1-4) load cs'(3) by (cases files) (simp add: apply_state_def Let_def del: apply_settings.simps)
qed

subsection \<open>A small import\<close>

definition key_of :: "nat \<Rightarrow> mj_value" where
  "key_of n = MjBytes (replicate n 7)"

definition small_namespace :: namespace where
  "small_namespace = \<lparr>mn_name = ''server'', mn_driver = Json, mn_contexts =
     [(''credentials'',
       [(''fabric'', MjObject [(''fabricId'', MjBigInt 1), (''identityProtectionKey'', key_of 16),
           (''keyPair'', key_of 32), (''nodeId'', MjBigInt 112233), (''operationalCert'', key_of 3),
           (''rootCert'', key_of 2), (''rootVendorId'', MjBigInt 65521)]),
        (''rootCertBytes'', key_of 2), (''rootKeyPair'', key_of 32)])]\<rparr>"

definition small_fabric :: imported_fabric where
  "small_fabric = \<lparr>if_root_cert = replicate 2 7, if_noc = replicate 3 7, if_icac = [],
     if_operational_key = replicate 32 7, if_ipk_epoch_key = replicate 16 7, if_vendor_id = 65521,
     if_node_id = 112233, if_fabric_id = 1, if_fabric_index = 1, if_label = [],
     if_issuer_key = replicate 32 7, if_issuer_is_icac = False, if_compressed_fabric_id = None\<rparr>"

lemma small_namespace_get:
  "namespace_get small_namespace [''credentials''] k =
     map_of (snd (hd (mn_contexts small_namespace))) k"
  by (simp add: namespace_get_def small_namespace_def bt_get_def)

lemma small_fabric_config:
  "fabric_config small_namespace = namespace_get small_namespace [''credentials''] ''fabric''"
  by (simp add: fabric_config_def fabric_contexts_def fabric_in_context_def small_namespace_get)
     (simp add: small_namespace_def has_certificate_def bt_get_def key_of_def)

lemma small_issuer: "read_issuer_key small_namespace False = Inr (replicate 32 7, False)"
  by (simp add: read_issuer_key_def ca_contexts_def small_namespace_get)
     (simp add: small_namespace_def private_key_def secret_key_len_def key_of_def with_context_def)

lemma small_read: "read_fabric small_namespace = Inr small_fabric"
  unfolding read_fabric_def small_fabric_config small_namespace_get
  by (simp add: small_namespace_def required_bytes_def required_u64_def bt_get_def key_of_def private_key_def
      secret_key_len_def epoch_key_len_def with_context_def try_narrow_def compressed_fabric_id_def
      small_issuer [unfolded small_namespace_def key_of_def] small_fabric_def)

theorem imported_fabric_installable_witness:
  "length (if_operational_key small_fabric) = 32 \<and> \<not> if_issuer_is_icac small_fabric"
  using imported_fabric_installable [OF small_read] by (simp add: small_fabric_def)

definition small_import :: "(string \<times> string \<times> string) list \<Rightarrow> mj_import" where
  "small_import wifi = \<lparr>im_fabric = small_fabric, im_nodes = [bare_node 7],
     im_config = \<lparr>ic_fabric_label = None, ic_next_node_id = None, ic_wifi = wifi, ic_thread = [(''home'', ''0e08'')]\<rparr>,
     im_namespace = ''server''\<rparr>"

definition good_env :: apply_env where
  "good_env = \<lparr>ae_date_text = (\<lambda>_. None), ae_now = ''now'', ae_nodes_load = None, ae_nodes_write = True,
     ae_config_write = (\<lambda>_. True)\<rparr>"

definition no_files :: server_files where
  "no_files = \<lparr>sf_nodes = None, sf_config = None\<rparr>"

theorem refused_credential_strands_import_witness:
  "\<exists>nodes disk e. apply_state good_env (small_import [(''guest'', ''Guest'', [])]) ''data'' no_files =
     (\<lparr>sf_nodes = Some nodes, sf_config = disk\<rparr>, Inl [''importing the '' @ quoted ''guest'' @ '' Wi-Fi credentials: '' @ e])
     \<and> bare_file disk"
proof -
  have v: "validate_credential_id ''guest'' = Inr ''guest''" by code_simp
  have "\<exists>e. set_wifi_data (Some ''guest'') ''Guest'' (Some []) config_default = Inl e"
    by (simp add: set_wifi_data_def effective_id_def v default_credential_id_def assert_no_case_clash_def
        config_default_def require_or_keep_secret_def)
  then show ?thesis
    using refused_credential_strands_import [of good_env no_files "small_import [(''guest'', ''Guest'', [])]"]
    by (fastforce simp: good_env_def no_files_def small_import_def)
qed

theorem import_protects_nodes_witness:
  "\<exists>files' cs. apply_state good_env ((small_import [])\<lparr>im_config := imported_config_default\<rparr>) ''data'' no_files = (files', Inr ())
     \<and> config_load ''data/config.json'' (sf_config files') = Inr cs \<and> 7 < cd_next_node_id (cs_data cs)"
proof -
  let ?im = "(small_import [])\<lparr>im_config := imported_config_default\<rparr>"
  have s: "import_settings ?im = [Above 7]"
    by (simp add: import_settings_def small_import_def imported_config_default_def bare_node_def)
  obtain files' where a: "apply_state good_env ?im ''data'' no_files = (files', Inr ())"
    by (simp add: apply_state_def good_env_def no_files_def Let_def config_load_def s
        reserve_node_ids_above_def config_mutate_def config_save_def io_err_def)
  have p: "path_join ''data'' ''config.json'' = ''data/config.json''"
    by (simp add: path_join_def ends_with_char_def)
  have "bare_node 7 \<in> set (im_nodes ?im)" "distinct (map in_node_id (im_nodes ?im))"
    "list_all (\<lambda>m. in_node_id m < 0xFFFFFFFFFFFFFFFF) (im_nodes ?im)"
    by (simp_all add: small_import_def bare_node_def)
  then show ?thesis
    using import_protects_nodes [OF a, of "bare_node 7"] a p by (auto simp: bare_node_def)
qed

end
