(* ===== verification/Topology.thy ===== *)
theory Topology
  imports Interaction_Api
begin

section \<open>The network graph (src/server/src/api/network.rs)\<close>

text \<open>
  The graph is derived from the cached Thread and Wi-Fi diagnostics of the nodes. Base64 and the
  time a graph is built are arguments; an RSSI is the signed value of its 16 bits. \<open>watch_burst\<close>
  is one turn of the loop that rebuilds the graph after a burst of events and publishes it when
  its shape is new.
\<close>

definition thread_diagnostics_cluster :: u32 where "thread_diagnostics_cluster = 53"
definition wifi_diagnostics_cluster :: u32 where "wifi_diagnostics_cluster = 54"

definition attr_routing_role :: u32 where "attr_routing_role = 1"
definition attr_network_name :: u32 where "attr_network_name = 2"
definition attr_extended_pan_id :: u32 where "attr_extended_pan_id = 4"
definition attr_neighbor_table :: u32 where "attr_neighbor_table = 7"
definition attr_route_table :: u32 where "attr_route_table = 8"
definition attr_ext_address :: u32 where "attr_ext_address = 63"
definition attr_rloc16 :: u32 where "attr_rloc16 = 64"
definition attr_bssid :: u32 where "attr_bssid = 0"
definition attr_rssi :: u32 where "attr_rssi = 4"

record direction_info =
  di_strength :: string
  di_lqi :: "u8 option"
  di_rssi :: "int option"

record topology_node =
  tn_id :: string
  tn_kind :: string
  tn_network_type :: string
  tn_node_id :: "u64 option"
  tn_role :: "string option"
  tn_available :: "bool option"
  tn_is_bridge :: "bool option"
  tn_ext_address :: "string option"
  tn_rloc16 :: "u16 option"
  tn_ext_pan_id :: "string option"
  tn_network_name :: "string option"
  tn_ssid :: "string option"
  tn_bssid :: "string option"
  tn_host_name :: "string option"
  tn_vendor_name :: "string option"
  tn_model_name :: "string option"
  tn_last_seen :: "int option"

record topology_connection =
  tc_source :: string
  tc_target :: string
  tc_network :: string
  tc_strength :: string
  tc_source_to_target :: "direction_info option"
  tc_target_to_source :: "direction_info option"
  tc_via_route_table :: "bool option"
  tc_path_cost :: "u32 option"

record topology =
  tp_collected_at :: int
  tp_nodes :: "topology_node list"
  tp_connections :: "topology_connection list"

subsection \<open>The wire form\<close>

text \<open>A field left out when it is \<open>None\<close>.\<close>

definition skip_none :: "string \<Rightarrow> ('a \<Rightarrow> json) \<Rightarrow> 'a option \<Rightarrow> (string \<times> json) list" where
  "skip_none k f v = (case v of None \<Rightarrow> [] | Some a \<Rightarrow> [(k, f a)])"

definition direction_to_value :: "direction_info \<Rightarrow> json" where
  "direction_to_value d = jobj ((''strength'', JStr (di_strength d))
     # skip_none ''lqi'' jword (di_lqi d) @ skip_none ''rssi'' jint (di_rssi d))"

definition topology_node_to_value :: "topology_node \<Rightarrow> json" where
  "topology_node_to_value n = jobj
     ([(''id'', JStr (tn_id n)), (''kind'', JStr (tn_kind n)), (''network_type'', JStr (tn_network_type n))]
      @ skip_none ''node_id'' ju64 (tn_node_id n) @ skip_none ''role'' JStr (tn_role n)
      @ skip_none ''available'' JBool (tn_available n) @ skip_none ''is_bridge'' JBool (tn_is_bridge n)
      @ skip_none ''ext_address'' JStr (tn_ext_address n) @ skip_none ''rloc16'' jword (tn_rloc16 n)
      @ skip_none ''ext_pan_id'' JStr (tn_ext_pan_id n) @ skip_none ''network_name'' JStr (tn_network_name n)
      @ skip_none ''ssid'' JStr (tn_ssid n) @ skip_none ''bssid'' JStr (tn_bssid n)
      @ skip_none ''host_name'' JStr (tn_host_name n) @ skip_none ''vendor_name'' JStr (tn_vendor_name n)
      @ skip_none ''model_name'' JStr (tn_model_name n) @ skip_none ''last_seen'' jint (tn_last_seen n))"

definition connection_to_value :: "topology_connection \<Rightarrow> json" where
  "connection_to_value c = jobj
     ([(''source'', JStr (tc_source c)), (''target'', JStr (tc_target c)),
       (''network'', JStr (tc_network c)), (''strength'', JStr (tc_strength c))]
      @ skip_none ''source_to_target'' direction_to_value (tc_source_to_target c)
      @ skip_none ''target_to_source'' direction_to_value (tc_target_to_source c)
      @ skip_none ''via_route_table'' JBool (tc_via_route_table c)
      @ skip_none ''path_cost'' jword (tc_path_cost c))"

definition topology_to_value :: "topology \<Rightarrow> json" where
  "topology_to_value t = jobj
     [(''collected_at'', jint (tp_collected_at t)),
      (''nodes'', JArr (map topology_node_to_value (tp_nodes t))),
      (''connections'', JArr (map connection_to_value (tp_connections t)))]"

definition topology_shape :: "topology \<Rightarrow> json" where
  "topology_shape t = jobj
     [(''nodes'', JArr (map topology_node_to_value (tp_nodes t))),
      (''connections'', JArr (map connection_to_value (tp_connections t)))]"

subsection \<open>Reading the attributes\<close>

definition thread_attribute :: "matter_node_data \<Rightarrow> u32 \<Rightarrow> json option" where
  "thread_attribute d a = bt_get (nd_attributes d)
     (''0/'' @ show_u thread_diagnostics_cluster @ ''/'' @ show_u a)"

definition wifi_attribute :: "matter_node_data \<Rightarrow> u32 \<Rightarrow> json option" where
  "wifi_attribute d a = bt_get (nd_attributes d)
     (''0/'' @ show_u wifi_diagnostics_cluster @ ''/'' @ show_u a)"

definition decode_ext_address :: "(string \<Rightarrow> bytes option) \<Rightarrow> string \<Rightarrow> string option" where
  "decode_ext_address b64 encoded =
     opt_bind (b64 encoded) (\<lambda>b. if b = [] then None else Some (to_hex_upper b))"

definition thread_string :: "(string \<Rightarrow> bytes option) \<Rightarrow> matter_node_data \<Rightarrow> u32 \<Rightarrow> string option" where
  "thread_string b64 d a = opt_bind (opt_bind (thread_attribute d a) as_str) (decode_ext_address b64)"

definition format_bssid :: "(string \<Rightarrow> bytes option) \<Rightarrow> json \<Rightarrow> string option" where
  "format_bssid b64 v = opt_bind (opt_bind (as_str v) b64) (\<lambda>b.
     if length b \<noteq> 6 \<or> list_all (\<lambda>x. x = 0) b then None
     else Some (join_with '':'' (map hex_byte b)))"

definition routing_role :: "u64 \<Rightarrow> string" where
  "routing_role role =
     (if role = 2 then ''sleepy_end_device'' else if role = 3 then ''end_device''
      else if role = 4 then ''reed'' else if role = 5 then ''router''
      else if role = 6 then ''leader'' else ''unassigned'')"

definition thread_strength :: "u8 \<Rightarrow> string" where
  "thread_strength lqi =
     (if lqi = 0 then ''none'' else if lqi = 1 then ''weak'' else if lqi = 2 then ''medium'' else ''strong'')"

definition wifi_strength :: "int \<Rightarrow> string" where
  "wifi_strength rssi =
     (if rssi \<ge> - 55 then ''strong'' else if rssi \<ge> - 67 then ''medium''
      else if rssi \<ge> - 80 then ''weak'' else ''none'')"

definition strength_rank :: "string \<Rightarrow> nat" where
  "strength_rank s =
     (if s = ''strong'' then 4 else if s = ''medium'' then 3 else if s = ''weak'' then 2
      else if s = ''none'' then 1 else 0)"

definition strongest :: "string \<Rightarrow> string \<Rightarrow> string" where
  "strongest a b = (if strength_rank a \<ge> strength_rank b then a else b)"

text \<open>\<open>value as i16\<close> keeps the low 16 bits.\<close>

definition as_i16 :: "int \<Rightarrow> int" where
  "as_i16 i = sint (word_of_int i :: u16)"

definition ext_pan_text :: "matter_node_data \<Rightarrow> string option" where
  "ext_pan_text d = map_option hex16
     (opt_bind (thread_attribute d attr_extended_pan_id) as_u64)"

definition network_name_of :: "matter_node_data \<Rightarrow> string option" where
  "network_name_of d = opt_bind (thread_attribute d attr_network_name) as_str"

subsection \<open>The nodes of the graph\<close>

definition blank_node :: "string \<Rightarrow> string \<Rightarrow> string \<Rightarrow> topology_node" where
  "blank_node i kind network = \<lparr>tn_id = i, tn_kind = kind, tn_network_type = network, tn_node_id = None,
     tn_role = None, tn_available = None, tn_is_bridge = None, tn_ext_address = None, tn_rloc16 = None,
     tn_ext_pan_id = None, tn_network_name = None, tn_ssid = None, tn_bssid = None, tn_host_name = None,
     tn_vendor_name = None, tn_model_name = None, tn_last_seen = None\<rparr>"

definition graph_id :: "matter_node_data \<Rightarrow> string" where
  "graph_id d = show_u (nd_node_id d)"

definition bssid_of :: "(string \<Rightarrow> bytes option) \<Rightarrow> matter_node_data \<Rightarrow> string option" where
  "bssid_of b64 d = opt_bind (wifi_attribute d attr_bssid) (format_bssid b64)"

definition thread_role_of :: "matter_node_data \<Rightarrow> u64 option" where
  "thread_role_of d = opt_bind (thread_attribute d attr_routing_role) as_u64"

definition is_thread :: "matter_node_data \<Rightarrow> bool" where
  "is_thread d = (thread_role_of d \<noteq> None \<or> thread_attribute d attr_ext_address \<noteq> None)"

definition matter_node :: "(string \<Rightarrow> bytes option) \<Rightarrow> matter_node_data \<Rightarrow> topology_node" where
  "matter_node b64 d =
     (blank_node (graph_id d) ''matter''
        (if is_thread d then ''thread'' else if bssid_of b64 d \<noteq> None then ''wifi'' else ''unknown''))
     \<lparr>tn_node_id := Some (nd_node_id d),
      tn_role := (if is_thread d then map_option routing_role (thread_role_of d)
                  else if bssid_of b64 d \<noteq> None then Some ''station'' else None),
      tn_available := Some (nd_available d),
      tn_is_bridge := Some (nd_is_bridge d),
      tn_ext_address := thread_string b64 d attr_ext_address,
      tn_rloc16 := map_option ucast (opt_bind (thread_attribute d attr_rloc16) as_u64),
      tn_ext_pan_id := ext_pan_text d,
      tn_network_name := network_name_of d,
      tn_bssid := bssid_of b64 d,
      tn_vendor_name := vendor_name_of d,
      tn_model_name := product_name_of d\<rparr>"

definition ap_id :: "string \<Rightarrow> string" where
  "ap_id bssid = ''ap_'' @ filter (\<lambda>c. c \<noteq> CHR '':'') bssid"

definition ap_node :: "string \<Rightarrow> topology_node" where
  "ap_node bssid = (blank_node (ap_id bssid) ''wifi_ap'' ''wifi'')
     \<lparr>tn_role := Some ''ap'', tn_network_name := Some bssid, tn_bssid := Some bssid\<rparr>"

type_synonym graph = "topology_node list \<times> topology_connection list"

definition ensure_node :: "topology_node \<Rightarrow> topology_node list \<Rightarrow> topology_node list" where
  "ensure_node n ns = (if list_ex (\<lambda>e. tn_id e = tn_id n) ns then ns else ns @ [n])"

definition wifi_link :: "matter_node_data \<Rightarrow> string \<Rightarrow> topology_connection" where
  "wifi_link d bssid =
     (let rssi = map_option as_i16 (opt_bind (wifi_attribute d attr_rssi) as_i64);
          strength = unwrap_or (map_option wifi_strength rssi) ''unknown''
      in \<lparr>tc_source = graph_id d, tc_target = ap_id bssid, tc_network = ''wifi'', tc_strength = strength,
          tc_source_to_target = Some \<lparr>di_strength = strength, di_lqi = None, di_rssi = rssi\<rparr>,
          tc_target_to_source = None, tc_via_route_table = None, tc_path_cost = None\<rparr>)"

definition add_node :: "(string \<Rightarrow> bytes option) \<Rightarrow> matter_node_data \<Rightarrow> graph \<Rightarrow> graph" where
  "add_node b64 d = (\<lambda>(ns, cs).
     let ns1 = ns @ [matter_node b64 d] in
     case bssid_of b64 d of
       None \<Rightarrow> (ns1, cs)
     | Some bssid \<Rightarrow> (ensure_node (ap_node bssid) ns1, cs @ [wifi_link d bssid]))"

subsection \<open>The Thread links\<close>

definition by_ext_address :: "(string \<Rightarrow> bytes option) \<Rightarrow> matter_node_data list \<Rightarrow> (string \<times> string) list" where
  "by_ext_address b64 ds =
     filter_map (\<lambda>d. map_option (\<lambda>ext. (ext, graph_id d)) (thread_string b64 d attr_ext_address)) ds"

definition unknown_node :: "string \<Rightarrow> u16 option \<Rightarrow> matter_node_data \<Rightarrow> topology_node" where
  "unknown_node ext rloc16 observer = (blank_node (''unknown_'' @ ext) ''thread_unknown'' ''thread'')
     \<lparr>tn_ext_address := Some ext, tn_rloc16 := rloc16, tn_ext_pan_id := ext_pan_text observer,
      tn_network_name := network_name_of observer\<rparr>"

definition resolve_target ::
  "string \<Rightarrow> (string \<times> string) list \<Rightarrow> topology_node list \<Rightarrow> u16 option \<Rightarrow> matter_node_data
   \<Rightarrow> topology_node list \<times> string" where
  "resolve_target ext known ns rloc16 observer =
     (case find (\<lambda>(k, _). eq_ignore_ascii_case k ext) known of
        Some (_, i) \<Rightarrow> (ns, i)
      | None \<Rightarrow> (ensure_node (unknown_node ext rloc16 observer) ns, ''unknown_'' @ ext))"

definition links_same_pair :: "topology_connection \<Rightarrow> string \<Rightarrow> string \<Rightarrow> bool" where
  "links_same_pair c a b =
     ((tc_source c = a \<and> tc_target c = b) \<or> (tc_source c = b \<and> tc_target c = a))"

definition fold_into :: "topology_connection \<Rightarrow> topology_connection \<Rightarrow> topology_connection" where
  "fold_into c e =
     (let e1 = (if tc_source e = tc_source c then e\<lparr>tc_source_to_target := tc_source_to_target c\<rparr>
                else e\<lparr>tc_target_to_source := tc_source_to_target c\<rparr>)
      in e1\<lparr>tc_strength := strongest (tc_strength e1) (tc_strength c)\<rparr>)"

definition merge_connection :: "topology_connection \<Rightarrow> topology_connection list \<Rightarrow> topology_connection list" where
  "merge_connection c cs =
     (case list_position (\<lambda>e. links_same_pair e (tc_source c) (tc_target c)) cs of
        Some i \<Rightarrow> cs[i := fold_into c (cs ! i)]
      | None \<Rightarrow> cs @ [c])"

definition entry_address :: "(string \<Rightarrow> bytes option) \<Rightarrow> json \<Rightarrow> string option" where
  "entry_address b64 e = opt_bind (opt_bind (jget e ''0'') as_str) (decode_ext_address b64)"

definition neighbour_link :: "string \<Rightarrow> string \<Rightarrow> json \<Rightarrow> topology_connection" where
  "neighbour_link source target e =
     (let lqi = map_option ucast (opt_bind (jget e ''5'') as_u64) :: u8 option;
          rssi = map_option as_i16 (opt_bind (jget e ''6'') as_i64);
          strength = unwrap_or (map_option thread_strength lqi) ''unknown''
      in \<lparr>tc_source = source, tc_target = target, tc_network = ''thread'', tc_strength = strength,
          tc_source_to_target = Some \<lparr>di_strength = strength, di_lqi = lqi, di_rssi = rssi\<rparr>,
          tc_target_to_source = None, tc_via_route_table = None, tc_path_cost = None\<rparr>)"

definition add_neighbour ::
  "(string \<Rightarrow> bytes option) \<Rightarrow> (string \<times> string) list \<Rightarrow> matter_node_data \<Rightarrow> json \<Rightarrow> graph \<Rightarrow> graph" where
  "add_neighbour b64 known d e = (\<lambda>(ns, cs).
     case entry_address b64 e of
       None \<Rightarrow> (ns, cs)
     | Some ext \<Rightarrow>
         (let (ns1, target) = resolve_target ext known ns
                (map_option ucast (opt_bind (jget e ''2'') as_u64)) d
          in (ns1, merge_connection (neighbour_link (graph_id d) target e) cs)))"

definition route_link :: "string \<Rightarrow> string \<Rightarrow> json \<Rightarrow> topology_connection" where
  "route_link source target e =
     (let lqi = map_option ucast (opt_bind (opt_or (jget e ''5'') (jget e ''6'')) as_u64) :: u8 option
      in \<lparr>tc_source = source, tc_target = target, tc_network = ''thread'',
          tc_strength = unwrap_or (map_option thread_strength lqi) ''unknown'',
          tc_source_to_target = None, tc_target_to_source = None, tc_via_route_table = Some True,
          tc_path_cost = map_option ucast (opt_bind (jget e ''4'') as_u64)\<rparr>)"

definition add_route ::
  "(string \<Rightarrow> bytes option) \<Rightarrow> (string \<times> string) list \<Rightarrow> matter_node_data \<Rightarrow> json \<Rightarrow> graph \<Rightarrow> graph" where
  "add_route b64 known d e = (\<lambda>(ns, cs).
     case entry_address b64 e of
       None \<Rightarrow> (ns, cs)
     | Some ext \<Rightarrow>
         (let (ns1, target) = resolve_target ext known ns None d
          in if list_ex (\<lambda>c. links_same_pair c (graph_id d) target) cs then (ns1, cs)
             else (ns1, cs @ [route_link (graph_id d) target e])))"

definition table_of :: "matter_node_data \<Rightarrow> u32 \<Rightarrow> json list" where
  "table_of d a = unwrap_or (opt_bind (thread_attribute d a) as_array) []"

definition add_links ::
  "(string \<Rightarrow> bytes option) \<Rightarrow> (string \<times> string) list \<Rightarrow> matter_node_data \<Rightarrow> graph \<Rightarrow> graph" where
  "add_links b64 known d g =
     fold (add_route b64 known d) (table_of d attr_route_table)
       (fold (add_neighbour b64 known d) (table_of d attr_neighbor_table) g)"

definition build_topology :: "(string \<Rightarrow> bytes option) \<Rightarrow> int \<Rightarrow> matter_node_data list \<Rightarrow> topology" where
  "build_topology b64 now ds =
     (let (ns, cs) = fold (add_links b64 (by_ext_address b64 ds)) ds (fold (add_node b64) ds ([], []))
      in \<lparr>tp_collected_at = now, tp_nodes = ns, tp_connections = cs\<rparr>)"

subsection \<open>The command and the watcher\<close>

definition diagnostics_paths :: "parsed_path list" where
  "diagnostics_paths = filter_map (\<lambda>c. res_ok (parse_path (''0/'' @ show_u c @ ''/*'')))
     [thread_diagnostics_cluster, wifi_diagnostics_cluster]"

definition refresh_node :: "read_op \<Rightarrow> matter_node_data \<Rightarrow> server \<Rightarrow> server" where
  "refresh_node read d s =
     (case read (nd_node_id d) diagnostics_paths False of
        Inl _ \<Rightarrow> s
      | Inr attrs \<Rightarrow> with_nodes (\<lambda>ns. fold (\<lambda>(path, v) ns. fst (ns_set_attribute ns (nd_node_id d) path v)) attrs ns) s)"

definition refresh_diagnostics :: "read_op \<Rightarrow> server \<Rightarrow> server" where
  "refresh_diagnostics read s =
     request_save SaveLater (fold (refresh_node read) (ns_all_filtered (srv_nodes s) True) s)"

definition get_network_topology ::
  "(string \<Rightarrow> bytes option) \<Rightarrow> int \<Rightarrow> read_op \<Rightarrow> args \<Rightarrow> server \<Rightarrow> server \<times> api_result" where
  "get_network_topology b64 now read a s =
     (case args_bool_or a ''refresh'' False of
        Inl e \<Rightarrow> (s, Inl e)
      | Inr refresh \<Rightarrow>
          (let s1 = (if refresh then refresh_diagnostics read s else s)
           in (s1, Inr (topology_to_value (build_topology b64 now (ns_all (srv_nodes s1)))))))"

text \<open>The events that start a rebuild; the rest of the queue is dropped before it.\<close>

definition moves_graph :: "event \<Rightarrow> bool" where
  "moves_graph e = (event_name e \<in> {''node_added'', ''node_updated'', ''node_removed''})"

definition watch_burst ::
  "(string \<Rightarrow> bytes option) \<Rightarrow> int \<Rightarrow> event \<Rightarrow> server \<times> json option \<Rightarrow> server \<times> json option" where
  "watch_burst b64 now e = (\<lambda>(s, published).
     if \<not> moves_graph e then (s, published)
     else (let t = build_topology b64 now (ns_all (srv_nodes s)); shape = topology_shape t in
           if published = Some shape then (s, published)
           else (publish (ev_network_topology_updated (topology_to_value t)) s, Some shape)))"

subsection \<open>The graph is well formed\<close>

definition link_ends :: "topology_connection \<Rightarrow> string set" where
  "link_ends c = {tc_source c, tc_target c}"

definition node_ids :: "topology_node list \<Rightarrow> string list" where
  "node_ids ns = map tn_id ns"

text \<open>Every node once, every link between nodes of the graph, every pair linked at most once.\<close>

definition graph_ok :: "graph \<Rightarrow> bool" where
  "graph_ok g = (case g of (ns, cs) \<Rightarrow>
     distinct (node_ids ns) \<and> (\<forall>c \<in> set cs. link_ends c \<subseteq> set (node_ids ns)) \<and> distinct (map link_ends cs))"

lemma links_same_pair_ends: "links_same_pair c a b \<longleftrightarrow> link_ends c = {a, b}"
  by (auto simp: links_same_pair_def link_ends_def doubleton_eq_iff)

lemma blank_node_id [simp]: "tn_id (blank_node i k n) = i"
  by (simp add: blank_node_def)

lemma made_ids [simp]:
  "tn_id (matter_node b64 d) = graph_id d" "tn_id (ap_node bssid) = ap_id bssid"
  "tn_id (unknown_node ext r o') = ''unknown_'' @ ext"
  by (simp_all add: matter_node_def ap_node_def unknown_node_def)

lemma ensure_node_ids: "set (node_ids (ensure_node n ns)) = insert (tn_id n) (set (node_ids ns))"
  by (auto simp: ensure_node_def node_ids_def list_ex_iff) (metis image_eqI)

lemma ensure_node_distinct: "distinct (node_ids ns) \<Longrightarrow> distinct (node_ids (ensure_node n ns))"
  by (auto simp: ensure_node_def node_ids_def list_ex_iff)

lemma graph_ok_ensure: "graph_ok (ns, cs) \<Longrightarrow> graph_ok (ensure_node n ns, cs)"
  using ensure_node_ids [of n ns] ensure_node_distinct [of ns n] by (auto simp: graph_ok_def)

lemma graph_ok_link:
  assumes "graph_ok (ns, cs)" and "link_ends c \<subseteq> set (node_ids ns)" and "link_ends c \<notin> link_ends ` set cs"
  shows "graph_ok (ns, cs @ [c])"
  using assms by (auto simp: graph_ok_def)

text \<open>The first pass: matter nodes and access points.\<close>

definition first_pass :: "matter_node_data set \<Rightarrow> graph \<Rightarrow> bool" where
  "first_pass seen g = (graph_ok g \<and> graph_id ` seen \<subseteq> set (node_ids (fst g))
     \<and> set (node_ids (fst g)) \<subseteq> graph_id ` seen \<union> range ap_id)"

lemma graph_id_not_ap: "graph_id d \<noteq> ap_id b"
proof
  assume "graph_id d = ap_id b"
  then have "CHR ''a'' \<in> set (show_nat (unat (nd_node_id d)))" by (simp add: graph_id_def show_u_def ap_id_def)
  then have "is_digit CHR ''a''" by (rule show_nat_digits)
  then show False by (simp add: is_digit_def byte_of_def)
qed

lemma graph_id_inj: "graph_id d = graph_id e \<longleftrightarrow> nd_node_id d = nd_node_id e"
  by (simp add: graph_id_def)

lemma first_pass_add:
  assumes "first_pass seen g" and "nd_node_id d \<notin> nd_node_id ` seen"
  shows "first_pass (insert d seen) (add_node b64 d g)"
proof -
  obtain ns cs where g: "g = (ns, cs)" by (cases g)
  have ok: "graph_ok (ns, cs)" and ids: "graph_id ` seen \<subseteq> set (node_ids ns)" "set (node_ids ns) \<subseteq> graph_id ` seen \<union> range ap_id"
    using assms(1) by (simp_all add: first_pass_def g)
  have new: "graph_id d \<notin> set (node_ids ns)"
    using ids(2) assms(2) graph_id_not_ap by (force simp: graph_id_inj)
  let ?ns = "ns @ [matter_node b64 d]"
  have ok1: "graph_ok (?ns, cs)" using ok new by (auto simp: graph_ok_def node_ids_def)
  have ids1: "set (node_ids ?ns) = insert (graph_id d) (set (node_ids ns))" by (simp add: node_ids_def)
  show ?thesis
  proof (cases "bssid_of b64 d")
    case None
    then show ?thesis using ok1 ids ids1 by (auto simp: first_pass_def add_node_def g Let_def)
  next
    case (Some bssid)
    let ?ns2 = "ensure_node (ap_node bssid) ?ns"
    have ends: "link_ends (wifi_link d bssid) = {graph_id d, ap_id bssid}"
      by (simp add: wifi_link_def link_ends_def Let_def)
    have ids2: "set (node_ids ?ns2) = insert (ap_id bssid) (insert (graph_id d) (set (node_ids ns)))"
      by (simp add: ensure_node_ids ids1)
    have "link_ends c \<subseteq> set (node_ids ns)" if "c \<in> set cs" for c
      using ok that by (simp add: graph_ok_def)
    then have "{graph_id d, ap_id bssid} \<notin> link_ends ` set cs" using new by blast
    then have "graph_ok (?ns2, cs @ [wifi_link d bssid])"
      by (intro graph_ok_link graph_ok_ensure ok1) (simp_all add: ends ids2)
    then show ?thesis using ids ids2 by (auto simp: first_pass_def add_node_def g Let_def Some)
  qed
qed

lemma first_pass_all:
  "first_pass seen g \<Longrightarrow> distinct (map nd_node_id ds) \<Longrightarrow> nd_node_id ` seen \<inter> nd_node_id ` set ds = {} \<Longrightarrow>
   first_pass (seen \<union> set ds) (fold (add_node b64) ds g)"
proof (induction ds arbitrary: seen g)
  case (Cons d ds)
  have "first_pass (insert d seen) (add_node b64 d g)"
    by (rule first_pass_add) (use Cons.prems in auto)
  then have "first_pass (insert d seen \<union> set ds) (fold (add_node b64) ds (add_node b64 d g))"
    by (rule Cons.IH) (use Cons.prems in auto)
  then show ?case by simp
qed simp

text \<open>The second pass: links between nodes that are there, or are put there.\<close>

definition holds :: "string set \<Rightarrow> graph \<Rightarrow> bool" where
  "holds ids g = (graph_ok g \<and> ids \<subseteq> set (node_ids (fst g)))"

lemma resolve_target_ok:
  assumes "holds ids (ns, cs)" and "snd ` set known \<subseteq> ids"
    and "resolve_target ext known ns r d = (ns', t)"
  shows "holds ids (ns', cs) \<and> t \<in> set (node_ids ns')"
proof (cases "find (\<lambda>(k, _). eq_ignore_ascii_case k ext) known")
  case None
  then show ?thesis
    using assms by (auto simp: resolve_target_def holds_def graph_ok_ensure ensure_node_ids)
next
  case (Some ki)
  then have "snd ki \<in> snd ` set known" by (auto dest: find_Some_D)
  then show ?thesis using Some assms by (cases ki) (auto simp: resolve_target_def holds_def)
qed

lemma fold_into_ends: "link_ends e = link_ends c \<Longrightarrow> link_ends (fold_into c e) = link_ends e"
proof -
  have "tc_source (fold_into c e) = tc_source e" "tc_target (fold_into c e) = tc_target e"
    by (simp_all add: fold_into_def Let_def)
  then show ?thesis by (simp add: link_ends_def)
qed

lemma merge_connection_ok:
  assumes "holds ids (ns, cs)" and "link_ends c \<subseteq> set (node_ids ns)"
  shows "holds ids (ns, merge_connection c cs)"
proof (cases "list_position (\<lambda>e. links_same_pair e (tc_source c) (tc_target c)) cs")
  case None
  then have "link_ends c \<notin> link_ends ` set cs"
    unfolding list_position_None by (auto simp: links_same_pair_ends link_ends_def)
  then show ?thesis using assms graph_ok_link None by (simp add: merge_connection_def holds_def)
next
  case (Some i)
  then have i: "i < length cs" and e: "link_ends (cs ! i) = link_ends c"
    using list_position_Some [OF Some] by (auto simp: links_same_pair_ends link_ends_def)
  have m: "map link_ends (cs[i := fold_into c (cs ! i)]) = map link_ends cs"
    using i fold_into_ends [OF e] by (simp add: map_update list_update_same_conv)
  let ?cs = "cs[i := fold_into c (cs ! i)]"
  have s: "link_ends ` set ?cs = link_ends ` set cs" using m by (metis set_map)
  have "link_ends x \<subseteq> set (node_ids ns)" if "x \<in> set ?cs" for x
  proof -
    have "link_ends x \<in> link_ends ` set cs" using that s by blast
    then show ?thesis using assms(1) by (auto simp: holds_def graph_ok_def)
  qed
  then show ?thesis
    using assms(1) m Some by (simp add: holds_def graph_ok_def merge_connection_def)
qed

lemma add_neighbour_ok:
  assumes "holds ids g" and "snd ` set known \<subseteq> ids" and "graph_id d \<in> ids"
  shows "holds ids (add_neighbour b64 known d e g)"
proof (cases "entry_address b64 e")
  case None
  then show ?thesis using assms(1) by (simp add: add_neighbour_def split_def)
next
  case (Some ext)
  obtain ns cs where g: "g = (ns, cs)" by (cases g)
  obtain ns1 t where r: "resolve_target ext known ns (map_option ucast (opt_bind (jget e ''2'') as_u64)) d = (ns1, t)"
    by fastforce
  have h: "holds ids (ns1, cs)" "t \<in> set (node_ids ns1)"
    using resolve_target_ok [OF _ assms(2) r] assms(1) g by simp_all
  have "link_ends (neighbour_link (graph_id d) t e) \<subseteq> set (node_ids ns1)"
    using h assms(3) by (auto simp: neighbour_link_def link_ends_def Let_def holds_def)
  then show ?thesis using merge_connection_ok [OF h(1)] by (simp add: add_neighbour_def g Some r)
qed

lemma add_route_ok:
  assumes "holds ids g" and "snd ` set known \<subseteq> ids" and "graph_id d \<in> ids"
  shows "holds ids (add_route b64 known d e g)"
proof (cases "entry_address b64 e")
  case None
  then show ?thesis using assms(1) by (simp add: add_route_def split_def)
next
  case (Some ext)
  obtain ns cs where g: "g = (ns, cs)" by (cases g)
  obtain ns1 t where r: "resolve_target ext known ns None d = (ns1, t)" by fastforce
  have h: "holds ids (ns1, cs)" "t \<in> set (node_ids ns1)"
    using resolve_target_ok [OF _ assms(2) r] assms(1) g by simp_all
  have ends: "link_ends (route_link (graph_id d) t e) = {graph_id d, t}"
    by (simp add: route_link_def link_ends_def Let_def)
  show ?thesis
  proof (cases "list_ex (\<lambda>c. links_same_pair c (graph_id d) t) cs")
    case False
    then have "{graph_id d, t} \<notin> link_ends ` set cs"
      by (auto simp: list_ex_iff links_same_pair_ends)
    then show ?thesis
      using h assms(3) False graph_ok_link [of ns1 cs "route_link (graph_id d) t e"]
      by (auto simp: add_route_def g Some r holds_def ends)
  qed (use h in \<open>simp add: add_route_def g Some r\<close>)
qed

lemma fold_holds: "(\<And>x g. x \<in> set xs \<Longrightarrow> holds ids g \<Longrightarrow> holds ids (f x g)) \<Longrightarrow> holds ids g \<Longrightarrow> holds ids (fold f xs g)"
  by (induction xs arbitrary: g) simp_all

lemma add_links_ok:
  assumes "snd ` set known \<subseteq> ids" and "graph_id d \<in> ids" and "holds ids g"
  shows "holds ids (add_links b64 known d g)"
  unfolding add_links_def
  by (intro fold_holds add_route_ok add_neighbour_ok assms)

lemma known_ids: "snd ` set (by_ext_address b64 ds) \<subseteq> graph_id ` set ds"
  by (auto simp: by_ext_address_def map_option_eq_Some)

text \<open>C18: The graph clients draw is well formed: every node of the store is in it once, no two nodes share an
  id, every link joins two nodes of the graph, and no pair of nodes has two links, however the
  neighbour and route tables of the devices overlap.\<close>
theorem topology_well_formed:
  assumes "distinct (map nd_node_id ds)"
  shows "distinct (map tn_id (tp_nodes (build_topology b64 now ds)))
    \<and> graph_id ` set ds \<subseteq> tn_id ` set (tp_nodes (build_topology b64 now ds))
    \<and> list_all (\<lambda>c. {tc_source c, tc_target c} \<subseteq> tn_id ` set (tp_nodes (build_topology b64 now ds)))
        (tp_connections (build_topology b64 now ds))
    \<and> distinct (map (\<lambda>c. {tc_source c, tc_target c}) (tp_connections (build_topology b64 now ds)))"
proof -
  let ?first = "fold (add_node b64) ds ([], [])"
  let ?g = "fold (add_links b64 (by_ext_address b64 ds)) ds ?first"
  have "first_pass {} ([], [])" by (simp add: first_pass_def graph_ok_def node_ids_def)
  then have "first_pass (set ds) ?first" using first_pass_all [of "{}" "([], [])" ds b64] assms by simp
  then have "holds (graph_id ` set ds) ?first" by (simp add: first_pass_def holds_def)
  then have h: "holds (graph_id ` set ds) ?g"
    by (intro fold_holds [of _ _ "add_links b64 (by_ext_address b64 ds)"] add_links_ok known_ids) auto
  obtain ns cs where g: "?g = (ns, cs)" by fastforce
  have t: "tp_nodes (build_topology b64 now ds) = ns" "tp_connections (build_topology b64 now ds) = cs"
    by (simp_all add: build_topology_def g)
  show ?thesis
    using h unfolding t g
    by (auto simp: holds_def graph_ok_def node_ids_def link_ends_def [abs_def] list_all_iff)
qed

definition wifi_device :: "u64 \<Rightarrow> matter_node_data" where
  "wifi_device n = (node_new n ''now'')\<lparr>nd_attributes := [(''0/54/0'', JStr ''mac'')]\<rparr>"

definition one_mac :: "string \<Rightarrow> bytes option" where
  "one_mac s = (if s = ''mac'' then Some [1, 2, 3, 4, 5, 6] else None)"

theorem topology_well_formed_witness:
  "distinct (map (\<lambda>c. {tc_source c, tc_target c}) (tp_connections (build_topology one_mac 0 [wifi_device 1, wifi_device 2])))"
proof -
  have "distinct (map nd_node_id [wifi_device 1, wifi_device 2])" by (simp add: wifi_device_def node_new_def)
  from topology_well_formed [OF this] show ?thesis by blast
qed

subsection \<open>When the graph is published\<close>

text \<open>A change of a node publishes the graph exactly when its shape differs from the one published last, the
  time it was built aside, and afterwards the last published shape is that of the current store.\<close>
theorem graph_published_on_change:
  assumes "moves_graph e" and "watch_burst b64 now e (s, p) = (s', p')"
  shows "p' = Some (topology_shape (build_topology b64 now (ns_all (srv_nodes s))))
    \<and> srv_nodes s' = srv_nodes s
    \<and> srv_published s' = srv_published s @ (if p' = p then []
         else [ev_network_topology_updated (topology_to_value (build_topology b64 now (ns_all (srv_nodes s))))])"
  using assms by (auto simp: watch_burst_def Let_def split: if_splits)

theorem graph_published_on_change_witness:
  "\<exists>s. watch_burst one_mac 7 (ev_node_removed 1) (server_new [] config_in_memory (runtime_default ''/'') ''info'', None)
       = (s, Some (topology_shape (build_topology one_mac 7 (ns_all []))))
     \<and> length (srv_published s) = 1"
proof -
  let ?s = "server_new [] config_in_memory (runtime_default ''/'') ''info''"
  have m: "moves_graph (ev_node_removed 1)"
    by (simp add: moves_graph_def ev_node_removed_def event_always_def event_new_def event_name_def jget_jobj)
  obtain s' p' where w: "watch_burst one_mac 7 (ev_node_removed 1) (?s, None) = (s', p')"
    by (cases "watch_burst one_mac 7 (ev_node_removed 1) (?s, None)")
  show ?thesis
    using graph_published_on_change [OF m w] w by (auto simp: server_new_def)
qed

text \<open>The time it was built is no part of the shape.\<close>

lemma shape_ignores_time:
  "topology_shape (build_topology b64 now ds) = topology_shape (build_topology b64 later ds)"
  by (simp add: topology_shape_def build_topology_def split_def Let_def)

subsection \<open>What a refresh tells nobody\<close>

lemma refresh_node_published: "srv_published (refresh_node read d s) = srv_published s"
  by (simp add: refresh_node_def split: sum.split)

lemma refresh_published: "srv_published (refresh_diagnostics read s) = srv_published s"
proof -
  have "srv_published (fold (refresh_node read) ds s) = srv_published s" for ds
    by (induction ds arbitrary: s) (simp_all add: refresh_node_published)
  then show ?thesis by (simp add: refresh_diagnostics_def)
qed

text \<open>What the store caches for a path of a node.\<close>

definition cached :: "nodes \<Rightarrow> u64 \<Rightarrow> string \<Rightarrow> json option" where
  "cached ns n p = opt_bind (ns_get ns n) (\<lambda>d. bt_get (nd_attributes d) p)"

definition present :: "nodes \<Rightarrow> u64 \<Rightarrow> bool" where
  "present ns n = (ns_get ns n \<noteq> None)"

lemma cached_set:
  "present (fst (ns_set_attribute ns n q v)) k = present ns k"
  "cached (fst (ns_set_attribute ns n q v)) k p =
     (if k = n \<and> p = q \<and> present ns n then Some v else cached ns k p)"
  by (auto simp: present_def cached_def ns_set_attribute_def ns_get_def Let_def bt_get_update with_data_def
      bt_get_insert_raw split: option.splits)

lemma cached_set_all:
  "present (fold (\<lambda>(q, v) ns. fst (ns_set_attribute ns n q v)) attrs ns) k = present ns k
   \<and> cached (fold (\<lambda>(q, v) ns. fst (ns_set_attribute ns n q v)) attrs ns) k p =
     (if k = n \<and> present ns n then opt_or (map_of (rev attrs) p) (cached ns k p) else cached ns k p)"
proof (induction attrs arbitrary: ns)
  case (Cons a attrs)
  then show ?case by (cases a) (simp add: cached_set map_add_def opt_or_def split: option.split)
qed simp

lemma refresh_node_cached:
  assumes "present (srv_nodes s) n" and "read n diagnostics_paths False = Inr attrs"
    and "bt_ok attrs" and "bt_get attrs p = Some v"
    and "nd_node_id d = n \<or> cached (srv_nodes s) n p = Some v"
  shows "present (srv_nodes (refresh_node read d s)) n \<and> cached (srv_nodes (refresh_node read d s)) n p = Some v"
proof -
  have "map_of (rev attrs) p = Some v"
    using assms(3,4) by (simp add: bt_map_of_rev)
  then show ?thesis
    using assms cached_set_all by (auto simp: refresh_node_def split: sum.splits)
qed

lemma refresh_nodes_cached:
  assumes "present (srv_nodes s) n" and "read n diagnostics_paths False = Inr attrs"
    and "bt_ok attrs" and "bt_get attrs p = Some v"
    and "n \<in> nd_node_id ` set ds \<or> cached (srv_nodes s) n p = Some v"
  shows "cached (srv_nodes (fold (refresh_node read) ds s)) n p = Some v"
  using assms(1,5)
proof (induction ds arbitrary: s)
  case (Cons d ds)
  have present: "present (srv_nodes (refresh_node read d s)) n"
    using Cons.prems(1) cached_set_all by (auto simp: refresh_node_def split: sum.splits)
  have "n \<in> nd_node_id ` set ds \<or> cached (srv_nodes (refresh_node read d s)) n p = Some v"
    using Cons.prems refresh_node_cached [where read = read and n = n and d = d, OF Cons.prems(1) assms(2-4)]
    by auto
  then show ?case using Cons.IH [OF present] by simp
qed simp

text \<open>A value that is already cached is not announced.\<close>

lemma cached_not_announced:
  assumes "ns_get (srv_nodes s) n = Some d" and "bt_get (nd_attributes d) path = Some v"
  shows "publish_attribute_changes n [(path, v)] s = (s, False)"
  using assms by (auto simp: publish_attribute_changes_def announce_attribute_def ns_set_attribute_def ns_get_def)

text \<open>Refreshing the topology changes what is cached behind the clients' backs: a value an available node
  answers with is the cached one afterwards, no event has announced it, and none will, since a later read
  that finds the same value finds nothing changed.\<close>
theorem refresh_unannounced:
  assumes "ns_get (srv_nodes s) n = Some d" and "nd_node_id d = n" and "nd_available d"
    and "read n diagnostics_paths False = Inr attrs" and "bt_ok attrs" and "bt_get attrs path = Some v"
  shows "srv_published (refresh_diagnostics read s) = srv_published s
    \<and> cached (srv_nodes (refresh_diagnostics read s)) n path = Some v
    \<and> publish_attribute_changes n [(path, v)] (refresh_diagnostics read s) = (refresh_diagnostics read s, False)"
proof -
  have "d \<in> set (ns_all (srv_nodes s))"
    using assms(1) by (force simp: ns_get_def ns_all_def bt_values_def dest: bt_get_in)
  then have "d \<in> set (ns_all_filtered (srv_nodes s) True)"
    using assms(3) by (auto simp: ns_all_filtered_def ns_all_def)
  then have "n \<in> nd_node_id ` set (ns_all_filtered (srv_nodes s) True)" using assms(2) by blast
  then have "cached (srv_nodes (fold (refresh_node read) (ns_all_filtered (srv_nodes s) True) s)) n path = Some v"
    using refresh_nodes_cached [where read = read and n = n and s = s, OF _ assms(4-6)] assms(1)
    by (simp add: present_def)
  then have c: "cached (srv_nodes (refresh_diagnostics read s)) n path = Some v"
    by (simp add: refresh_diagnostics_def)
  then obtain d' where "ns_get (srv_nodes (refresh_diagnostics read s)) n = Some d'" "bt_get (nd_attributes d') path = Some v"
    by (auto simp: cached_def bind_eq_Some_conv)
  then show ?thesis using refresh_published c cached_not_announced by blast
qed

theorem refresh_unannounced_witness:
  "\<exists>s. srv_nodes s = [(1, stored_new (node_new 1 ''now''))]
     \<and> cached (srv_nodes (refresh_diagnostics (\<lambda>n paths f. Inr [(''0/53/1'', ju64 6)]) s)) 1 ''0/53/1'' = Some (ju64 6)
     \<and> srv_published (refresh_diagnostics (\<lambda>n paths f. Inr [(''0/53/1'', ju64 6)]) s) = []"
proof -
  let ?s = "server_new [(1, stored_new (node_new 1 ''now''))] config_in_memory (runtime_default ''/'') ''info''"
  let ?read = "\<lambda>n paths f. Inr [(''0/53/1'', ju64 6)]"
  have n: "srv_nodes ?s = [(1, stored_new (node_new 1 ''now''))]" "srv_published ?s = []"
    by (simp_all add: server_new_def)
  have g: "ns_get (srv_nodes ?s) 1 = Some (node_new 1 ''now'')"
    by (simp only: n) (simp add: ns_get_def bt_get_def stored_new_def)
  have "bt_ok [(''0/53/1'', ju64 6)]" "bt_get [(''0/53/1'', ju64 6)] ''0/53/1'' = Some (ju64 6)"
    by (simp_all add: bt_ok_def bt_get_def)
  then show ?thesis
    using refresh_unannounced [OF g, of ?read] n by (intro exI [of _ ?s]) (simp add: node_new_def)
qed

subsection \<open>Extended addresses that are numbers\<close>

definition numeric_tables :: "matter_node_data \<Rightarrow> bool" where
  "numeric_tables d = list_all (\<lambda>e. opt_bind (jget e ''0'') as_str = None)
     (table_of d attr_neighbor_table @ table_of d attr_route_table)"

lemma fold_skips: "(\<And>x. x \<in> set xs \<Longrightarrow> f x g = g) \<Longrightarrow> fold f xs g = g"
  by (induction xs) simp_all

lemma numeric_links: "numeric_tables d \<Longrightarrow> add_links b64 known d g = g"
proof -
  assume n: "numeric_tables d"
  have e: "entry_address b64 e = None" if "opt_bind (jget e ''0'') as_str = None" for e
    using that by (simp add: entry_address_def)
  have "fold (add_neighbour b64 known d) (table_of d attr_neighbor_table) g = g"
    by (rule fold_skips) (use n e in \<open>auto simp: add_neighbour_def numeric_tables_def list_all_iff split_def\<close>)
  moreover have "fold (add_route b64 known d) (table_of d attr_route_table) g = g"
    by (rule fold_skips) (use n e in \<open>auto simp: add_route_def numeric_tables_def list_all_iff split_def\<close>)
  ultimately show ?thesis by (simp add: add_links_def)
qed

text \<open>Extended addresses are read as base64 text only: when the neighbour and route tables of every node
  hold them as integers, as a device that encodes them as 64-bit numbers reports them, the graph has no
  Thread link at all.\<close>
theorem numeric_addresses_draw_no_link:
  assumes "list_all numeric_tables ds"
  shows "list_all (\<lambda>c. tc_network c = ''wifi'') (tp_connections (build_topology b64 now ds))"
proof -
  have links: "fold (add_links b64 known) ds g = g" for known g
    by (rule fold_skips) (use assms in \<open>simp add: numeric_links list_all_iff\<close>)
  have "list_all (\<lambda>c. tc_network c = ''wifi'') (snd (fold (add_node b64) ds g))"
    if "list_all (\<lambda>c. tc_network c = ''wifi'') (snd g)" for g
    using that
    by (induction ds arbitrary: g) (simp_all add: add_node_def split_def Let_def wifi_link_def split: option.split)
  then show ?thesis by (simp add: build_topology_def links split_def Let_def)
qed

theorem numeric_addresses_draw_no_link_witness:
  "list_all (\<lambda>c. tc_network c = ''wifi'') (tp_connections (build_topology one_mac 0
     [(node_new 1 ''now'')\<lparr>nd_attributes := [(''0/53/7'', JArr [jobj [(''0'', ju64 5), (''5'', ju64 3)]])]\<rparr>]))"
proof -
  have k: "''0/'' @ show_u thread_diagnostics_cluster @ ''/'' @ show_u attr_neighbor_table = ''0/53/7''"
    "''0/'' @ show_u thread_diagnostics_cluster @ ''/'' @ show_u attr_route_table = ''0/53/8''"
    by code_simp+
  show ?thesis
    by (rule numeric_addresses_draw_no_link)
       (simp add: numeric_tables_def table_of_def thread_attribute_def bt_get_def jget_jobj ju64_def
         k [simplified append_Cons append_Nil])
qed

end
