(* ===== verification/Thread_Model.thy ===== *)
theory Thread_Model
  imports Topology
begin

section \<open>Thread diagnostics on the wire (src/server/src/protocol/model.rs)\<close>

text \<open>
  The records of a diagnostics batch and their JSON form. Every field of a node is optional; an
  absent one is left out.
\<close>

datatype diagnostics_source = Meshcop | OtbrRest | SourceNone

datatype partial_reason =
    PetitionRejected | DtlsFailed | BorderRouterUnreachable | NoCredentials | NoSource
  | RestUnreachable | RestProtocol | PartialTimeout | InProgress | MeshcopNoResponsesYet | RestNoResponsesYet

record thread_mode =
  tm_rx_on_when_idle :: bool
  tm_ftd :: bool
  tm_full_network_data :: bool

record thread_connectivity =
  tk_parent_priority :: int
  tk_link_quality3 :: u8
  tk_link_quality2 :: u8
  tk_link_quality1 :: u8
  tk_leader_cost :: u8
  tk_id_sequence :: u8
  tk_active_routers :: u8
  tk_sed_buffer_size :: u16
  tk_sed_datagram_count :: u8

record route64_entry =
  re_router_id :: u8
  re_link_quality_in :: u8
  re_link_quality_out :: u8
  re_route_cost :: u8

record route64 =
  ro_id_sequence :: u8
  ro_entries :: "route64_entry list"

record leader_data =
  ld_partition_id :: u32
  ld_weighting :: u8
  ld_data_version :: u8
  ld_stable_data_version :: u8
  ld_leader_router_id :: u8

record mac_counters =
  mc_if_in_unknown_protos :: u32
  mc_if_in_errors :: u32
  mc_if_out_errors :: u32
  mc_if_in_ucast_pkts :: u32
  mc_if_in_broadcast_pkts :: u32
  mc_if_in_discards :: u32
  mc_if_out_ucast_pkts :: u32
  mc_if_out_broadcast_pkts :: u32
  mc_if_out_discards :: u32

record child_entry =
  ce_timeout_exponent :: u8
  ce_timeout_seconds :: u32
  ce_incoming_link_quality :: u8
  ce_child_id :: u16
  ce_mode :: thread_mode

record mle_counters =
  ml_disabled_role :: u16
  ml_detached_role :: u16
  ml_child_role :: u16
  ml_router_role :: u16
  ml_leader_role :: u16
  ml_attach_attempts :: u16
  ml_partition_id_changes :: u16
  ml_better_partition_attach_attempts :: u16
  ml_parent_changes :: u16
  ml_tracked_time :: u64
  ml_disabled_time :: u64
  ml_detached_time :: u64
  ml_child_time :: u64
  ml_router_time :: u64
  ml_leader_time :: u64

record unknown_tlv =
  ut_type :: u8
  ut_value :: string

record thread_node =
  th_ext_mac_address :: "string option"
  th_rloc16 :: "u16 option"
  th_mode :: "thread_mode option"
  th_timeout :: "u32 option"
  th_connectivity :: "thread_connectivity option"
  th_route64 :: "route64 option"
  th_leader_data :: "leader_data option"
  th_network_data :: "string option"
  th_ipv6_addresses :: "string list option"
  th_mac_counters :: "mac_counters option"
  th_child_table :: "child_entry list option"
  th_channel_pages :: "bytes option"
  th_max_child_timeout :: "u32 option"
  th_eui64 :: "string option"
  th_version :: "u16 option"
  th_vendor_name :: "string option"
  th_vendor_model :: "string option"
  th_vendor_sw_version :: "string option"
  th_thread_stack_version :: "string option"
  th_vendor_app_url :: "string option"
  th_mle_counters :: "mle_counters option"
  th_battery_level :: "u8 option"
  th_supply_voltage :: "u16 option"
  th_unknown :: "unknown_tlv list option"

record thread_batch =
  tb_ext_pan_id_hex :: string
  tb_network_name :: string
  tb_collected_at :: int
  tb_source :: diagnostics_source
  tb_nodes :: "thread_node list"
  tb_partial_reason :: "partial_reason option"

subsection \<open>The wire form\<close>

fun source_text :: "diagnostics_source \<Rightarrow> string" where
  "source_text Meshcop = ''meshcop''"
| "source_text OtbrRest = ''otbr-rest''"
| "source_text SourceNone = ''none''"

fun reason_text :: "partial_reason \<Rightarrow> string" where
  "reason_text PetitionRejected = ''petition_rejected''"
| "reason_text DtlsFailed = ''dtls_failed''"
| "reason_text BorderRouterUnreachable = ''border_router_unreachable''"
| "reason_text NoCredentials = ''no_credentials''"
| "reason_text NoSource = ''no_source''"
| "reason_text RestUnreachable = ''rest_unreachable''"
| "reason_text RestProtocol = ''rest_protocol''"
| "reason_text PartialTimeout = ''timeout''"
| "reason_text InProgress = ''in_progress''"
| "reason_text MeshcopNoResponsesYet = ''meshcop_no_responses_yet''"
| "reason_text RestNoResponsesYet = ''rest_no_responses_yet''"

definition mode_to_value :: "thread_mode \<Rightarrow> json" where
  "mode_to_value m = jobj [(''rxOnWhenIdle'', JBool (tm_rx_on_when_idle m)), (''ftd'', JBool (tm_ftd m)),
     (''fullNetworkData'', JBool (tm_full_network_data m))]"

definition connectivity_to_value :: "thread_connectivity \<Rightarrow> json" where
  "connectivity_to_value c = jobj [(''parentPriority'', jint (tk_parent_priority c)),
     (''linkQuality3'', jword (tk_link_quality3 c)), (''linkQuality2'', jword (tk_link_quality2 c)),
     (''linkQuality1'', jword (tk_link_quality1 c)), (''leaderCost'', jword (tk_leader_cost c)),
     (''idSequence'', jword (tk_id_sequence c)), (''activeRouters'', jword (tk_active_routers c)),
     (''sedBufferSize'', jword (tk_sed_buffer_size c)), (''sedDatagramCount'', jword (tk_sed_datagram_count c))]"

definition route_entry_to_value :: "route64_entry \<Rightarrow> json" where
  "route_entry_to_value e = jobj [(''routerId'', jword (re_router_id e)),
     (''linkQualityIn'', jword (re_link_quality_in e)), (''linkQualityOut'', jword (re_link_quality_out e)),
     (''routeCost'', jword (re_route_cost e))]"

definition route64_to_value :: "route64 \<Rightarrow> json" where
  "route64_to_value r = jobj [(''idSequence'', jword (ro_id_sequence r)),
     (''entries'', JArr (map route_entry_to_value (ro_entries r)))]"

definition leader_to_value :: "leader_data \<Rightarrow> json" where
  "leader_to_value l = jobj [(''partitionId'', jword (ld_partition_id l)), (''weighting'', jword (ld_weighting l)),
     (''dataVersion'', jword (ld_data_version l)), (''stableDataVersion'', jword (ld_stable_data_version l)),
     (''leaderRouterId'', jword (ld_leader_router_id l))]"

definition mac_to_value :: "mac_counters \<Rightarrow> json" where
  "mac_to_value c = jobj [(''ifInUnknownProtos'', jword (mc_if_in_unknown_protos c)),
     (''ifInErrors'', jword (mc_if_in_errors c)), (''ifOutErrors'', jword (mc_if_out_errors c)),
     (''ifInUcastPkts'', jword (mc_if_in_ucast_pkts c)), (''ifInBroadcastPkts'', jword (mc_if_in_broadcast_pkts c)),
     (''ifInDiscards'', jword (mc_if_in_discards c)), (''ifOutUcastPkts'', jword (mc_if_out_ucast_pkts c)),
     (''ifOutBroadcastPkts'', jword (mc_if_out_broadcast_pkts c)), (''ifOutDiscards'', jword (mc_if_out_discards c))]"

definition child_to_value :: "child_entry \<Rightarrow> json" where
  "child_to_value c = jobj [(''timeoutExponent'', jword (ce_timeout_exponent c)),
     (''timeoutSeconds'', jword (ce_timeout_seconds c)),
     (''incomingLinkQuality'', jword (ce_incoming_link_quality c)), (''childId'', jword (ce_child_id c)),
     (''mode'', mode_to_value (ce_mode c))]"

definition mle_to_value :: "mle_counters \<Rightarrow> json" where
  "mle_to_value c = jobj [(''disabledRole'', jword (ml_disabled_role c)), (''detachedRole'', jword (ml_detached_role c)),
     (''childRole'', jword (ml_child_role c)), (''routerRole'', jword (ml_router_role c)),
     (''leaderRole'', jword (ml_leader_role c)), (''attachAttempts'', jword (ml_attach_attempts c)),
     (''partitionIdChanges'', jword (ml_partition_id_changes c)),
     (''betterPartitionAttachAttempts'', jword (ml_better_partition_attach_attempts c)),
     (''parentChanges'', jword (ml_parent_changes c)), (''trackedTime'', ju64 (ml_tracked_time c)),
     (''disabledTime'', ju64 (ml_disabled_time c)), (''detachedTime'', ju64 (ml_detached_time c)),
     (''childTime'', ju64 (ml_child_time c)), (''routerTime'', ju64 (ml_router_time c)),
     (''leaderTime'', ju64 (ml_leader_time c))]"

definition unknown_to_value :: "unknown_tlv \<Rightarrow> json" where
  "unknown_to_value u = jobj [(''type'', jword (ut_type u)), (''value'', JStr (ut_value u))]"

definition jarray :: "('a \<Rightarrow> json) \<Rightarrow> 'a list \<Rightarrow> json" where
  "jarray f xs = JArr (map f xs)"

definition thread_node_to_value :: "thread_node \<Rightarrow> json" where
  "thread_node_to_value n = jobj
     (skip_none ''extMacAddress'' JStr (th_ext_mac_address n) @ skip_none ''rloc16'' jword (th_rloc16 n)
      @ skip_none ''mode'' mode_to_value (th_mode n) @ skip_none ''timeout'' jword (th_timeout n)
      @ skip_none ''connectivity'' connectivity_to_value (th_connectivity n)
      @ skip_none ''route64'' route64_to_value (th_route64 n)
      @ skip_none ''leaderData'' leader_to_value (th_leader_data n)
      @ skip_none ''networkData'' JStr (th_network_data n)
      @ skip_none ''ipv6Addresses'' (jarray JStr) (th_ipv6_addresses n)
      @ skip_none ''macCounters'' mac_to_value (th_mac_counters n)
      @ skip_none ''childTable'' (jarray child_to_value) (th_child_table n)
      @ skip_none ''channelPages'' (jarray jword) (th_channel_pages n)
      @ skip_none ''maxChildTimeout'' jword (th_max_child_timeout n)
      @ skip_none ''eui64'' JStr (th_eui64 n) @ skip_none ''version'' jword (th_version n)
      @ skip_none ''vendorName'' JStr (th_vendor_name n) @ skip_none ''vendorModel'' JStr (th_vendor_model n)
      @ skip_none ''vendorSwVersion'' JStr (th_vendor_sw_version n)
      @ skip_none ''threadStackVersion'' JStr (th_thread_stack_version n)
      @ skip_none ''vendorAppUrl'' JStr (th_vendor_app_url n)
      @ skip_none ''mleCounters'' mle_to_value (th_mle_counters n)
      @ skip_none ''batteryLevel'' jword (th_battery_level n)
      @ skip_none ''supplyVoltage'' jword (th_supply_voltage n)
      @ skip_none ''unknown'' (jarray unknown_to_value) (th_unknown n))"

definition batch_to_value :: "thread_batch \<Rightarrow> json" where
  "batch_to_value b = jobj
     ([(''extPanIdHex'', JStr (tb_ext_pan_id_hex b)), (''networkName'', JStr (tb_network_name b)),
       (''collectedAt'', jint (tb_collected_at b)), (''source'', JStr (source_text (tb_source b))),
       (''nodes'', jarray thread_node_to_value (tb_nodes b))]
      @ skip_none ''partialReason'' (\<lambda>r. JStr (reason_text r)) (tb_partial_reason b))"

end
