(* ===== verification/Ip_Text.thy ===== *)
theory Ip_Text
  imports Rust_Num
begin

section \<open>Addresses in text\<close>

text \<open>
  The standard library's IP addresses as the sources use them: big-endian pairs of bytes, printing
  (\<open>Display\<close> for \<open>Ipv4Addr\<close> and \<open>Ipv6Addr\<close>), and \<open>str::parse::<Ipv6Addr>()\<close>. An address is
  its four or sixteen octets.
\<close>

datatype ip_addr = IpV4 bytes | IpV6 bytes

definition be16 :: "u16 \<Rightarrow> bytes" where
  "be16 w = [of_nat (unat w div 256), of_nat (unat w mod 256)]"

definition of_be16 :: "u8 \<Rightarrow> u8 \<Rightarrow> u16" where
  "of_be16 hi lo = of_nat (unat hi * 256 + unat lo)"

subsection \<open>Printing\<close>

fun show_hex :: "nat \<Rightarrow> string" where
  "show_hex n = (if n < 16 then [lower_char (hex_digit n)]
                 else show_hex (n div 16) @ [lower_char (hex_digit (n mod 16))])"

declare show_hex.simps [simp del]

fun joined :: "string \<Rightarrow> string list \<Rightarrow> string" where
  "joined sep [] = []"
| "joined sep [w] = w"
| "joined sep (w # ws) = w @ sep @ joined sep ws"

fun segments :: "bytes \<Rightarrow> u16 list" where
  "segments (a # b # bs) = of_be16 a b # segments bs"
| "segments _ = []"

text \<open>The first longest run of zero segments: its start and length.\<close>

fun zero_run :: "nat \<Rightarrow> nat \<times> nat \<Rightarrow> nat \<times> nat \<Rightarrow> u16 list \<Rightarrow> nat \<times> nat" where
  "zero_run i cur best [] = best"
| "zero_run i (start, len) best (g # gs) =
     (if g \<noteq> 0 then zero_run (i + 1) (0, 0) best gs
      else let cur = (if len = 0 then i else start, len + 1)
           in zero_run (i + 1) cur (if snd cur > snd best then cur else best) gs)"

definition ipv4_text :: "bytes \<Rightarrow> string" where
  "ipv4_text bs = joined ''.'' (map show_u bs)"

definition ipv6_text :: "bytes \<Rightarrow> string" where
  "ipv6_text bs =
     (let gs = segments bs; print = (\<lambda>xs. joined '':'' (map (\<lambda>g. show_hex (unat g)) xs)) in
      if take 10 bs = replicate 10 0 \<and> take 2 (drop 10 bs) = [0xFF, 0xFF]
      then ''::ffff:'' @ ipv4_text (drop 12 bs)
      else case zero_run 0 (0, 0) (0, 0) gs of (start, len) \<Rightarrow>
        if len > 1 then print (take start gs) @ ''::'' @ print (drop (start + len) gs)
        else print gs)"

fun ip_text :: "ip_addr \<Rightarrow> string" where
  "ip_text (IpV4 bs) = ipv4_text bs"
| "ip_text (IpV6 bs) = ipv6_text bs"

fun is_link_local :: "ip_addr \<Rightarrow> bool" where
  "is_link_local (IpV4 bs) = (take 2 bs = [169, 254])"
| "is_link_local (IpV6 bs) =
     (case segments bs of [] \<Rightarrow> False | g # _ \<Rightarrow> and g 0xFFC0 = 0xFE80)"

subsection \<open>Parsing\<close>

text \<open>A number of at most \<open>digits\<close> digits; more digits than that, or a value over \<open>limit\<close>,
  is a failure.\<close>

definition read_number :: "nat \<Rightarrow> nat \<Rightarrow> bool \<Rightarrow> nat \<Rightarrow> string \<Rightarrow> (nat \<times> string) option" where
  "read_number radix digits zero_prefix limit s =
     (let ds = takeWhile (\<lambda>c. digit_val radix c \<noteq> None) s; n = length ds in
      if n = 0 \<or> n > digits \<or> \<not> zero_prefix \<and> hd ds = CHR ''0'' \<and> n > 1 then None
      else map_option (\<lambda>v. (v, drop n s)) (opt_filter (\<lambda>v. v \<le> limit) (digits_acc radix 0 ds)))"

definition after_separator :: "char \<Rightarrow> bool \<Rightarrow> string \<Rightarrow> string option" where
  "after_separator c first s = (if first then Some s else strip_prefix [c] s)"

fun read_octets :: "nat \<Rightarrow> bool \<Rightarrow> string \<Rightarrow> (bytes \<times> string) option" where
  "read_octets 0 first s = Some ([], s)"
| "read_octets (Suc k) first s =
     Option.bind (Option.bind (after_separator CHR ''.'' first s) (read_number 10 3 False u8_max))
       (\<lambda>(v, rest). map_option (\<lambda>(bs, r). (of_nat v # bs, r)) (read_octets k False rest))"

text \<open>Up to \<open>k\<close> groups, the last two of which may be a dotted address; what did not parse is left.\<close>

fun read_groups :: "nat \<Rightarrow> bool \<Rightarrow> string \<Rightarrow> u16 list \<times> bool \<times> string" where
  "read_groups 0 first s = ([], False, s)"
| "read_groups (Suc k) first s =
     (case (if k \<ge> 1 then Option.bind (after_separator CHR '':'' first s) (read_octets 4 True) else None) of
        Some (bs, rest) \<Rightarrow> (segments bs, True, rest)
      | None \<Rightarrow>
          (case Option.bind (after_separator CHR '':'' first s) (read_number 16 4 True u16_max) of
             None \<Rightarrow> ([], False, s)
           | Some (g, rest) \<Rightarrow>
               (case read_groups k False rest of (gs, v4, r) \<Rightarrow> (of_nat g # gs, v4, r))))"

definition read_ipv6 :: "string \<Rightarrow> (bytes \<times> string) option" where
  "read_ipv6 s =
     (case read_groups 8 True s of (front, v4, rest) \<Rightarrow>
        if length front = 8 then Some (concat (map be16 front), rest)
        else if v4 then None
        else Option.bind (strip_prefix ''::'' rest) (\<lambda>after.
          case read_groups (8 - (length front + 1)) True after of (rear, _, left) \<Rightarrow>
            Some (concat (map be16 (front @ replicate (8 - length front - length rear) 0 @ rear)), left)))"

definition parse_ipv6 :: "string \<Rightarrow> bytes option" where
  "parse_ipv6 s = (case read_ipv6 s of Some (bs, []) \<Rightarrow> Some bs | _ \<Rightarrow> None)"

lemma length_segments: "even (length bs) \<Longrightarrow> length (segments bs) = length bs div 2"
  by (induction bs rule: segments.induct) auto

lemma read_octets_length: "read_octets k first s = Some (bs, r) \<Longrightarrow> length bs = k"
  by (induction k first s arbitrary: bs r rule: read_octets.induct) (auto simp: bind_eq_Some_conv)

lemma read_groups_length: "length (fst (read_groups k first s)) \<le> k"
proof (induction k first s rule: read_groups.induct)
  case (2 k first s)
  show ?case
    using "2.IH" by (auto split: option.split prod.split dest!: read_octets_length
        simp: bind_eq_Some_conv length_segments)
qed simp

lemma read_ipv6_length:
  assumes "read_ipv6 s = Some (bs, left)"
  shows "length bs = 16"
proof -
  have c: "length (concat (map be16 gs)) = 2 * length gs" for gs
    by (induction gs) (simp_all add: be16_def)
  obtain front v4 rest where f: "read_groups 8 True s = (front, v4, rest)" by (cases "read_groups 8 True s")
  have l: "length front \<le> 8" using read_groups_length [of 8 True s] f by simp
  show ?thesis
  proof (cases "length front = 8")
    case True
    then show ?thesis using assms f c [of front] by (auto simp: read_ipv6_def)
  next
    case False
    obtain after where "strip_prefix ''::'' rest = Some after"
      using assms f False by (auto simp: read_ipv6_def bind_eq_Some_conv split: if_splits)
    moreover obtain rear x left' where "read_groups (8 - (length front + 1)) True after = (rear, x, left')"
      by (cases "read_groups (8 - (length front + 1)) True after")
    moreover have "length rear \<le> 8 - (length front + 1)"
      using read_groups_length [of "8 - (length front + 1)" True after] calculation by simp
    ultimately show ?thesis using assms f l False
      by (auto simp: read_ipv6_def c simp del: map_append concat_append split: if_splits)
  qed
qed

lemma parse_ipv6_length: "parse_ipv6 s = Some bs \<Longrightarrow> length bs = 16"
  by (auto simp: parse_ipv6_def split: option.splits list.splits dest: read_ipv6_length)

subsection \<open>Socket addresses\<close>

text \<open>\<open>str::parse::<SocketAddr>()\<close>: a dotted address or a bracketed one with an optional scope, and a port.
  A number without a limit on its digits has at most as many as there are characters.\<close>

record socket =
  so_ip :: ip_addr
  so_port :: u16
  so_scope :: u32

definition read_port :: "string \<Rightarrow> (u16 \<times> string) option" where
  "read_port s = Option.bind (strip_prefix '':'' s) (\<lambda>t.
     map_option (\<lambda>(v, r). (of_nat v, r)) (read_number 10 (length t) True u16_max t))"

definition read_scope :: "string \<Rightarrow> (u32 \<times> string) option" where
  "read_scope s = Option.bind (strip_prefix ''%'' s) (\<lambda>t.
     map_option (\<lambda>(v, r). (of_nat v, r)) (read_number 10 (length t) True u32_max t))"

definition read_socket4 :: "string \<Rightarrow> (socket \<times> string) option" where
  "read_socket4 s = Option.bind (read_octets 4 True s) (\<lambda>(bs, r).
     map_option (\<lambda>(p, r'). (\<lparr>so_ip = IpV4 bs, so_port = p, so_scope = 0\<rparr>, r')) (read_port r))"

definition read_socket6 :: "string \<Rightarrow> (socket \<times> string) option" where
  "read_socket6 s = Option.bind (Option.bind (strip_prefix ''['' s) read_ipv6) (\<lambda>(bs, r).
     case (case read_scope r of Some (i, r') \<Rightarrow> (i, r') | None \<Rightarrow> (0, r)) of (scope, r1) \<Rightarrow>
       Option.bind (strip_prefix '']'' r1) (\<lambda>r2.
         map_option (\<lambda>(p, r'). (\<lparr>so_ip = IpV6 bs, so_port = p, so_scope = scope\<rparr>, r')) (read_port r2)))"

definition parse_socket :: "string \<Rightarrow> socket option" where
  "parse_socket s =
     (case (case read_socket4 s of Some x \<Rightarrow> Some x | None \<Rightarrow> read_socket6 s) of
        Some (a, []) \<Rightarrow> Some a | _ \<Rightarrow> None)"

definition to_ipv6_mapped :: "bytes \<Rightarrow> bytes" where
  "to_ipv6_mapped bs = replicate 10 0 @ [0xFF, 0xFF] @ bs"

end
