(* ===== verification/Otbr_Translate.thy ===== *)
theory Otbr_Translate
  imports Thread_Model Ip_Text
begin

section \<open>A border router's JSON (src/server/src/matter/otbr_rest.rs)\<close>

text \<open>
  Normalising the keys of the two generations of the REST API and reading one node's diagnostics.
  \<open>lower\<close> is the standard library's lower case of a character beyond ASCII; the ASCII letters are
  lowered here.
\<close>

type_synonym jmap = "(string, json) btree"

definition sget :: "jmap \<Rightarrow> string \<Rightarrow> string option" where
  "sget o' key = opt_bind (bt_get o' key) as_str"

definition number_field :: "jmap \<Rightarrow> string \<Rightarrow> 'a::len word option" where
  "number_field o' key = opt_bind (opt_bind (bt_get o' key) as_u64) to_width"

definition flag_value :: "json \<Rightarrow> bool option" where
  "flag_value v = (case v of JBool b \<Rightarrow> Some b | JNum n \<Rightarrow> map_option (\<lambda>i. i \<noteq> 0) (num_i64 n) | _ \<Rightarrow> None)"

fun flag :: "jmap \<Rightarrow> string list \<Rightarrow> bool option" where
  "flag o' [] = None"
| "flag o' (key # keys) = opt_or (opt_bind (bt_get o' key) flag_value) (flag o' keys)"

definition unprefixed :: "string \<Rightarrow> string option" where
  "unprefixed s = opt_or (strip_prefix ''0x'' s) (strip_prefix ''0X'' s)"

definition rloc16_value :: "json \<Rightarrow> u16 option" where
  "rloc16_value v =
     (case v of
        JNum n \<Rightarrow> opt_bind (num_u64 n) to_width
      | JStr s \<Rightarrow>
          (case unprefixed (trim s) of
             Some hex \<Rightarrow> map_option of_nat (parse_uint 16 u16_max hex)
           | None \<Rightarrow> parse_dec (trim s))
      | _ \<Rightarrow> None)"

definition hex_bytes :: "string \<Rightarrow> nat option \<Rightarrow> bytes option" where
  "hex_bytes s expected =
     (let t = unwrap_or (unprefixed (trim s)) (trim s) in
      if odd (length t) \<or> \<not> is_ascii t then None
      else if (case expected of Some n \<Rightarrow> length t \<noteq> n * 2 | None \<Rightarrow> False) then None
      else collect_opt parse_hex_byte (pairs t))"

subsection \<open>Keys\<close>

definition lower_first :: "(string \<Rightarrow> string) \<Rightarrow> string \<Rightarrow> string" where
  "lower_first lower key =
     (case chars key of
        [] \<Rightarrow> []
      | c # cs \<Rightarrow> (if is_ascii c then to_ascii_lowercase c else lower c) @ concat cs)"

definition normalize_key :: "(string \<Rightarrow> string) \<Rightarrow> string \<Rightarrow> string" where
  "normalize_key lower key =
     (if key = ''BaId'' then ''baId''
      else if key = ''IP6AddressList'' then ''ip6AddressList''
      else if key = ''MACCounters'' then ''macCounters''
      else if key = ''PSKc'' then ''pskc''
      else lower_first lower key)"

fun normalize_keys :: "(string \<Rightarrow> string) \<Rightarrow> json \<Rightarrow> json" where
  "normalize_keys lower (JArr xs) = JArr (map (normalize_keys lower) xs)"
| "normalize_keys lower (JObj m) =
     jobj (map (\<lambda>(k, v). (normalize_key lower k, normalize_keys lower v)) m)"
| "normalize_keys lower v = v"

subsection \<open>The parts of a node\<close>

definition object_field :: "jmap \<Rightarrow> string \<Rightarrow> jmap option" where
  "object_field o' key = opt_bind (bt_get o' key) as_object"

definition read_mode :: "jmap \<Rightarrow> thread_mode option" where
  "read_mode o' =
     opt_bind (flag o' [''rxOnWhenIdle'']) (\<lambda>rx.
     opt_bind (flag o' [''fullThreadDevice'', ''deviceType'']) (\<lambda>ftd.
     opt_bind (flag o' [''fullNetworkData'', ''networkData'']) (\<lambda>full.
     Some \<lparr>tm_rx_on_when_idle = rx, tm_ftd = ftd, tm_full_network_data = full\<rparr>)))"

definition read_connectivity :: "jmap \<Rightarrow> thread_connectivity option" where
  "read_connectivity o' =
     opt_bind (map_option sgn (opt_bind (bt_get o' ''parentPriority'') as_i64)) (\<lambda>priority.
     opt_bind (number_field o' ''linkQuality3'') (\<lambda>q3.
     opt_bind (number_field o' ''linkQuality2'') (\<lambda>q2.
     opt_bind (number_field o' ''linkQuality1'') (\<lambda>q1.
     opt_bind (number_field o' ''leaderCost'') (\<lambda>cost.
     opt_bind (number_field o' ''idSequence'') (\<lambda>seq.
     opt_bind (number_field o' ''activeRouters'') (\<lambda>routers.
     opt_bind (number_field o' ''sedBufferSize'') (\<lambda>buffer.
     opt_bind (number_field o' ''sedDatagramCount'') (\<lambda>datagrams.
     Some \<lparr>tk_parent_priority = priority, tk_link_quality3 = q3, tk_link_quality2 = q2, tk_link_quality1 = q1,
           tk_leader_cost = cost, tk_id_sequence = seq, tk_active_routers = routers,
           tk_sed_buffer_size = buffer, tk_sed_datagram_count = datagrams\<rparr>)))))))))"

definition read_route_entry :: "json \<Rightarrow> route64_entry option" where
  "read_route_entry v =
     opt_bind (as_object v) (\<lambda>e.
     opt_bind (opt_or (number_field e ''routeId'') (number_field e ''routerId'')) (\<lambda>router.
     opt_bind (number_field e ''linkQualityIn'') (\<lambda>qin.
     opt_bind (number_field e ''linkQualityOut'') (\<lambda>qout.
     opt_bind (number_field e ''routeCost'') (\<lambda>cost.
     Some \<lparr>re_router_id = router, re_link_quality_in = qin, re_link_quality_out = qout, re_route_cost = cost\<rparr>)))))"

definition read_route :: "jmap \<Rightarrow> route64 option" where
  "read_route o' =
     opt_bind (opt_bind (opt_bind (bt_get o' ''routeData'') as_array) (collect_opt read_route_entry)) (\<lambda>entries.
     opt_bind (number_field o' ''idSequence'') (\<lambda>seq.
     Some \<lparr>ro_id_sequence = seq, ro_entries = entries\<rparr>))"

definition read_leader_data :: "jmap \<Rightarrow> leader_data option" where
  "read_leader_data o' =
     opt_bind (number_field o' ''partitionId'') (\<lambda>partition.
     opt_bind (number_field o' ''weighting'') (\<lambda>weighting.
     opt_bind (number_field o' ''dataVersion'') (\<lambda>version.
     opt_bind (number_field o' ''stableDataVersion'') (\<lambda>stable.
     opt_bind (number_field o' ''leaderRouterId'') (\<lambda>router.
     Some \<lparr>ld_partition_id = partition, ld_weighting = weighting, ld_data_version = version,
           ld_stable_data_version = stable, ld_leader_router_id = router\<rparr>)))))"

definition read_mac_counters :: "jmap \<Rightarrow> mac_counters option" where
  "read_mac_counters o' =
     opt_bind (number_field o' ''ifInUnknownProtos'') (\<lambda>unknown.
     opt_bind (number_field o' ''ifInErrors'') (\<lambda>in_errors.
     opt_bind (number_field o' ''ifOutErrors'') (\<lambda>out_errors.
     opt_bind (number_field o' ''ifInUcastPkts'') (\<lambda>in_ucast.
     opt_bind (number_field o' ''ifInBroadcastPkts'') (\<lambda>in_broadcast.
     opt_bind (number_field o' ''ifInDiscards'') (\<lambda>in_discards.
     opt_bind (number_field o' ''ifOutUcastPkts'') (\<lambda>out_ucast.
     opt_bind (number_field o' ''ifOutBroadcastPkts'') (\<lambda>out_broadcast.
     opt_bind (number_field o' ''ifOutDiscards'') (\<lambda>out_discards.
     Some \<lparr>mc_if_in_unknown_protos = unknown, mc_if_in_errors = in_errors, mc_if_out_errors = out_errors,
           mc_if_in_ucast_pkts = in_ucast, mc_if_in_broadcast_pkts = in_broadcast,
           mc_if_in_discards = in_discards, mc_if_out_ucast_pkts = out_ucast,
           mc_if_out_broadcast_pkts = out_broadcast, mc_if_out_discards = out_discards\<rparr>)))))))))"

text \<open>A float is cut to an integer, and saturates.\<close>

definition time_field :: "jmap \<Rightarrow> string \<Rightarrow> u64 option" where
  "time_field o' key = opt_bind (bt_get o' key) (\<lambda>v.
     case v of
       JNum (PosInt n) \<Rightarrow> Some n
     | JNum (NegInt i) \<Rightarrow> None
     | JNum (Float q) \<Rightarrow> if q \<ge> 0 then Some (of_nat (min (nat \<lfloor>q\<rfloor>) u64_max)) else None
     | JStr s \<Rightarrow> parse_dec (trim s)
     | _ \<Rightarrow> None)"

definition read_mle_counters :: "jmap \<Rightarrow> mle_counters option" where
  "read_mle_counters o' =
     opt_bind (number_field o' ''radioDisabledCount'') (\<lambda>disabled.
     opt_bind (number_field o' ''detachedRoleCount'') (\<lambda>detached.
     opt_bind (number_field o' ''childRoleCount'') (\<lambda>as_child.
     opt_bind (number_field o' ''routerRoleCount'') (\<lambda>as_router.
     opt_bind (number_field o' ''leaderRoleCount'') (\<lambda>as_leader.
     opt_bind (number_field o' ''attachAttemptsCount'') (\<lambda>attach.
     opt_bind (number_field o' ''partIdChangesCount'') (\<lambda>partition.
     opt_bind (number_field o' ''betterPartIdAttachAttemptsCount'') (\<lambda>better.
     opt_bind (number_field o' ''newParentCount'') (\<lambda>parents.
     opt_bind (time_field o' ''totalTrackingTime'') (\<lambda>t_tracked.
     opt_bind (time_field o' ''radioDisabledTime'') (\<lambda>t_disabled.
     opt_bind (time_field o' ''detachedRoleTime'') (\<lambda>t_detached.
     opt_bind (time_field o' ''childRoleTime'') (\<lambda>t_child.
     opt_bind (time_field o' ''routerRoleTime'') (\<lambda>t_router.
     opt_bind (time_field o' ''leaderRoleTime'') (\<lambda>t_leader.
     Some \<lparr>ml_disabled_role = disabled, ml_detached_role = detached, ml_child_role = as_child,
           ml_router_role = as_router, ml_leader_role = as_leader, ml_attach_attempts = attach,
           ml_partition_id_changes = partition, ml_better_partition_attach_attempts = better,
           ml_parent_changes = parents, ml_tracked_time = t_tracked, ml_disabled_time = t_disabled,
           ml_detached_time = t_detached, ml_child_time = t_child, ml_router_time = t_router,
           ml_leader_time = t_leader\<rparr>)))))))))))))))"

text \<open>\<open>1u32.checked_shl(n)\<close> is out of range from 32 on.\<close>

definition child_timeout :: "u8 \<Rightarrow> u32" where
  "child_timeout e =
     (let shift = max 4 (min 35 (unat e)) - 4 in if shift < 32 then push_bit shift 1 else of_nat u32_max)"

definition read_child :: "jmap \<Rightarrow> child_entry option" where
  "read_child o' =
     opt_bind (number_field o' ''timeout'') (\<lambda>exponent.
     opt_bind (number_field o' ''childId'') (\<lambda>child.
     opt_bind (opt_bind (object_field o' ''mode'') read_mode) (\<lambda>mode.
     Some \<lparr>ce_timeout_exponent = exponent, ce_timeout_seconds = child_timeout exponent,
           ce_incoming_link_quality = unwrap_or (number_field o' ''linkQuality'') 0,
           ce_child_id = child, ce_mode = mode\<rparr>)))"

definition read_pages :: "json \<Rightarrow> bytes option" where
  "read_pages v =
     (case v of
        JStr hex \<Rightarrow> hex_bytes hex None
      | JArr xs \<Rightarrow> collect_opt (\<lambda>p. opt_bind (as_u64 p) to_width) xs
      | _ \<Rightarrow> None)"

definition hex_field :: "string option \<Rightarrow> nat option \<Rightarrow> string option" where
  "hex_field v expected = map_option to_hex_upper (opt_bind v (\<lambda>hex. hex_bytes hex expected))"

definition read_addresses :: "json list \<Rightarrow> string list option" where
  "read_addresses = collect_opt (\<lambda>v. map_option to_hex_upper (opt_bind (as_str v) parse_ipv6))"

definition translate_node :: "jmap \<Rightarrow> thread_node" where
  "translate_node o' =
     \<lparr>th_ext_mac_address = hex_field (sget o' ''extAddress'') (Some 8),
      th_rloc16 = opt_bind (bt_get o' ''rloc16'') rloc16_value,
      th_mode = opt_bind (object_field o' ''mode'') read_mode,
      th_timeout = number_field o' ''timeout'',
      th_connectivity = opt_bind (object_field o' ''connectivity'') read_connectivity,
      th_route64 = opt_bind (object_field o' ''route'') read_route,
      th_leader_data = opt_bind (object_field o' ''leaderData'') read_leader_data,
      th_network_data = hex_field (sget o' ''networkData'') None,
      th_ipv6_addresses = opt_bind (opt_bind (opt_or (bt_get o' ''ipv6Addresses'') (bt_get o' ''ip6AddressList''))
                             as_array) read_addresses,
      th_mac_counters = opt_bind (object_field o' ''macCounters'') read_mac_counters,
      th_child_table = opt_bind (opt_bind (bt_get o' ''childTable'') as_array)
                         (collect_opt (\<lambda>v. opt_bind (as_object v) read_child)),
      th_channel_pages = opt_bind (bt_get o' ''channelPages'') read_pages,
      th_max_child_timeout = number_field o' ''maxChildTimeout'',
      th_eui64 = hex_field (opt_or (sget o' ''eui'') (sget o' ''eui64'')) (Some 8),
      th_version = opt_or (number_field o' ''threadVersion'') (number_field o' ''version''),
      th_vendor_name = sget o' ''vendorName'',
      th_vendor_model = sget o' ''vendorModel'',
      th_vendor_sw_version = sget o' ''vendorSwVersion'',
      th_thread_stack_version = opt_or (sget o' ''threadStackVersion'') (sget o' ''stackVersion''),
      th_vendor_app_url = sget o' ''vendorAppUrl'',
      th_mle_counters = opt_bind (object_field o' ''mleCounters'') read_mle_counters,
      th_battery_level = number_field o' ''batteryLevel'',
      th_supply_voltage = number_field o' ''supplyVoltage'',
      th_unknown = None\<rparr>"

definition attributes_of :: "json \<Rightarrow> jmap option" where
  "attributes_of item = opt_bind (as_object item) (\<lambda>o'.
     case bt_get o' ''attributes'' of
       Some (JObj attributes) \<Rightarrow>
         if bt_contains o' ''type'' \<or> bt_contains o' ''id'' then Some attributes else Some o'
     | _ \<Rightarrow> Some o')"

definition translate_item :: "(string \<Rightarrow> string) \<Rightarrow> json \<Rightarrow> thread_node option" where
  "translate_item lower item =
     opt_filter (\<lambda>n. th_ext_mac_address n \<noteq> None \<or> th_rloc16 n \<noteq> None)
       (map_option translate_node (attributes_of (normalize_keys lower item)))"

subsection \<open>Both generations of the API say the same\<close>

text \<open>
  The keys of a legacy build: the first letter a capital, but for the four acronyms of the table. A
  camel-case key begins with a small ASCII letter and does not clash with the table.
\<close>

definition upper_letter :: "char \<Rightarrow> char" where
  "upper_letter c = (if is_lower c then char_of (byte_of c - 0x20) else c)"

definition legacy_key :: "string \<Rightarrow> string" where
  "legacy_key k =
     (if k = ''ip6AddressList'' then ''IP6AddressList''
      else if k = ''macCounters'' then ''MACCounters''
      else if k = ''pskc'' then ''PSKc''
      else case k of [] \<Rightarrow> [] | c # cs \<Rightarrow> upper_letter c # cs)"

fun legacy_keys :: "json \<Rightarrow> json" where
  "legacy_keys (JArr xs) = JArr (map legacy_keys xs)"
| "legacy_keys (JObj m) = jobj (map (\<lambda>(k, v). (legacy_key k, legacy_keys v)) m)"
| "legacy_keys v = v"

definition camel_key :: "string \<Rightarrow> bool" where
  "camel_key k = (case k of [] \<Rightarrow> False
     | c # _ \<Rightarrow> is_lower c \<and> k \<notin> {''iP6AddressList'', ''mACCounters'', ''pSKc''})"

fun camel_json :: "json \<Rightarrow> bool" where
  "camel_json (JArr xs) = list_all camel_json xs"
| "camel_json (JObj m) = list_all (\<lambda>(k, v). camel_key k \<and> camel_json v) m"
| "camel_json v = True"

lemma lower_letter_byte: "is_lower c \<longleftrightarrow> 0x61 \<le> byte_of c \<and> byte_of c \<le> 0x7A"
  by (simp add: is_lower_def)

lemma char_eq_byte: "c = d \<longleftrightarrow> byte_of c = byte_of d"
  by (simp add: byte_of_def)

lemma utf8_tail_ascii: "byte_of c < 0x80 \<Longrightarrow> utf8_tail c = 0"
  by (simp add: utf8_tail_def)

lemma lower_first_ascii:
  assumes "byte_of c < 0x80"
  shows "lower_first lower (c # cs) = lower_char c # cs"
  using assms by (simp add: lower_first_def utf8_tail_ascii is_ascii_def to_ascii_lowercase_def)

lemma byte_upper_letter: "is_lower c \<Longrightarrow> byte_of (upper_letter c) = byte_of c - 0x20"
  by (auto simp: upper_letter_def lower_letter_byte byte_of_char_of)

lemma lower_upper_letter: "is_lower c \<Longrightarrow> lower_char (upper_letter c) = c"
  by (auto simp: lower_char_def is_upper_def byte_upper_letter lower_letter_byte char_eq_byte byte_of_char_of)

lemma camel_first:
  assumes "camel_key k"
  obtains c cs where "k = c # cs" and "is_lower c" and "byte_of c < 0x80" and "lower_char c = c"
    and "k \<notin> {''BaId'', ''IP6AddressList'', ''MACCounters'', ''PSKc''}"
proof -
  obtain c cs where k: "k = c # cs" and c: "is_lower c" using assms by (cases k) (auto simp: camel_key_def)
  have "\<not> is_lower CHR ''B''" "\<not> is_lower CHR ''I''" "\<not> is_lower CHR ''M''" "\<not> is_lower CHR ''P''" by code_simp+
  then have "k \<notin> {''BaId'', ''IP6AddressList'', ''MACCounters'', ''PSKc''}" using k c by auto
  moreover have "byte_of c < 0x80" "lower_char c = c"
    using c by (auto simp: lower_letter_byte lower_char_def is_upper_def)
  ultimately show ?thesis using that k c by blast
qed

lemma camel_key_fixed: "camel_key k \<Longrightarrow> normalize_key lower k = k"
  by (erule camel_first) (simp add: normalize_key_def lower_first_ascii)

lemma legacy_key_back:
  assumes "camel_key k"
  shows "normalize_key lower (legacy_key k) = k"
proof (cases "k \<in> {''ip6AddressList'', ''macCounters'', ''pskc''}")
  case True
  then show ?thesis by (auto simp: legacy_key_def normalize_key_def)
next
  case False
  obtain c cs where k: "k = c # cs" and c: "is_lower c" using assms by (cases k) (auto simp: camel_key_def)
  have l: "legacy_key k = upper_letter c # cs" using False k by (auto simp: legacy_key_def)
  have b: "byte_of (upper_letter c) < 0x80"
    using c byte_upper_letter [OF c] by (auto simp: lower_letter_byte)
  have undo: "lower_first lower (upper_letter c # cs) = c # cs"
    by (simp add: lower_first_ascii [OF b] lower_upper_letter [OF c])
  have L: "c = lower_char d" if "upper_letter c = d" for d using lower_upper_letter [OF c] that by simp
  have "lower_char CHR ''B'' = CHR ''b''" "lower_char CHR ''I'' = CHR ''i''"
    "lower_char CHR ''M'' = CHR ''m''" "lower_char CHR ''P'' = CHR ''p''" by code_simp+
  note letters = L [of "CHR ''B''", unfolded this(1)] L [of "CHR ''I''", unfolded this(2)]
    L [of "CHR ''M''", unfolded this(3)] L [of "CHR ''P''", unfolded this(4)]
  define K where "K = upper_letter c # cs"
  have "K = ''BaId'' \<Longrightarrow> k = ''baId''" using letters(1) by (simp add: K_def k)
  moreover have "K \<noteq> ''IP6AddressList''"
  proof
    assume "K = ''IP6AddressList''"
    then have "k = ''iP6AddressList''" using letters(2) by (simp add: K_def k)
    then show False using assms by (simp add: camel_key_def)
  qed
  moreover have "K \<noteq> ''MACCounters''"
  proof
    assume "K = ''MACCounters''"
    then have "k = ''mACCounters''" using letters(3) by (simp add: K_def k)
    then show False using assms by (simp add: camel_key_def)
  qed
  moreover have "K \<noteq> ''PSKc''"
  proof
    assume "K = ''PSKc''"
    then have "k = ''pSKc''" using letters(4) by (simp add: K_def k)
    then show False using assms by (simp add: camel_key_def)
  qed
  moreover have "lower_first lower K = k" using undo by (simp add: K_def k)
  ultimately show ?thesis unfolding l K_def [symmetric] by (simp add: normalize_key_def)
qed

lemma bt_collect_ok:
  assumes "bt_ok m"
  shows "bt_collect m = m"
  by (rule bt_equal) (simp_all add: assms bt_get_collect bt_map_of_rev [OF assms])

lemma jobj_id: "bt_ok m \<Longrightarrow> jobj m = JObj m"
  by (simp add: jobj_def bt_collect_ok)

lemma camel_fixed: "json_ok v \<Longrightarrow> camel_json v \<Longrightarrow> normalize_keys lower v = v"
proof (induction v rule: legacy_keys.induct)
  case (1 xs)
  then show ?case by (simp add: list_all_iff map_idI)
next
  case (2 m)
  have "map (\<lambda>(k, v). (normalize_key lower k, normalize_keys lower v)) m = m"
    using 2 by (intro map_idI) (fastforce simp: list_all_iff camel_key_fixed)
  then show ?case using 2 by (simp add: jobj_id)
qed simp_all

lemma legacy_key_inj: "inj_on legacy_key (Collect camel_key)"
  by (rule inj_on_inverseI [where g = "normalize_key id"]) (simp add: legacy_key_back)

lemma bt_collect_map_back:
  assumes ok: "bt_ok m" and undo: "\<forall>(k, v) \<in> set m. g (f (k, v)) = (k, v)" and inj: "inj_on fst (f ` set m)"
  shows "bt_collect (map g (bt_collect (map f m))) = m"
proof -
  let ?n = "bt_collect (map f m)"
  have d: "distinct (map fst (map f m))"
  proof -
    have "distinct m" using bt_ok_distinct [OF ok] by (simp add: bt_keys_def distinct_map)
    moreover have "inj_on f (set m)" using undo by (intro inj_on_inverseI [where g = g]) auto
    ultimately show ?thesis using inj by (simp add: distinct_map comp_inj_on)
  qed
  have "set ?n = set (map f m)"
  proof -
    have "(k, v) \<in> set ?n \<longleftrightarrow> (k, v) \<in> set (map f m)" for k v
    proof -
      have "(k, v) \<in> set ?n \<longleftrightarrow> map_of (rev (map f m)) k = Some v"
        using bt_get_iff [of ?n k v] by (simp add: bt_get_collect)
      also have "\<dots> \<longleftrightarrow> (k, v) \<in> set (map f m)"
        using map_of_eq_Some_iff [of "rev (map f m)" k v] d by (simp add: rev_map [symmetric] del: map_map)
      finally show ?thesis .
    qed
    then show ?thesis by auto
  qed
  then have s: "set (map g ?n) = set m" using undo by force
  have "map_of (rev (map g ?n)) k = bt_get m k" for k
  proof -
    have "distinct (map fst (rev (map g ?n)))"
    proof -
      have "distinct ?n" using bt_ok_distinct [OF bt_ok_collect [of "map f m"]] by (simp add: bt_keys_def distinct_map)
      then have "length (map g ?n) = card (set (map f m))"
        using \<open>set ?n = set (map f m)\<close> distinct_card by fastforce
      also have "\<dots> = length m" using d by (metis distinct_card distinct_map length_map)
      also have "\<dots> = card (set m)"
        using bt_ok_distinct [OF ok] by (metis bt_keys_def distinct_card distinct_map)
      finally have "distinct (map g ?n)" using s card_distinct by metis
      moreover have "inj_on fst (set m)" using bt_ok_distinct [OF ok] by (simp add: bt_keys_def distinct_map)
      ultimately show ?thesis using s by (simp add: distinct_map)
    qed
    then have "map_of (rev (map g ?n)) k = Some v \<longleftrightarrow> bt_get m k = Some v" for v
      using s map_of_eq_Some_iff bt_get_iff [OF ok] by fastforce
    then show ?thesis by (metis not_None_eq)
  qed
  then have "bt_get (bt_collect (map g ?n)) = bt_get m" by (simp add: bt_get_collect fun_eq_iff)
  then show ?thesis using bt_equal [OF bt_ok_collect ok] by blast
qed

lemma legacy_back: "json_ok v \<Longrightarrow> camel_json v \<Longrightarrow> normalize_keys lower (legacy_keys v) = v"
proof (induction v rule: legacy_keys.induct)
  case (1 xs)
  then show ?case by (simp add: list_all_iff map_idI)
next
  case (2 m)
  let ?f = "\<lambda>(k, v). (legacy_key k, legacy_keys v)"
  have keys: "camel_key k" if "(k, v) \<in> set m" for k v using 2 that by (auto simp: list_all_iff)
  have "normalize_keys lower (legacy_keys v) = v" if "(k, v) \<in> set m" for k v
    using 2 that by (fastforce simp: list_all_iff)
  then have u: "\<forall>(k, v) \<in> set m. (\<lambda>(k, v). (normalize_key lower k, normalize_keys lower v)) (?f (k, v)) = (k, v)"
    using keys by (auto simp: legacy_key_back)
  have "inj_on fst (?f ` set m)"
  proof (rule inj_onI)
    fix x y assume x: "x \<in> ?f ` set m" and y: "y \<in> ?f ` set m" and e: "fst x = fst y"
    obtain k v where k: "(k, v) \<in> set m" "x = ?f (k, v)" using x by auto
    obtain l w where l: "(l, w) \<in> set m" "y = ?f (l, w)" using y by auto
    have "k = l" using e k l keys legacy_key_inj by (auto dest: inj_onD)
    moreover have "bt_ok m" using 2 by simp
    ultimately have "v = w" using k(1) l(1) bt_get_iff [of m k] by (metis option.inject)
    then show "x = y" using \<open>k = l\<close> k l by simp
  qed
  then show ?case using bt_collect_map_back [where f = ?f, OF _ u] 2(2) by (simp add: jobj_def)
qed simp_all

text \<open>The two generations of the border router's API read the same: the answer of a current build, and
  that answer with every key spelled as a legacy build spells it, give the same node, and normalising
  an answer that was normalised already changes nothing.\<close>
theorem generations_agree:
  assumes "json_ok v" and "camel_json v"
  shows "translate_item lower (legacy_keys v) = translate_item lower v
    \<and> translate_item lower (normalize_keys lower (legacy_keys v)) = translate_item lower v
    \<and> normalize_keys lower (normalize_keys lower v) = normalize_keys lower v"
  using assms by (simp add: translate_item_def camel_fixed legacy_back)

theorem generations_agree_witness:
  "\<exists>n. translate_item id (JObj [(''Rloc16'', ju64 5)]) = Some n \<and> th_rloc16 n = Some 5"
proof -
  let ?v = "JObj [(''rloc16'', ju64 5)]"
  have c: "camel_json ?v" by (simp add: camel_key_def ju64_def) code_simp
  have o: "json_ok ?v" by (simp add: bt_ok_def ju64_def)
  have l: "legacy_keys ?v = JObj [(''Rloc16'', ju64 5)]"
    by (simp add: legacy_key_def ju64_def jobj_def bt_collect_def bt_extend_def) code_simp
  have n: "normalize_keys id ?v = ?v" by (rule camel_fixed [OF o c])
  have "translate_item id ?v = Some (translate_node [(''rloc16'', ju64 5)])"
    unfolding translate_item_def n by (simp add: attributes_of_def bt_get_def opt_filter_def translate_node_def
        rloc16_value_def ju64_def to_width_def)
  then show ?thesis
    using generations_agree [OF o c, of id] unfolding l
    by (simp add: translate_node_def bt_get_def rloc16_value_def ju64_def to_width_def)
qed

subsection \<open>Identifiers and timeouts\<close>

definition hex_of_length :: "nat \<Rightarrow> string \<Rightarrow> bool" where
  "hex_of_length n s = (length s = n \<and> list_all is_hexdigit s)"

lemma collect_opt_length: "collect_opt f xs = Some ys \<Longrightarrow> length ys = length xs"
  using collect_opt_nth list_all2_lengthD by metis

lemma hex_field_length:
  assumes "hex_field v (Some n) = Some s"
  shows "hex_of_length (2 * n) s"
proof -
  obtain t b where s: "s = to_hex_upper b" and b: "hex_bytes t (Some n) = Some b"
    using assms by (auto simp: hex_field_def bind_eq_Some_conv)
  obtain u where "length u = n * 2" and "collect_opt parse_hex_byte (pairs u) = Some b"
    using b by (auto simp: hex_bytes_def Let_def split: if_splits)
  then have "length b = n" using collect_opt_length [of parse_hex_byte "pairs u" b] by (simp add: length_pairs)
  then show ?thesis by (simp add: s hex_of_length_def to_hex_hexdigits)
qed

lemma read_addresses_length: "read_addresses vs = Some as \<Longrightarrow> list_all (hex_of_length 32) as"
proof (induction vs arbitrary: as)
  case (Cons v vs)
  then obtain t b bs where "as = to_hex_upper b # bs" and b: "parse_ipv6 t = Some b" and "read_addresses vs = Some bs"
    by (auto simp: read_addresses_def bind_eq_Some_conv split: option.splits)
  then show ?case using Cons.IH parse_ipv6_length [OF b] by (simp add: hex_of_length_def to_hex_hexdigits)
qed (simp add: read_addresses_def)

lemma child_timeout_value: "unat (child_timeout e) = 2 ^ (max 4 (min 35 (unat e)) - 4)"
proof -
  have "max 4 (min 35 (unat e)) - 4 < 32" by simp
  moreover have "unat (push_bit n 1 :: u32) = 2 ^ n" if "n < 32" for n
  proof -
    have "(2 :: nat) ^ n < 2 ^ LENGTH(32)" using that by (intro power_strict_increasing) simp_all
    then show ?thesis using unat_of_nat_small [of "2 ^ n", where 'a = 32] by (simp add: push_bit_eq_mult)
  qed
  ultimately show ?thesis by (simp add: child_timeout_def Let_def)
qed

lemma read_child_timeout:
  "read_child o' = Some c \<Longrightarrow> ce_timeout_seconds c = child_timeout (ce_timeout_exponent c)"
  by (auto simp: read_child_def bind_eq_Some_conv)

lemma child_table_timeouts:
  "collect_opt (\<lambda>v. opt_bind (as_object v) read_child) vs = Some cs
   \<Longrightarrow> list_all (\<lambda>c. ce_timeout_seconds c = child_timeout (ce_timeout_exponent c)) cs"
  by (induction vs arbitrary: cs)
     (auto simp: bind_eq_Some_conv dest: read_child_timeout split: option.splits)

text \<open>Whatever a border router answers, a translated node is well formed: its extended address and EUI-64
  are 16 hex digits, each IPv6 address is 32, and a child's timeout is two to its exponent less four,
  the exponent kept between 4 and 35, so that it never overflows its 32 bits.\<close>
theorem translated_node_shape:
  "pred_option (hex_of_length 16) (th_ext_mac_address (translate_node o'))
   \<and> pred_option (hex_of_length 16) (th_eui64 (translate_node o'))
   \<and> pred_option (list_all (hex_of_length 32)) (th_ipv6_addresses (translate_node o'))
   \<and> pred_option (list_all (\<lambda>c. unat (ce_timeout_seconds c) = 2 ^ (max 4 (min 35 (unat (ce_timeout_exponent c))) - 4)))
       (th_child_table (translate_node o'))"
proof (intro conjI)
  show "pred_option (hex_of_length 16) (th_ext_mac_address (translate_node o'))"
    and "pred_option (hex_of_length 16) (th_eui64 (translate_node o'))"
    by (auto simp: translate_node_def pred_option_def dest!: hex_field_length)
  show "pred_option (list_all (hex_of_length 32)) (th_ipv6_addresses (translate_node o'))"
    by (auto simp: translate_node_def pred_option_def bind_eq_Some_conv dest!: read_addresses_length)
  show "pred_option (list_all (\<lambda>c. unat (ce_timeout_seconds c) = 2 ^ (max 4 (min 35 (unat (ce_timeout_exponent c))) - 4)))
       (th_child_table (translate_node o'))"
    by (auto simp: translate_node_def pred_option_def bind_eq_Some_conv list_all_iff child_timeout_value
        dest!: child_table_timeouts)
qed

end
