(* ===== verification/Otbr_Client.thy ===== *)
theory Otbr_Client
  imports Otbr_Translate
begin

section \<open>The border router REST client (src/server/src/matter/otbr_rest.rs)\<close>

text \<open>
  What the client asks of a border router and makes of its answers. The HTTP exchange, the clock and
  the JSON parser are a record of operations over a state \<open>'w\<close> the model knows nothing about. An
  action is a function of that state: \<open>None\<close> when it does not return, which only the loop that waits
  for a task can do. Times are milliseconds.
\<close>

datatype rest_error = Unreachable string | Protocol string

fun rest_partial_reason :: "rest_error \<Rightarrow> partial_reason" where
  "rest_partial_reason (Unreachable _) = RestUnreachable"
| "rest_partial_reason (Protocol _) = RestProtocol"

fun rest_error_text :: "rest_error \<Rightarrow> string" where
  "rest_error_text (Unreachable detail) = ''border router unreachable: '' @ detail"
| "rest_error_text (Protocol detail) = ''border router answered unexpectedly: '' @ detail"

datatype diagnostics_api = ApiCollection | ApiLegacy | ApiNone

record capability =
  cp_base_url :: string
  cp_network_name :: string
  cp_ext_pan_id_hex :: string
  cp_diagnostics_api :: diagnostics_api

record action_outcome =
  ao_status :: string
  ao_result_id :: "string option"

subsection \<open>Exchanges\<close>

text \<open>An answer of \<open>ureq\<close>: a response with its status and its body or the failure reading it, a
  refusing status, or a transport failure.\<close>

datatype rest_answer = HttpOk nat "string + string" | HttpStatus nat | HttpTransport string

record http_request =
  rq_method :: string
  rq_url :: string
  rq_accept :: "string option"
  rq_timeout :: nat
  rq_body :: "json option"

record 'w rest_host =
  rh_call :: "http_request \<Rightarrow> 'w \<Rightarrow> rest_answer \<times> 'w"
  rh_now :: "'w \<Rightarrow> nat"
  rh_sleep :: "nat \<Rightarrow> 'w \<Rightarrow> 'w"
  rh_parse :: "string \<Rightarrow> string + json"
  rh_lower :: "string \<Rightarrow> string"

type_synonym ('w, 'a) rest_action = "'w \<Rightarrow> ('a \<times> 'w) option"

definition act_bind :: "('w, 'a) rest_action \<Rightarrow> ('a \<Rightarrow> ('w, 'b) rest_action) \<Rightarrow> ('w, 'b) rest_action" where
  "act_bind m f w = Option.bind (m w) (\<lambda>(a, w1). f a w1)"

definition act_try :: "('w, 'e + 'a) rest_action \<Rightarrow> ('a \<Rightarrow> ('w, 'e + 'b) rest_action) \<Rightarrow> ('w, 'e + 'b) rest_action" where
  "act_try m f = act_bind m (\<lambda>r w. case r of Inl e \<Rightarrow> Some (Inl e, w) | Inr a \<Rightarrow> f a w)"

definition act_return :: "'a \<Rightarrow> ('w, 'a) rest_action" where
  "act_return a w = Some (a, w)"

definition default_port :: u16 where "default_port = 8081"
definition probe_timeout :: nat where "probe_timeout = 3000"
definition request_timeout :: nat where "request_timeout = 5000"
definition poll_interval :: nat where "poll_interval = 500"
definition action_timeout :: nat where "action_timeout = 15"
definition diag_task_timeout_s :: u32 where "diag_task_timeout_s = 10"
definition discover_timeout :: nat where "discover_timeout = 20"
definition discover_task_timeout_s :: u32 where "discover_task_timeout_s = 15"
definition discover_max_age_s :: u32 where "discover_max_age_s = 30"
definition discover_max_retries :: u32 where "discover_max_retries = 5"
definition discover_device_count :: u32 where "discover_device_count = 64"
definition attempts_per_node :: nat where "attempts_per_node = 3"

definition diagnostic_types :: "string list" where
  "diagnostic_types =
     [''extAddress'', ''rloc16'', ''mode'', ''timeout'', ''connectivity'', ''route'', ''leaderData'',
      ''networkData'', ''ipv6Addresses'', ''macCounters'', ''batteryLevel'', ''supplyVoltage'', ''childTable'',
      ''channelPages'', ''maxChildTimeout'', ''eui'', ''threadVersion'', ''vendorName'', ''vendorModel'',
      ''vendorSwVersion'', ''threadStackVersion'', ''mleCounters'']"

definition trim_slashes :: "string \<Rightarrow> string" where
  "trim_slashes s = rev (dropWhile (\<lambda>c. c = CHR ''/'') (rev s))"

definition base_url_of :: "ip_addr \<Rightarrow> u16 \<Rightarrow> string" where
  "base_url_of host port = trim_slashes
     (case host of
        IpV4 _ \<Rightarrow> ''http://'' @ ip_text host @ '':'' @ show_u port
      | IpV6 _ \<Rightarrow> ''http://['' @ ip_text host @ '']:'' @ show_u port)"

definition transport_error :: "string \<Rightarrow> string \<Rightarrow> rest_answer \<Rightarrow> rest_error" where
  "transport_error verb path answer =
     (case answer of
        HttpStatus status \<Rightarrow> Protocol (verb @ '' '' @ path @ '' returned '' @ show_nat status)
      | HttpTransport e \<Rightarrow> Unreachable (verb @ '' '' @ path @ '': '' @ e)
      | HttpOk _ _ \<Rightarrow> Unreachable (verb @ '' '' @ path))"

definition json_api :: string where "json_api = ''application/vnd.api+json''"
definition plain_json :: string where "plain_json = ''application/json''"

definition call :: "'w rest_host \<Rightarrow> http_request \<Rightarrow> ('w, rest_answer) rest_action" where
  "call h rq w = Some (rh_call h rq w)"

definition parse_answer :: "'w rest_host \<Rightarrow> string \<Rightarrow> string \<Rightarrow> string + string \<Rightarrow> rest_error + json" where
  "parse_answer h verb path body =
     bind_res (map_err (\<lambda>e. Unreachable (verb @ '' '' @ path @ '': '' @ e)) body) (\<lambda>t.
       map_res (normalize_keys (rh_lower h))
         (map_err (\<lambda>e. Protocol (verb @ '' '' @ path @ '' is not JSON: '' @ e)) (rh_parse h t)))"

definition get_json :: "'w rest_host \<Rightarrow> string \<Rightarrow> string \<Rightarrow> string \<Rightarrow> nat \<Rightarrow> ('w, rest_error + json) rest_action" where
  "get_json h base path accept timeout =
     act_bind (call h \<lparr>rq_method = ''GET'', rq_url = base @ path, rq_accept = Some accept, rq_timeout = timeout,
                       rq_body = None\<rparr>)
       (\<lambda>answer. act_return (case answer of
            HttpOk status body \<Rightarrow> if status = 204 then Inr JNull else parse_answer h ''GET'' path body
          | _ \<Rightarrow> Inl (transport_error ''GET'' path answer)))"

definition answers :: "'w rest_host \<Rightarrow> string \<Rightarrow> string \<Rightarrow> ('w, rest_error + bool) rest_action" where
  "answers h base path =
     act_bind (call h \<lparr>rq_method = ''GET'', rq_url = base @ path, rq_accept = Some plain_json,
                       rq_timeout = probe_timeout, rq_body = None\<rparr>)
       (\<lambda>answer. act_return (case answer of
            HttpOk _ _ \<Rightarrow> Inr True | HttpStatus _ \<Rightarrow> Inr False
          | HttpTransport e \<Rightarrow> Inl (Unreachable (''GET '' @ path @ '': '' @ e))))"

definition post_action :: "'w rest_host \<Rightarrow> string \<Rightarrow> string \<Rightarrow> json \<Rightarrow> ('w, rest_error + string) rest_action" where
  "post_action h base kind attributes =
     act_bind (call h \<lparr>rq_method = ''POST'', rq_url = base @ ''/api/actions'', rq_accept = Some json_api,
                       rq_timeout = request_timeout,
                       rq_body = Some (jobj [(''data'', JArr [jobj [(''type'', JStr kind), (''attributes'', attributes)]])])\<rparr>)
       (\<lambda>answer. act_return (case answer of
            HttpOk _ body \<Rightarrow> bind_res (parse_answer h ''POST'' ''/api/actions'' body) (\<lambda>parsed.
              ok_or (Protocol ''POST /api/actions returned no task id'')
                (opt_bind (opt_bind (opt_bind (opt_bind (jget parsed ''data'') as_array)
                   (\<lambda>items. case items of [] \<Rightarrow> None | item # _ \<Rightarrow> Some item)) (\<lambda>item. jget item ''id'')) as_str))
          | _ \<Rightarrow> Inl (transport_error ''POST'' ''/api/actions'' answer)))"

definition outcome_of :: "string \<Rightarrow> json \<Rightarrow> rest_error + action_outcome" where
  "outcome_of path parsed =
     (let item = unwrap_or (jget parsed ''data'') parsed in
      map_res (\<lambda>status. \<lparr>ao_status = status,
          ao_result_id = opt_bind (opt_bind (opt_bind (opt_bind (jget item ''relationships'')
             (\<lambda>r. jget r ''result'')) (\<lambda>r. jget r ''data'')) (\<lambda>d. jget d ''id'')) as_str\<rparr>)
        (ok_or (Protocol (''GET '' @ path @ '' has no status''))
          (opt_bind (opt_or (opt_bind (jget item ''attributes'') (\<lambda>a. jget a ''status'')) (jget item ''status'')) as_str)))"

definition action_status :: "'w rest_host \<Rightarrow> string \<Rightarrow> string \<Rightarrow> ('w, rest_error + action_outcome) rest_action" where
  "action_status h base i =
     act_bind (get_json h base (''/api/actions/'' @ i) json_api request_timeout)
       (\<lambda>r. act_return (bind_res r (outcome_of (''/api/actions/'' @ i))))"

definition settled :: "string \<Rightarrow> bool" where
  "settled status = (status \<in> {''completed'', ''stopped'', ''failed''})"

text \<open>The loop of \<open>settle_action\<close>; the deadline is in milliseconds, the timeout in seconds.\<close>

partial_function (option) settle_loop ::
  "'w rest_host \<Rightarrow> string \<Rightarrow> string \<Rightarrow> nat \<Rightarrow> nat \<Rightarrow> 'w \<Rightarrow> ((rest_error + action_outcome) \<times> 'w) option" where
  "settle_loop h base i timeout deadline w =
     (case action_status h base i w of
        None \<Rightarrow> None
      | Some (Inl e, w1) \<Rightarrow> Some (Inl e, w1)
      | Some (Inr outcome, w1) \<Rightarrow>
          if settled (ao_status outcome) then Some (Inr outcome, w1)
          else if rh_now h w1 \<ge> deadline then
            Some (Inl (Protocol (''task '' @ i @ '' still '' @ ao_status outcome @ '' after '' @ show_nat timeout @ ''s'')), w1)
          else settle_loop h base i timeout deadline (rh_sleep h poll_interval w1))"

definition settle_action ::
  "'w rest_host \<Rightarrow> string \<Rightarrow> string \<Rightarrow> nat \<Rightarrow> ('w, rest_error + action_outcome) rest_action" where
  "settle_action h base i timeout w = settle_loop h base i timeout (rh_now h w + timeout * 1000) w"

definition clear_diagnostics :: "'w rest_host \<Rightarrow> string \<Rightarrow> ('w, rest_error + unit) rest_action" where
  "clear_diagnostics h base =
     act_bind (call h \<lparr>rq_method = ''DELETE'', rq_url = base @ ''/api/diagnostics'', rq_accept = None,
                       rq_timeout = request_timeout, rq_body = None\<rparr>)
       (\<lambda>answer. act_return (case answer of
            HttpOk _ _ \<Rightarrow> Inr () | _ \<Rightarrow> Inl (transport_error ''DELETE'' ''/api/diagnostics'' answer)))"

definition items_of :: "string \<Rightarrow> json \<Rightarrow> rest_error + json list" where
  "items_of path parsed =
     (case parsed of
        JArr items \<Rightarrow> Inr items
      | JObj o' \<Rightarrow>
          (case bt_get o' ''data'' of
             Some (JArr items) \<Rightarrow> Inr items
           | _ \<Rightarrow> Inl (Protocol (''GET '' @ path @ '' did not return a collection'')))
      | JNull \<Rightarrow> Inr []
      | _ \<Rightarrow> Inl (Protocol (''GET '' @ path @ '' did not return a collection'')))"

definition collection_at :: "'w rest_host \<Rightarrow> string \<Rightarrow> string \<Rightarrow> ('w, rest_error + json list) rest_action" where
  "collection_at h base path =
     act_bind (get_json h base path json_api request_timeout)
       (\<lambda>r. act_return (bind_res r (items_of path)))"

definition devices :: "'w rest_host \<Rightarrow> string \<Rightarrow> ('w, rest_error + json list) rest_action" where
  "devices h base = collection_at h base ''/api/devices''"

definition diagnostics_collection :: "'w rest_host \<Rightarrow> string \<Rightarrow> ('w, rest_error + json list) rest_action" where
  "diagnostics_collection h base = collection_at h base ''/api/diagnostics''"

definition legacy_diagnostics :: "'w rest_host \<Rightarrow> string \<Rightarrow> ('w, rest_error + json list) rest_action" where
  "legacy_diagnostics h base = collection_at h base ''/diagnostics''"

definition diagnostic :: "'w rest_host \<Rightarrow> string \<Rightarrow> string \<Rightarrow> ('w, rest_error + json) rest_action" where
  "diagnostic h base i =
     act_bind (get_json h base (''/api/diagnostics/'' @ i) json_api request_timeout)
       (\<lambda>r. act_return (map_res (\<lambda>parsed. case jget parsed ''data'' of
           Some (JObj o') \<Rightarrow> JObj o' | _ \<Rightarrow> parsed) r))"

subsection \<open>Probing\<close>

definition node_names :: "json \<Rightarrow> rest_error + string \<times> string" where
  "node_names node =
     bind_res (ok_or (Protocol ''/node did not return an object'') (as_object node)) (\<lambda>o'.
     bind_res (ok_or (Protocol ''/node has no networkName'') (sget o' ''networkName'')) (\<lambda>name.
     map_res (\<lambda>pan. (name, pan))
       (ok_or (Protocol ''/node has no 8-byte extPanId'') (hex_field (sget o' ''extPanId'') (Some 8)))))"

definition probe_api :: "'w rest_host \<Rightarrow> string \<Rightarrow> ('w, rest_error + diagnostics_api) rest_action" where
  "probe_api h base =
     act_try (answers h base ''/api/diagnostics'') (\<lambda>current.
       if current then act_return (Inr ApiCollection)
       else act_try (answers h base ''/diagnostics'') (\<lambda>legacy.
         act_return (Inr (if legacy then ApiLegacy else ApiNone))))"

definition probe :: "'w rest_host \<Rightarrow> string \<Rightarrow> ('w, rest_error + capability) rest_action" where
  "probe h base =
     act_try (get_json h base ''/node'' plain_json probe_timeout) (\<lambda>node.
     act_try (act_return (node_names node)) (\<lambda>(name, pan).
     act_try (probe_api h base) (\<lambda>api.
     act_return (Inr \<lparr>cp_base_url = base, cp_network_name = name, cp_ext_pan_id_hex = pan,
                      cp_diagnostics_api = api\<rparr>))))"

subsection \<open>Collecting\<close>

text \<open>A delivered node comes with the instant it is handed over; \<open>produced\<close> is the set of result
  items read so far.\<close>

type_synonym delivery = "(thread_node \<times> nat) list"

definition handed_over :: "'w rest_host \<Rightarrow> json \<Rightarrow> 'w \<Rightarrow> delivery" where
  "handed_over h item w =
     (case translate_item (rh_lower h) item of None \<Rightarrow> [] | Some n \<Rightarrow> [(n, rh_now h w)])"

definition node_task :: "string \<Rightarrow> json" where
  "node_task destination = jobj [(''destination'', JStr destination),
     (''types'', JArr (map JStr diagnostic_types)), (''timeout'', jword diag_task_timeout_s)]"

definition read_result_item ::
  "'w rest_host \<Rightarrow> string \<Rightarrow> string option \<Rightarrow> ('w, delivery \<times> string list) rest_action" where
  "read_result_item h base result_id =
     (case result_id of
        None \<Rightarrow> act_return ([], [])
      | Some i \<Rightarrow> act_bind (diagnostic h base i) (\<lambda>r w.
          case r of
            Inl _ \<Rightarrow> Some (([], []), w)
          | Inr item \<Rightarrow> Some ((handed_over h item w, [i]), w)))"

fun query_attempts :: "nat \<Rightarrow> 'w rest_host \<Rightarrow> string \<Rightarrow> string \<Rightarrow> ('w, delivery \<times> string list) rest_action" where
  "query_attempts 0 h base destination = act_return ([], [])"
| "query_attempts (Suc k) h base destination =
     act_bind (act_try (post_action h base ''getNetworkDiagnosticTask'' (node_task destination))
                 (\<lambda>i. settle_action h base i action_timeout))
       (\<lambda>r. case r of
          Inr outcome \<Rightarrow>
            if ao_status outcome = ''completed'' then read_result_item h base (ao_result_id outcome)
            else query_attempts k h base destination
        | Inl _ \<Rightarrow> query_attempts k h base destination)"

definition query_node :: "'w rest_host \<Rightarrow> string \<Rightarrow> string \<Rightarrow> ('w, delivery \<times> string list) rest_action" where
  "query_node = query_attempts attempts_per_node"

text \<open>
  The workers share the queue of destinations. \<open>schedule\<close> says in which order they finish, what
  exchange each of them sees, and the state after all are done: whatever the interleaving, a
  destination is one worker's and its node is handed over when that worker has it.
\<close>

type_synonym 'w schedule = "string list \<Rightarrow> 'w \<Rightarrow> (string \<times> 'w) list \<times> 'w"

fun query_all :: "'w rest_host \<Rightarrow> string \<Rightarrow> (string \<times> 'w) list \<Rightarrow> (delivery \<times> string list) option" where
  "query_all h base [] = Some ([], [])"
| "query_all h base ((destination, w) # rest) =
     Option.bind (query_node h base destination w) (\<lambda>((ns, ids), _).
       map_option (\<lambda>(ms, js). (ns @ ms, ids @ js)) (query_all h base rest))"

definition discovery_task :: json where
  "discovery_task = jobj [(''maxAge'', jword discover_max_age_s), (''maxRetries'', jword discover_max_retries),
     (''deviceCount'', jword discover_device_count), (''timeout'', jword discover_task_timeout_s)]"

definition destinations_of :: "json list \<Rightarrow> string list" where
  "destinations_of = filter_map (\<lambda>device. opt_bind (attributes_of device) (\<lambda>o'. sget o' ''extAddress''))"

definition item_id :: "json \<Rightarrow> string" where
  "item_id entry = unwrap_or (opt_bind (jget entry ''id'') as_str) []"

definition missed_items :: "'w rest_host \<Rightarrow> string list \<Rightarrow> json list \<Rightarrow> 'w \<Rightarrow> delivery" where
  "missed_items h produced entries w =
     concat (map (\<lambda>e. if item_id e \<in> set produced then [] else handed_over h e w) entries)"

definition find_devices :: "'w rest_host \<Rightarrow> string \<Rightarrow> ('w, rest_error + string list) rest_action" where
  "find_devices h base =
     act_bind (clear_diagnostics h base) (\<lambda>_.
     act_try (post_action h base ''updateDeviceCollectionTask'' discovery_task) (\<lambda>discovery.
     act_try (settle_action h base discovery discover_timeout) (\<lambda>_.
     act_try (devices h base) (\<lambda>ds. act_return (Inr (destinations_of ds))))))"

definition collect_via_tasks ::
  "'w rest_host \<Rightarrow> 'w schedule \<Rightarrow> string \<Rightarrow> ('w, delivery \<times> (rest_error + unit)) rest_action" where
  "collect_via_tasks h schedule base =
     act_bind (find_devices h base) (\<lambda>found w.
       case found of
         Inl e \<Rightarrow> Some (([], Inl e), w)
       | Inr destinations \<Rightarrow>
           (case schedule destinations w of (workers, w1) \<Rightarrow>
              Option.bind (query_all h base workers) (\<lambda>(nodes, produced).
              act_bind (diagnostics_collection h base) (\<lambda>entries w2.
                case entries of
                  Inl e \<Rightarrow> Some ((nodes, Inl e), w2)
                | Inr es \<Rightarrow> Some ((nodes @ missed_items h produced es w2, Inr ()), w2)) w1)))"

definition collect_legacy :: "'w rest_host \<Rightarrow> string \<Rightarrow> ('w, delivery \<times> (rest_error + unit)) rest_action" where
  "collect_legacy h base =
     act_bind (legacy_diagnostics h base) (\<lambda>r w.
       case r of
         Inl e \<Rightarrow> Some (([], Inl e), w)
       | Inr es \<Rightarrow> Some ((concat (map (\<lambda>e. handed_over h e w) es), Inr ()), w))"

definition collect_mesh ::
  "'w rest_host \<Rightarrow> 'w schedule \<Rightarrow> string \<Rightarrow> capability \<Rightarrow> ('w, delivery \<times> (rest_error + unit)) rest_action" where
  "collect_mesh h schedule base c =
     (case cp_diagnostics_api c of
        ApiNone \<Rightarrow> act_return ([], Inl (Protocol ''this border router does not serve diagnostics over REST''))
      | ApiLegacy \<Rightarrow> collect_legacy h base
      | ApiCollection \<Rightarrow> collect_via_tasks h schedule base)"

subsection \<open>Every action returns\<close>

text \<open>The clock does not go back during an exchange, and a pause lasts.\<close>

definition clock_runs :: "'w rest_host \<Rightarrow> bool" where
  "clock_runs h = ((\<forall>rq w. rh_now h w \<le> rh_now h (snd (rh_call h rq w)))
     \<and> (\<forall>k w. rh_now h w + k \<le> rh_now h (rh_sleep h k w)))"

definition acts :: "'w rest_host \<Rightarrow> ('w, 'a) rest_action \<Rightarrow> bool" where
  "acts h m = (\<forall>w. \<exists>r w'. m w = Some (r, w') \<and> rh_now h w \<le> rh_now h w')"

lemma acts_return [intro]: "acts h (act_return a)"
  by (simp add: acts_def act_return_def)

lemma acts_bind [intro]:
  assumes "acts h m" and "\<And>a. acts h (f a)"
  shows "acts h (act_bind m f)"
  unfolding acts_def act_bind_def
proof
  fix w
  obtain a w1 where m: "m w = Some (a, w1)" "rh_now h w \<le> rh_now h w1" using assms(1) by (metis acts_def)
  obtain b w2 where f: "f a w1 = Some (b, w2)" "rh_now h w1 \<le> rh_now h w2" using assms(2) by (metis acts_def)
  show "\<exists>r w'. opt_bind (m w) (\<lambda>(a, w1). f a w1) = Some (r, w') \<and> rh_now h w \<le> rh_now h w'"
    using m f by auto
qed

lemma acts_try [intro]:
  assumes "acts h m" and "\<And>a. acts h (f a)"
  shows "acts h (act_try m f)"
  unfolding act_try_def
  by (rule acts_bind [OF assms(1)]) (use assms(2) in \<open>auto simp: acts_def split: sum.split\<close>)

lemma acts_call [intro]: "clock_runs h \<Longrightarrow> acts h (call h rq)"
  unfolding acts_def call_def clock_runs_def by (metis prod.collapse)

lemma acts_requests [intro]:
  assumes "clock_runs h"
  shows "acts h (get_json h base path accept timeout)" and "acts h (answers h base path)"
    and "acts h (post_action h base kind attrs)" and "acts h (clear_diagnostics h base)"
  unfolding get_json_def answers_def post_action_def clear_diagnostics_def using assms by blast+

lemma acts_reads [intro]:
  assumes "clock_runs h"
  shows "acts h (action_status h base i)" and "acts h (collection_at h base path)" and "acts h (diagnostic h base i)"
  unfolding action_status_def collection_at_def diagnostic_def using assms by blast+

lemma settle_loop_returns:
  assumes "clock_runs h"
  shows "\<exists>r w'. settle_loop h base i timeout deadline w = Some (r, w') \<and> rh_now h w \<le> rh_now h w'"
proof (induction "deadline - rh_now h w" arbitrary: w rule: less_induct)
  case less
  obtain r w1 where s: "action_status h base i w = Some (r, w1)" and t: "rh_now h w \<le> rh_now h w1"
    using acts_reads(1) [OF assms] by (metis acts_def)
  let ?w2 = "rh_sleep h poll_interval w1"
  have p: "rh_now h w1 + 500 \<le> rh_now h ?w2"
    using assms by (simp add: clock_runs_def poll_interval_def)
  have "\<exists>r w'. settle_loop h base i timeout deadline ?w2 = Some (r, w') \<and> rh_now h ?w2 \<le> rh_now h w'"
    if "\<not> rh_now h w1 \<ge> deadline"
  proof -
    have "deadline - rh_now h ?w2 < deadline - rh_now h w" using that t p by linarith
    then show ?thesis using less by blast
  qed
  then show ?case
  proof (cases r)
    case (Inr outcome)
    obtain r2 w3 where n: "\<not> settled (ao_status outcome) \<Longrightarrow> \<not> rh_now h w1 \<ge> deadline \<Longrightarrow>
        settle_loop h base i timeout deadline ?w2 = Some (r2, w3) \<and> rh_now h ?w2 \<le> rh_now h w3"
      using \<open>\<not> rh_now h w1 \<ge> deadline \<Longrightarrow> _\<close> by blast
    show ?thesis using s t p n by (subst settle_loop.simps) (auto simp: Inr)
  qed (subst settle_loop.simps, simp add: s t)
qed

lemma acts_settle [intro]: "clock_runs h \<Longrightarrow> acts h (settle_action h base i timeout)"
  by (simp add: acts_def settle_action_def settle_loop_returns)

lemma acts_probe [intro]: "clock_runs h \<Longrightarrow> acts h (probe h base)"
  unfolding probe_def probe_api_def by (auto intro!: acts_try split: prod.split)

lemma acts_read_result [intro]:
  assumes "clock_runs h"
  shows "acts h (read_result_item h base i)"
proof (cases i)
  case (Some j)
  show ?thesis unfolding read_result_item_def Some option.case
    by (rule acts_bind [OF acts_reads(3) [OF assms]]) (auto simp: acts_def split: sum.split)
qed (auto simp: read_result_item_def)

lemma acts_query [intro]: "clock_runs h \<Longrightarrow> acts h (query_attempts k h base destination)"
  by (induction k) (auto intro!: acts_bind acts_try split: sum.split)

lemma query_all_returns: "clock_runs h \<Longrightarrow> \<exists>r. query_all h base workers = Some r"
proof (induction workers)
  case (Cons x workers)
  obtain d w where x: "x = (d, w)" by (cases x)
  obtain ns ids w1 where "query_node h base d w = Some ((ns, ids), w1)"
    using acts_query [OF Cons.prems] unfolding query_node_def acts_def by (metis surj_pair)
  then show ?case using Cons x by auto
qed simp

lemma acts_find [intro]: "clock_runs h \<Longrightarrow> acts h (find_devices h base)"
  unfolding find_devices_def devices_def by (intro acts_bind acts_try acts_return acts_requests acts_settle acts_reads)

text \<open>C16: Collecting a mesh always ends, however many tasks the border router leaves pending for however long:
  given a clock that runs, every collection returns.\<close>
theorem collection_returns:
  assumes "clock_runs h"
  shows "\<exists>nodes r w'. collect_mesh h schedule base c w = Some ((nodes, r), w')"
proof (cases "cp_diagnostics_api c")
  case ApiNone
  then show ?thesis by (simp add: collect_mesh_def act_return_def)
next
  case ApiLegacy
  obtain r w1 where "legacy_diagnostics h base w = Some (r, w1)"
    using acts_reads(2) [OF assms] unfolding legacy_diagnostics_def acts_def by metis
  then show ?thesis using ApiLegacy
    by (cases r) (simp_all add: collect_mesh_def collect_legacy_def act_bind_def)
next
  case ApiCollection
  obtain r w1 where f: "find_devices h base w = Some (r, w1)"
    using acts_find [OF assms] unfolding acts_def by metis
  obtain workers w2 where s: "schedule (projr r) w1 = (workers, w2)" by (cases "schedule (projr r) w1")
  obtain nodes produced where q: "query_all h base workers = Some (nodes, produced)"
    using query_all_returns [OF assms] by (metis surj_pair)
  obtain es w3 where d: "diagnostics_collection h base w2 = Some (es, w3)"
    using acts_reads(2) [OF assms] unfolding diagnostics_collection_def acts_def by metis
  show ?thesis using f s q d
    by (cases r; cases es) (simp_all add: collect_mesh_def ApiCollection collect_via_tasks_def act_bind_def)
qed

text \<open>A border router that is down: the state counts the requests made and the time.\<close>

definition dead_host :: "(nat \<times> nat) rest_host" where
  "dead_host = \<lparr>rh_call = (\<lambda>rq (posts, t). (HttpTransport ''refused'',
       (if rq_method rq = ''POST'' then posts + 1 else posts, t))),
     rh_now = snd, rh_sleep = (\<lambda>k (posts, t). (posts, t + k)), rh_parse = (\<lambda>_. Inl ''EOF''), rh_lower = id\<rparr>"

theorem collection_returns_witness:
  "\<exists>nodes r w'. collect_mesh dead_host (\<lambda>ds w. (map (\<lambda>d. (d, w)) ds, w)) ''http://br''
     \<lparr>cp_base_url = ''http://br'', cp_network_name = ''net'', cp_ext_pan_id_hex = ''0011223344556677'',
       cp_diagnostics_api = ApiCollection\<rparr> (0, 0) = Some ((nodes, r), w')"
  by (rule collection_returns) (simp add: clock_runs_def dead_host_def split_def)

subsection \<open>How often a node is asked\<close>

definition spends :: "('w \<Rightarrow> nat) \<Rightarrow> nat \<Rightarrow> nat \<Rightarrow> ('w, 'a) rest_action \<Rightarrow> bool" where
  "spends posts lo hi m =
     (\<forall>w r w'. m w = Some (r, w') \<longrightarrow> posts w + lo \<le> posts w' \<and> posts w' \<le> posts w + hi)"

definition counts_posts :: "'w rest_host \<Rightarrow> ('w \<Rightarrow> nat) \<Rightarrow> bool" where
  "counts_posts h posts =
     ((\<forall>rq w. posts (snd (rh_call h rq w)) = posts w + (if rq_method rq = ''POST'' then 1 else 0))
      \<and> (\<forall>k w. posts (rh_sleep h k w) = posts w))"

lemma spends_return: "spends posts 0 0 (act_return a)"
  by (simp add: spends_def act_return_def)

lemma spends_bind:
  assumes "spends posts a b m" and "\<And>x. spends posts c d (f x)"
  shows "spends posts (a + c) (b + d) (act_bind m f)"
  unfolding spends_def act_bind_def bind_eq_Some_conv
proof (intro allI impI)
  fix w r w'
  assume "\<exists>x. m w = Some x \<and> (case x of (y, w1) \<Rightarrow> f y w1) = Some (r, w')"
  then obtain y w1 where "m w = Some (y, w1)" and "f y w1 = Some (r, w')" by auto
  then have "posts w + a \<le> posts w1 \<and> posts w1 \<le> posts w + b" "posts w1 + c \<le> posts w' \<and> posts w' \<le> posts w1 + d"
    using assms unfolding spends_def by blast+
  then show "posts w + (a + c) \<le> posts w' \<and> posts w' \<le> posts w + (b + d)" by linarith
qed

lemma spends_request:
  assumes "counts_posts h posts"
  shows "rq_method rq = ''POST'' \<Longrightarrow> spends posts 1 1 (act_bind (call h rq) (\<lambda>a. act_return (f a)))"
    and "rq_method rq \<noteq> ''POST'' \<Longrightarrow> spends posts 0 0 (act_bind (call h rq) (\<lambda>a. act_return (f a)))"
proof -
  have p: "posts w' = posts w + (if rq_method rq = ''POST'' then 1 else 0)" if "rh_call h rq w = (a, w')" for w a w'
    using assms that unfolding counts_posts_def by (metis snd_conv)
  show "rq_method rq = ''POST'' \<Longrightarrow> spends posts 1 1 (act_bind (call h rq) (\<lambda>a. act_return (f a)))"
    and "rq_method rq \<noteq> ''POST'' \<Longrightarrow> spends posts 0 0 (act_bind (call h rq) (\<lambda>a. act_return (f a)))"
    by (auto simp: spends_def act_bind_def act_return_def call_def dest: p split: prod.splits)
qed

lemma spends_get: "counts_posts h posts \<Longrightarrow> spends posts 0 0 (get_json h base path accept timeout)"
  unfolding get_json_def by (rule spends_request(2)) simp_all

lemma spends_post: "counts_posts h posts \<Longrightarrow> spends posts 1 1 (post_action h base kind attrs)"
  unfolding post_action_def by (rule spends_request(1)) simp_all

lemma spends_after_get:
  assumes "counts_posts h posts"
  shows "spends posts 0 0 (act_bind (get_json h base path accept timeout) (\<lambda>r. act_return (f r)))"
  using spends_bind [OF spends_get [OF assms] spends_return] by simp

lemma settle_loop_posts:
  fixes posts :: "'a \<Rightarrow> nat"
  shows "settle_loop h base i timeout deadline w = Some y \<Longrightarrow> counts_posts h posts \<longrightarrow> posts (snd y) = posts w"
proof (rule settle_loop.raw_induct [where P = "\<lambda>h _ _ _ _ w y. counts_posts h posts \<longrightarrow> posts (snd y) = posts w"])
  fix settle :: "'a rest_host \<Rightarrow> string \<Rightarrow> string \<Rightarrow> nat \<Rightarrow> nat \<Rightarrow> 'a \<Rightarrow> ((rest_error + action_outcome) \<times> 'a) option"
    and h base i timeout deadline w y
  assume IH: "\<And>h base i timeout deadline w y. settle h base i timeout deadline w = Some y
      \<Longrightarrow> counts_posts h posts \<longrightarrow> posts (snd y) = posts w"
    and body: "(case action_status h base i w of
        None \<Rightarrow> None
      | Some (Inl e, w1) \<Rightarrow> Some (Inl e, w1)
      | Some (Inr outcome, w1) \<Rightarrow>
          if settled (ao_status outcome) then Some (Inr outcome, w1)
          else if rh_now h w1 \<ge> deadline then
            Some (Inl (Protocol (''task '' @ i @ '' still '' @ ao_status outcome @ '' after '' @ show_nat timeout @ ''s'')), w1)
          else settle h base i timeout deadline (rh_sleep h poll_interval w1)) = Some y"
  show "counts_posts h posts \<longrightarrow> posts (snd y) = posts w"
  proof
    assume c: "counts_posts h posts"
    have "posts w1 = posts w" if "action_status h base i w = Some (r, w1)" for r w1
      using spends_after_get [OF c] that unfolding action_status_def spends_def by fastforce
    moreover have "posts (rh_sleep h k w) = posts w" for k w using c by (simp add: counts_posts_def)
    moreover have "posts (snd y) = posts v" if "settle h base i timeout deadline v = Some y" for v
      using IH that c by blast
    ultimately show "posts (snd y) = posts w"
      using body by (fastforce split: option.splits sum.splits if_splits)
  qed
qed

lemma spends_settle: "counts_posts h posts \<Longrightarrow> spends posts 0 0 (settle_action h base i timeout)"
  using settle_loop_posts [where h = h and posts = posts] unfolding spends_def settle_action_def
  by (metis add_0_right order_refl snd_conv)

text \<open>A failed first half ends the exchange, so the bound of the second is an upper bound only.\<close>

lemma spends_try:
  assumes "spends posts a b m" and "\<And>x. spends posts 0 d (f x)"
  shows "spends posts a (b + d) (act_try m f)"
  unfolding act_try_def
  by (rule spends_bind [where c = 0, simplified, OF assms(1)])
     (use assms(2) in \<open>auto simp: spends_def split: sum.split\<close>)

lemma spends_result:
  assumes "counts_posts h posts"
  shows "spends posts 0 0 (read_result_item h base i)"
proof (cases i)
  case (Some j)
  have "spends posts 0 0 (diagnostic h base j)"
    unfolding diagnostic_def by (rule spends_after_get [OF assms])
  then show ?thesis unfolding read_result_item_def Some option.case
    by (rule spends_bind [where c = 0 and d = 0, simplified]) (auto simp: spends_def split: sum.split)
qed (simp add: read_result_item_def spends_return)

lemma query_attempts_posts:
  assumes "counts_posts h posts"
  shows "spends posts (min 1 k) k (query_attempts k h base destination)"
proof (induction k)
  case (Suc k)
  let ?task = "act_try (post_action h base ''getNetworkDiagnosticTask'' (node_task destination))
                 (\<lambda>i. settle_action h base i action_timeout)"
  have t: "spends posts 1 1 ?task"
    using spends_try [OF spends_post spends_settle] assms by fastforce
  have q: "spends posts 0 k (query_attempts k h base destination)"
    using Suc.IH by (fastforce simp: spends_def)
  have r: "spends posts 0 k (read_result_item h base i)" for i
    using spends_result [OF assms, of base i] by (fastforce simp: spends_def)
  have "spends posts (1 + 0) (1 + k) (query_attempts (Suc k) h base destination)"
    unfolding query_attempts.simps by (rule spends_bind [OF t]) (simp add: q r split: sum.split)
  then show ?case by simp
qed (simp add: spends_return)

lemma result_item_single:
  "read_result_item h base i w = Some ((nodes, ids), w') \<Longrightarrow> length nodes \<le> 1 \<and> length ids \<le> 1"
proof (cases i)
  case (Some j)
  assume a: "read_result_item h base i w = Some ((nodes, ids), w')"
  then obtain r w1 where "diagnostic h base j w = Some (r, w1)"
    by (auto simp: read_result_item_def Some act_bind_def bind_eq_Some_conv)
  then show ?thesis using a
    by (cases r) (auto simp: read_result_item_def Some act_bind_def handed_over_def split: option.splits)
qed (simp add: read_result_item_def act_return_def)

lemma query_attempts_single:
  "query_attempts k h base destination w = Some ((nodes, ids), w') \<Longrightarrow> length nodes \<le> 1 \<and> length ids \<le> 1"
proof (induction k arbitrary: w)
  case (Suc k)
  let ?task = "act_try (post_action h base ''getNetworkDiagnosticTask'' (node_task destination))
                 (\<lambda>i. settle_action h base i action_timeout)"
  obtain r w1 where t: "?task w = Some (r, w1)"
    using Suc.prems by (auto simp: act_bind_def bind_eq_Some_conv)
  show ?case
    using Suc.prems Suc.IH [of w1] result_item_single [of h base _ w1 nodes ids w']
    by (cases r) (auto simp: act_bind_def t split: if_splits)
qed (simp add: act_return_def)

text \<open>A node is asked at least once and at most three times, however its tasks end, and it is handed over at
  most once.\<close>
theorem node_asked_at_most_thrice:
  assumes "counts_posts h posts" and "query_node h base destination w = Some ((nodes, ids), w')"
  shows "posts w + 1 \<le> posts w' \<and> posts w' \<le> posts w + 3 \<and> length nodes \<le> 1 \<and> length ids \<le> 1"
proof -
  have "posts w + min 1 3 \<le> posts w' \<and> posts w' \<le> posts w + 3"
    using query_attempts_posts [OF assms(1), of 3 base destination] assms(2)
    unfolding query_node_def attempts_per_node_def spends_def by blast
  then show ?thesis
    using query_attempts_single assms(2) unfolding query_node_def by simp
qed

theorem node_asked_at_most_thrice_witness:
  "\<exists>w'. query_node dead_host ''http://br'' ''0011'' (0, 0) = Some (([], []), w') \<and> fst w' \<le> 3"
proof -
  have c: "counts_posts dead_host fst" by (simp add: counts_posts_def dead_host_def split_def)
  have q: "query_node dead_host ''http://br'' ''0011'' (0, 0) = Some (([], []), (3, 0))"
    by (simp add: query_node_def attempts_per_node_def numeral_3_eq_3 act_bind_def act_try_def act_return_def
        post_action_def call_def dead_host_def)
  show ?thesis using node_asked_at_most_thrice [OF c q] q by auto
qed

end
