(* ===== verification/Mdns.thy ===== *)
theory Mdns
  imports Json Errors Ip_Text "HOL-Library.Product_Lexorder"
begin

section \<open>The mDNS browser (src/server/src/matter/mdns_browser.rs)\<close>

text \<open>
  Building the query and decoding the answers: names with compression pointers, resource records,
  TXT data, and the instances folded out of the packets of a browse. Sockets, timers and the list of
  interfaces are not modelled; the packets received, the interface entries and rs-matter's
  preference among addresses are arguments. Offsets are \<open>usize\<close> values of a packet of at most 4096 bytes, so natural numbers.
\<close>

definition type_a :: u16 where "type_a = 1"
definition type_ptr :: u16 where "type_ptr = 12"
definition type_txt :: u16 where "type_txt = 16"
definition type_aaaa :: u16 where "type_aaaa = 28"
definition type_srv :: u16 where "type_srv = 33"
definition class_in_unicast :: u16 where "class_in_unicast = 0x8001"
definition mdns_port :: u16 where "mdns_port = 5353"

record service_instance =
  si_instance_name :: string
  si_host_name :: "string option"
  si_port :: "u16 option"
  si_addresses :: "ip_addr list"
  si_txt :: "(string, bytes) btree"

definition instance_new :: "string \<Rightarrow> service_instance" where
  "instance_new name = \<lparr>si_instance_name = name, si_host_name = None, si_port = None,
     si_addresses = [], si_txt = []\<rparr>"

subsection \<open>TXT values\<close>

definition txt_str :: "service_instance \<Rightarrow> string \<Rightarrow> string option" where
  "txt_str si key = opt_bind (bt_get (si_txt si) key) from_utf8"

definition txt_hex :: "service_instance \<Rightarrow> string \<Rightarrow> string option" where
  "txt_hex si key = opt_bind (bt_get (si_txt si) key) (\<lambda>v. if v = [] then None else Some (to_hex_upper v))"

definition txt_u32 :: "service_instance \<Rightarrow> string \<Rightarrow> u32 option" where
  "txt_u32 si key = opt_bind (txt_str si key) (\<lambda>raw.
     let t = trim raw in
     case opt_or (strip_prefix ''0x'' t) (strip_prefix ''0X'' t) of
       Some hex \<Rightarrow> map_option of_nat (parse_uint 16 u32_max hex)
     | None \<Rightarrow> parse_dec t)"

subsection \<open>The query\<close>

definition trim_dots :: "string \<Rightarrow> string" where
  "trim_dots s = rev (dropWhile (\<lambda>c. c = CHR ''.'') (rev s))"

definition encode_label :: "string \<Rightarrow> bytes" where
  "encode_label l = of_nat (min (length l) 63) # bytes_of_str (take (min (length l) 63) l)"

definition encode_name :: "string \<Rightarrow> bytes" where
  "encode_name name = concat (map encode_label (split_on CHR ''.'' (trim_dots name))) @ [0]"

definition build_query :: "string \<Rightarrow> bytes" where
  "build_query service = be16 0 @ be16 0 @ be16 1 @ be16 0 @ be16 0 @ be16 0
     @ encode_name service @ be16 type_ptr @ be16 class_in_unicast"

subsection \<open>Names\<close>

definition byte_at :: "bytes \<Rightarrow> nat \<Rightarrow> u8 option" where
  "byte_at m i = (if i < length m then Some (m ! i) else None)"

definition slice :: "bytes \<Rightarrow> nat \<Rightarrow> nat \<Rightarrow> bytes option" where
  "slice m from until = (if from \<le> until \<and> until \<le> length m then Some (take (until - from) (drop from m)) else None)"

definition max_jumps :: nat where "max_jumps = 16"

text \<open>The loop of \<open>parse_name\<close>: the labels so far, where the encoded form ended, the jumps taken.\<close>

function name_loop :: "bytes \<Rightarrow> nat \<Rightarrow> string list \<Rightarrow> nat option \<Rightarrow> nat \<Rightarrow> (string list \<times> nat) option" where
  "name_loop m offset labels ended jumps =
     (case byte_at m offset of
        None \<Rightarrow> None
      | Some len \<Rightarrow>
          if unat len \<ge> 0xC0 then
            (case byte_at m (offset + 1) of
               None \<Rightarrow> None
             | Some lo \<Rightarrow>
                 if jumps + 1 > max_jumps then None
                 else name_loop m ((unat len - 0xC0) * 256 + unat lo) labels
                        (Some (unwrap_or ended (offset + 2))) (jumps + 1))
          else if len = 0 then Some (labels, unwrap_or ended (offset + 1))
          else (case slice m (offset + 1) (offset + 1 + unat len) of
              None \<Rightarrow> None
            | Some raw \<Rightarrow>
                (case from_utf8 raw of
                   None \<Rightarrow> None
                 | Some l \<Rightarrow> name_loop m (offset + 1 + unat len) (labels @ [l]) ended jumps)))"
  by pat_completeness auto
termination
  by (relation "measures [\<lambda>(m, offset, labels, ended, jumps). max_jumps - jumps,
                          \<lambda>(m, offset, labels, ended, jumps). length m - offset]")
     (auto simp: byte_at_def split: if_splits)

declare name_loop.simps [simp del]

definition parse_name :: "bytes \<Rightarrow> nat \<Rightarrow> (string \<times> nat) option" where
  "parse_name m offset = map_option (\<lambda>(ls, next). (join_with ''.'' ls, next)) (name_loop m offset [] None 0)"

subsection \<open>Records\<close>

record dns_record =
  dr_name :: string
  dr_type :: u16
  dr_offset :: nat
  dr_len :: nat

definition record_data :: "bytes \<Rightarrow> dns_record \<Rightarrow> bytes" where
  "record_data m r = unwrap_or (slice m (dr_offset r) (min (dr_offset r + dr_len r) (length m))) []"

fun skip_questions :: "bytes \<Rightarrow> nat \<Rightarrow> nat \<Rightarrow> nat option" where
  "skip_questions m 0 offset = Some offset"
| "skip_questions m (Suc k) offset =
     opt_bind (parse_name m offset) (\<lambda>(_, next). skip_questions m k (next + 4))"

fun read_records :: "bytes \<Rightarrow> nat \<Rightarrow> nat \<Rightarrow> dns_record list option" where
  "read_records m 0 offset = Some []"
| "read_records m (Suc k) offset =
     opt_bind (parse_name m offset) (\<lambda>(name, next).
       if next + 10 > length m then Some []
       else
         let rtype = of_be16 (m ! next) (m ! (next + 1));
             len = unat (of_be16 (m ! (next + 8)) (m ! (next + 9)));
             start = next + 10
         in if start + len > length m then Some []
            else map_option (Cons \<lparr>dr_name = name, dr_type = rtype, dr_offset = start, dr_len = len\<rparr>)
                   (read_records m k (start + len)))"

definition parse_records :: "bytes \<Rightarrow> dns_record list option" where
  "parse_records m =
     (if length m < 12 then None
      else
        let count = (\<lambda>i. unat (of_be16 (m ! i) (m ! (i + 1)))) in
        opt_bind (skip_questions m (count 4) 12) (\<lambda>offset.
          read_records m (count 6 + count 8 + count 10) offset))"

subsection \<open>TXT data\<close>

definition txt_entry :: "bytes \<Rightarrow> (string, bytes) btree \<Rightarrow> (string, bytes) btree" where
  "txt_entry e out =
     (case list_position (\<lambda>b. b = 0x3D) e of
        Some split \<Rightarrow>
          (case from_utf8 (take split e) of
             None \<Rightarrow> out | Some key \<Rightarrow> bt_insert key (drop (split + 1) e) out)
      | None \<Rightarrow> (case from_utf8 e of None \<Rightarrow> out | Some key \<Rightarrow> bt_insert key [] out))"

text \<open>\<open>data\<close> is what is left from the offset on.\<close>

function txt_loop :: "bytes \<Rightarrow> (string, bytes) btree \<Rightarrow> (string, bytes) btree" where
  "txt_loop [] out = out"
| "txt_loop (len # data) out =
     (if len = 0 \<or> unat len > length data then out
      else txt_loop (drop (unat len) data) (txt_entry (take (unat len) data) out))"
  by pat_completeness auto
termination by (relation "measure (\<lambda>(data, out). length data)") auto

definition parse_txt :: "bytes \<Rightarrow> (string, bytes) btree" where
  "parse_txt data = txt_loop data []"

subsection \<open>Instances\<close>

definition ends_with_ic :: "string \<Rightarrow> string \<Rightarrow> bool" where
  "ends_with_ic suffix s = ends_with (to_ascii_lowercase suffix) (to_ascii_lowercase s)"

definition strip_suffix_ic :: "string \<Rightarrow> string \<Rightarrow> string" where
  "strip_suffix_ic name suffix =
     (if ends_with_ic suffix name then take (length name - length suffix) name else name)"

type_synonym instances = "(string, service_instance) btree"

text \<open>\<open>entry(key).or_insert_with(\<dots>)\<close>, then a change of the entry.\<close>

definition with_instance ::
  "string \<Rightarrow> string \<Rightarrow> (service_instance \<Rightarrow> service_instance) \<Rightarrow> instances \<Rightarrow> instances" where
  "with_instance suffix key f is =
     bt_insert key (f (unwrap_or (bt_get is key) (instance_new (strip_suffix_ic key suffix)))) is"

definition note_record ::
  "bytes \<Rightarrow> string \<Rightarrow> dns_record \<Rightarrow> instances \<times> (string, string) btree \<Rightarrow> instances \<times> (string, string) btree" where
  "note_record m service r = (\<lambda>(is, hosts).
     let suffix = CHR ''.'' # trim_dots service in
     if dr_type r = type_ptr then
       (if \<not> eq_ignore_ascii_case (dr_name r) (trim_dots service) then (is, hosts)
        else (case parse_name m (dr_offset r) of
            None \<Rightarrow> (is, hosts)
          | Some (target, _) \<Rightarrow> (with_instance suffix target (\<lambda>i. i) is, hosts)))
     else if dr_type r = type_srv then
       (if \<not> ends_with_ic suffix (dr_name r) \<or> length (record_data m r) < 6 then (is, hosts)
        else
          let data = record_data m r; port = of_be16 (data ! 4) (data ! 5) in
          case parse_name m (dr_offset r + 6) of
            None \<Rightarrow> (with_instance suffix (dr_name r) (\<lambda>i. i\<lparr>si_port := Some port\<rparr>) is, hosts)
          | Some (target, _) \<Rightarrow>
              (with_instance suffix (dr_name r)
                 (\<lambda>i. i\<lparr>si_port := Some port, si_host_name := Some (trim_dots target)\<rparr>) is,
               bt_insert (to_ascii_lowercase target) (dr_name r) hosts))
     else if dr_type r = type_txt then
       (if \<not> ends_with_ic suffix (dr_name r) then (is, hosts)
        else (with_instance suffix (dr_name r)
                (\<lambda>i. i\<lparr>si_txt := bt_extend (si_txt i) (parse_txt (record_data m r))\<rparr>) is, hosts))
     else (is, hosts))"

definition record_address :: "bytes \<Rightarrow> dns_record \<Rightarrow> ip_addr option" where
  "record_address m r =
     (let data = record_data m r in
      if dr_type r = type_a then (if length data < 4 then None else Some (IpV4 (take 4 data)))
      else if dr_type r = type_aaaa then (if length data < 16 then None else Some (IpV6 (take 16 data)))
      else None)"

definition address_target :: "(string, string) btree \<Rightarrow> instances \<Rightarrow> dns_record \<Rightarrow> string option" where
  "address_target hosts is r =
     opt_or (bt_get hosts (to_ascii_lowercase (dr_name r)))
       (case is of [(key, _)] \<Rightarrow> Some key | _ \<Rightarrow> None)"

definition add_address :: "ip_addr \<Rightarrow> service_instance \<Rightarrow> service_instance" where
  "add_address a i = (if a \<in> set (si_addresses i) then i else i\<lparr>si_addresses := si_addresses i @ [a]\<rparr>)"

definition note_address :: "bytes \<Rightarrow> (string, string) btree \<Rightarrow> dns_record \<Rightarrow> instances \<Rightarrow> instances" where
  "note_address m hosts r is =
     (case record_address m r of
        None \<Rightarrow> is
      | Some a \<Rightarrow>
          (case address_target hosts is r of
             None \<Rightarrow> is
           | Some key \<Rightarrow> bt_update key (add_address a) is))"

definition collect_answers :: "bytes \<Rightarrow> string \<Rightarrow> instances \<Rightarrow> instances" where
  "collect_answers m service is =
     (case parse_records m of
        None \<Rightarrow> is
      | Some rs \<Rightarrow>
          (let (is1, hosts) = fold (note_record m service) rs (is, [])
           in fold (note_address m hosts) rs is1))"

text \<open>What a browse reports of the packets it received.\<close>

definition browse_result :: "string \<Rightarrow> bytes list \<Rightarrow> service_instance list" where
  "browse_result service packets =
     filter (\<lambda>i. si_port i \<noteq> None \<or> si_addresses i \<noteq> [])
       (bt_values (fold (\<lambda>m. collect_answers m service) packets []))"

text \<open>A whole browse: what each socket answers (its bind, then its sends), and the packets received until
  the window closed, each cut to the buffer. It fails only when no query could be sent.\<close>

definition browse_sends :: "string + (string + unit) \<Rightarrow> string + (string + unit) list \<Rightarrow> (string + unit) list" where
  "browse_sends v4 v6 =
     (case v4 of Inl e \<Rightarrow> [Inl e] | Inr r \<Rightarrow> [r]) @ (case v6 of Inl e \<Rightarrow> [Inl e] | Inr rs \<Rightarrow> rs)"

definition browse ::
  "string + (string + unit) \<Rightarrow> string + (string + unit) list \<Rightarrow> string \<Rightarrow> bytes list
   \<Rightarrow> string + service_instance list" where
  "browse v4 v6 service packets =
     (let sends = browse_sends v4 v6;
          errors = filter_map (\<lambda>r. case r of Inl e \<Rightarrow> Some e | Inr _ \<Rightarrow> None) sends
      in if filter_map res_ok sends = []
         then Inl (if errors = [] then ''no interface to send an mDNS query on'' else last errors)
         else Inr (browse_result service (map (take 4096) packets)))"

subsection \<open>Interfaces\<close>

record if_entry =
  ie_up :: bool
  ie_multicast :: bool
  ie_loopback :: bool
  ie_point_to_point :: bool
  ie_has_ipv6 :: bool
  ie_index :: "u32 option"

definition usable_interface :: "if_entry \<Rightarrow> bool" where
  "usable_interface e = (ie_up e \<and> ie_multicast e \<and> \<not> ie_loopback e \<and> \<not> ie_point_to_point e \<and> ie_has_ipv6 e)"

definition ipv6_interfaces :: "if_entry list option \<Rightarrow> u32 list" where
  "ipv6_interfaces entries = fold (\<lambda>e out. case ie_index e of
       Some i \<Rightarrow> if usable_interface e \<and> i \<notin> set out then out @ [i] else out
     | None \<Rightarrow> out) (unwrap_or entries []) []"

subsection \<open>Operational addresses\<close>

definition operational_service :: string where
  "operational_service = ''_matter._tcp.local''"

definition operational_instance_name :: "u64 \<Rightarrow> u64 \<Rightarrow> string" where
  "operational_instance_name fabric node = hex16 fabric @ ''-'' @ hex16 node"

text \<open>\<open>score\<close> is rs-matter's preference among addresses.\<close>

definition operational_addresses ::
  "(ip_addr \<Rightarrow> u8) \<Rightarrow> service_instance list \<Rightarrow> string \<Rightarrow> ip_addr list" where
  "operational_addresses score is wanted =
     remdups_adj (sort_key (\<lambda>a. (255 - unat (score a), ip_text a))
       (concat (map si_addresses (filter (\<lambda>i. eq_ignore_ascii_case (si_instance_name i) wanted) is))))"

definition resolve_operational ::
  "(ip_addr \<Rightarrow> u8) \<Rightarrow> u64 \<Rightarrow> u64 \<Rightarrow> service_instance list option \<Rightarrow> ip_addr list option" where
  "resolve_operational score fabric node browsed =
     map_option (\<lambda>is. operational_addresses score is (operational_instance_name fabric node)) browsed"

subsection \<open>Every slice is within the packet\<close>

lemma byte_at_Some: "byte_at m i = Some b \<longleftrightarrow> i < length m \<and> b = m ! i"
  by (auto simp: byte_at_def)

lemma slice_Some: "slice m i j = Some b \<longleftrightarrow> i \<le> j \<and> j \<le> length m \<and> b = take (j - i) (drop i m)"
  by (auto simp: slice_def)

lemma name_loop_end:
  "name_loop m offset labels ended jumps = Some (ls, next) \<Longrightarrow>
   (case ended of None \<Rightarrow> offset < next \<and> next \<le> length m | Some e \<Rightarrow> next = e)"
proof (induction m offset labels ended jumps rule: name_loop.induct)
  case (1 m offset labels ended jumps)
  obtain len where len: "byte_at m offset = Some len"
    using "1.prems" by (subst (asm) name_loop.simps) (auto split: option.splits)
  show ?case
  proof (cases "unat len \<ge> 0xC0")
    case True
    obtain lo where lo: "byte_at m (offset + 1) = Some lo" and j: "jumps + 1 \<le> max_jumps"
      and r: "name_loop m ((unat len - 0xC0) * 256 + unat lo) labels (Some (unwrap_or ended (offset + 2))) (jumps + 1) = Some (ls, next)"
      using "1.prems" len True by (subst (asm) name_loop.simps) (auto split: option.splits if_splits)
    have "next = unwrap_or ended (offset + 2)"
      using "1.IH"(1) [OF len True lo _ r] j by simp
    then show ?thesis using lo by (auto simp: byte_at_Some split: option.split)
  next
    case nc: False
    show ?thesis
    proof (cases "len = 0")
      case True
      then show ?thesis
        using "1.prems" len by (subst (asm) name_loop.simps) (auto simp: byte_at_Some split: option.split)
    next
      case False
      obtain raw l where s: "slice m (offset + 1) (offset + 1 + unat len) = Some raw" and l: "from_utf8 raw = Some l"
        and r: "name_loop m (offset + 1 + unat len) (labels @ [l]) ended jumps = Some (ls, next)"
        using "1.prems" len nc False by (subst (asm) name_loop.simps) (auto split: option.splits)
      show ?thesis using "1.IH"(2) [OF len nc False s l r] by (auto split: option.splits)
    qed
  qed
qed

lemma parse_name_end: "parse_name m offset = Some (name, next) \<Longrightarrow> offset < next \<and> next \<le> length m"
  by (auto simp: parse_name_def map_option_eq_Some dest!: name_loop_end)

lemma read_records_bounds:
  "read_records m k offset = Some rs \<Longrightarrow> r \<in> set rs \<Longrightarrow> dr_offset r + dr_len r \<le> length m"
proof (induction m k offset arbitrary: rs rule: read_records.induct)
  case (2 m k offset)
  obtain name nxt where n: "parse_name m offset = Some (name, nxt)"
    using "2.prems"(1) by (auto simp: bind_eq_Some_conv)
  then show ?case
    using 2 by (auto simp: Let_def split: if_splits)
qed simp


subsection \<open>The query asks for the service\<close>

definition label_ok :: "string \<Rightarrow> bool" where
  "label_ok l = (l \<noteq> [] \<and> length l \<le> 63 \<and> utf8_ok (map byte_of l))"

lemma encode_label_ok: "label_ok l \<Longrightarrow> encode_label l = of_nat (length l) # bytes_of_str l"
  by (simp add: encode_label_def label_ok_def min_def)

lemma name_loop_labels:
  assumes "list_all label_ok ls"
  shows "name_loop (pre @ concat (map encode_label ls) @ 0 # post) (length pre) acc None j
    = Some (acc @ ls, length pre + length (concat (map encode_label ls)) + 1)"
  using assms
proof (induction ls arbitrary: pre acc)
  case Nil
  then show ?case by (subst name_loop.simps) (simp add: byte_at_def nth_append)
next
  case (Cons l ls)
  then have l: "label_ok l" and e: "encode_label l = of_nat (length l) # bytes_of_str l"
    by (simp_all add: encode_label_ok)
  let ?m = "pre @ concat (map encode_label (l # ls)) @ 0 # post"
  have len: "unat (of_nat (length l) :: u8) = length l" using l by (simp add: label_ok_def unat_of_nat)
  have nz: "(of_nat (length l) :: u8) \<noteq> 0"
    using len l by (metis label_ok_def length_0_conv unat_0)
  have b: "byte_at ?m (length pre) = Some (of_nat (length l))" by (simp add: byte_at_def e nth_append)
  have bl: "length (bytes_of_str l) = length l" by (simp add: bytes_of_str_def)
  have s: "slice ?m (length pre + 1) (length pre + 1 + length l) = Some (bytes_of_str l)"
    by (simp add: slice_def e bl)
  have u: "from_utf8 (bytes_of_str l) = Some l" using l by (simp add: label_ok_def from_utf8_bytes_of_str)
  have small: "\<not> unat (of_nat (length l) :: u8) \<ge> 0xC0" using len l by (simp add: label_ok_def)
  have step: "name_loop ?m (length pre) acc None j = name_loop ?m (length pre + 1 + length l) (acc @ [l]) None j"
    using b small nz s u by (subst name_loop.simps) (simp add: len)
  have shape: "?m = (pre @ encode_label l) @ concat (map encode_label ls) @ 0 # post" by simp
  have "name_loop ?m (length (pre @ encode_label l)) (acc @ [l]) None j
      = Some ((acc @ [l]) @ ls, length (pre @ encode_label l) + length (concat (map encode_label ls)) + 1)"
    unfolding shape by (rule Cons.IH) (use Cons.prems in simp)
  then show ?case using step by (simp add: e bl)
qed

lemma join_split: "join_with [c] (split_on c s) = s"
proof (induction s)
  case (Cons x s)
  have j: "join_with [c] (xs) = (if tl xs = [] then hd xs else hd xs @ c # join_with [c] (tl xs))" if "xs \<noteq> []" for xs
    using that by (cases xs; cases "tl xs") simp_all
  show ?case
    using Cons j [OF split_on_ne, of c s] by (cases "split_on c s"; cases "tl (split_on c s)") auto
qed simp

text \<open>The query a browse sends reads back as what it asks for: decoding the question of the packet gives the
  service's name and ends at the type and class that follow it, for every service whose labels a name
  can carry.\<close>
theorem query_roundtrip:
  assumes "list_all label_ok (split_on CHR ''.'' (trim_dots service))"
  shows "parse_name (build_query service) 12 = Some (trim_dots service, 12 + length (encode_name service))
    \<and> drop (12 + length (encode_name service)) (build_query service) = be16 type_ptr @ be16 class_in_unicast
    \<and> parse_records (build_query service) = Some []"
proof -
  let ?head = "be16 0 @ be16 0 @ be16 1 @ be16 0 @ be16 0 @ be16 0"
  let ?ls = "split_on CHR ''.'' (trim_dots service)"
  let ?tail = "be16 type_ptr @ be16 class_in_unicast"
  have h: "length ?head = 12" by (simp add: be16_def)
  have q: "build_query service = ?head @ concat (map encode_label ?ls) @ 0 # ?tail"
    by (simp add: build_query_def encode_name_def)
  have "name_loop (build_query service) 12 [] None 0 = Some (?ls, 12 + length (concat (map encode_label ?ls)) + 1)"
    using name_loop_labels [OF assms, of ?head ?tail "[]" 0] unfolding q h by simp
  then have p: "parse_name (build_query service) 12 = Some (trim_dots service, 12 + length (encode_name service))"
    by (simp add: parse_name_def join_split encode_name_def)
  have d: "drop (12 + length (encode_name service)) (build_query service) = ?tail"
    using h by (simp add: build_query_def)
  have counts: "build_query service ! 4 = 0" "build_query service ! 5 = 1" "build_query service ! 6 = 0"
    "build_query service ! 7 = 0" "build_query service ! 8 = 0" "build_query service ! 9 = 0"
    "build_query service ! 10 = 0" "build_query service ! 11 = 0" "12 \<le> length (build_query service)"
    by (simp_all add: build_query_def be16_def)
  have "parse_records (build_query service) = Some []"
    using counts p by (simp add: parse_records_def of_be16_def Let_def)
  with p d show ?thesis by blast
qed

theorem query_roundtrip_witness:
  "parse_name (build_query ''_meshcop._udp.local'') 12 = Some (''_meshcop._udp.local'', 33)"
proof -
  have t: "trim_dots ''_meshcop._udp.local'' = ''_meshcop._udp.local''" by (simp add: trim_dots_def)
  have s: "split_on CHR ''.'' ''_meshcop._udp.local'' = [''_meshcop'', ''_udp'', ''local'']"
    using split_on_append [of "CHR ''.''" "''_meshcop''" "''_udp.local''"]
      split_on_append [of "CHR ''.''" "''_udp''" "''local''"] split_on_free [of "CHR ''.''" "''local''"]
    by (simp del: split_on.simps)
  have ok: "list_all label_ok (split_on CHR ''.'' (trim_dots ''_meshcop._udp.local''))"
    unfolding t s by (simp add: label_ok_def utf8_ok_ascii is_ascii_def byte_of_def)
  have "length (encode_name ''_meshcop._udp.local'') = 21"
    unfolding encode_name_def t s by (simp add: encode_label_def bytes_of_str_def)
  then show ?thesis using query_roundtrip [OF ok] t by simp
qed

subsection \<open>Instances over any sequence of packets\<close>

definition instances_ok :: "instances \<Rightarrow> bool" where
  "instances_ok is = (bt_ok is \<and> (\<forall>k i. bt_get is k = Some i \<longrightarrow> distinct (si_addresses i) \<and> bt_ok (si_txt i)))"

lemma with_instance_ok:
  assumes "instances_ok is"
    and "\<And>i. distinct (si_addresses i) \<Longrightarrow> bt_ok (si_txt i) \<Longrightarrow> distinct (si_addresses (f i)) \<and> bt_ok (si_txt (f i))"
  shows "instances_ok (with_instance suffix key f is)"
proof -
  let ?i = "unwrap_or (bt_get is key) (instance_new (strip_suffix_ic key suffix))"
  have "distinct (si_addresses ?i) \<and> bt_ok (si_txt ?i)"
    using assms(1) by (cases "bt_get is key") (auto simp: instances_ok_def instance_new_def)
  then show ?thesis
    using assms by (auto simp: instances_ok_def with_instance_def bt_ok_insert bt_get_insert_raw)
qed

lemma note_record_ok: "instances_ok (fst x) \<Longrightarrow> instances_ok (fst (note_record m service r x))"
  by (cases x) (auto simp: note_record_def Let_def intro!: with_instance_ok split: option.split)

lemma note_address_ok: "instances_ok is \<Longrightarrow> instances_ok (note_address m hosts r is)"
  by (auto simp: note_address_def instances_ok_def bt_get_update add_address_def split: option.split)

lemma collect_answers_ok: "instances_ok is \<Longrightarrow> instances_ok (collect_answers m service is)"
proof -
  assume ok: "instances_ok is"
  have a: "instances_ok (fst (fold (note_record m service) rs x))" if "instances_ok (fst x)" for rs x
    using that by (induction rs arbitrary: x) (simp_all add: note_record_ok)
  have b: "instances_ok (fold (note_address m hosts) rs i)" if "instances_ok i" for rs hosts i
    using that by (induction rs arbitrary: i) (simp_all add: note_address_ok)
  show ?thesis using ok a [of "(is, [])"] b by (simp add: collect_answers_def split_def Let_def split: option.split)
qed

text \<open>Whatever packets a browse receives, what it reports is usable: every instance has a port or an address,
  and none lists an address twice, however often and over however many packets it was answered.\<close>
theorem browse_reports_usable:
  "list_all (\<lambda>i. (si_port i \<noteq> None \<or> si_addresses i \<noteq> []) \<and> distinct (si_addresses i)) (browse_result service packets)"
proof -
  have "instances_ok (fold (\<lambda>m. collect_answers m service) packets is)" if "instances_ok is" for "is"
    using that by (induction packets arbitrary: "is") (simp_all add: collect_answers_ok)
  from this [of "[]"] have ok: "instances_ok (fold (\<lambda>m. collect_answers m service) packets [])"
    by (simp add: instances_ok_def bt_get_def)
  then show ?thesis
    using bt_get_iff unfolding instances_ok_def browse_result_def list_all_iff bt_values_def
    by fastforce
qed

subsection \<open>Addresses in a packet of their own\<close>

definition only_addresses :: "dns_record list \<Rightarrow> bool" where
  "only_addresses rs = list_all (\<lambda>r. dr_type r = type_a \<or> dr_type r = type_aaaa) rs"

lemma only_addresses_first_pass:
  "only_addresses rs \<Longrightarrow> fold (note_record m service) rs x = x"
  by (induction rs arbitrary: x)
     (auto simp: only_addresses_def note_record_def type_a_def type_aaaa_def type_ptr_def type_srv_def
       type_txt_def Let_def)

text \<open>Addresses that arrive in a packet without the SRV record that names their host are lost as soon as two
  instances are known, and with one instance known all of them become its addresses, whatever host they
  are of: hosts are matched within one packet only.\<close>
theorem split_addresses_misplaced:
  assumes "parse_records m = Some rs" and "only_addresses rs"
  shows "(length is \<ge> 2 \<longrightarrow> collect_answers m service is = is)
    \<and> (is = [(key, i)] \<longrightarrow> collect_answers m service is
         = [(key, fold add_address (filter_map (record_address m) rs) i)])"
proof -
  have c: "collect_answers m service is = fold (note_address m []) rs is" for "is"
    using assms only_addresses_first_pass [OF assms(2), of m service] by (simp add: collect_answers_def)
  have "fold (note_address m []) rs is = is" if "length is \<ge> 2" for "is"
    using that
  proof (induction rs)
    case (Cons r rs)
    have "address_target [] is r = None"
      using Cons.prems by (auto simp: address_target_def bt_get_def split: list.split)
    then have "note_address m [] r is = is" by (simp add: note_address_def split: option.split)
    then show ?case using Cons by simp
  qed simp
  moreover have "fold (note_address m []) rs [(key, i)] = [(key, fold add_address (filter_map (record_address m) rs) i)]" for i
    by (induction rs arbitrary: i)
       (auto simp: note_address_def address_target_def bt_get_def bt_update_def split: option.split)
  ultimately show ?thesis using c by auto
qed

text \<open>An answer with one address record for the root name, as a packet.\<close>

definition lone_address :: bytes where
  "lone_address = [0, 0, 0x84, 0, 0, 0, 0, 1, 0, 0, 0, 0, 0, 0, 1, 0, 1, 0, 0, 0, 120, 0, 4, 192, 0, 2, 7]"

lemma lone_address_bytes:
  "lone_address ! 4 = 0" "lone_address ! 5 = 0" "lone_address ! 6 = 0" "lone_address ! 7 = 1"
  "lone_address ! 8 = 0" "lone_address ! 9 = 0" "lone_address ! 10 = 0" "lone_address ! 11 = 0"
  "lone_address ! 12 = 0" "lone_address ! 13 = 0" "lone_address ! 14 = 1" "lone_address ! 21 = 0"
  "lone_address ! 22 = 4" "length lone_address = 27"
  by (simp_all add: lone_address_def)

lemma lone_address_records:
  "parse_records lone_address = Some [\<lparr>dr_name = [], dr_type = 1, dr_offset = 23, dr_len = 4\<rparr>]"
proof -
  have name: "parse_name lone_address 12 = Some ([], 13)"
    by (simp add: parse_name_def byte_at_def lone_address_bytes name_loop.simps)
  have words: "of_be16 0 0 = 0" "of_be16 0 1 = 1" "of_be16 0 4 = 4"
    by (simp_all add: of_be16_def)
  have "read_records lone_address (Suc 0) 12 = Some [\<lparr>dr_name = [], dr_type = 1, dr_offset = 23, dr_len = 4\<rparr>]"
    by (simp add: name lone_address_bytes words Let_def)
  then show ?thesis by (simp add: parse_records_def lone_address_bytes words Let_def)
qed

theorem split_addresses_misplaced_witness:
  "collect_answers lone_address ''_x._udp.local'' [(''a'', instance_new ''a''), (''b'', instance_new ''b'')]
     = [(''a'', instance_new ''a''), (''b'', instance_new ''b'')]"
  using split_addresses_misplaced [OF lone_address_records, of "[(''a'', instance_new ''a''), (''b'', instance_new ''b'')]"]
  by (simp add: only_addresses_def type_a_def)

end
