(* ===== verification/Thread_Diag.thy ===== *)
theory Thread_Diag
  imports Otbr_Client Mdns "HOL-Library.Multiset"
begin

section \<open>Thread diagnostics (src/server/src/api/thread_diagnostics.rs, api/network.rs)\<close>

text \<open>
  What is known per network, the runs that collect it, and the commands that read it. A collection
  is shared by its run, the map of runs in flight and the callers that wait for it, so collections
  live in a list and are named by their index in it. A run is a sequence of steps, between which
  anything else may happen. \<open>now\<close> is an instant in milliseconds, \<open>wall\<close> the wall clock.
\<close>

record thread_network =
  tw_ext_pan_id_hex :: string
  tw_name :: string
  tw_border_routers :: "service_instance list"

record probe_record =
  pr_capability :: "capability option"
  pr_probed_at :: nat

record collection =
  co_batch :: thread_batch
  co_finished :: bool

record diag =
  dg_server :: server
  dg_batches :: "(string, thread_batch) btree"
  dg_capabilities :: "(string, probe_record) btree"
  dg_in_flight :: "(string, nat) btree"
  dg_collections :: "collection list"
  dg_rest_port :: u16

definition ttl :: nat where "ttl = 3600 * 1000"
definition probe_miss_ttl :: nat where "probe_miss_ttl = 600 * 1000"
definition first_batch_wait :: nat where "first_batch_wait = 5000"
definition progress_interval :: nat where "progress_interval = 1000"

definition diag_with_rest_port :: "u16 \<Rightarrow> server \<Rightarrow> diag" where
  "diag_with_rest_port port s = \<lparr>dg_server = s, dg_batches = [], dg_capabilities = [], dg_in_flight = [],
     dg_collections = [], dg_rest_port = port\<rparr>"

definition diag_new :: "server \<Rightarrow> diag" where
  "diag_new = diag_with_rest_port default_port"

subsection \<open>The cache\<close>

definition store_batch :: "thread_batch \<Rightarrow> diag \<Rightarrow> diag" where
  "store_batch b d = d\<lparr>dg_batches := bt_insert (tb_ext_pan_id_hex b) b (dg_batches d)\<rparr>"

definition fresh_batch :: "int \<Rightarrow> diag \<Rightarrow> string \<Rightarrow> thread_batch option" where
  "fresh_batch wall d pan = opt_bind (bt_get (dg_batches d) pan) (\<lambda>b.
     if tb_partial_reason b \<noteq> None then None
     else let age = wall - tb_collected_at b in if age \<ge> 0 \<and> age < int ttl then Some b else None)"

definition all_batches :: "diag \<Rightarrow> thread_batch list" where
  "all_batches d = bt_values (dg_batches d)"

text \<open>The collection in flight for a network, or a new one; the flag says whether a run starts.\<close>

definition new_collection :: "int \<Rightarrow> thread_network \<Rightarrow> collection" where
  "new_collection wall n = \<lparr>co_batch = \<lparr>tb_ext_pan_id_hex = tw_ext_pan_id_hex n, tb_network_name = tw_name n,
     tb_collected_at = wall, tb_source = SourceNone, tb_nodes = [], tb_partial_reason = Some InProgress\<rparr>,
     co_finished = False\<rparr>"

definition collection_for :: "int \<Rightarrow> thread_network \<Rightarrow> diag \<Rightarrow> diag \<times> nat \<times> bool" where
  "collection_for wall n d =
     (case bt_get (dg_in_flight d) (tw_ext_pan_id_hex n) of
        Some a \<Rightarrow> (d, a, False)
      | None \<Rightarrow>
          (let a = length (dg_collections d) in
           (d\<lparr>dg_collections := dg_collections d @ [new_collection wall n],
              dg_in_flight := bt_insert (tw_ext_pan_id_hex n) a (dg_in_flight d)\<rparr>, a, True)))"

definition forget_capability :: "string \<Rightarrow> diag \<Rightarrow> diag" where
  "forget_capability pan d = d\<lparr>dg_capabilities := bt_remove pan (dg_capabilities d)\<rparr>"

definition finish_in_flight :: "string \<Rightarrow> diag \<Rightarrow> diag" where
  "finish_in_flight pan d = d\<lparr>dg_in_flight := bt_remove pan (dg_in_flight d)\<rparr>"

subsection \<open>Finding a border router\<close>

fun probe_addresses ::
  "'w rest_host \<Rightarrow> u16 \<Rightarrow> ip_addr list \<Rightarrow> capability option \<Rightarrow> ('w, capability option) rest_action" where
  "probe_addresses h port [] fallback = act_return fallback"
| "probe_addresses h port (a # as) fallback =
     (if is_link_local a then probe_addresses h port as fallback
      else act_bind (probe h (base_url_of a port)) (\<lambda>r.
        case r of
          Inr c \<Rightarrow> if cp_diagnostics_api c \<noteq> ApiNone then act_return (Some c)
                   else probe_addresses h port as (Some (unwrap_or fallback c))
        | Inl _ \<Rightarrow> probe_addresses h port as fallback))"

definition probe_border_routers :: "'w rest_host \<Rightarrow> u16 \<Rightarrow> thread_network \<Rightarrow> ('w, capability option) rest_action" where
  "probe_border_routers h port n = probe_addresses h port (concat (map si_addresses (tw_border_routers n))) None"

text \<open>What is remembered of a network's border routers: \<open>Some\<close> answer, or nothing to go by.\<close>

definition remembered :: "nat \<Rightarrow> string \<Rightarrow> diag \<Rightarrow> capability option option" where
  "remembered now pan d = opt_bind (bt_get (dg_capabilities d) pan) (\<lambda>p.
     case pr_capability p of
       Some c \<Rightarrow> Some (Some c)
     | None \<Rightarrow> if now - pr_probed_at p < probe_miss_ttl then Some None else None)"

definition note_probe :: "string \<Rightarrow> capability option \<Rightarrow> nat \<Rightarrow> diag \<Rightarrow> diag" where
  "note_probe pan c now d =
     d\<lparr>dg_capabilities := bt_insert pan \<lparr>pr_capability = c, pr_probed_at = now\<rparr> (dg_capabilities d)\<rparr>"

definition rest_capability ::
  "'w rest_host \<Rightarrow> thread_network \<Rightarrow> bool \<Rightarrow> diag \<Rightarrow> ('w, capability option \<times> diag) rest_action" where
  "rest_capability h n force d w =
     (case (if force then None else remembered (rh_now h w) (tw_ext_pan_id_hex n) d) of
        Some c \<Rightarrow> Some ((c, d), w)
      | None \<Rightarrow> act_bind (probe_border_routers h (dg_rest_port d) n) (\<lambda>c w1.
          Some ((c, note_probe (tw_ext_pan_id_hex n) c (rh_now h w1) d), w1)) w)"

subsection \<open>A collection\<close>

definition batch_snapshot :: "int \<Rightarrow> collection \<Rightarrow> thread_batch" where
  "batch_snapshot wall c =
     (let b = co_batch c in
      if co_finished c then b
      else b\<lparr>tb_collected_at := wall,
             tb_partial_reason := Some (if tb_nodes b = [] \<and> tb_source b = OtbrRest then RestNoResponsesYet
                                        else InProgress)\<rparr>)"

definition on_collection :: "nat \<Rightarrow> (collection \<Rightarrow> collection) \<Rightarrow> diag \<Rightarrow> diag" where
  "on_collection a f d = (if a < length (dg_collections d)
     then d\<lparr>dg_collections := (dg_collections d)[a := f (dg_collections d ! a)]\<rparr> else d)"

definition same_node :: "thread_node \<Rightarrow> thread_node \<Rightarrow> bool" where
  "same_node n e =
     ((th_ext_mac_address n \<noteq> None \<and> th_ext_mac_address e = th_ext_mac_address n)
      \<or> (th_ext_mac_address n = None \<and> th_rloc16 n \<noteq> None \<and> th_rloc16 e = th_rloc16 n))"

definition keep_node :: "thread_node \<Rightarrow> thread_node list \<Rightarrow> thread_node list" where
  "keep_node n ns = (case list_position (same_node n) ns of Some i \<Rightarrow> ns[i := n] | None \<Rightarrow> ns @ [n])"

definition with_batch :: "(thread_batch \<Rightarrow> thread_batch) \<Rightarrow> collection \<Rightarrow> collection" where
  "with_batch f c = c\<lparr>co_batch := f (co_batch c)\<rparr>"

definition publish_batch :: "thread_batch \<Rightarrow> diag \<Rightarrow> diag" where
  "publish_batch b d =
     (let d1 = store_batch b d
      in d1\<lparr>dg_server := publish (ev_thread_diagnostics_updated (batch_to_value b)) (dg_server d1)\<rparr>)"

definition finish_run :: "nat \<Rightarrow> thread_network \<Rightarrow> diagnostics_source \<Rightarrow> partial_reason option \<Rightarrow> int \<Rightarrow> diag \<Rightarrow> diag" where
  "finish_run a n source reason wall d =
     (let d1 = on_collection a (\<lambda>c. \<lparr>co_batch = (co_batch c)\<lparr>tb_source := source, tb_partial_reason := reason,
                  tb_collected_at := wall\<rparr>, co_finished = True\<rparr>) d
      in publish_batch (co_batch (dg_collections d1 ! a)) (finish_in_flight (tw_ext_pan_id_hex n) d1))"

text \<open>The steps of a run after the capability is known; the third component of the state is the instant
  progress was last announced.\<close>

datatype run_step =
    RunSource
  | RunNode thread_node nat int
  | RunForget
  | RunFinish diagnostics_source "partial_reason option" int

fun take_step :: "nat \<Rightarrow> thread_network \<Rightarrow> run_step \<Rightarrow> diag \<times> nat \<Rightarrow> diag \<times> nat" where
  "take_step a n RunSource (d, last_at) =
     (on_collection a (with_batch (\<lambda>b. b\<lparr>tb_source := OtbrRest\<rparr>)) d, last_at)"
| "take_step a n (RunNode node now wall) (d, last_at) =
     (let d1 = on_collection a (with_batch (\<lambda>b. b\<lparr>tb_nodes := keep_node node (tb_nodes b)\<rparr>)) d in
      if now - last_at \<ge> progress_interval
      then (publish_batch (batch_snapshot wall (dg_collections d1 ! a)) d1, now) else (d1, last_at))"
| "take_step a n RunForget (d, last_at) = (forget_capability (tw_ext_pan_id_hex n) d, last_at)"
| "take_step a n (RunFinish source reason wall) (d, last_at) = (finish_run a n source reason wall d, last_at)"

definition ending_steps :: "int \<Rightarrow> rest_error + unit \<Rightarrow> run_step list" where
  "ending_steps wall r =
     (case r of
        Inr _ \<Rightarrow> [RunFinish OtbrRest None wall]
      | Inl e \<Rightarrow> (case e of Unreachable _ \<Rightarrow> [RunForget] | Protocol _ \<Rightarrow> [])
          @ [RunFinish OtbrRest (Some (rest_partial_reason e)) wall])"

text \<open>The whole of \<open>Run::execute\<close>, on its own: what the capability is, and the steps that follow.\<close>

definition execute_run ::
  "'w rest_host \<Rightarrow> 'w schedule \<Rightarrow> (nat \<Rightarrow> int) \<Rightarrow> bool \<Rightarrow> thread_network \<Rightarrow> diag
   \<Rightarrow> ('w, diag \<times> run_step list \<times> nat) rest_action" where
  "execute_run h schedule wall force n d =
     act_bind (rest_capability h n force d) (\<lambda>(cap, d1) w1.
       case cap of
         None \<Rightarrow> Some ((d1, [RunFinish SourceNone (Some NoCredentials) (wall (rh_now h w1))], rh_now h w1), w1)
       | Some c \<Rightarrow>
           act_bind (collect_mesh h schedule (trim_slashes (cp_base_url c)) c) (\<lambda>(nodes, r) w2.
             Some ((d1, RunSource # map (\<lambda>(node, t). RunNode node t (wall t)) nodes
                          @ ending_steps (wall (rh_now h w2)) r, rh_now h w1), w2)) w1)"

definition run_alone ::
  "'w rest_host \<Rightarrow> 'w schedule \<Rightarrow> (nat \<Rightarrow> int) \<Rightarrow> bool \<Rightarrow> nat \<Rightarrow> thread_network \<Rightarrow> diag \<Rightarrow> ('w, diag) rest_action" where
  "run_alone h schedule wall force a n d =
     act_bind (execute_run h schedule wall force n d) (\<lambda>(d1, steps, start).
       act_return (fst (fold (take_step a n) steps (d1, start))))"

subsection \<open>Border routers\<close>

record border_router_entry =
  br_ext_address_hex :: "string option"
  br_extended_pan_id_hex :: "string option"
  br_network_name :: "string option"
  br_hostname :: "string option"
  br_port :: "u16 option"
  br_addresses :: "string list"
  br_sources :: "string list"
  br_last_seen :: int
  br_vendor_name :: "string option"
  br_model_name :: "string option"

definition meshcop_service :: string where "meshcop_service = ''_meshcop._udp.local''"
definition browse_timeout :: nat where "browse_timeout = 2500"

text \<open>\<open>trim_end_matches\<close> with a string takes it off as often as it is there.\<close>

function trim_end_all :: "string \<Rightarrow> string \<Rightarrow> string" where
  "trim_end_all suf s =
     (if suf = [] then s else case strip_suffix suf s of None \<Rightarrow> s | Some r \<Rightarrow> trim_end_all suf r)"
  by pat_completeness auto
termination by (relation "measure (\<lambda>(suf, s). length s)") (auto simp: strip_suffix_Some)

declare trim_end_all.simps [simp del]

definition border_router :: "service_instance \<Rightarrow> int \<Rightarrow> border_router_entry" where
  "border_router i wall = \<lparr>
     br_ext_address_hex = txt_hex i ''xa'', br_extended_pan_id_hex = txt_hex i ''xp'',
     br_network_name = txt_str i ''nn'',
     br_hostname = map_option (\<lambda>host. trim_end_all ''.local'' (trim_dots host)) (si_host_name i),
     br_port = si_port i, br_addresses = map ip_text (si_addresses i), br_sources = [''mdns''],
     br_last_seen = wall, br_vendor_name = txt_str i ''vn'', br_model_name = txt_str i ''mn''\<rparr>"

definition border_router_to_value :: "border_router_entry \<Rightarrow> json" where
  "border_router_to_value e = jobj
     (skip_none ''extAddressHex'' JStr (br_ext_address_hex e)
      @ skip_none ''extendedPanIdHex'' JStr (br_extended_pan_id_hex e)
      @ skip_none ''networkName'' JStr (br_network_name e) @ skip_none ''hostname'' JStr (br_hostname e)
      @ skip_none ''port'' jword (br_port e)
      @ [(''addresses'', jarray JStr (br_addresses e)), (''sources'', jarray JStr (br_sources e)),
         (''lastSeen'', jint (br_last_seen e))]
      @ skip_none ''vendorName'' JStr (br_vendor_name e) @ skip_none ''modelName'' JStr (br_model_name e))"

definition get_thread_border_routers :: "service_instance list option \<Rightarrow> int \<Rightarrow> server \<Rightarrow> api_result" where
  "get_thread_border_routers browsed wall s =
     (if \<not> ri_thread_diagnostics_enabled (srv_runtime s) then Inr (JArr [])
      else case browsed of
        None \<Rightarrow> Inr (JArr [])
      | Some is \<Rightarrow> Inr (jarray (\<lambda>i. border_router_to_value (border_router i wall)) is))"

subsection \<open>The command\<close>

definition upper_char :: "char \<Rightarrow> char" where
  "upper_char c = (if is_lower c then char_of (byte_of c - 0x20) else c)"

definition to_ascii_uppercase :: "string \<Rightarrow> string" where
  "to_ascii_uppercase s = map upper_char s"

definition add_instance :: "service_instance \<Rightarrow> thread_network list \<Rightarrow> thread_network list" where
  "add_instance i ns =
     (case map_option to_ascii_uppercase (txt_hex i ''xp'') of
        None \<Rightarrow> ns
      | Some pan \<Rightarrow>
          (case list_position (\<lambda>n. tw_ext_pan_id_hex n = pan) ns of
             Some k \<Rightarrow> ns[k := (ns ! k)
               \<lparr>tw_name := (if tw_name (ns ! k) = [] then unwrap_or (txt_str i ''nn'') [] else tw_name (ns ! k)),
                tw_border_routers := tw_border_routers (ns ! k) @ [i]\<rparr>]
           | None \<Rightarrow> ns @ [\<lparr>tw_ext_pan_id_hex = pan, tw_name = unwrap_or (txt_str i ''nn'') [],
                           tw_border_routers = [i]\<rparr>]))"

definition thread_networks :: "service_instance list option \<Rightarrow> thread_network list" where
  "thread_networks browsed = sort_key tw_ext_pan_id_hex (fold add_instance (unwrap_or browsed []) [])"

text \<open>A run that a command starts: the collection's index, its network, and whether it is forced.\<close>

type_synonym started = "(nat \<times> thread_network \<times> bool) list"

definition start_collection :: "int \<Rightarrow> bool \<Rightarrow> thread_network \<Rightarrow> diag \<Rightarrow> diag \<times> nat \<times> started" where
  "start_collection wall force n d =
     (case collection_for wall n d of (d1, a, starts) \<Rightarrow> (d1, a, if starts then [(a, n, force)] else []))"

definition collect_network :: "int \<Rightarrow> bool \<Rightarrow> thread_network \<Rightarrow> diag \<times> started \<Rightarrow> diag \<times> started" where
  "collect_network wall force n = (\<lambda>(d, runs).
     if \<not> force \<and> fresh_batch wall d (tw_ext_pan_id_hex n) \<noteq> None then (d, runs)
     else case start_collection wall force n d of (d1, _, begun) \<Rightarrow> (d1, runs @ begun))"

definition collect_all :: "int \<Rightarrow> bool \<Rightarrow> service_instance list option \<Rightarrow> diag \<Rightarrow> diag \<times> started" where
  "collect_all wall force browsed d = fold (collect_network wall force) (thread_networks browsed) (d, [])"

definition checked_pan :: "args \<Rightarrow> api_error + string option" where
  "checked_pan a = bind_res (args_str a ''ext_pan_id'') (\<lambda>pan.
     case pan of
       None \<Rightarrow> Inr None
     | Some p \<Rightarrow>
         if length p \<noteq> 16 \<or> \<not> list_all is_hexdigit p
         then Inl (err_invalid_args (''Invalid ext_pan_id \"'' @ p @ ''\": expected 16 hex characters''))
         else Inr (Some p))"

text \<open>\<open>during\<close> is what happens while the command waits for the first batch: the steps of runs, other
  commands. The wall clock is read when the command asks and again when it answers.\<close>

definition get_thread_diagnostics ::
  "int \<Rightarrow> int \<Rightarrow> service_instance list option \<Rightarrow> (diag \<Rightarrow> started \<Rightarrow> diag) \<Rightarrow> args \<Rightarrow> diag
   \<Rightarrow> diag \<times> started \<times> api_result" where
  "get_thread_diagnostics wall later browsed during a d =
     (case bind_res (checked_pan a) (\<lambda>pan. map_res (Pair pan) (args_bool_or a ''force'' False)) of
        Inl e \<Rightarrow> (d, [], Inl e)
      | Inr (pan, force) \<Rightarrow>
          if \<not> ri_thread_diagnostics_enabled (srv_runtime (dg_server d)) then
            (d, [], Inr (case pan of Some _ \<Rightarrow> JNull | None \<Rightarrow> JArr []))
          else (case pan of
              None \<Rightarrow>
                (case collect_all wall force browsed d of (d1, runs) \<Rightarrow>
                   (d1, runs, Inr (jarray batch_to_value (all_batches d))))
            | Some p \<Rightarrow>
                (case (if force then None else fresh_batch wall d (to_ascii_uppercase p)) of
                   Some b \<Rightarrow> (d, [], Inr (batch_to_value b))
                 | None \<Rightarrow>
                     (case find (\<lambda>n. tw_ext_pan_id_hex n = to_ascii_uppercase p) (thread_networks browsed) of
                        None \<Rightarrow> (d, [], Inr JNull)
                      | Some n \<Rightarrow>
                          (case start_collection wall force n d of (d1, c, runs) \<Rightarrow>
                             let d2 = during d1 runs
                             in (d2, runs, Inr (batch_to_value (batch_snapshot later (dg_collections d2 ! c)))))))))"

subsection \<open>What a run leaves\<close>

lemma on_collection_simps [simp]:
  "dg_in_flight (on_collection a f d) = dg_in_flight d"
  "dg_capabilities (on_collection a f d) = dg_capabilities d"
  "dg_batches (on_collection a f d) = dg_batches d"
  "dg_server (on_collection a f d) = dg_server d"
  "length (dg_collections (on_collection a f d)) = length (dg_collections d)"
  "a < length (dg_collections d) \<Longrightarrow> dg_collections (on_collection a f d) ! a = f (dg_collections d ! a)"
  "b \<noteq> a \<Longrightarrow> dg_collections (on_collection a f d) ! b = dg_collections d ! b"
  by (simp_all add: on_collection_def)

lemma publish_batch_simps [simp]:
  "dg_in_flight (publish_batch b d) = dg_in_flight d"
  "dg_capabilities (publish_batch b d) = dg_capabilities d"
  "dg_batches (publish_batch b d) = bt_insert (tb_ext_pan_id_hex b) b (dg_batches d)"
  "dg_collections (publish_batch b d) = dg_collections d"
  "dg_server (publish_batch b d) = publish (ev_thread_diagnostics_updated (batch_to_value b)) (dg_server d)"
  by (simp_all add: publish_batch_def store_batch_def Let_def)

lemma finish_in_flight_simps [simp]:
  "dg_in_flight (finish_in_flight pan d) = bt_remove pan (dg_in_flight d)"
  "dg_capabilities (finish_in_flight pan d) = dg_capabilities d"
  "dg_batches (finish_in_flight pan d) = dg_batches d"
  "dg_collections (finish_in_flight pan d) = dg_collections d"
  "dg_server (finish_in_flight pan d) = dg_server d"
  by (simp_all add: finish_in_flight_def)

lemma forget_capability_simps [simp]:
  "dg_in_flight (forget_capability pan d) = dg_in_flight d"
  "dg_capabilities (forget_capability pan d) = bt_remove pan (dg_capabilities d)"
  "dg_batches (forget_capability pan d) = dg_batches d"
  "dg_collections (forget_capability pan d) = dg_collections d"
  "dg_server (forget_capability pan d) = dg_server d"
  by (simp_all add: forget_capability_def)

lemma note_probe_simps [simp]:
  "dg_in_flight (note_probe pan c now d) = dg_in_flight d"
  "dg_batches (note_probe pan c now d) = dg_batches d"
  "dg_collections (note_probe pan c now d) = dg_collections d"
  "dg_server (note_probe pan c now d) = dg_server d"
  by (simp_all add: note_probe_def)

text \<open>What the nodes of a run change, while it is under way.\<close>

definition node_steps :: "(nat \<Rightarrow> int) \<Rightarrow> (thread_node \<times> nat) list \<Rightarrow> run_step list" where
  "node_steps wall nodes = map (\<lambda>(node, t). RunNode node t (wall t)) nodes"

lemma node_step_effect:
  assumes "a < length (dg_collections d)"
  shows "dg_in_flight (fst (take_step a n (RunNode node t w) (d, last_at))) = dg_in_flight d
    \<and> dg_capabilities (fst (take_step a n (RunNode node t w) (d, last_at))) = dg_capabilities d
    \<and> length (dg_collections (fst (take_step a n (RunNode node t w) (d, last_at)))) = length (dg_collections d)
    \<and> dg_collections (fst (take_step a n (RunNode node t w) (d, last_at))) ! a
        = with_batch (\<lambda>b. b\<lparr>tb_nodes := keep_node node (tb_nodes b)\<rparr>) (dg_collections d ! a)"
  using assms by (simp add: Let_def)

lemma node_steps_effect:
  assumes "a < length (dg_collections d)"
  shows "dg_in_flight (fst (fold (take_step a n) (node_steps wall nodes) (d, last_at))) = dg_in_flight d
    \<and> dg_capabilities (fst (fold (take_step a n) (node_steps wall nodes) (d, last_at))) = dg_capabilities d
    \<and> length (dg_collections (fst (fold (take_step a n) (node_steps wall nodes) (d, last_at)))) = length (dg_collections d)
    \<and> dg_collections (fst (fold (take_step a n) (node_steps wall nodes) (d, last_at))) ! a
        = with_batch (\<lambda>b. b\<lparr>tb_nodes := fold keep_node (map fst nodes) (tb_nodes b)\<rparr>) (dg_collections d ! a)"
  using assms
proof (induction nodes arbitrary: d last_at)
  case Nil
  then show ?case by (simp add: node_steps_def with_batch_def)
next
  case (Cons x nodes)
  obtain node t where x: "x = (node, t)" by (cases x)
  obtain d1 l1 where s: "take_step a n (RunNode node t (wall t)) (d, last_at) = (d1, l1)"
    by (cases "take_step a n (RunNode node t (wall t)) (d, last_at)")
  have e: "dg_in_flight d1 = dg_in_flight d" "dg_capabilities d1 = dg_capabilities d"
    "length (dg_collections d1) = length (dg_collections d)"
    "dg_collections d1 ! a = with_batch (\<lambda>b. b\<lparr>tb_nodes := keep_node node (tb_nodes b)\<rparr>) (dg_collections d ! a)"
    using node_step_effect [OF Cons.prems, of n node t "wall t" last_at] by (simp_all only: s fst_conv)
  have f: "fold (take_step a n) (node_steps wall (x # nodes)) (d, last_at)
      = fold (take_step a n) (node_steps wall nodes) (d1, l1)"
    by (simp only: node_steps_def list.map x prod.case fold.simps comp_def s)
  show ?case unfolding f using Cons.IH [of d1 l1] Cons.prems e by (simp add: with_batch_def x)
qed

definition final_batch :: "thread_network \<Rightarrow> int \<Rightarrow> thread_node list \<Rightarrow> rest_error + unit \<Rightarrow> thread_batch" where
  "final_batch n t nodes r = \<lparr>tb_ext_pan_id_hex = tw_ext_pan_id_hex n, tb_network_name = tw_name n,
     tb_collected_at = t, tb_source = OtbrRest, tb_nodes = fold keep_node nodes [],
     tb_partial_reason = (case r of Inl e \<Rightarrow> Some (rest_partial_reason e) | Inr _ \<Rightarrow> None)\<rparr>"

lemma finish_effect:
  assumes "a < length (dg_collections d)"
    and "dg_collections d ! a = \<lparr>co_batch = b, co_finished = False\<rparr>" and "tb_ext_pan_id_hex b = tw_ext_pan_id_hex n"
  shows "finish_run a n source reason wall d
    = (let b1 = b\<lparr>tb_source := source, tb_partial_reason := reason, tb_collected_at := wall\<rparr>
       in publish_batch b1 (finish_in_flight (tw_ext_pan_id_hex n)
            (d\<lparr>dg_collections := (dg_collections d)[a := \<lparr>co_batch = b1, co_finished = True\<rparr>]\<rparr>)))"
  using assms by (simp add: finish_run_def on_collection_def Let_def)

lemma ending_effect:
  fixes r :: "rest_error + unit"
  assumes "a < length (dg_collections d)" and "dg_collections d ! a = \<lparr>co_batch = b, co_finished = False\<rparr>"
    and "b = \<lparr>tb_ext_pan_id_hex = tw_ext_pan_id_hex n, tb_network_name = tw_name n, tb_collected_at = t0,
      tb_source = OtbrRest, tb_nodes = fold keep_node ns [], tb_partial_reason = Some InProgress\<rparr>"
    and "d' = fst (fold (take_step a n) (ending_steps t r) (d, last_at))"
  shows "bt_get (dg_batches d') (tw_ext_pan_id_hex n) = Some (final_batch n t ns r)
    \<and> last (srv_published (dg_server d')) = ev_thread_diagnostics_updated (batch_to_value (final_batch n t ns r))
    \<and> bt_get (dg_in_flight d') (tw_ext_pan_id_hex n) = None
    \<and> bt_get (dg_capabilities d') (tw_ext_pan_id_hex n)
        = (if \<exists>e. r = Inl (Unreachable e) then None else bt_get (dg_capabilities d) (tw_ext_pan_id_hex n))"
proof -
  have f: "finish_run a n OtbrRest reason t dd
      = (let b1 = b\<lparr>tb_source := OtbrRest, tb_partial_reason := reason, tb_collected_at := t\<rparr>
         in publish_batch b1 (finish_in_flight (tw_ext_pan_id_hex n)
              (dd\<lparr>dg_collections := (dg_collections dd)[a := \<lparr>co_batch = b1, co_finished = True\<rparr>]\<rparr>)))"
    if "dg_collections dd = dg_collections d" for dd reason
    using finish_effect [of a dd b n OtbrRest reason t] assms(1-3) that by simp
  have facts: "fst (fold (take_step a n) (ending_steps t r) (d, last_at))
      = finish_run a n OtbrRest (case r of Inl e \<Rightarrow> Some (rest_partial_reason e) | Inr _ \<Rightarrow> None) t
          (if \<exists>e. r = Inl (Unreachable e) then forget_capability (tw_ext_pan_id_hex n) d else d)"
    by (auto simp: ending_steps_def split: sum.split rest_error.split)
  show ?thesis
    unfolding assms(4) facts
    by (subst (1 2 3 4) f) (auto simp: assms(3) Let_def final_batch_def publish_def bt_get_insert_raw bt_get_remove)
qed

lemma run_effect:
  assumes "a < length (dg_collections d)" and "dg_collections d ! a = new_collection t0 n"
    and "rest_capability h n force d w = Some ((Some c, d1), w1)"
    and "collect_mesh h schedule (trim_slashes (cp_base_url c)) c w1 = Some ((nodes, r), w2)"
  shows "\<exists>d'. run_alone h schedule wall force a n d w = Some (d', w2)
    \<and> bt_get (dg_batches d') (tw_ext_pan_id_hex n) = Some (final_batch n (wall (rh_now h w2)) (map fst nodes) r)
    \<and> last (srv_published (dg_server d'))
        = ev_thread_diagnostics_updated (batch_to_value (final_batch n (wall (rh_now h w2)) (map fst nodes) r))
    \<and> bt_get (dg_in_flight d') (tw_ext_pan_id_hex n) = None
    \<and> bt_get (dg_capabilities d') (tw_ext_pan_id_hex n)
        = (if \<exists>e. r = Inl (Unreachable e) then None else bt_get (dg_capabilities d1) (tw_ext_pan_id_hex n))"
proof -
  have d1: "dg_collections d1 = dg_collections d"
    using assms(3) by (auto simp: rest_capability_def act_bind_def bind_eq_Some_conv split: option.splits)
  let ?d2 = "on_collection a (with_batch (\<lambda>b. b\<lparr>tb_source := OtbrRest\<rparr>)) d1"
  let ?d3 = "fst (fold (take_step a n) (node_steps wall nodes) (?d2, rh_now h w1))"
  have l: "a < length (dg_collections ?d2)" using assms(1) d1 by simp
  note e = node_steps_effect [OF l, of n wall nodes "rh_now h w1"]
  obtain b where b: "dg_collections ?d3 ! a = \<lparr>co_batch = b, co_finished = False\<rparr>"
    and bv: "b = \<lparr>tb_ext_pan_id_hex = tw_ext_pan_id_hex n, tb_network_name = tw_name n, tb_collected_at = t0,
      tb_source = OtbrRest, tb_nodes = fold keep_node (map fst nodes) [], tb_partial_reason = Some InProgress\<rparr>"
    using e assms(1,2) d1 by (simp add: new_collection_def with_batch_def)
  have l3: "a < length (dg_collections ?d3)" using e l by simp
  have c3: "dg_capabilities ?d3 = dg_capabilities d1" using e by simp
  have run: "run_alone h schedule wall force a n d w
      = Some (fst (fold (take_step a n) (ending_steps (wall (rh_now h w2)) r) (?d3, snd (fold (take_step a n)
          (node_steps wall nodes) (?d2, rh_now h w1)))), w2)"
    using assms(3,4) by (simp add: run_alone_def execute_run_def act_bind_def act_return_def node_steps_def)
  show ?thesis
    unfolding run using ending_effect [OF l3 b bv refl] by (simp only: c3 option.inject prod.inject) blast
qed

text \<open>A collection ends with exactly what it gathered: the last view of every node, stored and announced under
  its network, complete when the border router answered to the end and with the reason when it did
  not; nobody joins it any more, and only a border router that could not be reached is forgotten.\<close>
theorem run_result:
  assumes "a < length (dg_collections d)" and "dg_collections d ! a = new_collection t0 n"
    and "rest_capability h n force d w = Some ((Some c, d1), w1)"
    and "collect_mesh h schedule (trim_slashes (cp_base_url c)) c w1 = Some ((nodes, r), w2)"
  shows "\<exists>d'. run_alone h schedule wall force a n d w = Some (d', w2)
    \<and> bt_get (dg_batches d') (tw_ext_pan_id_hex n) = Some (final_batch n (wall (rh_now h w2)) (map fst nodes) r)
    \<and> last (srv_published (dg_server d'))
        = ev_thread_diagnostics_updated (batch_to_value (final_batch n (wall (rh_now h w2)) (map fst nodes) r))
    \<and> bt_get (dg_in_flight d') (tw_ext_pan_id_hex n) = None
    \<and> bt_get (dg_capabilities d') (tw_ext_pan_id_hex n)
        = (if \<exists>e. r = Inl (Unreachable e) then None else bt_get (dg_capabilities d1) (tw_ext_pan_id_hex n))"
  using run_effect [OF assms] .

text \<open>A network whose border router is remembered, being collected for the first time.\<close>

definition sample_network :: thread_network where
  "sample_network = \<lparr>tw_ext_pan_id_hex = ''1122334455667788'', tw_name = ''net'', tw_border_routers = []\<rparr>"

definition sample_capability :: "diagnostics_api \<Rightarrow> capability" where
  "sample_capability api = \<lparr>cp_base_url = ''http://br'', cp_network_name = ''net'',
     cp_ext_pan_id_hex = ''1122334455667788'', cp_diagnostics_api = api\<rparr>"

definition sample_diag :: "diagnostics_api \<Rightarrow> diag" where
  "sample_diag api = fst (collection_for 5 sample_network
     (note_probe ''1122334455667788'' (Some (sample_capability api)) 0
       (diag_new (server_new [] config_in_memory (runtime_default ''/'') ''info''))))"

lemma sample_diag_facts:
  "0 < length (dg_collections (sample_diag api))"
  "dg_collections (sample_diag api) ! 0 = new_collection 5 sample_network"
  "bt_get (dg_capabilities (sample_diag api)) (tw_ext_pan_id_hex sample_network)
     = Some \<lparr>pr_capability = Some (sample_capability api), pr_probed_at = 0\<rparr>"
  by (simp_all add: sample_diag_def collection_for_def diag_new_def diag_with_rest_port_def bt_get_def
      note_probe_def sample_network_def)

lemma remembered_capability:
  assumes "bt_get (dg_capabilities d) (tw_ext_pan_id_hex n) = Some p" and "pr_capability p = Some c"
  shows "rest_capability h n False d w = Some ((Some c, d), w)"
  using assms by (simp add: rest_capability_def remembered_def)

theorem run_result_witness:
  "\<exists>d'. run_alone dead_host (\<lambda>ds w. (map (\<lambda>d. (d, w)) ds, w)) int False 0 sample_network
         (sample_diag ApiLegacy) (0, 7) = Some (d', (0, 7))
     \<and> bt_get (dg_capabilities d') ''1122334455667788'' = None"
proof -
  let ?s = "\<lambda>ds (w :: nat \<times> nat). (map (\<lambda>d :: string. (d, w)) ds, w)"
  have r: "rest_capability dead_host sample_network False (sample_diag ApiLegacy) (0, 7)
      = Some ((Some (sample_capability ApiLegacy), sample_diag ApiLegacy), (0, 7))"
    by (rule remembered_capability [OF sample_diag_facts(3)]) simp
  obtain e where c: "collect_mesh dead_host ?s (trim_slashes (cp_base_url (sample_capability ApiLegacy)))
        (sample_capability ApiLegacy) (0, 7) = Some (([], Inl (Unreachable e)), (0, 7))"
    by (simp add: collect_mesh_def sample_capability_def collect_legacy_def legacy_diagnostics_def collection_at_def
        get_json_def act_bind_def act_return_def call_def dead_host_def transport_error_def)
  show ?thesis
    using run_result [OF sample_diag_facts(1,2) r c, of int] by (auto simp: sample_network_def)
qed

subsection \<open>A border router without diagnostics\<close>

text \<open>A border router that serves REST without diagnostics, once found, decides every later collection of its
  network that is not forced: it ends at once as a protocol failure, no address is probed again, and the
  finding stays, however much time has passed and whatever other border routers the network has by then.\<close>
theorem useless_router_remembered:
  assumes "a < length (dg_collections d)" and "dg_collections d ! a = new_collection t0 n"
    and "bt_get (dg_capabilities d) (tw_ext_pan_id_hex n) = Some p" and "pr_capability p = Some c"
    and "cp_diagnostics_api c = ApiNone"
  shows "\<exists>d'. run_alone h schedule wall False a n d w = Some (d', w)
    \<and> map_option tb_partial_reason (bt_get (dg_batches d') (tw_ext_pan_id_hex n)) = Some (Some RestProtocol)
    \<and> bt_get (dg_capabilities d') (tw_ext_pan_id_hex n) = Some p"
proof -
  have c: "collect_mesh h schedule (trim_slashes (cp_base_url c)) c w
      = Some (([], Inl (Protocol ''this border router does not serve diagnostics over REST'')), w)"
    by (simp add: collect_mesh_def assms(5) act_return_def)
  show ?thesis
    using run_effect [OF assms(1,2) remembered_capability [OF assms(3,4)] c, of wall] assms(3)
    by (auto simp: final_batch_def)
qed

theorem useless_router_remembered_witness:
  "\<exists>d'. run_alone dead_host (\<lambda>ds w. (map (\<lambda>d. (d, w)) ds, w)) int False 0 sample_network
         (sample_diag ApiNone) (0, 9999999) = Some (d', (0, 9999999))"
  using useless_router_remembered [OF sample_diag_facts(1-3), of ApiNone "sample_capability ApiNone" dead_host
      "\<lambda>ds w. (map (\<lambda>d. (d, w)) ds, w)" int "(0, 9999999)"]
  by (auto simp: sample_capability_def)

subsection \<open>Any interleaving of runs and commands\<close>

text \<open>
  Whatever happens to the shared state: a command or the background refresh asks for a collection, a
  run remembers what it probed, or a run in flight takes one of its steps.
\<close>

definition honest_step :: "run_step \<Rightarrow> bool" where
  "honest_step s = (case s of RunFinish source reason _ \<Rightarrow> source = OtbrRest \<or> reason \<noteq> None | _ \<Rightarrow> True)"

inductive diag_reach :: "u16 \<Rightarrow> server \<Rightarrow> diag \<Rightarrow> bool" for port s where
  start: "diag_reach port s (diag_with_rest_port port s)"
| asks: "diag_reach port s d \<Longrightarrow> diag_reach port s (fst (collection_for wall n d))"
| probes: "diag_reach port s d \<Longrightarrow> diag_reach port s (note_probe pan c now d)"
| works: "diag_reach port s d \<Longrightarrow> bt_get (dg_in_flight d) (tw_ext_pan_id_hex n) = Some a \<Longrightarrow> honest_step st
    \<Longrightarrow> diag_reach port s (fst (take_step a n st (d, last_at)))"

definition distinct_nodes :: "thread_node list \<Rightarrow> bool" where
  "distinct_nodes ns = distinct (filter_map th_ext_mac_address ns)"

definition flying :: "collection list \<Rightarrow> string \<Rightarrow> nat \<Rightarrow> bool" where
  "flying cs pan a = (a < length cs \<and> \<not> co_finished (cs ! a) \<and> tb_ext_pan_id_hex (co_batch (cs ! a)) = pan)"

definition batch_ok :: "string \<Rightarrow> thread_batch \<Rightarrow> bool" where
  "batch_ok pan b = (tb_ext_pan_id_hex b = pan \<and> distinct_nodes (tb_nodes b)
     \<and> (tb_partial_reason b = None \<longrightarrow> tb_source b = OtbrRest))"

definition diag_ok :: "diag \<Rightarrow> bool" where
  "diag_ok d = ((\<forall>pan a. bt_get (dg_in_flight d) pan = Some a \<longrightarrow> flying (dg_collections d) pan a)
     \<and> (\<forall>pan b. bt_get (dg_batches d) pan = Some b \<longrightarrow> batch_ok pan b)
     \<and> (\<forall>c \<in> set (dg_collections d). distinct_nodes (tb_nodes (co_batch c))))"

lemma filter_map_append [simp]: "filter_map f (xs @ ys) = filter_map f xs @ filter_map f ys"
  by (induction xs) (auto split: option.split)

lemma keep_node_distinct:
  assumes "distinct_nodes ns"
  shows "distinct_nodes (keep_node n ns)"
proof (cases "list_position (same_node n) ns")
  case None
  then have "m \<notin> set (filter_map th_ext_mac_address ns)" if "th_ext_mac_address n = Some m" for m
    using that by (auto simp: list_position_None same_node_def)
  then show ?thesis
    using assms None by (auto simp: keep_node_def distinct_nodes_def split: option.split)
next
  case (Some i)
  then have i: "i < length ns" and same: "same_node n (ns ! i)" by (auto simp: list_position_Some)
  have ns: "ns = take i ns @ ns ! i # drop (Suc i) ns" using i by (rule id_take_nth_drop)
  have "ns[i := n] = take i ns @ n # drop (Suc i) ns" using i by (rule upd_conv_take_nth_drop)
  moreover have "distinct (filter_map th_ext_mac_address (take i ns @ ns ! i # drop (Suc i) ns))"
    using assms ns by (simp add: distinct_nodes_def)
  ultimately show ?thesis
    using same by (auto simp: keep_node_def Some distinct_nodes_def same_node_def split: option.splits)
qed

lemma flying_unique:
  assumes "diag_ok d" and "bt_get (dg_in_flight d) p = Some a" and "bt_get (dg_in_flight d) q = Some a"
  shows "p = q"
  using assms unfolding diag_ok_def flying_def by metis

lemma collection_for_ok:
  assumes "diag_ok d"
  shows "diag_ok (fst (collection_for wall n d))"
proof (cases "bt_get (dg_in_flight d) (tw_ext_pan_id_hex n)")
  case None
  then show ?thesis
    using assms by (fastforce simp: collection_for_def diag_ok_def flying_def bt_get_insert_raw nth_append
        new_collection_def distinct_nodes_def Let_def)
qed (use assms in \<open>simp add: collection_for_def\<close>)

text \<open>A change of one collection in flight that keeps its network, and what is published of it.\<close>

lemma on_collection_ok:
  assumes "diag_ok d" and "flying (dg_collections d) pan a"
    and "tb_ext_pan_id_hex (co_batch (f (dg_collections d ! a))) = pan"
    and "distinct_nodes (tb_nodes (co_batch (f (dg_collections d ! a))))"
    and "co_finished (f (dg_collections d ! a)) \<Longrightarrow> gone = Some pan"
    and "dg_collections d' = (dg_collections d)[a := f (dg_collections d ! a)]"
    and "dg_in_flight d' = (case gone of None \<Rightarrow> dg_in_flight d | Some p \<Rightarrow> bt_remove p (dg_in_flight d))"
    and "\<And>p b. bt_get (dg_batches d') p = Some b \<Longrightarrow> bt_get (dg_batches d) p = Some b \<or> batch_ok p b"
  shows "diag_ok d'"
proof -
  have "flying (dg_collections d') p c" if "bt_get (dg_in_flight d') p = Some c" for p c
  proof -
    have g: "bt_get (dg_in_flight d) p = Some c" "gone \<noteq> Some p"
      using that assms(7) by (auto simp: bt_get_remove split: option.splits if_splits)
    then have fl: "flying (dg_collections d) p c" using assms(1) by (simp add: diag_ok_def)
    show ?thesis
    proof (cases "c = a")
      case True
      then have "p = pan" using fl assms(2) by (simp add: flying_def)
      then show ?thesis using True fl g(2) assms(3,5,6) by (auto simp: flying_def)
    next
      case False
      then show ?thesis using fl assms(6) by (simp add: flying_def)
    qed
  qed
  moreover have "distinct_nodes (tb_nodes (co_batch c))" if "c \<in> set (dg_collections d')" for c
    using that assms(1,4,6) set_update_subset_insert unfolding diag_ok_def by fastforce
  ultimately show ?thesis using assms(1,8) unfolding diag_ok_def by blast
qed

lemma take_step_ok:
  assumes "diag_ok d" and "bt_get (dg_in_flight d) (tw_ext_pan_id_hex n) = Some a" and "honest_step st"
  shows "diag_ok (fst (take_step a n st (d, last_at)))"
proof -
  let ?c = "dg_collections d ! a"
  have f: "flying (dg_collections d) (tw_ext_pan_id_hex n) a" using assms(1,2) by (simp add: diag_ok_def)
  then have a: "a < length (dg_collections d)" "\<not> co_finished ?c" "tb_ext_pan_id_hex (co_batch ?c) = tw_ext_pan_id_hex n"
    by (simp_all add: flying_def)
  have dn: "distinct_nodes (tb_nodes (co_batch ?c))" using assms(1) a(1) by (simp add: diag_ok_def)
  show ?thesis
  proof (cases st)
    case RunSource
    then show ?thesis
      by (simp, intro on_collection_ok [OF assms(1) f, where gone = None and f = "with_batch (\<lambda>b. b\<lparr>tb_source := OtbrRest\<rparr>)"])
         (use a dn in \<open>simp_all add: with_batch_def on_collection_def\<close>)
  next
    case (RunNode node now wall)
    let ?f = "with_batch (\<lambda>b. b\<lparr>tb_nodes := keep_node node (tb_nodes b)\<rparr>)"
    have b: "batch_ok (tw_ext_pan_id_hex n) (batch_snapshot wall (?f ?c))"
      using a keep_node_distinct [OF dn, of node] by (simp add: batch_ok_def batch_snapshot_def with_batch_def Let_def)
    show ?thesis unfolding RunNode
      by (rule on_collection_ok [OF assms(1) f, where gone = None and f = ?f])
         (use a b keep_node_distinct [OF dn, of node] in
           \<open>auto simp: with_batch_def on_collection_def Let_def bt_get_insert_raw batch_ok_def split: if_splits\<close>)
  next
    case RunForget
    then show ?thesis using assms(1) by (simp add: diag_ok_def)
  next
    case (RunFinish source reason wall)
    let ?f = "\<lambda>c. \<lparr>co_batch = (co_batch c)\<lparr>tb_source := source, tb_partial_reason := reason, tb_collected_at := wall\<rparr>,
      co_finished = True\<rparr>"
    have b: "batch_ok (tw_ext_pan_id_hex n) (co_batch (?f ?c))"
      using a dn assms(3) by (auto simp: batch_ok_def RunFinish honest_step_def)
    show ?thesis unfolding RunFinish
      by (simp, rule on_collection_ok [OF assms(1) f, where gone = "Some (tw_ext_pan_id_hex n)" and f = ?f])
         (use a b dn in \<open>auto simp: finish_run_def on_collection_def Let_def bt_get_insert_raw split: if_splits\<close>)
  qed
qed

lemma reach_ok: "diag_reach port s d \<Longrightarrow> diag_ok d"
proof (induction rule: diag_reach.induct)
  case start
  then show ?case by (simp add: diag_ok_def diag_with_rest_port_def bt_get_def)
next
  case (probes d pan c now)
  then show ?case by (simp add: diag_ok_def)
qed (simp_all add: collection_for_ok take_step_ok)



subsection \<open>Networks\<close>

definition claimed_pan :: "service_instance \<Rightarrow> string option" where
  "claimed_pan i = map_option to_ascii_uppercase (txt_hex i ''xp'')"

definition claims :: "thread_network \<Rightarrow> bool" where
  "claims n = (tw_border_routers n \<noteq> []
     \<and> list_all (\<lambda>i. claimed_pan i = Some (tw_ext_pan_id_hex n)) (tw_border_routers n))"

definition networks_ok :: "thread_network list \<Rightarrow> bool" where
  "networks_ok ns = (distinct (map tw_ext_pan_id_hex ns) \<and> list_all claims ns)"

definition routers_of :: "thread_network list \<Rightarrow> service_instance multiset" where
  "routers_of ns = mset (concat (map tw_border_routers ns))"

lemma add_instance_ok:
  assumes "networks_ok ns"
  shows "networks_ok (add_instance i ns)
    \<and> routers_of (add_instance i ns) = routers_of ns + (if claimed_pan i = None then {#} else {#i#})"
proof (cases "claimed_pan i")
  case None
  then show ?thesis using assms by (simp add: add_instance_def claimed_pan_def)
next
  case (Some pan)
  note i = this [unfolded claimed_pan_def]
  show ?thesis
  proof (cases "list_position (\<lambda>n. tw_ext_pan_id_hex n = pan) ns")
    case None
    note none = this
    then have "pan \<notin> tw_ext_pan_id_hex ` set ns" by (auto simp: list_position_None)
    moreover have "add_instance i ns = ns @ [\<lparr>tw_ext_pan_id_hex = pan, tw_name = unwrap_or (txt_str i ''nn'') [],
        tw_border_routers = [i]\<rparr>]"
      unfolding add_instance_def i option.case none ..
    ultimately show ?thesis using assms Some by (simp add: networks_ok_def claims_def routers_of_def)
  next
    case (Some k)
    then have k: "k < length ns" "tw_ext_pan_id_hex (ns ! k) = pan"
      using list_position_Some [of "\<lambda>n. tw_ext_pan_id_hex n = pan" ns k] by blast+
    let ?n = "(ns ! k)\<lparr>tw_name := (if tw_name (ns ! k) = [] then unwrap_or (txt_str i ''nn'') [] else tw_name (ns ! k)),
                tw_border_routers := tw_border_routers (ns ! k) @ [i]\<rparr>"
    have add: "add_instance i ns = ns[k := ?n]" unfolding add_instance_def i option.case Some ..
    have split: "ns = take k ns @ ns ! k # drop (Suc k) ns" using k(1) by (rule id_take_nth_drop)
    have upd: "ns[k := ?n] = take k ns @ ?n # drop (Suc k) ns" using k(1) by (rule upd_conv_take_nth_drop)
    have "networks_ok (take k ns @ ns ! k # drop (Suc k) ns)" using assms split by simp
    moreover have "routers_of ns = routers_of (take k ns @ ns ! k # drop (Suc k) ns)" using split by simp
    ultimately show ?thesis unfolding add upd
      using \<open>claimed_pan i = Some pan\<close> k(2) by (auto simp: networks_ok_def claims_def routers_of_def)
  qed
qed

lemma add_all_ok:
  assumes "networks_ok ns"
  shows "networks_ok (fold add_instance is ns)
    \<and> routers_of (fold add_instance is ns) = routers_of ns + mset (filter (\<lambda>i. claimed_pan i \<noteq> None) is)"
  using assms
proof (induction "is" arbitrary: ns)
  case (Cons i rest)
  then show ?case using add_instance_ok [OF Cons.prems, of i] by auto
qed simp

lemma routers_of_sort: "routers_of (sort_key f ns) = routers_of ns"
proof -
  have "routers_of ns = (\<Sum>n \<in># mset ns. mset (tw_border_routers n))" for ns
    by (induction ns) (simp_all add: routers_of_def)
  then show ?thesis by simp
qed

text \<open>Discovery sorts the border routers into networks without losing or inventing one: every instance that
  claims a network is a border router of exactly that one, a network is listed once, in order of its id,
  and has a border router.\<close>
theorem networks_partition:
  "sorted (map tw_ext_pan_id_hex (thread_networks browsed))
   \<and> distinct (map tw_ext_pan_id_hex (thread_networks browsed))
   \<and> list_all claims (thread_networks browsed)
   \<and> routers_of (thread_networks browsed) = mset (filter (\<lambda>i. claimed_pan i \<noteq> None) (unwrap_or browsed []))"
proof -
  let ?ns = "fold add_instance (unwrap_or browsed []) []"
  have ok: "networks_ok ?ns \<and> routers_of ?ns = mset (filter (\<lambda>i. claimed_pan i \<noteq> None) (unwrap_or browsed []))"
    using add_all_ok [of "[]" "unwrap_or browsed []"] by (simp add: networks_ok_def routers_of_def)
  have "mset (map tw_ext_pan_id_hex (sort_key tw_ext_pan_id_hex ?ns)) = mset (map tw_ext_pan_id_hex ?ns)" by simp
  then have "distinct (map tw_ext_pan_id_hex (sort_key tw_ext_pan_id_hex ?ns))"
    using ok mset_eq_imp_distinct_iff unfolding networks_ok_def by blast
  then show ?thesis
    using ok by (simp add: thread_networks_def routers_of_sort networks_ok_def list_all_iff)
qed

end
