(* ===== verification/Dcl.thy ===== *)
theory Dcl
  imports Ota_Api
begin

section \<open>The compliance ledger (src/server/src/matter/dcl.rs)\<close>

text \<open>
  Which firmware the ledger publishes for a product, whether a version applies, and fetching an image
  and checking it against its digest; names of vendors; the caches. What the ledger and an image
  server answer to a URL, base64, SHA-256 and the text of a deserialisation error are a record of
  parameters. Times are milliseconds.
\<close>

definition main_net_url :: string where "main_net_url = ''https://on.dcl.csa-iot.org''"
definition test_net_url :: string where "test_net_url = ''https://on.test-net.dcl.csa-iot.org''"
definition checksum_sha256 :: u32 where "checksum_sha256 = 1"
definition cache_ttl :: nat where "cache_ttl = 3600 * 1000"

text \<open>An answer of the ledger: a body, or why it could not be read as JSON; a refusing status; another
  failure. An image: a refusal, or the bytes that arrive and how the transfer breaks off, if it does.\<close>

datatype ledger_answer = LedgerBody "string + json" | LedgerStatus nat string | LedgerFailure string

datatype image_answer = ImageFailure string | ImageBody bytes "string option"

record ledger_http =
  lh_get :: "string \<Rightarrow> ledger_answer"
  lh_image :: "string \<Rightarrow> image_answer"
  lh_mismatch :: "json \<Rightarrow> string"
  lh_base64 :: "string \<Rightarrow> bytes option"
  lh_sha256 :: "bytes \<Rightarrow> bytes"

subsection \<open>Deserialisation\<close>

text \<open>The fields of a derived \<open>Deserialize\<close>: an object by name, or an array by position, which may not be
  longer than the struct. A field with a default may be missing.\<close>

definition struct_fields :: "string list \<Rightarrow> json \<Rightarrow> (string \<Rightarrow> json option) option" where
  "struct_fields names v =
     (case v of
        JObj m \<Rightarrow> Some (bt_get m)
      | JArr xs \<Rightarrow>
          if length xs > length names then None
          else Some (\<lambda>k. opt_bind (list_position ((=) k) names) (\<lambda>i. if i < length xs then Some (xs ! i) else None))
      | _ \<Rightarrow> None)"

definition required_field :: "(string \<Rightarrow> json option) \<Rightarrow> string \<Rightarrow> (json \<Rightarrow> 'a option) \<Rightarrow> 'a option" where
  "required_field fs k f = opt_bind (fs k) f"

definition defaulted :: "(string \<Rightarrow> json option) \<Rightarrow> string \<Rightarrow> (json \<Rightarrow> 'a option) \<Rightarrow> 'a \<Rightarrow> 'a option" where
  "defaulted fs k f d = (case fs k of None \<Rightarrow> Some d | Some v \<Rightarrow> f v)"

definition de_word :: "json \<Rightarrow> 'a::len word option" where
  "de_word v = opt_bind (as_u64 v) to_width"

definition lenient_u64 :: "json \<Rightarrow> u64 option" where
  "lenient_u64 v = opt_filter (\<lambda>n. n > 0)
     (case v of JNum n \<Rightarrow> num_u64 n | JStr t \<Rightarrow> parse_dec (trim t) | _ \<Rightarrow> None)"

record model_version =
  mv_vid :: u16
  mv_pid :: u16
  mv_software_version :: u64
  mv_software_version_string :: string
  mv_software_version_valid :: bool
  mv_ota_url :: string
  mv_firmware_information :: string
  mv_min_applicable :: u64
  mv_max_applicable :: u64
  mv_release_notes_url :: string
  mv_ota_file_size :: "u64 option"
  mv_ota_checksum :: string
  mv_ota_checksum_type :: u32

definition model_version_fields :: "string list" where
  "model_version_fields = [''vid'', ''pid'', ''softwareVersion'', ''softwareVersionString'', ''softwareVersionValid'',
     ''otaUrl'', ''firmwareInformation'', ''minApplicableSoftwareVersion'', ''maxApplicableSoftwareVersion'',
     ''releaseNotesUrl'', ''otaFileSize'', ''otaChecksum'', ''otaChecksumType'']"

definition de_model_version :: "json \<Rightarrow> model_version option" where
  "de_model_version v =
     opt_bind (struct_fields model_version_fields v) (\<lambda>fs.
     opt_bind (required_field fs ''vid'' de_word) (\<lambda>vid.
     opt_bind (required_field fs ''pid'' de_word) (\<lambda>pid.
     opt_bind (required_field fs ''softwareVersion'' as_u64) (\<lambda>ver.
     opt_bind (defaulted fs ''softwareVersionString'' as_str []) (\<lambda>ver_text.
     opt_bind (defaulted fs ''softwareVersionValid'' as_bool False) (\<lambda>valid.
     opt_bind (defaulted fs ''otaUrl'' as_str []) (\<lambda>url.
     opt_bind (defaulted fs ''firmwareInformation'' as_str []) (\<lambda>info.
     opt_bind (defaulted fs ''minApplicableSoftwareVersion'' as_u64 0) (\<lambda>low.
     opt_bind (defaulted fs ''maxApplicableSoftwareVersion'' as_u64 0) (\<lambda>high.
     opt_bind (defaulted fs ''releaseNotesUrl'' as_str []) (\<lambda>notes.
     opt_bind (defaulted fs ''otaFileSize'' (\<lambda>j. Some (lenient_u64 j)) None) (\<lambda>size.
     opt_bind (defaulted fs ''otaChecksum'' as_str []) (\<lambda>sum.
     opt_bind (defaulted fs ''otaChecksumType'' de_word 0) (\<lambda>kind.
     Some \<lparr>mv_vid = vid, mv_pid = pid, mv_software_version = ver, mv_software_version_string = ver_text,
           mv_software_version_valid = valid, mv_ota_url = url, mv_firmware_information = info,
           mv_min_applicable = low, mv_max_applicable = high, mv_release_notes_url = notes,
           mv_ota_file_size = size, mv_ota_checksum = sum, mv_ota_checksum_type = kind\<rparr>))))))))))))))"

definition de_wrapped :: "string \<Rightarrow> (json \<Rightarrow> 'a option) \<Rightarrow> json \<Rightarrow> 'a option" where
  "de_wrapped name f v = opt_bind (struct_fields [name] v) (\<lambda>fs. required_field fs name f)"

definition de_versions :: "json \<Rightarrow> u64 list option" where
  "de_versions = de_wrapped ''modelVersions'' (\<lambda>v. opt_bind (struct_fields [''softwareVersions''] v) (\<lambda>fs.
     defaulted fs ''softwareVersions'' (\<lambda>a. opt_bind (as_array a) (collect_opt as_u64)) []))"

definition de_vendor :: "json \<Rightarrow> string option" where
  "de_vendor = de_wrapped ''vendorInfo'' (\<lambda>v. opt_bind (struct_fields [''vendorName''] v) (\<lambda>fs.
     defaulted fs ''vendorName'' as_str []))"

subsection \<open>What a version is worth\<close>

record published_image =
  pi_version :: software_version
  pi_url :: string
  pi_size :: "u64 option"
  pi_sha256 :: bytes

definition decode_digest :: "(string \<Rightarrow> bytes option) \<Rightarrow> string \<Rightarrow> bytes option" where
  "decode_digest b64 s =
     (let t = trim s in
      case opt_filter (\<lambda>b. length b = 32) (b64 t) of
        Some digest \<Rightarrow> Some digest
      | None \<Rightarrow> if length t \<noteq> 64 \<or> \<not> is_ascii t then None else collect_opt parse_hex_byte (pairs t))"

definition applies_to :: "model_version \<Rightarrow> u64 \<Rightarrow> bool" where
  "applies_to m current = (mv_software_version_valid m \<and> mv_software_version m > current
     \<and> mv_min_applicable m \<le> current \<and> mv_max_applicable m \<ge> current \<and> mv_ota_url m \<noteq> [])"

definition nonempty :: "string \<Rightarrow> string option" where
  "nonempty s = (if s = [] then None else Some s)"

definition into_wire :: "update_source \<Rightarrow> model_version \<Rightarrow> software_version" where
  "into_wire source m = \<lparr>sv_vid = mv_vid m, sv_pid = mv_pid m, sv_software_version = mv_software_version m,
     sv_software_version_string = (if mv_software_version_string m = [] then show_u (mv_software_version m)
                                   else mv_software_version_string m),
     sv_firmware_information = nonempty (mv_firmware_information m),
     sv_min_applicable = mv_min_applicable m, sv_max_applicable = mv_max_applicable m,
     sv_release_notes_url = nonempty (mv_release_notes_url m), sv_update_source = source\<rparr>"

definition image_of_version ::
  "(string \<Rightarrow> bytes option) \<Rightarrow> update_source \<Rightarrow> model_version \<Rightarrow> api_error + published_image option" where
  "image_of_version b64 source m =
     (if mv_ota_url m = [] then Inr None
      else if mv_ota_checksum_type m \<noteq> checksum_sha256 then
        Inl (err_update (''The ledger publishes version '' @ show_u (mv_software_version m) @ '' with checksum type ''
          @ show_u (mv_ota_checksum_type m)
          @ '', and only SHA-256 (type 1) can be verified here; refusing to serve an unverified image''))
      else map_res (\<lambda>digest. Some \<lparr>pi_version = into_wire source m, pi_url = mv_ota_url m,
                                   pi_size = mv_ota_file_size m, pi_sha256 = digest\<rparr>)
        (ok_or (err_update (''The ledger's checksum for version '' @ show_u (mv_software_version m)
            @ '' is not a SHA-256 digest; refusing to serve an unverified image''))
          (decode_digest b64 (mv_ota_checksum m))))"

subsection \<open>Asking the ledger\<close>

text \<open>One GET: \<open>absent\<close> is what a 404 means, \<open>registry\<close> what the messages call the ledger.\<close>

definition ask_ledger ::
  "ledger_http \<Rightarrow> (string \<Rightarrow> api_error) \<Rightarrow> string \<Rightarrow> (json \<Rightarrow> 'a option) \<Rightarrow> 'a \<Rightarrow> string \<Rightarrow> api_error + 'a" where
  "ask_ledger L err registry de absent url =
     (let unreadable = (\<lambda>e. err (''The '' @ registry @ '' replied unreadably: '' @ e));
          unreachable = (\<lambda>e. err (''Could not reach the '' @ registry @ '': '' @ e)) in
      case lh_get L url of
        LedgerBody (Inl e) \<Rightarrow> Inl (unreadable e)
      | LedgerBody (Inr v) \<Rightarrow> ok_or (unreadable (lh_mismatch L v)) (de v)
      | LedgerStatus status e \<Rightarrow> if status = 404 then Inr absent else Inl (unreachable e)
      | LedgerFailure e \<Rightarrow> Inl (unreachable e))"

record dcl_cache_entry =
  ce_vid :: u16
  ce_pid :: u16
  ce_current_version :: u64
  ce_fetched_at :: nat
  ce_result :: "software_version option"

record vendor_entry =
  ve_vendor_id :: u16
  ve_fetched_at :: nat
  ve_name :: "string option"

record dcl_client =
  dc_base_url :: string
  dc_source :: update_source
  dc_cache :: "dcl_cache_entry list"
  dc_vendors :: "vendor_entry list"

definition dcl_new :: "string \<Rightarrow> update_source \<Rightarrow> dcl_client" where
  "dcl_new url source = \<lparr>dc_base_url = url, dc_source = source, dc_cache = [], dc_vendors = []\<rparr>"

definition main_net :: dcl_client where "main_net = dcl_new main_net_url MainNetDcl"
definition test_net :: dcl_client where "test_net = dcl_new test_net_url TestNetDcl"

definition software_versions :: "ledger_http \<Rightarrow> dcl_client \<Rightarrow> u16 \<Rightarrow> u16 \<Rightarrow> api_error + u64 list" where
  "software_versions L c vid pid = ask_ledger L err_update_check ''update registry'' de_versions []
     (dc_base_url c @ ''/dcl/model/versions/'' @ show_u vid @ ''/'' @ show_u pid)"

definition model_version_of ::
  "ledger_http \<Rightarrow> dcl_client \<Rightarrow> u16 \<Rightarrow> u16 \<Rightarrow> u64 \<Rightarrow> api_error + model_version option" where
  "model_version_of L c vid pid ver = ask_ledger L err_update_check ''update registry''
     (\<lambda>v. map_option Some (de_wrapped ''modelVersion'' de_model_version v)) None
     (dc_base_url c @ ''/dcl/model/versions/'' @ show_u vid @ ''/'' @ show_u pid @ ''/'' @ show_u ver)"

fun first_applicable ::
  "ledger_http \<Rightarrow> dcl_client \<Rightarrow> u16 \<Rightarrow> u16 \<Rightarrow> u64 \<Rightarrow> u64 list \<Rightarrow> api_error + software_version option" where
  "first_applicable L c vid pid current [] = Inr None"
| "first_applicable L c vid pid current (v # vs) =
     bind_res (model_version_of L c vid pid v) (\<lambda>found.
       case found of
         Some m \<Rightarrow> if applies_to m current then Inr (Some (into_wire (dc_source c) m))
                   else first_applicable L c vid pid current vs
       | None \<Rightarrow> first_applicable L c vid pid current vs)"

definition fetch_update ::
  "ledger_http \<Rightarrow> dcl_client \<Rightarrow> u16 \<Rightarrow> u16 \<Rightarrow> u64 \<Rightarrow> api_error + software_version option" where
  "fetch_update L c vid pid current = bind_res (software_versions L c vid pid) (\<lambda>vs.
     first_applicable L c vid pid current (rev (sort (filter (\<lambda>v. v > current) vs))))"

definition same_key :: "u16 \<Rightarrow> u16 \<Rightarrow> u64 \<Rightarrow> dcl_cache_entry \<Rightarrow> bool" where
  "same_key vid pid current e = (ce_vid e = vid \<and> ce_pid e = pid \<and> ce_current_version e = current)"

definition cached_update ::
  "nat \<Rightarrow> u16 \<Rightarrow> u16 \<Rightarrow> u64 \<Rightarrow> dcl_client \<Rightarrow> dcl_client \<times> software_version option option" where
  "cached_update now vid pid current c =
     (let live = filter (\<lambda>e. now - ce_fetched_at e < cache_ttl) (dc_cache c)
      in (c\<lparr>dc_cache := live\<rparr>, map_option ce_result (find (same_key vid pid current) live)))"

definition store_update ::
  "nat \<Rightarrow> u16 \<Rightarrow> u16 \<Rightarrow> u64 \<Rightarrow> software_version option \<Rightarrow> dcl_client \<Rightarrow> dcl_client" where
  "store_update now vid pid current r c = c\<lparr>dc_cache := filter (\<lambda>e. \<not> same_key vid pid current e) (dc_cache c)
     @ [\<lparr>ce_vid = vid, ce_pid = pid, ce_current_version = current, ce_fetched_at = now, ce_result = r\<rparr>]\<rparr>"

text \<open>\<open>now\<close> is the instant of the lookup, \<open>later\<close> that of the entry made after the ledger answered.\<close>

definition check_update ::
  "ledger_http \<Rightarrow> nat \<Rightarrow> nat \<Rightarrow> u16 \<Rightarrow> u16 \<Rightarrow> u64 \<Rightarrow> dcl_client
   \<Rightarrow> dcl_client \<times> (api_error + software_version option)" where
  "check_update L now later vid pid current c =
     (case cached_update now vid pid current c of
        (c1, Some r) \<Rightarrow> (c1, Inr r)
      | (c1, None) \<Rightarrow>
          (case fetch_update L c1 vid pid current of
             Inl e \<Rightarrow> (c1, Inl e)
           | Inr r \<Rightarrow> (store_update later vid pid current r c1, Inr r)))"

definition published_image_of ::
  "ledger_http \<Rightarrow> dcl_client \<Rightarrow> u16 \<Rightarrow> u16 \<Rightarrow> u64 \<Rightarrow> u64 \<Rightarrow> api_error + published_image option" where
  "published_image_of L c vid pid ver current = bind_res (model_version_of L c vid pid ver) (\<lambda>found.
     case found of
       None \<Rightarrow> Inr None
     | Some m \<Rightarrow> if \<not> applies_to m current then Inr None
                 else image_of_version (lh_base64 L) (dc_source c) m)"

subsection \<open>Vendors\<close>

definition fetch_vendor_name :: "ledger_http \<Rightarrow> dcl_client \<Rightarrow> u16 \<Rightarrow> api_error + string option" where
  "fetch_vendor_name L c vendor = ask_ledger L err_sdk ''vendor registry''
     (\<lambda>v. map_option nonempty (de_vendor v)) None
     (dc_base_url c @ ''/dcl/vendorinfo/vendors/'' @ show_u vendor)"

definition cached_vendor :: "nat \<Rightarrow> u16 \<Rightarrow> dcl_client \<Rightarrow> dcl_client \<times> string option option" where
  "cached_vendor now vendor c =
     (let live = filter (\<lambda>e. now - ve_fetched_at e < cache_ttl) (dc_vendors c)
      in (c\<lparr>dc_vendors := live\<rparr>, map_option ve_name (find (\<lambda>e. ve_vendor_id e = vendor) live)))"

definition ledger_vendor_name :: "ledger_http \<Rightarrow> nat \<Rightarrow> nat \<Rightarrow> u16 \<Rightarrow> dcl_client \<Rightarrow> dcl_client \<times> string option" where
  "ledger_vendor_name L now later vendor c =
     (case cached_vendor now vendor c of
        (c1, Some name) \<Rightarrow> (c1, name)
      | (c1, None) \<Rightarrow>
          (case fetch_vendor_name L c1 vendor of
             Inl _ \<Rightarrow> (c1, None)
           | Inr name \<Rightarrow>
               (c1\<lparr>dc_vendors := filter (\<lambda>e. ve_vendor_id e \<noteq> vendor) (dc_vendors c1)
                   @ [\<lparr>ve_vendor_id = vendor, ve_fetched_at = later, ve_name = name\<rparr>]\<rparr>, name)))"

subsection \<open>Fetching an image\<close>

text \<open>Reading stops one byte past the limit; a transfer that breaks off before that is an error.\<close>

definition read_limited :: "nat \<Rightarrow> bytes \<Rightarrow> string option \<Rightarrow> string + bytes" where
  "read_limited limit body broken =
     (if length body \<ge> min (limit + 1) u64_max then Inr (take (min (limit + 1) u64_max) body)
      else case broken of Some e \<Rightarrow> Inl e | None \<Rightarrow> Inr body)"

definition download_image :: "ledger_http \<Rightarrow> published_image \<Rightarrow> nat \<Rightarrow> api_error + bytes" where
  "download_image L i max_size =
     (case opt_filter (\<lambda>size. unat size > max_size) (pi_size i) of
        Some given \<Rightarrow> Inl (err_update (''The ledger says the image is '' @ show_u given
          @ '' bytes, above this server's '' @ show_nat max_size @ '' byte limit''))
      | None \<Rightarrow>
          (case lh_image L (pi_url i) of
             ImageFailure e \<Rightarrow> Inl (err_update (''Could not fetch the image from '' @ pi_url i @ '': '' @ e))
           | ImageBody body broken \<Rightarrow>
               bind_res (map_err (\<lambda>e. err_update (''The image could not be read from '' @ pi_url i @ '': '' @ e))
                           (read_limited max_size body broken)) (\<lambda>b.
                 if length b > max_size then
                   Inl (err_update (''The image from '' @ pi_url i @ '' is larger than this server's ''
                     @ show_nat max_size @ '' byte limit''))
                 else case opt_filter (\<lambda>size. length b \<noteq> unat size) (pi_size i) of
                   Some given \<Rightarrow> Inl (err_update (''The image from '' @ pi_url i @ '' is '' @ show_nat (length b)
                     @ '' bytes, but the ledger says '' @ show_u given))
                 | None \<Rightarrow>
                     if lh_sha256 L b \<noteq> pi_sha256 i then
                       Inl (err_update (''The image from '' @ pi_url i
                         @ '' does not match the digest the ledger publishes; refusing to serve it''))
                     else Inr b)))"

subsection \<open>The newest version that applies\<close>

definition not_for :: "u64 \<Rightarrow> model_version option \<Rightarrow> bool" where
  "not_for current found = (case found of None \<Rightarrow> True | Some m \<Rightarrow> \<not> applies_to m current)"

definition passed_over :: "ledger_http \<Rightarrow> dcl_client \<Rightarrow> u16 \<Rightarrow> u16 \<Rightarrow> u64 \<Rightarrow> u64 \<Rightarrow> bool" where
  "passed_over L c vid pid current v =
     (case model_version_of L c vid pid v of Inl _ \<Rightarrow> False | Inr found \<Rightarrow> not_for current found)"

lemma first_applicable_Some:
  assumes "first_applicable L c vid pid current vs = Inr (Some w)"
  shows "\<exists>us v rest m. vs = us @ v # rest \<and> list_all (passed_over L c vid pid current) us
    \<and> model_version_of L c vid pid v = Inr (Some m) \<and> applies_to m current \<and> w = into_wire (dc_source c) m"
  using assms
proof (induction vs)
  case (Cons v vs)
  obtain found where f: "model_version_of L c vid pid v = Inr found"
    using Cons.prems by (auto simp: res_simps)
  show ?case
  proof (cases "not_for current found")
    case True
    then have "first_applicable L c vid pid current vs = Inr (Some w)" and "passed_over L c vid pid current v"
      using Cons.prems f by (auto simp: not_for_def passed_over_def split: option.splits)
    then show ?thesis using Cons.IH by (metis append_Cons list.pred_inject(2))
  next
    case False
    then obtain m where "found = Some m" "applies_to m current" by (auto simp: not_for_def split: option.splits)
    then show ?thesis using Cons.prems f by (intro exI [of _ "[]"]) auto
  qed
qed simp

lemma first_applicable_None:
  "first_applicable L c vid pid current vs = Inr None \<Longrightarrow> list_all (passed_over L c vid pid current) vs"
  by (induction vs) (auto simp: res_simps passed_over_def not_for_def split: option.splits if_splits)

lemma sorted_split_greater:
  assumes "rev (sort xs) = us @ v # rest" and "x \<in> set xs" and "x > (v :: 'a::linorder)"
  shows "x \<in> set us"
proof -
  have "sorted_wrt (\<ge>) (us @ v # rest)"
    using sorted_sort [of xs] assms(1) by (metis sorted_wrt_rev rev_rev_ident)
  moreover have "x \<in> set (us @ v # rest)" using assms(1,2) by (metis set_rev set_sort)
  ultimately show ?thesis using assms(3) by (auto simp: sorted_wrt_append)
qed

text \<open>C26: The update reported for a product is the newest listed version above the running one that applies: it
  is valid, its range includes the running version, it has an image, and every newer listed version is
  one the ledger does not have or one that does not apply. With none reported, none applies.\<close>
theorem update_is_newest_applicable:
  assumes "software_versions L c vid pid = Inr vs" and "fetch_update L c vid pid current = Inr r"
  shows "case r of
      None \<Rightarrow> list_all (\<lambda>v. v \<le> current \<or> passed_over L c vid pid current v) vs
    | Some w \<Rightarrow> \<exists>v m. v \<in> set vs \<and> v > current \<and> model_version_of L c vid pid v = Inr (Some m)
        \<and> applies_to m current \<and> w = into_wire (dc_source c) m
        \<and> list_all (\<lambda>x. x \<le> v \<or> passed_over L c vid pid current x) vs"
proof -
  let ?ds = "rev (sort (filter (\<lambda>v. v > current) vs))"
  have f: "first_applicable L c vid pid current ?ds = Inr r" using assms by (simp add: fetch_update_def)
  show ?thesis
  proof (cases r)
    case None
    then show ?thesis using first_applicable_None f by (fastforce simp: list_all_iff)
  next
    case (Some w)
    then obtain us v rest m where s: "?ds = us @ v # rest" and u: "list_all (passed_over L c vid pid current) us"
      and m: "model_version_of L c vid pid v = Inr (Some m)" "applies_to m current" "w = into_wire (dc_source c) m"
      using first_applicable_Some f by blast
    have "set ?ds = {x \<in> set vs. x > current}" by auto
    then have v: "v \<in> set vs" "v > current" using s by (auto simp: set_eq_iff)
    have "x \<in> set us" if "x \<in> set vs" "\<not> x \<le> v" for x
      using sorted_split_greater [OF s, of x] that v by simp
    then show ?thesis using Some m v u by (auto simp: list_all_iff)
  qed
qed

text \<open>A ledger that lists versions 3 and 4 of a product, of which 4 is withdrawn.\<close>

definition sample_version :: "u64 \<Rightarrow> bool \<Rightarrow> json" where
  "sample_version v valid = JObj [(''modelVersion'', JArr [ju64 1, ju64 2, ju64 v, JStr ''v'', JBool valid, JStr ''http://i'',
     JStr [], ju64 0, ju64 9])]"

definition sample_ledger :: ledger_http where
  "sample_ledger = \<lparr>lh_get = (\<lambda>url.
       if url = ''L/dcl/model/versions/1/2'' then
         LedgerBody (Inr (JObj [(''modelVersions'', JObj [(''softwareVersions'', JArr [ju64 3, ju64 4])])]))
       else if url = ''L/dcl/model/versions/1/2/3'' then LedgerBody (Inr (sample_version 3 True))
       else if url = ''L/dcl/model/versions/1/2/4'' then LedgerBody (Inr (sample_version 4 False))
       else LedgerStatus 404 ''not found''),
     lh_image = (\<lambda>_. ImageFailure ''down''), lh_mismatch = (\<lambda>_. ''mismatch''), lh_base64 = (\<lambda>_. None), lh_sha256 = id\<rparr>"

theorem update_is_newest_applicable_witness:
  "\<exists>w m. fetch_update sample_ledger (dcl_new ''L'' MainNetDcl) 1 2 2 = Inr (Some w)
     \<and> model_version_of sample_ledger (dcl_new ''L'' MainNetDcl) 1 2 3 = Inr (Some m) \<and> w = into_wire MainNetDcl m"
proof -
  let ?c = "dcl_new ''L'' MainNetDcl"
  have s: "show_u (1 :: u16) = ''1''" "show_u (2 :: u16) = ''2''" "show_u (3 :: u64) = ''3''" "show_u (4 :: u64) = ''4''"
    by code_simp+
  have vs: "software_versions sample_ledger ?c 1 2 = Inr [3, 4]"
    by (simp add: software_versions_def ask_ledger_def sample_ledger_def dcl_new_def s de_versions_def de_wrapped_def
        struct_fields_def required_field_def defaulted_def bt_get_def)
  note de = model_version_of_def ask_ledger_def sample_ledger_def dcl_new_def s sample_version_def de_wrapped_def
    struct_fields_def required_field_def defaulted_def bt_get_def de_model_version_def model_version_fields_def
    de_word_def to_width_def ju64_def
  obtain m where m: "model_version_of sample_ledger ?c 1 2 3 = Inr (Some m)" "applies_to m 2"
    by (simp add: de applies_to_def)
  obtain m4 where m4: "model_version_of sample_ledger ?c 1 2 4 = Inr (Some m4)" "\<not> applies_to m4 2"
    by (simp add: de applies_to_def)
  have f: "fetch_update sample_ledger ?c 1 2 2 = Inr (Some (into_wire MainNetDcl m))"
    using m m4 vs by (simp add: fetch_update_def) (simp add: dcl_new_def)
  show ?thesis using update_is_newest_applicable [OF vs f] f m(1) by auto
qed

subsection \<open>Images\<close>

lemma map_err_Inl: "map_err f r = Inl e \<longleftrightarrow> (\<exists>x. r = Inl x \<and> e = f x)"
  by (cases r) auto

text \<open>An image that is handed on is the one the ledger describes: it hashes to the ledger's digest, is no longer
  than the limit and exactly as long as the ledger says, when it says.\<close>
theorem downloaded_image_verified:
  "case download_image L i max_size of
     Inl e \<Rightarrow> err_code e = UpdateError
   | Inr b \<Rightarrow> lh_sha256 L b = pi_sha256 i \<and> length b \<le> max_size
       \<and> (case pi_size i of None \<Rightarrow> True | Some n \<Rightarrow> length b = unat n)"
proof (cases "download_image L i max_size")
  case (Inl e)
  then show ?thesis
    by (auto simp: download_image_def res_simps map_err_Inl split: option.splits image_answer.splits if_splits)
next
  case (Inr b)
  then show ?thesis
    by (auto simp: download_image_def res_simps opt_filter_def split: option.splits image_answer.splits if_splits)
qed

text \<open>A digest is read in either of its spellings: as base64 it is what base64 gives, when that has 32 bytes, and
  as 64 hex digits it is those bytes, when base64 has no reading of them of that length.\<close>
theorem digest_round_trip:
  assumes "length digest = 32"
    and "case b64 (to_hex_upper digest) of None \<Rightarrow> True | Some b \<Rightarrow> length b \<noteq> 32"
  shows "decode_digest b64 (to_hex_upper digest) = Some digest"
proof -
  have h: "list_all is_hexdigit (to_hex_upper digest)" by (rule to_hex_hexdigits)
  have a: "is_ascii (to_hex_upper digest)"
    using h by (auto simp: is_ascii_def list_all_iff is_hexdigit_def is_digit_def)
  have "\<not> is_whitespace [c]" if "is_hexdigit c" for c
    using that by (auto simp: is_whitespace_def is_hexdigit_def is_digit_def ascii_space_def byte_of_def
        dest: wide_space_length)
  then have w: "\<forall>g \<in> set (map (\<lambda>c. [c]) (to_hex_upper digest)). \<not> is_whitespace g"
    using h by (auto simp: list_all_iff)
  have d: "dropWhile is_whitespace gs = gs" if "\<forall>g \<in> set gs. \<not> is_whitespace g" for gs
    using that by (cases gs) auto
  have "trim (to_hex_upper digest) = concat (map (\<lambda>c. [c]) (to_hex_upper digest))"
    using d [OF w] d [of "rev (map (\<lambda>c. [c]) (to_hex_upper digest))"] w
    by (simp only: trim_def chars_ascii [OF a] trim_chars_def set_rev rev_rev_ident)
  then have "trim (to_hex_upper digest) = to_hex_upper digest" by simp
  then show ?thesis
    using assms a by (simp add: decode_digest_def Let_def collect_hex opt_filter_def split: option.splits)
qed

theorem digest_round_trip_witness:
  "decode_digest (\<lambda>_. None) (to_hex_upper (replicate 32 0xAB)) = Some (replicate 32 0xAB)"
  by (rule digest_round_trip) simp_all

text \<open>Whatever the ledger and the image server answer, an update fetched from the ledger leaves the registry as it
  was, or adds one image, whose bytes hash to the digest the ledger publishes for that product and version
  and whose own header names that product and version.\<close>
theorem served_image_is_the_ledgers:
  "case fetch_from_ledger ask (\<lambda>l v p ver cur. map_res (map_option (\<lambda>i. (pi_version i, i)))
            (published_image_of L (clients l) v p ver cur))
          (download_image L) decode_tlv n vid pid current requested s of
     (s', Inl e) \<Rightarrow> s' = s
   | (s', Inr meta) \<Rightarrow> \<exists>i body header l. srv_ota s' = ota_store \<lparr>si_version = meta, si_bytes = body\<rparr> (srv_ota s)
       \<and> published_image_of L (clients l) vid pid (sv_software_version header) current = Inr (Some i) \<and> meta = pi_version i
       \<and> lh_sha256 L body = pi_sha256 i \<and> length body \<le> max_upload_size
       \<and> parse_ota_header decode_tlv body = Inr header
       \<and> sv_vid header = vid \<and> sv_pid header = pid"
proof -
  have d: "lh_sha256 L b = pi_sha256 i \<and> length b \<le> m" if "download_image L i m = Inr b" for i b m
    using that by (auto simp: download_image_def res_simps opt_filter_def
        split: option.splits image_answer.splits if_splits)
  show ?thesis
    unfolding fetch_from_ledger_def
    by (auto simp: res_simps split: sum.split option.splits if_splits dest!: d) metis+
qed

subsection \<open>The cache\<close>

text \<open>What the cache holds is what the ledger answers.\<close>

definition truthful :: "ledger_http \<Rightarrow> dcl_client \<Rightarrow> bool" where
  "truthful L c = list_all (\<lambda>e. fetch_update L c (ce_vid e) (ce_pid e) (ce_current_version e) = Inr (ce_result e)) (dc_cache c)"

lemma fetch_ignores_cache:
  "fetch_update L (c\<lparr>dc_cache := x\<rparr>) vid pid current = fetch_update L c vid pid current"
proof -
  have m: "model_version_of L (c\<lparr>dc_cache := x\<rparr>) vid pid v = model_version_of L c vid pid v" for v
    by (simp add: model_version_of_def)
  have "first_applicable L (c\<lparr>dc_cache := x\<rparr>) vid pid current vs = first_applicable L c vid pid current vs" for vs
  proof (induction vs)
    case (Cons v vs)
    then show ?case by (cases "model_version_of L c vid pid v") (simp_all add: m split: option.split)
  qed simp
  then show ?thesis by (simp add: fetch_update_def software_versions_def)
qed

text \<open>C27: While the ledger's answers do not change, the cache does not show: a lookup gives what asking the ledger
  would give, errors included, and leaves a cache of which the same is true.\<close>
theorem cache_transparent:
  assumes "truthful L c"
  shows "snd (check_update L now later vid pid current c) = fetch_update L c vid pid current
    \<and> truthful L (fst (check_update L now later vid pid current c))"
proof -
  let ?live = "filter (\<lambda>e. now - ce_fetched_at e < cache_ttl) (dc_cache c)"
  have t: "truthful L (c\<lparr>dc_cache := ?live\<rparr>)"
    using assms by (auto simp: truthful_def list_all_iff fetch_ignores_cache)
  show ?thesis
  proof (cases "find (same_key vid pid current) ?live")
    case (Some e)
    then have "e \<in> set (dc_cache c)" and k: "same_key vid pid current e"
      using find_Some_D by fastforce+
    then have "fetch_update L c vid pid current = Inr (ce_result e)"
      using assms by (auto simp: truthful_def list_all_iff same_key_def)
    then show ?thesis using Some t by (simp add: check_update_def cached_update_def)
  next
    case None
    then show ?thesis using t
      by (cases "fetch_update L c vid pid current")
         (auto simp: check_update_def cached_update_def store_update_def fetch_ignores_cache truthful_def list_all_iff)
  qed
qed

theorem cache_transparent_witness:
  "snd (check_update sample_ledger 0 5 1 2 2 (dcl_new ''L'' MainNetDcl)) = fetch_update sample_ledger (dcl_new ''L'' MainNetDcl) 1 2 2"
proof -
  have t: "truthful sample_ledger (dcl_new ''L'' MainNetDcl)" by (simp add: truthful_def dcl_new_def)
  show ?thesis using cache_transparent [OF t] by blast
qed

end
