(* ===== verification/Device_Commissioning.thy ===== *)
theory Device_Commissioning
  imports Im_Client
begin

section \<open>Commissioning one device (\<open>matter/commissioning.rs\<close>, \<open>spake2p_verifier.rs\<close>, \<open>ble.rs\<close>)\<close>

text \<open>
  Pairing codes, the flow against a device at a known address, the network a device without one
  is told to join, the PAKE verifier of an enhanced commissioning window and the Bluetooth
  adapter. What rs-matter answers (payload parsers, commissioner, exchanges, cryptography, the
  Bluetooth backend) are arguments; an error of it is its code.
\<close>

subsection \<open>Pairing codes\<close>

record commissionable_filter =
  cf_discriminator :: "u16 option"
  cf_short_discriminator :: "u8 option"
  cf_vendor_id :: "u16 option"
  cf_product_id :: "u16 option"
  cf_device_type :: "u32 option"
  cf_commissioning_mode_only :: bool

definition filter_default :: commissionable_filter where
  "filter_default = \<lparr>cf_discriminator = None, cf_short_discriminator = None, cf_vendor_id = None,
     cf_product_id = None, cf_device_type = None, cf_commissioning_mode_only = False\<rparr>"

record pairing_info =
  pi_passcode :: u32
  pi_filter :: commissionable_filter

text \<open>rs-matter's parsers: of a QR payload and of the digits of a manual code.\<close>

record pairing_lib =
  pl_qr :: "string \<Rightarrow> rs_code + pairing_info"
  pl_manual :: "string \<Rightarrow> rs_code + pairing_info"

definition code_digits :: "string \<Rightarrow> string" where
  "code_digits code = filter is_digit code"

definition code_symbols :: "string \<Rightarrow> string list" where
  "code_symbols code = filter (\<lambda>c. c \<noteq> ''-'' \<and> c \<noteq> '' '') (chars code)"

definition parse_pairing_code :: "pairing_lib \<Rightarrow> string \<Rightarrow> api_error + pairing_info" where
  "parse_pairing_code lib text_code =
     (let code = trim text_code in
      if code = [] then Inl (err_invalid_args ''Missing code'')
      else case strip_prefix ''MT:'' code of
        Some _ \<Rightarrow> map_err (\<lambda>c. err_invalid_args (''Invalid QR pairing code: '' @ code_debug c)) (pl_qr lib code)
      | None \<Rightarrow>
          (let digits = code_digits code in
           if length digits \<noteq> length (code_symbols code)
           then Inl (err_invalid_args (''Unrecognized pairing code format: '' @ code))
           else map_err (\<lambda>c. err_invalid_args (''Invalid manual pairing code: '' @ code_debug c))
             (pl_manual lib digits)))"

subsection \<open>The network a device is told to join\<close>

record wifi_secret =
  wk_ssid :: string
  wk_password :: string

record thread_secret =
  tk_dataset :: bytes
  tk_ext_pan_id :: bytes

record network_credentials =
  nc_wifi :: "wifi_secret option"
  nc_thread :: "thread_secret option"

definition credentials_empty :: "network_credentials \<Rightarrow> bool" where
  "credentials_empty c = (nc_wifi c = None \<and> nc_thread c = None)"

datatype network_status =
    NetSuccess | NetOutOfRange | NetBoundsExceeded | NetIdNotFound | NetNotFound | NetRegulatoryError
  | NetAuthFailure | NetUnsupportedSecurity | NetIpv6Failed | NetOther string

fun network_status_debug :: "network_status \<Rightarrow> string" where
  "network_status_debug NetSuccess = ''Success''"
| "network_status_debug NetOutOfRange = ''OutOfRange''"
| "network_status_debug NetBoundsExceeded = ''BoundsExceeded''"
| "network_status_debug NetIdNotFound = ''NetworkIDNotFound''"
| "network_status_debug NetNotFound = ''NetworkNotFound''"
| "network_status_debug NetRegulatoryError = ''RegulatoryError''"
| "network_status_debug NetAuthFailure = ''AuthFailure''"
| "network_status_debug NetUnsupportedSecurity = ''UnsupportedSecurity''"
| "network_status_debug NetIpv6Failed = ''IPV6Failed''"
| "network_status_debug (NetOther name) = name"

fun status_explanation :: "network_status \<Rightarrow> string" where
  "status_explanation NetAuthFailure = ''the credentials stored on this server were rejected''"
| "status_explanation NetNotFound = ''the device cannot see that network from where it is''"
| "status_explanation NetIdNotFound = ''the device has no network configured under that id''"
| "status_explanation NetUnsupportedSecurity = ''the network's security mode is not one the device supports''"
| "status_explanation NetRegulatoryError = ''the device rejected the network on regulatory grounds''"
| "status_explanation NetIpv6Failed = ''the device joined the network but could not bring up IPv6, which Matter needs''"
| "status_explanation NetOutOfRange = ''the device rejected a value as out of range''"
| "status_explanation NetBoundsExceeded = ''the device rejected a value as out of range''"
| "status_explanation _ = ''the device rejected it''"

definition check_network_status :: "network_status option \<Rightarrow> string \<Rightarrow> api_error + unit" where
  "check_network_status status command =
     (case status of
        None \<Rightarrow> Inl (err_commission_failed (command @ '' returned a response that could not be decoded''))
      | Some st \<Rightarrow>
          if st = NetSuccess then Inr ()
          else Inl (err_commission_failed (command @ '' was refused: '' @ status_explanation st
            @ '' ('' @ network_status_debug st @ '')'')))"

text \<open>The commands sent to the device's network commissioning cluster, and what the device does
  with one: whether the exchange opens, and the status its response decodes to.\<close>

datatype network_command =
    AddOrUpdateWiFi bytes bytes
  | AddOrUpdateThread bytes
  | JoinNetwork bytes

record network_features =
  nf_wifi :: bool
  nf_thread :: bool
  nf_ethernet :: bool
  nf_debug :: string

record network_device =
  dv_exchange :: "nat \<Rightarrow> rs_code + unit"
  dv_features :: "rs_code + network_features"
  dv_command :: "network_command \<Rightarrow> rs_code + network_status option"

definition pase_exchange :: "network_device \<Rightarrow> nat \<Rightarrow> api_error + unit" where
  "pase_exchange d i = map_err (\<lambda>c. err_commission_failed
     (''Could not open an exchange on the PASE session: '' @ code_debug c)) (dv_exchange d i)"

text \<open>One command on the \<open>i\<close>-th exchange: what was sent, and the verdict.\<close>

type_synonym network_run = "network_command list \<times> (api_error + unit)"

definition send_command :: "network_device \<Rightarrow> nat \<Rightarrow> string \<Rightarrow> network_command \<Rightarrow> network_run" where
  "send_command d i name command =
     (case pase_exchange d i of
        Inl e \<Rightarrow> ([], Inl e)
      | Inr _ \<Rightarrow>
          ([command],
           bind_res (map_err (\<lambda>c. err_commission_failed (name @ '' failed: '' @ code_debug c)) (dv_command d command))
             (\<lambda>status. check_network_status status name)))"

definition run_then :: "network_run \<Rightarrow> network_run \<Rightarrow> network_run" where
  "run_then r k =
     (case r of
        (sent, Inl e) \<Rightarrow> (sent, Inl e)
      | (sent, Inr _) \<Rightarrow> (case k of (more_sent, verdict) \<Rightarrow> (sent @ more_sent, verdict)))"

definition connect_network :: "network_device \<Rightarrow> nat \<Rightarrow> bytes \<Rightarrow> network_run" where
  "connect_network d i network_id = send_command d i ''ConnectNetwork'' (JoinNetwork network_id)"

definition held_credentials :: "network_credentials \<Rightarrow> string" where
  "held_credentials c =
     (case (nc_wifi c, nc_thread c) of
        (Some _, Some _) \<Rightarrow> ''both Wi-Fi and Thread''
      | (Some _, None) \<Rightarrow> ''Wi-Fi only''
      | (None, Some _) \<Rightarrow> ''Thread only''
      | (None, None) \<Rightarrow> ''none'')"

definition no_usable_credentials :: "network_features \<Rightarrow> network_credentials \<Rightarrow> api_error" where
  "no_usable_credentials fs c = err_commission_failed
     (''No usable credentials for this device. It supports '' @ nf_debug fs @ '', and this server has ''
      @ held_credentials c
      @ ''. Store matching credentials with `set_wifi_credentials` or `set_thread_dataset`.'')"

definition provision_network :: "network_device \<Rightarrow> network_credentials \<Rightarrow> network_run" where
  "provision_network d c =
     (case bind_res (pase_exchange d 0) (\<lambda>_.
             map_err (\<lambda>e. err_commission_failed
               (''Could not read the device's NetworkCommissioning features: '' @ code_debug e)) (dv_features d)) of
        Inl e \<Rightarrow> ([], Inl e)
      | Inr fs \<Rightarrow>
          (case (if nf_wifi fs then nc_wifi c else None) of
             Some wifi \<Rightarrow>
               run_then (send_command d 1 ''AddOrUpdateWiFiNetwork''
                   (AddOrUpdateWiFi (bytes_of_str (wk_ssid wifi)) (bytes_of_str (wk_password wifi))))
                 (connect_network d 2 (bytes_of_str (wk_ssid wifi)))
           | None \<Rightarrow>
               (case (if nf_thread fs then nc_thread c else None) of
                  Some thread \<Rightarrow>
                    run_then (send_command d 1 ''AddOrUpdateThreadNetwork'' (AddOrUpdateThread (tk_dataset thread)))
                      (connect_network d 2 (tk_ext_pan_id thread))
                | None \<Rightarrow>
                    if nf_ethernet fs \<and> \<not> (nf_wifi fs \<or> nf_thread fs) then ([], Inr ())
                    else ([], Inl (no_usable_credentials fs c)))))"

subsection \<open>The flow at a known address\<close>

text \<open>What the commissioner answers at each step; the first phase gives the node id and the
  fabric index on the device.\<close>

record commissioner =
  cm_fabric_index :: "u8 option"
  cm_noc :: "rs_code + unit"
  cm_phase1 :: "u32 \<Rightarrow> u64 \<Rightarrow> rs_code + (u64 \<times> u8)"
  cm_network :: network_device
  cm_case :: "rs_code + unit"

record commission_outcome =
  co_node_id :: u64
  co_device_fabric_index :: u8

definition commission_at_address ::
  "commissioner \<Rightarrow> u32 \<Rightarrow> u64 \<Rightarrow> network_credentials option
   \<Rightarrow> network_command list \<times> (api_error + commission_outcome)" where
  "commission_at_address cm passcode node_id credentials =
     (case bind_res (ok_or (err_sdk ''No fabric is installed on the controller'') (cm_fabric_index cm)) (\<lambda>_.
           bind_res (map_err (\<lambda>c. err_sdk (''Failed to prepare NOC issuance: '' @ code_debug c)) (cm_noc cm)) (\<lambda>_.
             map_err (\<lambda>c. err_commission_failed (''Commissioning failed: '' @ code_debug c))
               (cm_phase1 cm passcode node_id))) of
        Inl e \<Rightarrow> ([], Inl e)
      | Inr (device_node, index) \<Rightarrow>
          (case (case credentials of None \<Rightarrow> ([], Inr ()) | Some c \<Rightarrow> provision_network (cm_network cm) c) of
             (sent, Inl e) \<Rightarrow> (sent, Inl e)
           | (sent, Inr _) \<Rightarrow>
               (sent, map_res (\<lambda>_. \<lparr>co_node_id = device_node, co_device_fabric_index = index\<rparr>)
                  (map_err (\<lambda>c. err_commission_failed
                     (''Commissioning could not be completed over CASE: '' @ code_debug c)) (cm_case cm)))))"

subsection \<open>The PAKE verifier\<close>

definition default_iterations :: u32 where "default_iterations = 1000"
definition min_salt_len :: nat where "min_salt_len = 16"
definition max_salt_len :: nat where "max_salt_len = 32"
definition scalar_len :: nat where "scalar_len = 32"
definition point_len :: nat where "point_len = 65"
definition verifier_len :: nat where "verifier_len = scalar_len + point_len"

definition le32 :: "u32 \<Rightarrow> bytes" where
  "le32 w = [of_nat (unat w mod 256), of_nat (unat w div 256 mod 256),
     of_nat (unat w div 65536 mod 256), of_nat (unat w div 16777216)]"

text \<open>The primitives: scalars and points are the library's.\<close>

record ('s, 'p) pake_crypto =
  pk_pbkdf :: "rs_code + unit"
  pk_derive :: "bytes \<Rightarrow> nat \<Rightarrow> bytes \<Rightarrow> rs_code + bytes"
  pk_mod_p :: "bytes \<Rightarrow> rs_code + 's"
  pk_generator :: "rs_code + 'p"
  pk_mul :: "'p \<Rightarrow> 's \<Rightarrow> rs_code + 'p"
  pk_scalar_canon :: "'s \<Rightarrow> rs_code + bytes"
  pk_point_canon :: "'p \<Rightarrow> rs_code + bytes"

definition pake_step :: "string \<Rightarrow> rs_code + 'a \<Rightarrow> api_error + 'a" where
  "pake_step place = map_err (\<lambda>c. err_sdk (place @ '': '' @ code_debug c))"

definition pake_secrets :: "('s, 'p) pake_crypto \<Rightarrow> u32 \<Rightarrow> bytes \<Rightarrow> u32 \<Rightarrow> api_error + ('s \<times> 's)" where
  "pake_secrets cr passcode salt iterations =
     bind_res (pake_step ''PBKDF2 unavailable'' (pk_pbkdf cr)) (\<lambda>_.
     bind_res (pake_step ''PBKDF2 failed'' (pk_derive cr (le32 passcode) (unat iterations) salt)) (\<lambda>w.
     bind_res (pake_step ''w0 reduction failed'' (pk_mod_p cr (take 40 w))) (\<lambda>w0.
     map_res (Pair w0) (pake_step ''w1 reduction failed'' (pk_mod_p cr (drop 40 w))))))"

definition compute_verifier :: "('s, 'p) pake_crypto \<Rightarrow> u32 \<Rightarrow> bytes \<Rightarrow> u32 \<Rightarrow> api_error + bytes" where
  "compute_verifier cr passcode salt iterations =
     (if \<not> (min_salt_len \<le> length salt \<and> length salt \<le> max_salt_len)
      then Inl (err_invalid_args (''PAKE salt must be '' @ show_nat min_salt_len @ ''..='' @ show_nat max_salt_len @ '' bytes''))
      else if iterations < default_iterations
      then Inl (err_invalid_args (''PAKE iteration count must be at least '' @ show_u default_iterations))
      else
        bind_res (pake_secrets cr passcode salt iterations) (\<lambda>(w0, w1).
        bind_res (pake_step ''generator unavailable'' (pk_generator cr)) (\<lambda>g.
        bind_res (pake_step ''L computation failed'' (pk_mul cr g w1)) (\<lambda>l_point.
        bind_res (pake_step ''w0 encoding failed'' (pk_scalar_canon cr w0)) (\<lambda>w0_canon.
          map_res (\<lambda>l_canon. w0_canon @ l_canon) (pake_step ''L encoding failed'' (pk_point_canon cr l_point)))))))"

subsection \<open>The Bluetooth adapter\<close>

text \<open>\<open>open\<close> fails with the bus error's text; an address is the text it prints as.\<close>

definition ble_open :: "string + unit \<Rightarrow> api_error + unit" where
  "ble_open bus = map_err (\<lambda>error. err_sdk (''Cannot reach BlueZ on the system D-Bus bus: '' @ error
     @ ''. Bluetooth commissioning needs bluetoothd running and the bus socket readable.'')) bus"

text \<open>The interfaces of the objects BlueZ manages, when the bus and the manager answer.\<close>

definition adapter_present :: "string list list option \<Rightarrow> bool" where
  "adapter_present objects =
     (case objects of
        None \<Rightarrow> False
      | Some interfaces \<Rightarrow> list_ex (list_ex (\<lambda>i. i = ''org.bluez.Adapter1'')) interfaces)"

definition ble_scan :: "rs_code + string \<Rightarrow> u16 \<Rightarrow> api_error + string" where
  "ble_scan found timeout_secs = map_err (\<lambda>c. err_commission_failed
     (''No commissionable device was found over Bluetooth within '' @ show_u timeout_secs @ ''s ('' @ code_debug c
      @ ''). A factory-fresh device advertises for about 15 minutes after a reset.'')) found"

definition ble_pump :: "string \<Rightarrow> rs_code + unit \<Rightarrow> api_error + unit" where
  "ble_pump addr link = map_err (\<lambda>c. err_commission_failed
     (''The Bluetooth connection to '' @ addr @ '' failed: '' @ code_debug c)) link"

subsection \<open>Laws\<close>

lemma send_command_ok:
  "send_command d i name command = (sent, Inr u) \<longleftrightarrow>
     dv_exchange d i = Inr () \<and> dv_command d command = Inr (Some NetSuccess) \<and> sent = [command]"
  by (cases "dv_exchange d i"; cases "dv_command d command")
     (auto simp: send_command_def pase_exchange_def check_network_status_def res_simps split: option.splits if_splits)

lemma run_then_ok:
  "run_then r k = (sent, Inr u) \<longleftrightarrow>
     (\<exists>s1 s2. r = (s1, Inr ()) \<and> k = (s2, Inr u) \<and> sent = s1 @ s2)"
  by (cases r; cases "snd r"; cases k) (auto simp: run_then_def)

text \<open>The commands that put a device on a network: those of the kind it supports, with the stored
  credentials, each of them accepted.\<close>

definition joined_with :: "network_device \<Rightarrow> network_credentials \<Rightarrow> network_command list \<Rightarrow> bool" where
  "joined_with d c sent =
     (\<exists>fs. dv_features d = Inr fs \<and> list_all (\<lambda>command. dv_command d command = Inr (Some NetSuccess)) sent \<and>
       (case (if nf_wifi fs then nc_wifi c else None, if nf_thread fs then nc_thread c else None) of
          (Some w, _) \<Rightarrow> sent = [AddOrUpdateWiFi (bytes_of_str (wk_ssid w)) (bytes_of_str (wk_password w)),
                            JoinNetwork (bytes_of_str (wk_ssid w))]
        | (None, Some t) \<Rightarrow> sent = [AddOrUpdateThread (tk_dataset t), JoinNetwork (tk_ext_pan_id t)]
        | (None, None) \<Rightarrow> sent = [] \<and> nf_ethernet fs \<and> \<not> nf_wifi fs \<and> \<not> nf_thread fs))"

lemma provision_network_ok:
  assumes "provision_network d c = (sent, Inr u)"
  shows "joined_with d c sent"
proof -
  obtain fs where fs: "dv_features d = Inr fs" and e0: "dv_exchange d 0 = Inr ()"
    using assms by (cases "dv_exchange d 0"; cases "dv_features d")
      (auto simp: provision_network_def pase_exchange_def res_simps)
  show ?thesis
    using assms fs e0
    by (auto simp: joined_with_def provision_network_def connect_network_def pase_exchange_def res_simps
        send_command_ok run_then_ok split: option.splits if_splits)
qed

lemma commission_at_address_joined:
  assumes "commission_at_address cm passcode node_id (Some c) = (sent, Inr outcome)"
  shows "joined_with (cm_network cm) c sent
    \<and> cm_phase1 cm passcode node_id = Inr (co_node_id outcome, co_device_fabric_index outcome)
    \<and> cm_case cm = Inr ()"
  using assms
  by (cases "cm_fabric_index cm"; cases "cm_noc cm"; cases "cm_phase1 cm passcode node_id"; cases "cm_case cm";
      cases "provision_network (cm_network cm) c"; cases "snd (provision_network (cm_network cm) c)")
     (auto simp: commission_at_address_def res_simps dest: provision_network_ok)

subsection \<open>Properties\<close>

text \<open>A device that had to be given a network is commissioned only after it accepted, in this
  order, the stored credentials of a kind it supports and the command to join that very network
  (Wi-Fi before Thread), or needs none because it has Ethernet alone; no other command is sent.\<close>

theorem commissioned_on_stored_network:
  assumes "commission_at_address cm passcode node_id (Some c) = (sent, Inr outcome)"
  shows "joined_with (cm_network cm) c sent
    \<and> cm_phase1 cm passcode node_id = Inr (co_node_id outcome, co_device_fabric_index outcome)
    \<and> cm_case cm = Inr ()"
  by (rule commission_at_address_joined [OF assms])

definition radio_device :: network_device where
  "radio_device = \<lparr>dv_exchange = (\<lambda>_. Inr ()),
     dv_features = Inr \<lparr>nf_wifi = False, nf_thread = True, nf_ethernet = False, nf_debug = ''THREAD''\<rparr>,
     dv_command = (\<lambda>_. Inr (Some NetSuccess))\<rparr>"

definition sample_commissioner :: commissioner where
  "sample_commissioner = \<lparr>cm_fabric_index = Some 1, cm_noc = Inr (), cm_phase1 = (\<lambda>_ n. Inr (n, 2)),
     cm_network = radio_device, cm_case = Inr ()\<rparr>"

definition both_networks :: network_credentials where
  "both_networks = \<lparr>nc_wifi = Some \<lparr>wk_ssid = ''net'', wk_password = ''key''\<rparr>,
     nc_thread = Some \<lparr>tk_dataset = [0, 1], tk_ext_pan_id = [7]\<rparr>\<rparr>"

theorem commissioned_on_stored_network_witness:
  "joined_with radio_device both_networks [AddOrUpdateThread [0, 1], JoinNetwork [7]]"
proof -
  have run: "commission_at_address sample_commissioner 20202021 5 (Some both_networks)
      = ([AddOrUpdateThread [0, 1], JoinNetwork [7]], Inr \<lparr>co_node_id = 5, co_device_fabric_index = 2\<rparr>)"
    by (simp add: commission_at_address_def sample_commissioner_def radio_device_def both_networks_def
        provision_network_def pase_exchange_def send_command_def connect_network_def run_then_def
        check_network_status_def res_simps)
  show ?thesis
    using commissioned_on_stored_network [OF run] by (simp add: sample_commissioner_def)
qed

text \<open>A PAKE verifier is computed only for a salt of 16 to 32 bytes and at least 1000
  iterations, and is 97 bytes when the library's scalars and points have their canonical lengths.\<close>

theorem verifier_bounds:
  assumes "compute_verifier cr passcode salt iterations = Inr v"
    and "\<And>x b. pk_scalar_canon cr x = Inr b \<Longrightarrow> length b = scalar_len"
    and "\<And>x b. pk_point_canon cr x = Inr b \<Longrightarrow> length b = point_len"
  shows "length v = verifier_len \<and> 16 \<le> length salt \<and> length salt \<le> 32 \<and> 1000 \<le> iterations"
  using assms
  by (auto simp: compute_verifier_def pake_step_def verifier_len_def min_salt_len_def max_salt_len_def
      default_iterations_def res_simps split: if_splits)

definition toy_crypto :: "(nat, nat) pake_crypto" where
  "toy_crypto = \<lparr>pk_pbkdf = Inr (), pk_derive = (\<lambda>_ _ _. Inr (replicate 80 0)), pk_mod_p = (\<lambda>b. Inr (length b)),
     pk_generator = Inr 3, pk_mul = (\<lambda>g x. Inr (g * x)), pk_scalar_canon = (\<lambda>_. Inr (replicate 32 0)),
     pk_point_canon = (\<lambda>_. Inr (replicate 65 4))\<rparr>"

theorem verifier_bounds_witness:
  "\<exists>v. compute_verifier toy_crypto 20202021 (replicate 32 0) 1000 = Inr v \<and> length v = verifier_len"
proof -
  have run: "compute_verifier toy_crypto 20202021 (replicate 32 0) 1000 = Inr (replicate 32 0 @ replicate 65 4)"
    by (simp add: compute_verifier_def pake_secrets_def pake_step_def toy_crypto_def min_salt_len_def
        max_salt_len_def default_iterations_def res_simps)
  show ?thesis
    using verifier_bounds [OF run] run by (simp add: toy_crypto_def scalar_len_def point_len_def)
qed

text \<open>A network command counts as accepted only for a decoded status of success.\<close>

theorem refused_network_is_named:
  "check_network_status status command = Inr () \<longleftrightarrow> status = Some NetSuccess"
  by (auto simp: check_network_status_def split: option.splits)

text \<open>A manual code is digits, dashes and blanks only.\<close>

theorem manual_code_digits:
  assumes "parse_pairing_code lib code = Inr info" and "strip_prefix ''MT:'' (trim code) = None"
  shows "pl_manual lib (code_digits (trim code)) = Inr info
    \<and> length (code_digits (trim code)) = length (code_symbols (trim code))"
  using assms by (auto simp: parse_pairing_code_def Let_def res_simps split: if_splits option.splits)

end
