(* ===== verification/Controller.thy ===== *)
theory Controller
  imports Migrate_Model Server_Context Im_Client
begin

section \<open>The controller's fabric (\<open>matter/controller.rs\<close>)\<close>

text \<open>
  Starting from storage: an existing fabric is loaded, else one is imported or created, persisted
  together with the key that signs certificates, and only then served. rs-matter's fabric table
  and certificate generators are arguments. A fabric of the table is what \<open>FabricInfo\<close> reads of
  it and its access list; an error is the chain of contexts \<open>anyhow\<close> prints.
\<close>

subsection \<open>Fabrics and their access lists\<close>

record acl_target =
  at_endpoint :: "u16 option"
  at_cluster :: "u32 option"

record acl_entry =
  al_case :: bool
  al_subjects :: "u64 list option"
  al_targets :: "acl_target list option"

record fabric_state =
  fs_info :: fabric_info
  fs_acl :: "acl_entry list"

record controller_config =
  gc_vendor_id :: u16
  gc_fabric_id :: u64
  gc_node_id :: u64
  gc_port :: u16

definition matter_port :: u16 where "matter_port = 5540"

definition controller_config_default :: controller_config where
  "controller_config_default = \<lparr>gc_vendor_id = 0xFFF1, gc_fabric_id = 1, gc_node_id = 112233, gc_port = matter_port\<rparr>"

datatype fabric_origin = Loaded | Created | Imported

text \<open>What is in the storage directory: rs-matter's fabrics and the key file.\<close>

record controller_disk =
  kd_fabrics :: "fabric_state list"
  kd_issuer_key :: "bytes option"

record matter_controller =
  mc_fabrics :: "fabric_state list"
  mc_issuer_key :: bytes
  mc_origin :: fabric_origin

subsection \<open>Creating a fabric\<close>

text \<open>One attempt's answers, step by step, and what the table adds at the end.\<close>

record creation_attempt =
  ka_rcac :: "rs_code + unit"
  ka_icac :: "rs_code + bytes"
  ka_operational_key :: "rs_code + unit"
  ka_csr :: "rs_code + unit"
  ka_key_encoding :: "rs_code + unit"
  ka_issuance :: "rs_code + unit"
  ka_noc :: "rs_code + unit"
  ka_random :: "rs_code + unit"
  ka_install :: "rs_code + fabric_state"

definition creation_step :: "string \<Rightarrow> rs_code + 'a \<Rightarrow> err_chain + 'a" where
  "creation_step what = map_err (\<lambda>c. [what @ '': '' @ code_debug c])"

text \<open>The issuing key is the intermediate CA's.\<close>

definition create_fabric_once :: "creation_attempt \<Rightarrow> fabric_state list \<Rightarrow> fabric_state list \<times> (err_chain + bytes)" where
  "create_fabric_once a fabrics =
     (case bind_res (creation_step ''generating the root certificate'' (ka_rcac a)) (\<lambda>_.
           bind_res (creation_step ''generating the intermediate certificate'' (ka_icac a)) (\<lambda>icac_key.
           bind_res (creation_step ''generating the operational key'' (ka_operational_key a)) (\<lambda>_.
           bind_res (creation_step ''building the CSR'' (ka_csr a)) (\<lambda>_.
           bind_res (creation_step ''encoding the operational key'' (ka_key_encoding a)) (\<lambda>_.
           bind_res (creation_step ''preparing NOC issuance'' (ka_issuance a)) (\<lambda>_.
           bind_res (creation_step ''issuing the controller NOC'' (ka_noc a)) (\<lambda>_.
           bind_res (creation_step ''obtaining randomness for the IPK'' (ka_random a)) (\<lambda>_.
             map_res (Pair icac_key) (creation_step ''installing the fabric'' (ka_install a)))))))))) of
        Inl e \<Rightarrow> (fabrics, Inl e)
      | Inr (key, f) \<Rightarrow> (fabrics @ [f], Inr key))"

definition fabric_creation_attempts :: nat where "fabric_creation_attempts = 5"

fun create_attempts ::
  "nat \<Rightarrow> (nat \<Rightarrow> creation_attempt) \<Rightarrow> nat \<Rightarrow> err_chain option \<Rightarrow> fabric_state list
   \<Rightarrow> fabric_state list \<times> (err_chain + bytes)" where
  "create_attempts 0 attempts i failed fabrics =
     (fabrics, Inl (case failed of Some e \<Rightarrow> e | None \<Rightarrow> [''fabric creation failed'']))"
| "create_attempts (Suc n) attempts i failed fabrics =
     (case create_fabric_once (attempts i) fabrics of
        (fabrics', Inr key) \<Rightarrow> (fabrics', Inr key)
      | (fabrics', Inl e) \<Rightarrow> create_attempts n attempts (Suc i) (Some e) fabrics')"

definition create_fabric ::
  "(nat \<Rightarrow> creation_attempt) \<Rightarrow> fabric_state list \<Rightarrow> fabric_state list \<times> (err_chain + bytes)" where
  "create_fabric attempts = create_attempts fabric_creation_attempts attempts 1 None"

subsection \<open>Installing an imported fabric\<close>

text \<open>The library's side: a private key from bytes (refused with the text of the error), the length of
  the identity protection key, the fabric table's \<open>add\<close> and \<open>update_label\<close>, which names a
  fabric by its index.\<close>

record fabric_lib =
  fl_secret_key :: "bytes \<Rightarrow> string + bytes"
  fl_ipk_len :: nat
  fl_add :: "imported_fabric \<Rightarrow> fabric_state list \<Rightarrow> rs_code + fabric_state"
  fl_update_label :: "u8 \<Rightarrow> string \<Rightarrow> fabric_state list \<Rightarrow> rs_code + fabric_state list"

definition identifiers_match :: "imported_fabric \<Rightarrow> fabric_info \<Rightarrow> bool" where
  "identifiers_match imp i =
     ((case if_compressed_fabric_id imp of None \<Rightarrow> True | Some expected \<Rightarrow> fi_compressed_fabric_id i = expected)
      \<and> fi_node_id i = if_node_id imp \<and> fi_fabric_id i = if_fabric_id imp)"

definition carry_label :: "fabric_lib \<Rightarrow> u8 \<Rightarrow> string \<Rightarrow> fabric_state list \<Rightarrow> fabric_state list" where
  "carry_label L index label fabrics =
     (if label = [] then fabrics
      else case fl_update_label L index label fabrics of Inl _ \<Rightarrow> fabrics | Inr fabrics' \<Rightarrow> fabrics')"

definition install_fabric ::
  "fabric_lib \<Rightarrow> imported_fabric \<Rightarrow> fabric_state list \<Rightarrow> fabric_state list \<times> (err_chain + bytes)" where
  "install_fabric L imp fabrics =
     (case bind_res (map_err (\<lambda>e. [''the imported operational key is unusable: '' @ e]) (fl_secret_key L (if_operational_key imp))) (\<lambda>_.
           bind_res (map_err (\<lambda>e. [''the imported issuing key is unusable: '' @ e]) (fl_secret_key L (if_issuer_key imp))) (\<lambda>issuer.
             if length (if_ipk_epoch_key imp) \<noteq> fl_ipk_len L
             then Inl [''the imported identity protection key is '' @ show_nat (length (if_ipk_epoch_key imp))
                       @ '' bytes, expected '' @ show_nat (fl_ipk_len L)]
             else map_res (Pair issuer)
               (map_err (\<lambda>c. [''installing the imported fabric: '' @ code_debug c]) (fl_add L imp fabrics)))) of
        Inl e \<Rightarrow> (fabrics, Inl e)
      | Inr (issuer, f) \<Rightarrow>
          if \<not> identifiers_match imp (fs_info f)
          then (fabrics @ [f], Inl [''the imported certificates do not match the fabric they were stored with; ''
                  @ ''the source storage is inconsistent and importing it would not work''])
          else (carry_label L (fi_fabric_index (fs_info f)) (if_label imp) (fabrics @ [f]), Inr issuer))"

subsection \<open>Persistence\<close>

text \<open>The first fabric is stored; \<open>io\<close> says how the store answers, \<open>none\<close> is the error without a fabric.\<close>

definition persist_fabric ::
  "err_chain \<Rightarrow> err_chain + unit \<Rightarrow> fabric_state list \<Rightarrow> controller_disk \<Rightarrow> controller_disk \<times> (err_chain + unit)" where
  "persist_fabric none io fabrics d =
     (case fabrics of
        [] \<Rightarrow> (d, Inl none)
      | f # _ \<Rightarrow>
          (case io of
             Inl e \<Rightarrow> (d, Inl e)
           | Inr _ \<Rightarrow> (d\<lparr>kd_fabrics := f # filter (\<lambda>g. fi_fabric_index (fs_info g) \<noteq> fi_fabric_index (fs_info f)) (kd_fabrics d)\<rparr>,
                       Inr ())))"

definition persist_issuer_key :: "err_chain + unit \<Rightarrow> bytes \<Rightarrow> controller_disk \<Rightarrow> controller_disk \<times> (err_chain + unit)" where
  "persist_issuer_key io key d =
     (case io of Inl e \<Rightarrow> (d, Inl e) | Inr _ \<Rightarrow> (d\<lparr>kd_issuer_key := Some key\<rparr>, Inr ()))"

definition load_issuer_key :: "fabric_lib \<Rightarrow> string \<Rightarrow> controller_disk \<Rightarrow> err_chain + bytes" where
  "load_issuer_key L path d =
     bind_res (ok_or [''reading the issuing private key '' @ path
         @ ''; existing fabrics created by an older build must be reset''] (kd_issuer_key d)) (\<lambda>bs.
       map_err (\<lambda>e. [''invalid issuing private key '' @ path @ '': '' @ e]) (fl_secret_key L bs))"

subsection \<open>Starting\<close>

record startup_env =
  se_dir :: "err_chain + unit"
  se_startup :: "err_chain + unit"
  se_attempts :: "nat \<Rightarrow> creation_attempt"
  se_none :: err_chain
  se_store :: "err_chain + unit"
  se_key_store :: "err_chain + unit"

definition key_path :: "string \<Rightarrow> string" where
  "key_path path = path_join path ''controller-icac-key.bin''"

text \<open>Keep a new fabric: first the fabric, then the key.\<close>

definition keep_fabric ::
  "startup_env \<Rightarrow> fabric_origin \<Rightarrow> controller_disk \<Rightarrow> fabric_state list \<times> (err_chain + bytes)
   \<Rightarrow> controller_disk \<times> (err_chain + matter_controller)" where
  "keep_fabric E origin d made =
     (case made of
        (fabrics, Inl e) \<Rightarrow> (d, Inl e)
      | (fabrics, Inr key) \<Rightarrow>
          (case persist_fabric (se_none E) (se_store E) fabrics d of
             (d1, Inl e) \<Rightarrow> (d1, Inl e)
           | (d1, Inr _) \<Rightarrow>
               (case persist_issuer_key (se_key_store E) key d1 of
                  (d2, Inl e) \<Rightarrow> (d2, Inl e)
                | (d2, Inr _) \<Rightarrow> (d2, Inr \<lparr>mc_fabrics = fabrics, mc_issuer_key = key, mc_origin = origin\<rparr>))))"

definition init_controller ::
  "fabric_lib \<Rightarrow> startup_env \<Rightarrow> string \<Rightarrow> imported_fabric option \<Rightarrow> controller_disk
   \<Rightarrow> controller_disk \<times> (err_chain + matter_controller)" where
  "init_controller L E path imported d =
     (case bind_res (se_dir E) (\<lambda>_. se_startup E) of
        Inl e \<Rightarrow> (d, Inl e)
      | Inr _ \<Rightarrow>
          if kd_fabrics d \<noteq> []
          then (d, map_res (\<lambda>key. \<lparr>mc_fabrics = kd_fabrics d, mc_issuer_key = key, mc_origin = Loaded\<rparr>)
                 (load_issuer_key L (key_path path) d))
          else (case imported of
              Some imp \<Rightarrow> keep_fabric E Imported d (install_fabric L imp [])
            | None \<Rightarrow> keep_fabric E Created d (create_fabric (se_attempts E) [])))"

subsection \<open>Laws\<close>

lemma create_fabric_once_adds:
  "create_fabric_once a fabrics = (fabrics', Inr key) \<Longrightarrow> \<exists>f. fabrics' = fabrics @ [f] \<and> ka_icac a = Inr key"
  by (auto simp: create_fabric_once_def creation_step_def res_simps split: sum.splits)

lemma create_fabric_once_fails: "create_fabric_once a fabrics = (fabrics', Inl e) \<Longrightarrow> fabrics' = fabrics"
  by (auto simp: create_fabric_once_def split: sum.splits prod.splits)

lemma create_attempts_adds:
  "create_attempts n attempts i failed fabrics = (fabrics', Inr key)
    \<Longrightarrow> \<exists>f j. fabrics' = fabrics @ [f] \<and> i \<le> j \<and> j < i + n \<and> ka_icac (attempts j) = Inr key"
proof (induction n arbitrary: i failed fabrics)
  case (Suc n)
  obtain fs r where once: "create_fabric_once (attempts i) fabrics = (fs, r)"
    by (cases "create_fabric_once (attempts i) fabrics")
  show ?case
  proof (cases r)
    case (Inl e)
    then have "fs = fabrics" using create_fabric_once_fails once by simp
    then show ?thesis using Suc.prems once Inl Suc.IH [of "Suc i" "Some e" fabrics]
      by auto (metis Suc_leD)
  next
    case (Inr k)
    then show ?thesis using Suc.prems once create_fabric_once_adds [of "attempts i" fabrics fs k] by force
  qed
qed simp

lemma length_carry_label:
  "(\<And>i l fs fs'. fl_update_label L i l fs = Inr fs' \<Longrightarrow> length fs' = length fs)
    \<Longrightarrow> length (carry_label L i label fs) = length fs"
  by (simp add: carry_label_def split: sum.split)

lemma install_fabric_adds:
  assumes "install_fabric L imp [] = (fabrics, Inr key)"
    and "\<And>i l fs fs'. fl_update_label L i l fs = Inr fs' \<Longrightarrow> length fs' = length fs"
  shows "length fabrics = 1 \<and> fl_secret_key L (if_issuer_key imp) = Inr key"
  using assms(1) length_carry_label [OF assms(2)]
  by (auto simp: install_fabric_def res_simps split: sum.splits prod.splits if_splits)

text \<open>What the library promises of keys and labels: a key it accepts is in canonical form, the keys it
  generates are accepted, and a label is changed in place.\<close>

definition library_sound :: "fabric_lib \<Rightarrow> (nat \<Rightarrow> creation_attempt) \<Rightarrow> bool" where
  "library_sound L attempts =
     ((\<forall>b k. fl_secret_key L b = Inr k \<longrightarrow> fl_secret_key L k = Inr k)
      \<and> (\<forall>i k. ka_icac (attempts i) = Inr k \<longrightarrow> fl_secret_key L k = Inr k)
      \<and> (\<forall>i l fs fs'. fl_update_label L i l fs = Inr fs' \<longrightarrow> length fs' = length fs))"

lemma keep_fabric_ok:
  assumes "keep_fabric E origin d made = (d', Inr mc)" and "kd_fabrics d = []" and "length (fst made) \<le> 1"
  shows "\<exists>f. made = ([f], Inr (mc_issuer_key mc)) \<and> kd_fabrics d' = [f] \<and> mc_fabrics mc = [f]
    \<and> kd_issuer_key d' = Some (mc_issuer_key mc) \<and> mc_origin mc = origin"
proof -
  obtain fabrics key where made: "made = (fabrics, Inr key)"
    using assms(1) by (cases made; cases "snd made") (auto simp: keep_fabric_def)
  show ?thesis
    using assms made
    by (auto simp: keep_fabric_def persist_fabric_def persist_issuer_key_def split: list.splits sum.splits prod.splits)
qed

lemma init_controller_stored:
  assumes "init_controller L E path imported d = (d', Inr mc)" and "library_sound L (se_attempts E)"
  shows "kd_fabrics d' = mc_fabrics mc \<and> mc_fabrics mc \<noteq> []
    \<and> load_issuer_key L (key_path path) d' = Inr (mc_issuer_key mc)
    \<and> (mc_origin mc = Loaded \<longleftrightarrow> kd_fabrics d \<noteq> [])"
proof (cases "kd_fabrics d = []")
  case False
  then show ?thesis using assms(1)
    by (auto simp: init_controller_def res_simps split: sum.splits)
next
  case True
  have label: "length fs' = length fs" if "fl_update_label L i l fs = Inr fs'" for i l fs fs'
    using assms(2) that by (auto simp: library_sound_def)
  obtain origin made where k: "keep_fabric E origin d made = (d', Inr mc)" and origin: "origin \<noteq> Loaded"
    and made: "made = (case imported of Some imp \<Rightarrow> install_fabric L imp []
      | None \<Rightarrow> create_fabric (se_attempts E) [])"
    using assms(1) True by (auto simp: init_controller_def split: sum.splits option.splits)
  have key: "length (fst made) \<le> 1 \<and> fl_secret_key L (mc_issuer_key mc) = Inr (mc_issuer_key mc)"
  proof -
    obtain fabrics key where m: "made = (fabrics, Inr key)" and mk: "mc_issuer_key mc = key"
      using k by (cases made; cases "snd made")
        (auto simp: keep_fabric_def persist_issuer_key_def split: sum.splits prod.splits)
    show ?thesis
    proof (cases imported)
      case None
      then have "create_attempts fabric_creation_attempts (se_attempts E) 1 None [] = (fabrics, Inr key)"
        using m made by (simp add: create_fabric_def)
      from create_attempts_adds [OF this] obtain f j where "fabrics = [f]" "ka_icac (se_attempts E j) = Inr key"
        by auto
      then show ?thesis using m mk assms(2) by (auto simp: library_sound_def)
    next
      case (Some imp)
      then have "install_fabric L imp [] = (fabrics, Inr key)" using m made by simp
      from install_fabric_adds [OF this label] have "length fabrics = 1" "fl_secret_key L (if_issuer_key imp) = Inr key"
        by simp_all
      moreover from this(2) have "fl_secret_key L key = Inr key" using assms(2) unfolding library_sound_def by blast
      ultimately show ?thesis using m mk by simp
    qed
  qed
  from keep_fabric_ok [OF k True] key origin True show ?thesis
    by (auto simp: load_issuer_key_def res_simps)
qed

subsection \<open>Properties\<close>

text \<open>C28: once a start has succeeded, every later start of the same storage resumes the same fabric with
  the same issuing key, whatever import is still requested of it.\<close>

theorem restart_resumes:
  assumes "init_controller L E path imported d = (d', Inr mc)" and "library_sound L (se_attempts E)"
    and "se_dir E' = Inr ()" and "se_startup E' = Inr ()"
  shows "init_controller L E' path imported' d'
    = (d', Inr \<lparr>mc_fabrics = mc_fabrics mc, mc_issuer_key = mc_issuer_key mc, mc_origin = Loaded\<rparr>)"
  using init_controller_stored [OF assms(1,2)] assms(3,4)
  by (simp add: init_controller_def)

text \<open>C29: the fabric is stored before the key that signs for it. When the key cannot be written, every
  later start of the storage fails, whatever it is asked to import.\<close>

theorem lost_key_blocks_starts:
  assumes "kd_fabrics d = []" and "kd_issuer_key d = None" and "se_key_store E = Inl e"
    and "init_controller L E path imported d = (d', Inl e)" and "kd_fabrics d' \<noteq> []"
  shows "\<exists>e'. init_controller L E' path' imported' d' = (d', Inl e')"
proof -
  have "kd_issuer_key d' = None"
    using assms(1-4)
    by (auto simp: init_controller_def keep_fabric_def persist_fabric_def persist_issuer_key_def
        split: sum.splits option.splits prod.splits list.splits)
  then show ?thesis using assms(5)
    by (auto simp: init_controller_def load_issuer_key_def res_simps split: sum.splits)
qed

subsection \<open>Witnesses\<close>

definition plain_lib :: fabric_lib where
  "plain_lib = \<lparr>fl_secret_key = Inr, fl_ipk_len = 16, fl_add = (\<lambda>_ _. Inl NoSpace),
     fl_update_label = (\<lambda>_ _ fs. Inr fs)\<rparr>"

definition plain_fabric :: fabric_state where
  "plain_fabric = \<lparr>fs_info = \<lparr>fi_fabric_id = 1, fi_compressed_fabric_id = 9, fi_fabric_index = 1, fi_node_id = 112233,
     fi_vendor_id = 0xFFF1, fi_label = []\<rparr>, fs_acl = []\<rparr>"

definition plain_attempt :: creation_attempt where
  "plain_attempt = \<lparr>ka_rcac = Inr (), ka_icac = Inr [5], ka_operational_key = Inr (), ka_csr = Inr (),
     ka_key_encoding = Inr (), ka_issuance = Inr (), ka_noc = Inr (), ka_random = Inr (), ka_install = Inr plain_fabric\<rparr>"

text \<open>The first attempt hits the generator's flaw, the second does not.\<close>

definition flaky_env :: "err_chain + unit \<Rightarrow> startup_env" where
  "flaky_env key_store = \<lparr>se_dir = Inr (), se_startup = Inr (),
     se_attempts = (\<lambda>i. if i = 1 then plain_attempt\<lparr>ka_rcac := Inl (OtherCode ''InvalidData'')\<rparr> else plain_attempt),
     se_none = [''none''], se_store = Inr (), se_key_store = key_store\<rparr>"

definition empty_disk :: controller_disk where
  "empty_disk = \<lparr>kd_fabrics = [], kd_issuer_key = None\<rparr>"

lemma flaky_fields:
  "se_dir (flaky_env io) = Inr ()" "se_startup (flaky_env io) = Inr ()"
  "se_store (flaky_env io) = Inr ()" "se_key_store (flaky_env io) = io"
  by (simp_all add: flaky_env_def)

lemma flaky_created: "create_fabric (se_attempts (flaky_env io)) [] = ([plain_fabric], Inr [5])"
  by (simp add: create_fabric_def fabric_creation_attempts_def numeral_eq_Suc flaky_env_def create_fabric_once_def
      creation_step_def plain_attempt_def)

lemma flaky_sound: "library_sound plain_lib (se_attempts (flaky_env io))"
  by (auto simp: library_sound_def plain_lib_def)

theorem restart_resumes_witness:
  "\<exists>d' mc. init_controller plain_lib (flaky_env (Inr ())) ''data'' None empty_disk = (d', Inr mc)
    \<and> mc_origin mc = Created
    \<and> init_controller plain_lib (flaky_env (Inr ())) ''data'' None d' = (d', Inr (mc\<lparr>mc_origin := Loaded\<rparr>))"
proof -
  let ?E = "flaky_env (Inr ())"
  obtain d' mc where start: "init_controller plain_lib ?E ''data'' None empty_disk = (d', Inr mc)" "mc_origin mc = Created"
    by (simp add: init_controller_def flaky_created flaky_fields keep_fabric_def persist_fabric_def
        persist_issuer_key_def empty_disk_def)
  from restart_resumes [OF start(1) flaky_sound flaky_fields(1,2), where imported' = None] start show ?thesis
    by (cases mc) auto
qed

theorem lost_key_blocks_starts_witness:
  "\<exists>d' e'. init_controller plain_lib (flaky_env (Inl [''disk full''])) ''data'' None empty_disk = (d', Inl [''disk full''])
    \<and> init_controller plain_lib (flaky_env (Inr ())) ''data'' None d' = (d', Inl e')"
proof -
  let ?E = "flaky_env (Inl [''disk full''])"
  obtain d' where start: "init_controller plain_lib ?E ''data'' None empty_disk = (d', Inl [''disk full''])" "kd_fabrics d' \<noteq> []"
    by (simp add: init_controller_def flaky_created flaky_fields keep_fabric_def persist_fabric_def
        persist_issuer_key_def empty_disk_def)
  from lost_key_blocks_starts [OF _ _ flaky_fields(4) start(1,2),
      where E' = "flaky_env (Inr ())" and path' = "''data''" and imported' = None] start(1)
  show ?thesis by (auto simp: empty_disk_def)
qed

text \<open>An imported fabric is kept only when the identifiers the library derived from its certificates are the
  ones the source server used; otherwise nothing is written.\<close>

theorem mismatched_import_refused:
  assumes "kd_fabrics d = []" and "init_controller L E path (Some imp) d = (d', Inr mc)"
  shows "\<exists>f. fl_add L imp [] = Inr f \<and> identifiers_match imp (fs_info f)"
  using assms
  by (auto simp: init_controller_def install_fabric_def keep_fabric_def res_simps split: sum.splits prod.splits if_splits)

end
