(* ===== verification/Actor.thy ===== *)
theory Actor
  imports Device_Commissioning Controller Ip_Text
begin

section \<open>The controller actor (\<open>matter/actor.rs\<close>, access grants of \<open>matter/ota_provider.rs\<close>)\<close>

text \<open>
  Every Matter operation is a request on one bounded channel. Three parts: the client's handle (one
  method per operation over one \<open>call\<close>), the execution of an operation on the fabric table, and
  the loop that takes requests and interleaves them, as a step relation. What rs-matter and the
  devices answer is the record \<open>stack\<close>.
\<close>

subsection \<open>Operations and outcomes\<close>

record commissionable_node =
  cn_instance_name :: "string option"
  cn_host_name :: "string option"
  cn_port :: "u16 option"
  cn_long_discriminator :: "u16 option"
  cn_vendor_id :: "u16 option"
  cn_product_id :: "u16 option"
  cn_commissioning_mode :: "u8 option"
  cn_device_type :: "u32 option"
  cn_device_name :: "string option"
  cn_pairing_instruction :: "string option"
  cn_pairing_hint :: "u32 option"
  cn_mrp_retry_interval_idle :: "u32 option"
  cn_mrp_retry_interval_active :: "u32 option"
  cn_supports_tcp :: "bool option"
  cn_addresses :: "string list option"
  cn_rotating_id :: "string option"

definition commissionable_default :: commissionable_node where
  "commissionable_default = \<lparr>cn_instance_name = None, cn_host_name = None, cn_port = None,
     cn_long_discriminator = None, cn_vendor_id = None, cn_product_id = None, cn_commissioning_mode = None,
     cn_device_type = None, cn_device_name = None, cn_pairing_instruction = None, cn_pairing_hint = None,
     cn_mrp_retry_interval_idle = None, cn_mrp_retry_interval_active = None, cn_supports_tcp = None,
     cn_addresses = None, cn_rotating_id = None\<rparr>"

datatype commission_target =
    TargetAddress string
  | TargetDiscovered commissionable_filter u32
  | TargetBluetooth commissionable_filter u16 "network_credentials option"

datatype matter_op =
    OpFabricInfo
  | OpSetFabricLabel string
  | OpCommission commission_target u32 u64
  | OpDiscover commissionable_filter u32 nat
  | OpRead u64 "parsed_path list" bool
  | OpGrantOta u64
  | OpSubscribe u64 u16 u16
  | OpWrite u64 u16 u32 u32 tlv_node "u16 option"
  | OpInvoke u64 u16 u32 u32 tlv_node "u16 option" "(u32, string) btree"
  | OpInterview u64
  | OpPing u64
  | OpPakeVerifier u32 bytes u32

text \<open>Milliseconds.\<close>

definition default_timeout :: nat where "default_timeout = 45000"
definition commissioning_timeout :: nat where "commissioning_timeout = 180000"
definition interview_timeout :: nat where "interview_timeout = 120000"

fun op_timeout :: "matter_op \<Rightarrow> nat" where
  "op_timeout (OpCommission _ _ _) = commissioning_timeout"
| "op_timeout (OpInterview _) = interview_timeout"
| "op_timeout (OpDiscover _ timeout_ms _) = unat timeout_ms + 5000"
| "op_timeout _ = default_timeout"

fun op_name :: "matter_op \<Rightarrow> string" where
  "op_name OpFabricInfo = ''fabric_info''"
| "op_name (OpSetFabricLabel _) = ''set_fabric_label''"
| "op_name (OpCommission _ _ _) = ''commission''"
| "op_name (OpDiscover _ _ _) = ''discover''"
| "op_name (OpRead _ _ _) = ''read''"
| "op_name (OpGrantOta _) = ''grant_ota_access''"
| "op_name (OpSubscribe _ _ _) = ''subscribe''"
| "op_name (OpWrite _ _ _ _ _ _) = ''write''"
| "op_name (OpInvoke _ _ _ _ _ _ _) = ''invoke''"
| "op_name (OpInterview _) = ''interview''"
| "op_name (OpPing _) = ''ping''"
| "op_name (OpPakeVerifier _ _ _) = ''pake_verifier''"

datatype matter_outcome =
    OutEmpty
  | OutJson json
  | OutBytes bytes
  | OutAttributes attributes_data
  | OutFabric fabric_info
  | OutWriteStatus u16
  | OutCommissioned u64 string u8
  | OutDiscovered "commissionable_node list"
  | OutSubscribed im_subscription

subsection \<open>The handle\<close>

text \<open>How a call ends: the actor is gone, it answers, it drops the reply, or the time is up.\<close>

datatype call_end = CallRefused | CallReplied "api_error + matter_outcome" | CallDropped | CallExpired

definition timed_out :: "matter_op \<Rightarrow> api_error" where
  "timed_out op = err_sdk (''Matter operation '' @ quoted (op_name op) @ '' timed out after ''
     @ show_nat (op_timeout op div 1000) @ ''s'')"

definition matter_call :: "(matter_op \<Rightarrow> call_end) \<Rightarrow> matter_op \<Rightarrow> api_error + matter_outcome" where
  "matter_call ends op =
     (case ends op of
        CallRefused \<Rightarrow> Inl (err_sdk ''Matter controller is not running'')
      | CallReplied r \<Rightarrow> r
      | CallDropped \<Rightarrow> Inl (timed_out op)
      | CallExpired \<Rightarrow> Inl (timed_out op))"

type_synonym caller = "matter_op \<Rightarrow> api_error + matter_outcome"

text \<open>\<open>debug\<close> prints an outcome.\<close>

definition unexpected :: "(matter_outcome \<Rightarrow> string) \<Rightarrow> matter_outcome \<Rightarrow> api_error" where
  "unexpected debug out = api_error_new SdkStackError (''Matter controller returned an unexpected result: '' @ debug out)"

definition handle_fabric_info :: "(matter_outcome \<Rightarrow> string) \<Rightarrow> caller \<Rightarrow> api_error + fabric_info" where
  "handle_fabric_info debug call = bind_res (call OpFabricInfo) (\<lambda>out.
     case out of OutFabric i \<Rightarrow> Inr i | other \<Rightarrow> Inl (unexpected debug other))"

definition handle_set_fabric_label :: "caller \<Rightarrow> string \<Rightarrow> api_error + unit" where
  "handle_set_fabric_label call label = map_res (\<lambda>_. ()) (call (OpSetFabricLabel label))"

definition handle_read_attributes ::
  "(matter_outcome \<Rightarrow> string) \<Rightarrow> caller \<Rightarrow> u64 \<Rightarrow> parsed_path list \<Rightarrow> bool \<Rightarrow> api_error + attributes_data" where
  "handle_read_attributes debug call n paths filtered = bind_res (call (OpRead n paths filtered)) (\<lambda>out.
     case out of OutAttributes a \<Rightarrow> Inr a | other \<Rightarrow> Inl (unexpected debug other))"

definition handle_grant_ota_access :: "caller \<Rightarrow> u64 \<Rightarrow> api_error + unit" where
  "handle_grant_ota_access call n = map_res (\<lambda>_. ()) (call (OpGrantOta n))"

definition handle_subscribe ::
  "(matter_outcome \<Rightarrow> string) \<Rightarrow> caller \<Rightarrow> u64 \<Rightarrow> u16 \<Rightarrow> u16 \<Rightarrow> api_error + im_subscription" where
  "handle_subscribe debug call n min_int max_int = bind_res (call (OpSubscribe n min_int max_int)) (\<lambda>out.
     case out of OutSubscribed s \<Rightarrow> Inr s | other \<Rightarrow> Inl (unexpected debug other))"

definition handle_write_attribute ::
  "(matter_outcome \<Rightarrow> string) \<Rightarrow> caller \<Rightarrow> u64 \<Rightarrow> u16 \<Rightarrow> u32 \<Rightarrow> u32 \<Rightarrow> tlv_node \<Rightarrow> u16 option \<Rightarrow> api_error + u16" where
  "handle_write_attribute debug call n e c a v timed = bind_res (call (OpWrite n e c a v timed)) (\<lambda>out.
     case out of OutWriteStatus st \<Rightarrow> Inr st | other \<Rightarrow> Inl (unexpected debug other))"

definition handle_invoke ::
  "(matter_outcome \<Rightarrow> string) \<Rightarrow> caller \<Rightarrow> u64 \<Rightarrow> u16 \<Rightarrow> u32 \<Rightarrow> u32 \<Rightarrow> tlv_node \<Rightarrow> u16 option
   \<Rightarrow> (u32, string) btree \<Rightarrow> api_error + json" where
  "handle_invoke debug call n e c command payload timed names =
     bind_res (call (OpInvoke n e c command payload timed names)) (\<lambda>out.
       case out of OutJson j \<Rightarrow> Inr j | other \<Rightarrow> Inl (unexpected debug other))"

definition handle_interview :: "(matter_outcome \<Rightarrow> string) \<Rightarrow> caller \<Rightarrow> u64 \<Rightarrow> api_error + attributes_data" where
  "handle_interview debug call n = bind_res (call (OpInterview n)) (\<lambda>out.
     case out of OutAttributes a \<Rightarrow> Inr a | other \<Rightarrow> Inl (unexpected debug other))"

definition handle_ping :: "caller \<Rightarrow> u64 \<Rightarrow> api_error + unit" where
  "handle_ping call n = map_res (\<lambda>_. ()) (call (OpPing n))"

definition handle_commission ::
  "(matter_outcome \<Rightarrow> string) \<Rightarrow> caller \<Rightarrow> commission_target \<Rightarrow> u32 \<Rightarrow> u64 \<Rightarrow> api_error + (u64 \<times> string \<times> u8)" where
  "handle_commission debug call target passcode n = bind_res (call (OpCommission target passcode n)) (\<lambda>out.
     case out of OutCommissioned i address index \<Rightarrow> Inr (i, address, index) | other \<Rightarrow> Inl (unexpected debug other))"

definition handle_discover ::
  "(matter_outcome \<Rightarrow> string) \<Rightarrow> caller \<Rightarrow> commissionable_filter \<Rightarrow> u32 \<Rightarrow> nat \<Rightarrow> api_error + commissionable_node list" where
  "handle_discover debug call flt timeout_ms limit = bind_res (call (OpDiscover flt timeout_ms limit)) (\<lambda>out.
     case out of OutDiscovered ns \<Rightarrow> Inr ns | other \<Rightarrow> Inl (unexpected debug other))"

definition handle_pake_verifier ::
  "(matter_outcome \<Rightarrow> string) \<Rightarrow> caller \<Rightarrow> u32 \<Rightarrow> bytes \<Rightarrow> u32 \<Rightarrow> api_error + bytes" where
  "handle_pake_verifier debug call passcode salt iterations = bind_res (call (OpPakeVerifier passcode salt iterations)) (\<lambda>out.
     case out of OutBytes b \<Rightarrow> Inr b | other \<Rightarrow> Inl (unexpected debug other))"

subsection \<open>Addresses\<close>

datatype peer_address = PeerUdp socket | PeerOther string

definition default_matter_port :: u16 where "default_matter_port = 5540"

definition parse_address :: "string \<Rightarrow> api_error + peer_address" where
  "parse_address address =
     (let port = show_u default_matter_port in
      map_res (\<lambda>s. PeerUdp (case so_ip s of
           IpV6 _ \<Rightarrow> s
         | IpV4 bs \<Rightarrow> \<lparr>so_ip = IpV6 (to_ipv6_mapped bs), so_port = so_port s, so_scope = 0\<rparr>))
        (ok_or (err_invalid_args (''Invalid IP address '' @ quoted address))
          (opt_or (opt_or (parse_socket address) (parse_socket (address @ '':'' @ port)))
            (parse_socket (''['' @ address @ '']:'' @ port)))))"

fun format_address :: "peer_address \<Rightarrow> string" where
  "format_address (PeerUdp s) = ip_text (so_ip s)"
| "format_address (PeerOther debug) = debug"

fun peer_endpoint :: "peer_address \<Rightarrow> string \<times> u16" where
  "peer_endpoint (PeerUdp s) = (ip_text (so_ip s), so_port s)"
| "peer_endpoint (PeerOther debug) = (debug, 0)"

subsection \<open>Executing an operation\<close>

text \<open>The stack: the fabric table's operations, the access list's, the exchanges with devices, the browse,
  the commissioner at an address, Bluetooth, the cryptography, and how errors print. \<open>sk_ble_ends\<close> says
  whether the Bluetooth link ends before the commissioning flow and how.\<close>

record ('s, 'p) stack =
  sk_lib :: fabric_lib
  sk_new_entry :: "u8 \<Rightarrow> acl_entry"
  sk_add_subject :: "u64 \<Rightarrow> acl_entry \<Rightarrow> rs_code + acl_entry"
  sk_add_target :: "acl_target \<Rightarrow> acl_entry \<Rightarrow> rs_code + acl_entry"
  sk_acl_add :: "acl_entry \<Rightarrow> acl_entry list \<Rightarrow> rs_code + acl_entry list"
  sk_error_debug :: "rs_code \<Rightarrow> string"
  sk_base64 :: "bytes \<Rightarrow> string"
  sk_registry :: cluster_registry
  sk_read :: "u64 \<Rightarrow> parsed_path list \<Rightarrow> bool \<Rightarrow> (report_data, bool) exchange"
  sk_subscribe :: "u64 \<Rightarrow> u16 \<Rightarrow> u16 \<Rightarrow> (report_data, (u32 \<times> u16) option) exchange"
  sk_write :: "matter_op \<Rightarrow> ((rs_code + im_status) list, unit) exchange"
  sk_invoke :: "matter_op \<Rightarrow> (invoke_response, bool) exchange"
  sk_ping :: "u64 \<Rightarrow> (unit, bool) exchange"
  sk_browse :: "commissionable_filter \<Rightarrow> u64 list \<Rightarrow> u32 \<Rightarrow> rs_code + (peer_address \<times> u64)"
  sk_commissioner :: "peer_address \<Rightarrow> commissioner"
  sk_bluetooth :: bool
  sk_ble_bus :: "string + unit"
  sk_ble_scan :: "commissionable_filter \<Rightarrow> u16 \<Rightarrow> rs_code + string"
  sk_ble_ends :: "string \<Rightarrow> (rs_code + unit) option"
  sk_pake :: "('s, 'p) pake_crypto"
  sk_none :: err_chain
  sk_store :: "err_chain + unit"
  sk_chain_debug :: "err_chain \<Rightarrow> string"

record matter_state =
  mt_fabrics :: "fabric_state list"
  mt_disk :: controller_disk

definition fabric_index :: "matter_state \<Rightarrow> api_error + u8" where
  "fabric_index m = (case mt_fabrics m of
     [] \<Rightarrow> Inl (err_sdk ''No fabric is installed on the controller'')
   | f # _ \<Rightarrow> Inr (fi_fabric_index (fs_info f)))"

definition read_fabric_info :: "matter_state \<Rightarrow> api_error + fabric_info" where
  "read_fabric_info m = (case mt_fabrics m of
     [] \<Rightarrow> Inl (err_sdk ''No fabric is installed on the controller'')
   | f # _ \<Rightarrow> Inr (fs_info f))"

definition store_fabric :: "('s, 'p) stack \<Rightarrow> string \<Rightarrow> matter_state \<Rightarrow> matter_state \<times> (api_error + unit)" where
  "store_fabric K failure m =
     (case persist_fabric (sk_none K) (sk_store K) (mt_fabrics m) (mt_disk m) of
        (d, r) \<Rightarrow> (m\<lparr>mt_disk := d\<rparr>, map_err (\<lambda>e. err_sdk (failure @ '': '' @ sk_chain_debug K e)) r))"

subsection \<open>Access for updates\<close>

definition ota_provider_endpoint :: u16 where "ota_provider_endpoint = 0"
definition ota_provider_cluster :: u32 where "ota_provider_cluster = 0x29"

definition grants_ota_access :: "u64 \<Rightarrow> acl_entry \<Rightarrow> bool" where
  "grants_ota_access n e =
     ((case al_subjects e of None \<Rightarrow> False | Some subjects \<Rightarrow> n \<in> set subjects)
      \<and> (case al_targets e of
           None \<Rightarrow> False
         | Some targets \<Rightarrow> list_ex (\<lambda>t. at_cluster t = Some ota_provider_cluster
             \<and> (at_endpoint t = None \<or> at_endpoint t = Some ota_provider_endpoint)) targets)
      \<and> al_case e)"

definition fabric_position :: "u8 \<Rightarrow> fabric_state list \<Rightarrow> nat option" where
  "fabric_position i = list_position (\<lambda>f. fi_fabric_index (fs_info f) = i)"

definition grant_ota_access ::
  "('s, 'p) stack \<Rightarrow> u8 \<Rightarrow> u64 \<Rightarrow> fabric_state list \<Rightarrow> fabric_state list \<times> (rs_code + bool)" where
  "grant_ota_access K i n fabrics =
     (case fabric_position i fabrics of
        None \<Rightarrow> (fabrics, Inl NotFound)
      | Some at_pos \<Rightarrow>
          (let f = fabrics ! at_pos in
           if list_ex (grants_ota_access n) (fs_acl f) then (fabrics, Inr False)
           else (case bind_res (sk_add_subject K n (sk_new_entry K i)) (\<lambda>e.
                   bind_res (sk_add_target K \<lparr>at_endpoint = Some ota_provider_endpoint,
                       at_cluster = Some ota_provider_cluster\<rparr> e) (\<lambda>e'. sk_acl_add K e' (fs_acl f))) of
               Inl c \<Rightarrow> (fabrics, Inl c)
             | Inr acl \<Rightarrow> (fabrics[at_pos := f\<lparr>fs_acl := acl\<rparr>], Inr True))))"

subsection \<open>Discovery and commissioning\<close>

text \<open>Browse until the limit, excluding what was seen; \<open>n\<close> devices may still be found.\<close>

definition found_node :: "commissionable_filter \<Rightarrow> peer_address \<Rightarrow> u64 \<Rightarrow> commissionable_node" where
  "found_node flt address i =
     (case peer_endpoint address of (ip, port) \<Rightarrow>
        commissionable_default\<lparr>cn_instance_name := Some (hex16 i), cn_port := Some port, cn_addresses := Some [ip],
          cn_long_discriminator := cf_discriminator flt, cn_vendor_id := cf_vendor_id flt,
          cn_product_id := cf_product_id flt, cn_device_type := cf_device_type flt\<rparr>)"

fun discover_loop ::
  "(u64 list \<Rightarrow> rs_code + (peer_address \<times> u64)) \<Rightarrow> commissionable_filter \<Rightarrow> nat \<Rightarrow> u64 list
   \<Rightarrow> commissionable_node list \<Rightarrow> commissionable_node list" where
  "discover_loop browse flt 0 seen found = found"
| "discover_loop browse flt (Suc n) seen found =
     (case browse seen of
        Inl _ \<Rightarrow> found
      | Inr (address, i) \<Rightarrow> discover_loop browse flt n (seen @ [i]) (found @ [found_node flt address i]))"

definition actor_discover ::
  "('s, 'p) stack \<Rightarrow> commissionable_filter \<Rightarrow> u32 \<Rightarrow> nat \<Rightarrow> api_error + matter_outcome" where
  "actor_discover K flt timeout_ms limit =
     Inr (OutDiscovered (discover_loop (\<lambda>seen. sk_browse K flt seen timeout_ms) flt limit [] []))"

definition commissioned_at_peer ::
  "('s, 'p) stack \<Rightarrow> string \<Rightarrow> api_error + commission_outcome \<Rightarrow> matter_state
   \<Rightarrow> matter_state \<times> (api_error + matter_outcome)" where
  "commissioned_at_peer K address result m =
     (case result of
        Inl e \<Rightarrow> (m, Inl e)
      | Inr out \<Rightarrow>
          (case store_fabric K ''Failed to persist the fabric'' m of
             (m', Inl e) \<Rightarrow> (m', Inl e)
           | (m', Inr _) \<Rightarrow> (m', Inr (OutCommissioned (co_node_id out) address (co_device_fabric_index out)))))"

definition no_bluetooth :: api_error where
  "no_bluetooth = err_commission_failed (''This build has no Bluetooth support. It needs the `bluetooth` cargo ''
     @ ''feature, and rs-matter only backs BLE on Linux.'')"

definition commission_over_ble ::
  "('s, 'p) stack \<Rightarrow> commissionable_filter \<Rightarrow> u16 \<Rightarrow> network_credentials option \<Rightarrow> u32 \<Rightarrow> u64 \<Rightarrow> matter_state
   \<Rightarrow> matter_state \<times> (api_error + matter_outcome)" where
  "commission_over_ble K flt timeout_secs credentials passcode n m =
     (if \<not> sk_bluetooth K then (m, Inl no_bluetooth)
      else case bind_res (ble_open (sk_ble_bus K)) (\<lambda>_. ble_scan (sk_ble_scan K flt timeout_secs) timeout_secs) of
        Inl e \<Rightarrow> (m, Inl e)
      | Inr addr \<Rightarrow>
          (case sk_ble_ends K addr of
             Some link \<Rightarrow> (m, Inl (case ble_pump addr link of
                 Inl e \<Rightarrow> e
               | Inr _ \<Rightarrow> err_commission_failed ''The Bluetooth connection closed before commissioning finished''))
           | None \<Rightarrow> commissioned_at_peer K []
               (snd (commission_at_address (sk_commissioner K (PeerOther addr)) passcode n credentials)) m))"

definition actor_commission ::
  "('s, 'p) stack \<Rightarrow> commission_target \<Rightarrow> u32 \<Rightarrow> u64 \<Rightarrow> matter_state \<Rightarrow> matter_state \<times> (api_error + matter_outcome)" where
  "actor_commission K target passcode n m =
     (let at_address = (\<lambda>address. commissioned_at_peer K (format_address address)
            (map_err (\<lambda>e. err_commission_failed (show_error e))
              (snd (commission_at_address (sk_commissioner K address) passcode n None))) m)
      in case target of
           TargetBluetooth flt timeout_secs credentials \<Rightarrow> commission_over_ble K flt timeout_secs credentials passcode n m
         | TargetAddress text_address \<Rightarrow>
             (case parse_address text_address of Inl e \<Rightarrow> (m, Inl e) | Inr address \<Rightarrow> at_address address)
         | TargetDiscovered flt timeout_ms \<Rightarrow>
             (case sk_browse K flt [] timeout_ms of
                Inl _ \<Rightarrow> (m, Inl (err_commission_failed
                  ''No commissionable device matching the pairing code was found on the network''))
              | Inr (address, _) \<Rightarrow> at_address address))"

subsection \<open>Dispatch\<close>

definition interview_error :: "api_error \<Rightarrow> api_error" where
  "interview_error e =
     (if err_code e = NodeNotResolving \<or> err_code e = NodeNotReady then e else err_interview_failed (err_details e))"

definition set_label :: "('s, 'p) stack \<Rightarrow> u8 \<Rightarrow> string \<Rightarrow> matter_state \<Rightarrow> matter_state \<times> (api_error + matter_outcome)" where
  "set_label K i label m =
     (case fl_update_label (sk_lib K) i label (mt_fabrics m) of
        Inl c \<Rightarrow> (m, Inl (err_invalid_args (''Invalid fabric label: '' @ code_debug c)))
      | Inr fabrics \<Rightarrow>
          (case store_fabric K ''Failed to persist the fabric label'' (m\<lparr>mt_fabrics := fabrics\<rparr>) of
             (m', r) \<Rightarrow> (m', map_res (\<lambda>_. OutEmpty) r)))"

definition grant_access :: "('s, 'p) stack \<Rightarrow> u8 \<Rightarrow> u64 \<Rightarrow> matter_state \<Rightarrow> matter_state \<times> (api_error + matter_outcome)" where
  "grant_access K i n m =
     (case grant_ota_access K i n (mt_fabrics m) of
        (_, Inl c) \<Rightarrow> (m, Inl (err_sdk (''Failed to grant OTA access: '' @ sk_error_debug K c)))
      | (_, Inr False) \<Rightarrow> (m, Inr OutEmpty)
      | (fabrics, Inr True) \<Rightarrow>
          (case store_fabric K ''Failed to persist the OTA access grant'' (m\<lparr>mt_fabrics := fabrics\<rparr>) of
             (m', r) \<Rightarrow> (m', map_res (\<lambda>_. OutEmpty) r)))"

text \<open>\<open>None\<close> while the exchange with the device has not ended.\<close>

type_synonym execution = "matter_state \<times> (api_error + matter_outcome) option"

definition exchanged :: "('a \<Rightarrow> matter_outcome) \<Rightarrow> (api_error + 'a) option \<Rightarrow> matter_state \<Rightarrow> execution" where
  "exchanged out r m = (m, map_option (map_res out) r)"

fun execute_on :: "('s, 'p) stack \<Rightarrow> u8 \<Rightarrow> matter_op \<Rightarrow> matter_state \<Rightarrow> execution" where
  "execute_on K i OpFabricInfo m = (m, Some (map_res OutFabric (read_fabric_info m)))"
| "execute_on K i (OpSetFabricLabel label) m = map_prod id Some (set_label K i label m)"
| "execute_on K i (OpRead n paths filtered) m =
     exchanged OutAttributes (read_attributes (sk_base64 K) (sk_registry K) n (sk_read K n paths filtered)) m"
| "execute_on K i (OpGrantOta n) m = map_prod id Some (grant_access K i n m)"
| "execute_on K i (OpSubscribe n min_int max_int) m =
     exchanged OutSubscribed (subscribe (sk_base64 K) (sk_registry K) n (sk_subscribe K n min_int max_int)) m"
| "execute_on K i (OpWrite n e c a v timed) m =
     exchanged OutWriteStatus (im_write_attribute n (sk_write K (OpWrite n e c a v timed))) m"
| "execute_on K i (OpInvoke n e c command payload timed names) m =
     exchanged OutJson (im_invoke (sk_base64 K) names n (sk_invoke K (OpInvoke n e c command payload timed names))) m"
| "execute_on K i (OpInterview n) m =
     exchanged OutAttributes (map_option (map_err interview_error)
       (read_attributes (sk_base64 K) (sk_registry K) n (sk_read K n interview_paths False))) m"
| "execute_on K i (OpPing n) m = exchanged (\<lambda>_. OutEmpty) (im_ping n (sk_ping K n)) m"
| "execute_on K i (OpPakeVerifier passcode salt iterations) m =
     (m, Some (map_res OutBytes (compute_verifier (sk_pake K) passcode salt iterations)))"
| "execute_on K i (OpDiscover flt timeout_ms limit) m = (m, Some (actor_discover K flt timeout_ms limit))"
| "execute_on K i (OpCommission target passcode n) m = map_prod id Some (actor_commission K target passcode n m)"

definition execute_op :: "('s, 'p) stack \<Rightarrow> matter_op \<Rightarrow> matter_state \<Rightarrow> execution" where
  "execute_op K op m =
     (case fabric_index m of Inl e \<Rightarrow> (m, Some (Inl e)) | Inr i \<Rightarrow> execute_on K i op m)"

text \<open>What a handle sees of an execution that may outlast the caller's patience.\<close>

definition actor_call :: "('s, 'p) stack \<Rightarrow> matter_state \<Rightarrow> caller" where
  "actor_call K m = matter_call (\<lambda>op. case snd (execute_op K op m) of None \<Rightarrow> CallExpired | Some r \<Rightarrow> CallReplied r)"

subsection \<open>What an operation can answer\<close>

fun outcome_fits :: "matter_op \<Rightarrow> matter_outcome \<Rightarrow> bool" where
  "outcome_fits OpFabricInfo out = (\<exists>i. out = OutFabric i)"
| "outcome_fits (OpSetFabricLabel _) out = (out = OutEmpty)"
| "outcome_fits (OpCommission _ _ _) out = (\<exists>n a i. out = OutCommissioned n a i)"
| "outcome_fits (OpDiscover _ _ limit) out = (\<exists>ns. out = OutDiscovered ns \<and> length ns \<le> limit)"
| "outcome_fits (OpRead _ _ _) out = (\<exists>a. out = OutAttributes a)"
| "outcome_fits (OpGrantOta _) out = (out = OutEmpty)"
| "outcome_fits (OpSubscribe _ _ _) out = (\<exists>s. out = OutSubscribed s)"
| "outcome_fits (OpWrite _ _ _ _ _ _) out = (\<exists>st. out = OutWriteStatus st)"
| "outcome_fits (OpInvoke _ _ _ _ _ _ _) out = (\<exists>j. out = OutJson j)"
| "outcome_fits (OpInterview _) out = (\<exists>a. out = OutAttributes a)"
| "outcome_fits (OpPing _) out = (out = OutEmpty)"
| "outcome_fits (OpPakeVerifier _ _ _) out = (\<exists>b. out = OutBytes b)"

lemma length_discover_loop:
  "length (discover_loop browse flt n seen found) \<le> length found + n"
proof (induction n arbitrary: seen found)
  case (Suc n)
  show ?case using Suc.IH by (auto split: sum.split) (metis add_Suc length_append_singleton)
qed simp

lemma commissioned_at_peer_fits:
  "commissioned_at_peer K a r m = (m', Inr out) \<Longrightarrow> \<exists>n i. out = OutCommissioned n a i"
  by (auto simp: commissioned_at_peer_def split: sum.splits prod.splits)

lemma actor_commission_fits:
  "actor_commission K target passcode n m = (m', Inr out) \<Longrightarrow> \<exists>n a i. out = OutCommissioned n a i"
  by (auto simp: actor_commission_def commission_over_ble_def Let_def dest: commissioned_at_peer_fits
      split: commission_target.splits sum.splits option.splits prod.splits if_splits)

lemma set_label_fits: "set_label K i label m = (m', Inr out) \<Longrightarrow> out = OutEmpty"
  by (auto simp: set_label_def res_simps split: sum.splits prod.splits)

lemma grant_access_fits: "grant_access K i n m = (m', Inr out) \<Longrightarrow> out = OutEmpty"
  by (auto simp: grant_access_def res_simps split: sum.splits prod.splits bool.splits)

lemma map_prod_Some: "map_prod id Some x = (m', Some r) \<longleftrightarrow> x = (m', r)"
  by (cases x) auto

lemma execute_on_fits: "execute_on K i op m = (m', Some (Inr out)) \<Longrightarrow> outcome_fits op out"
proof (cases op)
  case (OpDiscover flt t limit)
  then show "execute_on K i op m = (m', Some (Inr out)) \<Longrightarrow> ?thesis"
    using length_discover_loop [of "\<lambda>seen. sk_browse K flt seen t" flt limit "[]" "[]"]
    by (auto simp: actor_discover_def)
qed (auto simp: exchanged_def res_simps map_prod_Some dest: actor_commission_fits set_label_fits grant_access_fits)

lemma execute_op_fits: "snd (execute_op K op m) = Some (Inr out) \<Longrightarrow> outcome_fits op out"
  by (cases "execute_op K op m") (auto simp: execute_op_def dest: execute_on_fits split: sum.splits)

lemma actor_call_fits: "actor_call K m op = Inr out \<Longrightarrow> outcome_fits op out"
  by (auto simp: actor_call_def matter_call_def dest: execute_op_fits split: option.splits)

text \<open>C30: an operation that succeeds answers with the shape its handle method expects, a discovery with at
  most the devices asked for, so the error for an unexpected result is dead code: what a method
  returns does not depend on how that error would print.\<close>

theorem outcomes_typed:
  "(\<forall>op out. snd (execute_op K op m) = Some (Inr out) \<longrightarrow> outcome_fits op out)
    \<and> handle_fabric_info d (actor_call K m) = handle_fabric_info d' (actor_call K m)
    \<and> handle_read_attributes d (actor_call K m) n ps b = handle_read_attributes d' (actor_call K m) n ps b
    \<and> handle_subscribe d (actor_call K m) n lo hi = handle_subscribe d' (actor_call K m) n lo hi
    \<and> handle_write_attribute d (actor_call K m) n e c a v t = handle_write_attribute d' (actor_call K m) n e c a v t
    \<and> handle_invoke d (actor_call K m) n e c cmd v t ns = handle_invoke d' (actor_call K m) n e c cmd v t ns
    \<and> handle_interview d (actor_call K m) n = handle_interview d' (actor_call K m) n
    \<and> handle_commission d (actor_call K m) target pin n = handle_commission d' (actor_call K m) target pin n
    \<and> handle_discover d (actor_call K m) flt ms limit = handle_discover d' (actor_call K m) flt ms limit
    \<and> handle_pake_verifier d (actor_call K m) pin salt it = handle_pake_verifier d' (actor_call K m) pin salt it"
proof -
  have eq: "bind_res (actor_call K m op) f = bind_res (actor_call K m op) g"
    if "\<And>out. outcome_fits op out \<Longrightarrow> f out = g out" for op and f g :: "matter_outcome \<Rightarrow> api_error + 'x"
    using that actor_call_fits [of K m op] by (cases "actor_call K m op") auto
  show ?thesis
    unfolding handle_fabric_info_def handle_read_attributes_def handle_subscribe_def handle_write_attribute_def
      handle_invoke_def handle_interview_def handle_commission_def handle_discover_def handle_pake_verifier_def
    by (intro conjI eq) (auto dest: execute_op_fits)
qed

subsection \<open>Laws of addresses\<close>

lemma show_nat_hd: "hd (show_nat n) = CHR ''0'' \<Longrightarrow> length (show_nat n) = 1"
proof (induction n rule: show_nat.induct)
  case (1 n)
  have zero: "CHR ''0'' = char_of (48 :: nat)" by code_simp
  show ?case
  proof (cases "n < 10")
    case False
    then have "show_nat n = show_nat (n div 10) @ [char_of (0x30 + n mod 10)]" by (subst show_nat.simps) simp
    moreover from this have "hd (show_nat (n div 10)) = CHR ''0''" using "1.prems" by (simp add: hd_append)
    ultimately have "length (show_nat (n div 10)) = 1" using "1.IH" False by simp
    then obtain c where c: "show_nat (n div 10) = [c]" by (cases "show_nat (n div 10)") auto
    then have "c = CHR ''0''" using \<open>hd (show_nat (n div 10)) = CHR ''0''\<close> by simp
    then have "show_nat (n div 10) = show_nat 0" using c zero by (subst (2) show_nat.simps) simp
    then show ?thesis using False by (simp add: show_nat_inj)
  qed (subst show_nat.simps, simp)
qed

lemma show_nat_small: "n < 1000 \<Longrightarrow> length (show_nat n) \<le> 3"
  by (subst show_nat.simps, auto, subst show_nat.simps, auto, subst show_nat.simps, auto)

lemma digit_val_digit: "is_digit c \<Longrightarrow> \<exists>d. digit_val 10 c = Some d"
  by (auto simp: digit_val_def is_digit_def Let_def)

lemma read_number_show:
  assumes "n \<le> limit" and "length (show_nat n) \<le> digits" and "rest = [] \<or> digit_val 10 (hd rest) = None"
  shows "read_number 10 digits zp limit (show_nat n @ rest) = Some (n, rest)"
proof -
  have "takeWhile (\<lambda>c. digit_val 10 c \<noteq> None) (show_nat n @ rest) = show_nat n"
    using show_nat_digits [of _ n] digit_val_digit assms(3)
    by (subst takeWhile_append2) (force, cases rest, auto)
  then show ?thesis using assms show_nat_hd [of n] by (auto simp: read_number_def Let_def digits_acc_show)
qed

lemma read_octet_show:
  "rest = [] \<or> digit_val 10 (hd rest) = None
    \<Longrightarrow> read_number 10 3 False u8_max (show_u (b :: u8) @ rest) = Some (unat b, rest)"
  using unat_u8 [of b] show_nat_small [of "unat b"]
  by (auto simp: show_u_def intro!: read_number_show)

lemma read_octets_text:
  assumes "length bs = 4" and "rest = [] \<or> digit_val 10 (hd rest) = None"
  shows "read_octets 4 True (ipv4_text bs @ rest) = Some (bs, rest)"
proof -
  obtain a b c d where bs: "bs = [a, b, c, d]"
    using assms(1) by (auto simp: numeral_eq_Suc length_Suc_conv)
  have dot: "digit_val 10 CHR ''.'' = None" by code_simp
  have first: "read_octets (Suc k) True (show_u x @ r) = map_option (\<lambda>(bs, r'). (x # bs, r')) (read_octets k False r)"
    if "r = [] \<or> digit_val 10 (hd r) = None" for k x r
    using that by (simp add: after_separator_def read_octet_show)
  have later: "read_octets (Suc k) False (CHR ''.'' # show_u x @ r)
      = map_option (\<lambda>(bs, r'). (x # bs, r')) (read_octets k False r)"
    if "r = [] \<or> digit_val 10 (hd r) = None" for k x r
    using that by (simp add: after_separator_def read_octet_show)
  have four: "(4::nat) = Suc (Suc (Suc (Suc 0)))" by simp
  have "ipv4_text bs @ rest = show_u a @ CHR ''.'' # show_u b @ CHR ''.'' # show_u c @ CHR ''.'' # show_u d @ rest"
    by (simp add: bs ipv4_text_def)
  then show ?thesis
    unfolding four using assms(2) dot by (simp add: first later bs del: read_octets.simps(2))
qed

lemma digit_start_no_bracket: "is_digit c \<Longrightarrow> strip_prefix ''['' (c # cs) = None"
  by (auto simp: is_digit_def byte_of_def)

lemma ipv4_text_starts: "length bs = 4 \<Longrightarrow> \<exists>c cs. ipv4_text bs = c # cs \<and> is_digit c"
proof -
  assume "length bs = 4"
  then obtain a b c d where bs: "bs = [a, b, c, d]" by (auto simp: numeral_eq_Suc length_Suc_conv)
  obtain x xs where "show_u a = x # xs" by (cases "show_u a") (auto simp: show_u_def)
  moreover from this have "is_digit x" using show_nat_digits [of x "unat a"] by (simp add: show_u_def)
  ultimately show ?thesis by (simp add: bs ipv4_text_def)
qed

lemma read_port_show: "read_port ('':'' @ show_u p) = Some (p, [])"
proof -
  have "read_number 10 (length (show_u p)) True u16_max (show_u p @ []) = Some (unat p, [])"
    unfolding show_u_def using unat_bound [of p] by (intro read_number_show) auto
  then show ?thesis by (simp add: read_port_def)
qed

lemma parse_ipv4_socket:
  assumes "length bs = 4"
  shows "parse_socket (ipv4_text bs) = None"
    and "parse_socket (ipv4_text bs @ '':'' @ show_u p) = Some \<lparr>so_ip = IpV4 bs, so_port = p, so_scope = 0\<rparr>"
proof -
  obtain c cs where c: "ipv4_text bs = c # cs" "is_digit c" using ipv4_text_starts [OF assms] by auto
  have "read_octets 4 True (ipv4_text bs) = Some (bs, [])"
    using read_octets_text [OF assms, of "[]"] by simp
  then have "read_socket4 (ipv4_text bs) = None" by (simp add: read_socket4_def read_port_def)
  moreover have "read_socket6 (ipv4_text bs) = None"
    using digit_start_no_bracket [OF c(2)] c(1) by (simp add: read_socket6_def del: strip_prefix.simps)
  ultimately show "parse_socket (ipv4_text bs) = None" by (simp add: parse_socket_def)
  have colon: "digit_val 10 CHR '':'' = None" by code_simp
  have "read_octets 4 True (ipv4_text bs @ '':'' @ show_u p) = Some (bs, '':'' @ show_u p)"
    using colon by (intro read_octets_text [OF assms]) simp
  then show "parse_socket (ipv4_text bs @ '':'' @ show_u p) = Some \<lparr>so_ip = IpV4 bs, so_port = p, so_scope = 0\<rparr>"
    using read_port_show [of p] by (simp add: parse_socket_def read_socket4_def del: strip_prefix.simps)
qed

text \<open>An IPv4 address given bare is reached on Matter's port, as its IPv6 form: that form, not the text the
  caller gave, is what commissioning records as the node's address.\<close>

theorem bare_ipv4_target:
  assumes "length bs = 4"
  shows "parse_address (ipv4_text bs)
      = Inr (PeerUdp \<lparr>so_ip = IpV6 (to_ipv6_mapped bs), so_port = 5540, so_scope = 0\<rparr>)
    \<and> format_address (PeerUdp \<lparr>so_ip = IpV6 (to_ipv6_mapped bs), so_port = 5540, so_scope = 0\<rparr>)
      = ''::ffff:'' @ ipv4_text bs"
  using parse_ipv4_socket(1) [OF assms] parse_ipv4_socket(2) [OF assms, of default_matter_port]
  by (simp add: parse_address_def Let_def res_simps default_matter_port_def ipv6_text_def to_ipv6_mapped_def)

theorem bare_ipv4_target_witness:
  "format_address (PeerUdp \<lparr>so_ip = IpV6 (to_ipv6_mapped [10, 0, 0, 7]), so_port = 5540, so_scope = 0\<rparr>)
    = ''::ffff:'' @ ipv4_text [10, 0, 0, 7]"
  using bare_ipv4_target [of "[10, 0, 0, 7]"] by simp

subsection \<open>What a failed commissioning leaves behind\<close>

text \<open>Nothing in the fabric table or in its storage, wherever it failed.\<close>

lemma commissioned_at_peer_failed: "commissioned_at_peer K a r m = (m', Inl e) \<Longrightarrow> m' = m"
  by (auto simp: commissioned_at_peer_def store_fabric_def persist_fabric_def split: sum.splits prod.splits list.splits)

theorem failed_commission_leaves_table:
  assumes "execute_op K (OpCommission target passcode n) m = (m', Some (Inl e))"
  shows "m' = m"
  using assms
  by (auto simp: execute_op_def map_prod_Some actor_commission_def commission_over_ble_def Let_def
      dest: commissioned_at_peer_failed split: commission_target.splits sum.splits option.splits prod.splits if_splits)

subsection \<open>Grants\<close>

text \<open>What rs-matter documents of an access list: a new entry names nobody, subjects and targets are
  added to it, and an added entry is found in the list beside the old ones.\<close>

definition acl_laws :: "('s, 'p) stack \<Rightarrow> bool" where
  "acl_laws K =
     ((\<forall>i. sk_new_entry K i = \<lparr>al_case = True, al_subjects = None, al_targets = None\<rparr>)
      \<and> (\<forall>n e e'. sk_add_subject K n e = Inr e' \<longrightarrow> e' = e\<lparr>al_subjects := Some (unwrap_or (al_subjects e) [] @ [n])\<rparr>)
      \<and> (\<forall>t e e'. sk_add_target K t e = Inr e' \<longrightarrow> e' = e\<lparr>al_targets := Some (unwrap_or (al_targets e) [] @ [t])\<rparr>)
      \<and> (\<forall>e l l'. sk_acl_add K e l = Inr l' \<longrightarrow> l' = l @ [e]))"

definition access_of :: "u64 \<Rightarrow> fabric_state list \<Rightarrow> nat \<Rightarrow> bool" where
  "access_of n fabrics j = list_ex (grants_ota_access n) (fs_acl (fabrics ! j))"

lemma grant_entry:
  assumes "acl_laws K" and "bind_res (sk_add_subject K n (sk_new_entry K i)) (\<lambda>e.
       bind_res (sk_add_target K t e) (\<lambda>e'. sk_acl_add K e' l)) = Inr l'"
  shows "l' = l @ [\<lparr>al_case = True, al_subjects = Some [n], al_targets = Some [t]\<rparr>]"
proof -
  obtain e e' where steps: "sk_add_subject K n (sk_new_entry K i) = Inr e" "sk_add_target K t e = Inr e'"
    "sk_acl_add K e' l = Inr l'"
    using assms(2) by (auto simp: res_simps)
  have "e = \<lparr>al_case = True, al_subjects = Some [n], al_targets = None\<rparr>"
    using assms(1) steps(1) unfolding acl_laws_def by fastforce
  moreover have "e' = e\<lparr>al_targets := Some (unwrap_or (al_targets e) [] @ [t])\<rparr>"
    using assms(1) steps(2) unfolding acl_laws_def by blast
  moreover have "l' = l @ [e']" using assms(1) steps(3) unfolding acl_laws_def by blast
  ultimately show ?thesis by simp
qed

lemma fabric_position_update:
  "fi_fabric_index (fs_info f) = fi_fabric_index (fs_info (fabrics ! j))
    \<Longrightarrow> fabric_position i (fabrics[j := f]) = fabric_position i fabrics"
  unfolding fabric_position_def
  by (induction fabrics arbitrary: j) (auto split: nat.split)

text \<open>C33: a node asks this server for updates only on a grant of its own: a grant gives access to exactly the
  node it names, changes no other fabric, and asking again changes nothing.\<close>

theorem ota_grant_exact:
  assumes "acl_laws K" and "grant_ota_access K i n fabrics = (fabrics', Inr added)"
    and "fabric_position i fabrics = Some j"
  shows "access_of k fabrics' j = (access_of k fabrics j \<or> k = n)
    \<and> (added \<longleftrightarrow> \<not> access_of n fabrics j) \<and> (\<forall>l. l \<noteq> j \<longrightarrow> fabrics' ! l = fabrics ! l)
    \<and> grant_ota_access K i n fabrics' = (fabrics', Inr False)"
proof -
  have j: "j < length fabrics" using assms(3) list_position_Some unfolding fabric_position_def by blast
  show ?thesis
  proof (cases "access_of n fabrics j")
    case True
    then show ?thesis using assms by (auto simp: grant_ota_access_def access_of_def Let_def)
  next
    case False
    let ?t = "\<lparr>at_endpoint = Some ota_provider_endpoint, at_cluster = Some ota_provider_cluster\<rparr>"
    obtain acl where r: "bind_res (sk_add_subject K n (sk_new_entry K i)) (\<lambda>e.
          bind_res (sk_add_target K ?t e) (\<lambda>e'. sk_acl_add K e' (fs_acl (fabrics ! j)))) = Inr acl"
      and f: "fabrics' = fabrics[j := (fabrics ! j)\<lparr>fs_acl := acl\<rparr>]" "added"
      using assms(2,3) False by (auto simp: grant_ota_access_def access_of_def Let_def split: sum.splits)
    note acl = grant_entry [OF assms(1) r]
    have own: "grants_ota_access k \<lparr>al_case = True, al_subjects = Some [n], al_targets = Some [?t]\<rparr> = (k = n)" for k
      by (simp add: grants_ota_access_def)
    have access: "access_of k fabrics' j = (access_of k fabrics j \<or> k = n)" for k
      using f acl j own by (auto simp: access_of_def)
    have "fabric_position i fabrics' = Some j" using assms(3) f by (simp add: fabric_position_update)
    then have "grant_ota_access K i n fabrics' = (fabrics', Inr False)"
      using access [of n] by (simp add: grant_ota_access_def access_of_def Let_def)
    then show ?thesis using access False f by auto
  qed
qed

subsection \<open>Witnesses of the grants and of the types\<close>

definition sample_stack :: "(nat, nat) stack" where
  "sample_stack = \<lparr>sk_lib = plain_lib,
     sk_new_entry = (\<lambda>_. \<lparr>al_case = True, al_subjects = None, al_targets = None\<rparr>),
     sk_add_subject = (\<lambda>n e. Inr (e\<lparr>al_subjects := Some (unwrap_or (al_subjects e) [] @ [n])\<rparr>)),
     sk_add_target = (\<lambda>t e. Inr (e\<lparr>al_targets := Some (unwrap_or (al_targets e) [] @ [t])\<rparr>)),
     sk_acl_add = (\<lambda>e l. if length l < 4 then Inr (l @ [e]) else Inl NoSpace),
     sk_error_debug = code_debug, sk_base64 = (\<lambda>_. []), sk_registry = [],
     sk_read = (\<lambda>_ _ _. \<lparr>ex_open = Inl NotFound, ex_sender = Inr (), ex_tx = [], ex_chunks = []\<rparr>),
     sk_subscribe = (\<lambda>_ _ _. \<lparr>ex_open = Inl NotFound, ex_sender = Inr (), ex_tx = [], ex_chunks = []\<rparr>),
     sk_write = (\<lambda>_. \<lparr>ex_open = Inl NotFound, ex_sender = Inr (), ex_tx = [], ex_chunks = []\<rparr>),
     sk_invoke = (\<lambda>_. \<lparr>ex_open = Inl NotFound, ex_sender = Inr (), ex_tx = [], ex_chunks = []\<rparr>),
     sk_ping = (\<lambda>_. \<lparr>ex_open = Inl NotFound, ex_sender = Inr (), ex_tx = [], ex_chunks = []\<rparr>),
     sk_browse = (\<lambda>_ _ _. Inl NotFound), sk_commissioner = (\<lambda>_. sample_commissioner), sk_bluetooth = False,
     sk_ble_bus = Inr (), sk_ble_scan = (\<lambda>_ _. Inl NotFound), sk_ble_ends = (\<lambda>_. None), sk_pake = toy_crypto,
     sk_none = [], sk_store = Inr (), sk_chain_debug = concat\<rparr>"

definition sample_table :: matter_state where
  "sample_table = \<lparr>mt_fabrics = [plain_fabric], mt_disk = empty_disk\<rparr>"

lemma sample_position: "fabric_position 1 [plain_fabric] = Some 0"
  by (simp add: fabric_position_def plain_fabric_def)

theorem ota_grant_exact_witness:
  "\<exists>fabrics'. grant_ota_access sample_stack 1 42 [plain_fabric] = (fabrics', Inr True)
    \<and> access_of 42 fabrics' 0 \<and> \<not> access_of 43 fabrics' 0"
proof -
  have laws: "acl_laws sample_stack" by (simp add: acl_laws_def sample_stack_def)
  obtain fabrics' where g: "grant_ota_access sample_stack 1 42 [plain_fabric] = (fabrics', Inr True)"
    by (simp add: grant_ota_access_def sample_position) (simp add: sample_stack_def plain_fabric_def)
  have "\<not> access_of 43 [plain_fabric] 0" by (simp add: access_of_def plain_fabric_def)
  with ota_grant_exact [OF laws g sample_position] g show ?thesis by simp
qed

theorem outcomes_typed_witness:
  "\<exists>out. snd (execute_op sample_stack (OpDiscover filter_default 0 6) sample_table) = Some (Inr out)
    \<and> outcome_fits (OpDiscover filter_default 0 6) out"
proof -
  have "snd (execute_op sample_stack (OpDiscover filter_default 0 6) sample_table) = Some (Inr (OutDiscovered []))"
    by (simp add: execute_op_def fabric_index_def sample_table_def actor_discover_def numeral_eq_Suc sample_stack_def)
  from this outcomes_typed [THEN conjunct1, THEN spec, THEN spec, THEN mp, OF this] show ?thesis by blast
qed

subsection \<open>The loop\<close>

text \<open>Requests by number: all that were accepted, those still queued, taken, in flight and answered. The loop
  drains once it has seen the channel closed, and stops when nothing is in flight.\<close>

definition channel_capacity :: nat where "channel_capacity = 8"

record actor_loop =
  lp_sent :: "nat list"
  lp_queue :: "nat list"
  lp_taken :: "nat list"
  lp_flight :: "nat list"
  lp_answered :: "nat list"
  lp_closed :: bool
  lp_draining :: bool
  lp_stopped :: bool

definition loop_start :: actor_loop where
  "loop_start = \<lparr>lp_sent = [], lp_queue = [], lp_taken = [], lp_flight = [], lp_answered = [],
     lp_closed = False, lp_draining = False, lp_stopped = False\<rparr>"

text \<open>A handle sends while there is room; the last handle goes; the loop takes the oldest request, whether or
  not others are in flight; one of those in flight finishes, polled only when no request is
  waiting; a closed and empty channel ends the taking.\<close>

inductive loop_step :: "actor_loop \<Rightarrow> actor_loop \<Rightarrow> bool" where
  send: "\<not> lp_closed s \<Longrightarrow> r \<notin> set (lp_sent s) \<Longrightarrow> length (lp_queue s) < channel_capacity
    \<Longrightarrow> loop_step s (s\<lparr>lp_sent := lp_sent s @ [r], lp_queue := lp_queue s @ [r]\<rparr>)"
| close: "\<not> lp_closed s \<Longrightarrow> loop_step s (s\<lparr>lp_closed := True\<rparr>)"
| take: "\<not> lp_draining s \<Longrightarrow> lp_queue s = r # rs
    \<Longrightarrow> loop_step s (s\<lparr>lp_queue := rs, lp_taken := lp_taken s @ [r], lp_flight := lp_flight s @ [r]\<rparr>)"
| finish: "r \<in> set (lp_flight s) \<Longrightarrow> lp_queue s = []
    \<Longrightarrow> loop_step s (s\<lparr>lp_flight := remove1 r (lp_flight s), lp_answered := lp_answered s @ [r]\<rparr>)"
| drain: "\<not> lp_draining s \<Longrightarrow> lp_closed s \<Longrightarrow> lp_queue s = [] \<Longrightarrow> loop_step s (s\<lparr>lp_draining := True\<rparr>)"
| stop: "lp_draining s \<Longrightarrow> lp_flight s = [] \<Longrightarrow> \<not> lp_stopped s \<Longrightarrow> loop_step s (s\<lparr>lp_stopped := True\<rparr>)"

inductive loop_run :: "actor_loop \<Rightarrow> bool" where
  start: "loop_run loop_start"
| step: "loop_run s \<Longrightarrow> loop_step s t \<Longrightarrow> loop_run t"

inductive_cases loop_stepE: "loop_step s t"

definition loop_inv :: "actor_loop \<Rightarrow> bool" where
  "loop_inv s =
     (distinct (lp_sent s) \<and> lp_taken s @ lp_queue s = lp_sent s
      \<and> mset (lp_taken s) = mset (lp_flight s) + mset (lp_answered s)
      \<and> length (lp_queue s) \<le> channel_capacity
      \<and> (lp_draining s \<longrightarrow> lp_closed s \<and> lp_queue s = [])
      \<and> (lp_stopped s \<longrightarrow> lp_draining s \<and> lp_flight s = []))"

lemma loop_inv_step: "loop_step s t \<Longrightarrow> loop_inv s \<Longrightarrow> loop_inv t"
proof (induction rule: loop_step.induct)
  case (take s r rs)
  then have "lp_sent s = (lp_taken s @ [r]) @ rs" by (simp add: loop_inv_def)
  with take show ?case by (auto simp: loop_inv_def)
next
  case (finish r s)
  then show ?case by (auto simp: loop_inv_def)
qed (auto simp: loop_inv_def)

lemma loop_run_inv: "loop_run s \<Longrightarrow> loop_inv s"
proof (induction rule: loop_run.induct)
  case start
  show ?case by (simp add: loop_inv_def loop_start_def)
qed (rule loop_inv_step)

text \<open>How much a closed loop still has to do.\<close>

definition loop_work :: "actor_loop \<Rightarrow> nat" where
  "loop_work s = 2 * length (lp_queue s) + length (lp_flight s) + (if lp_draining s then 0 else 1) + (if lp_stopped s then 0 else 1)"

lemma closed_step:
  assumes "loop_step s t" and "lp_closed s"
  shows "lp_closed t \<and> loop_work t < loop_work s \<and> lp_sent t = lp_sent s"
  using assms
  by (induction rule: loop_step.induct)
     (auto simp: loop_work_def length_remove1, metis Suc_pred length_pos_if_in_set lessI)

lemma closed_steps:
  "(loop_step ^^ n) s t \<Longrightarrow> lp_closed s \<Longrightarrow> lp_closed t \<and> loop_work t + n \<le> loop_work s \<and> lp_sent t = lp_sent s"
proof (induction n arbitrary: t)
  case (Suc n)
  then obtain u where u: "(loop_step ^^ n) s u" "loop_step u t" by auto
  with Suc closed_step [OF u(2)] show ?case by fastforce
qed simp

lemma run_steps: "loop_run s \<Longrightarrow> (loop_step ^^ n) s t \<Longrightarrow> loop_run t"
  by (induction n arbitrary: t) (auto intro: loop_run.step)

lemma stuck_stopped:
  assumes "loop_inv s" and "lp_closed s" and "\<nexists>t. loop_step s t"
  shows "lp_stopped s"
proof (rule ccontr)
  assume "\<not> lp_stopped s"
  moreover have "lp_queue s = []" using assms loop_step.take [of s]
    by (cases "lp_queue s") (auto simp: loop_inv_def)
  moreover have "lp_flight s = []" using assms loop_step.finish [OF _ \<open>lp_queue s = []\<close>]
    by (cases "lp_flight s") auto
  moreover have "lp_draining s" using assms loop_step.drain [of s] calculation by auto
  ultimately show False using assms(3) loop_step.stop by blast
qed

lemma stopped_answered: "loop_inv s \<Longrightarrow> lp_stopped s \<Longrightarrow> mset (lp_answered s) = mset (lp_sent s)"
  by (auto simp: loop_inv_def)

subsection \<open>Properties of the loop\<close>

text \<open>C31: in every reachable state of the actor each accepted request is in exactly one place: queued (at most
  eight, in the order sent), in flight, or answered; a stopped actor has answered every one once.\<close>

theorem requests_answered_once:
  assumes "loop_run s"
  shows "distinct (lp_sent s) \<and> length (lp_queue s) \<le> 8
    \<and> mset (lp_sent s) = mset (lp_queue s) + mset (lp_flight s) + mset (lp_answered s)
    \<and> (\<exists>taken. lp_sent s = taken @ lp_queue s)
    \<and> (lp_stopped s \<longrightarrow> mset (lp_answered s) = mset (lp_sent s))"
proof -
  note inv = loop_run_inv [OF assms]
  then have sent: "lp_sent s = lp_taken s @ lp_queue s" by (simp add: loop_inv_def)
  then have "mset (lp_sent s) = mset (lp_queue s) + mset (lp_flight s) + mset (lp_answered s)"
    using inv by (simp add: loop_inv_def)
  with inv stopped_answered [OF inv] sent show ?thesis
    by (simp add: loop_inv_def channel_capacity_def)
qed

theorem requests_answered_once_witness:
  "\<exists>s. loop_run s \<and> lp_sent s = [4, 9] \<and> mset (lp_sent s) = mset (lp_queue s) + mset (lp_flight s) + mset (lp_answered s)"
proof -
  have "loop_step loop_start (loop_start\<lparr>lp_sent := [4], lp_queue := [4]\<rparr>)" (is "loop_step _ ?a")
    using loop_step.send [of loop_start 4] by (simp add: loop_start_def channel_capacity_def)
  moreover have "loop_step ?a (loop_start\<lparr>lp_sent := [4, 9], lp_queue := [4, 9]\<rparr>)" (is "loop_step _ ?b")
    using loop_step.send [of ?a 9] by (simp add: loop_start_def channel_capacity_def)
  ultimately have run: "loop_run ?b" by (blast intro: loop_run.intros)
  have "lp_sent ?b = [4, 9]" by simp
  with run requests_answered_once [OF run] show ?thesis by blast
qed

text \<open>C32: once every handle is gone the actor stops: each step brings it nearer, within the work it has left,
  and it cannot come to rest before it has answered every request it accepted.\<close>

theorem closed_actor_stops:
  assumes "loop_run s" and "lp_closed s" and "(loop_step ^^ n) s t"
  shows "n \<le> 2 * length (lp_queue s) + length (lp_flight s) + 2
    \<and> ((\<exists>u. loop_step t u) \<or> lp_stopped t \<and> mset (lp_answered t) = mset (lp_sent s))"
proof -
  note c = closed_steps [OF assms(3,2)]
  have inv: "loop_inv t" by (rule loop_run_inv [OF run_steps [OF assms(1,3)]])
  have "n \<le> 2 * length (lp_queue s) + length (lp_flight s) + 2"
    using c by (auto simp: loop_work_def split: if_splits)
  with c stuck_stopped [OF inv] stopped_answered [OF inv] show ?thesis by metis
qed

theorem closed_actor_stops_witness:
  "(1::nat) \<le> 2 \<and> (\<exists>t u. (loop_step ^^ 1) (loop_start\<lparr>lp_closed := True\<rparr>) t \<and> loop_step t u)"
proof -
  let ?s = "loop_start\<lparr>lp_closed := True\<rparr>" and ?t = "loop_start\<lparr>lp_closed := True, lp_draining := True\<rparr>"
  have run: "loop_run ?s" using loop_step.close [of loop_start]
    by (auto intro: loop_run.intros simp: loop_start_def)
  have "loop_step ?s ?t" using loop_step.drain [of ?s] by (simp add: loop_start_def)
  then have one: "(loop_step ^^ 1) ?s ?t" unfolding relpowp_1 .
  have "\<not> lp_stopped ?t" by (simp add: loop_start_def)
  with closed_actor_stops [OF run _ one] one show ?thesis by (auto simp: loop_start_def)
qed

end
