(* ===== verification/Commissioning.thy ===== *)
theory Commissioning
  imports Actor Fabrics Mdns
begin

section \<open>Commissioning commands (\<open>api/commissioning.rs\<close>)\<close>

text \<open>
  Bringing a device onto the fabric, from a pairing code or over the network, and opening a window on a
  commissioned device for another controller. What the Matter operations, mDNS and the disk answer
  during one attempt is a record; random draws are streams, and \<open>rs-matter\<close>'s encoders of pairing
  codes are arguments.
\<close>

definition discovery_timeout_ms :: u32 where "discovery_timeout_ms = 15000"
definition discovery_limit :: nat where "discovery_limit = 6"
definition administrator_commissioning_cluster :: u32 where "administrator_commissioning_cluster = 60"
definition open_commissioning_window_command :: u32 where "open_commissioning_window_command = 0"
definition window_timed_timeout_ms :: u16 where "window_timed_timeout_ms = 10000"
definition default_window_secs :: u64 where "default_window_secs = 300"
definition bluetooth_scan_timeout_secs :: u16 where "bluetooth_scan_timeout_secs = 30"
definition commissionable_service :: string where "commissionable_service = ''_matterc._udp.local''"

subsection \<open>The filter of a discovery\<close>

definition narrowed :: "string \<Rightarrow> ('a::len word option \<Rightarrow> commissionable_filter) \<Rightarrow> u64 option
    \<Rightarrow> api_error + commissionable_filter" where
  "narrowed what put value =
     (case value of
        None \<Rightarrow> Inr (put None)
      | Some v \<Rightarrow> (case to_width v of
            None \<Rightarrow> Inl (err_invalid_args (''Invalid '' @ what @ '' filter''))
          | Some w \<Rightarrow> Inr (put (Some w))))"

definition typed_filter :: "u64 \<Rightarrow> u64 option \<Rightarrow> commissionable_filter \<Rightarrow> api_error + commissionable_filter" where
  "typed_filter filter_type value f =
     (if filter_type = 0 then Inr f
      else if filter_type = 1 then Inr (f\<lparr>cf_short_discriminator := map_option (\<lambda>v. ucast (and v 0xF)) value\<rparr>)
      else if filter_type = 2 then narrowed ''discriminator'' (\<lambda>w. f\<lparr>cf_discriminator := w\<rparr>) value
      else if filter_type = 3 then narrowed ''vendor id'' (\<lambda>w. f\<lparr>cf_vendor_id := w\<rparr>) value
      else if filter_type = 4 then narrowed ''device type'' (\<lambda>w. f\<lparr>cf_device_type := w\<rparr>) value
      else Inl (err_invalid_args (''Unsupported filter_type '' @ show_u filter_type)))"

definition discovery_filter :: "args \<Rightarrow> api_error + commissionable_filter" where
  "discovery_filter a =
     bind_res (args_u16 a ''discriminator'') (\<lambda>discriminator.
     bind_res (args_u16 a ''vendor_id'') (\<lambda>vendor_id.
     bind_res (args_u16 a ''product_id'') (\<lambda>product_id.
     bind_res (args_u32 a ''device_type'') (\<lambda>device_type.
     bind_res (args_bool_or a ''commissioning_mode_only'' False) (\<lambda>mode_only.
       let f = filter_default\<lparr>cf_discriminator := discriminator, cf_vendor_id := vendor_id,
             cf_product_id := product_id, cf_device_type := device_type, cf_commissioning_mode_only := mode_only\<rparr>
       in bind_res (args_u64 a ''filter_type'') (\<lambda>kind.
            case kind of
              None \<Rightarrow> Inr f
            | Some filter_type \<Rightarrow> bind_res (args_u64 a ''filter'') (\<lambda>value. typed_filter filter_type value f)))))))"

subsection \<open>Discovered devices\<close>

definition commissionable_node_of :: "service_instance \<Rightarrow> commissionable_node" where
  "commissionable_node_of si =
     (let parts = (case txt_str si ''VP'' of None \<Rightarrow> [] | Some vp \<Rightarrow> split_on CHR ''+'' vp);
          part = (\<lambda>i. if i < length parts then parse_dec (parts ! i) else None)
      in \<lparr>cn_instance_name = Some (si_instance_name si), cn_host_name = si_host_name si, cn_port = si_port si,
          cn_long_discriminator = map_option ucast (txt_u32 si ''D''),
          cn_vendor_id = part 0, cn_product_id = part 1,
          cn_commissioning_mode = map_option ucast (txt_u32 si ''CM''),
          cn_device_type = txt_u32 si ''DT'', cn_device_name = txt_str si ''DN'',
          cn_pairing_instruction = txt_str si ''PI'', cn_pairing_hint = txt_u32 si ''PH'',
          cn_mrp_retry_interval_idle = txt_u32 si ''SII'', cn_mrp_retry_interval_active = txt_u32 si ''SAI'',
          cn_supports_tcp = map_option (\<lambda>v. v \<noteq> 0) (txt_u32 si ''T''),
          cn_addresses = Some (map ip_text (si_addresses si)), cn_rotating_id = txt_str si ''RI''\<rparr>)"

definition commissionable_to_value :: "commissionable_node \<Rightarrow> json" where
  "commissionable_to_value n =
     (let member = (\<lambda>name v. case v of None \<Rightarrow> [] | Some j \<Rightarrow> [(name, j)]) in
      jobj (member ''instance_name'' (map_option JStr (cn_instance_name n))
        @ member ''host_name'' (map_option JStr (cn_host_name n))
        @ member ''port'' (map_option jword (cn_port n))
        @ member ''long_discriminator'' (map_option jword (cn_long_discriminator n))
        @ member ''vendor_id'' (map_option jword (cn_vendor_id n))
        @ member ''product_id'' (map_option jword (cn_product_id n))
        @ member ''commissioning_mode'' (map_option jword (cn_commissioning_mode n))
        @ member ''device_type'' (map_option jword (cn_device_type n))
        @ member ''device_name'' (map_option JStr (cn_device_name n))
        @ member ''pairing_instruction'' (map_option JStr (cn_pairing_instruction n))
        @ member ''pairing_hint'' (map_option jword (cn_pairing_hint n))
        @ member ''mrp_retry_interval_idle'' (map_option jword (cn_mrp_retry_interval_idle n))
        @ member ''mrp_retry_interval_active'' (map_option jword (cn_mrp_retry_interval_active n))
        @ member ''supports_tcp'' (map_option JBool (cn_supports_tcp n))
        @ member ''addresses'' (map_option (\<lambda>as. JArr (map JStr as)) (cn_addresses n))
        @ member ''rotating_id'' (map_option JStr (cn_rotating_id n))))"

text \<open>A value the device does not advertise never excludes it.\<close>

definition wanted_value :: "'a option \<Rightarrow> 'a option \<Rightarrow> bool" where
  "wanted_value wanted actual =
     (case (wanted, actual) of (Some w, Some a) \<Rightarrow> w = a | _ \<Rightarrow> True)"

definition matches_filter :: "commissionable_node \<Rightarrow> commissionable_filter \<Rightarrow> bool" where
  "matches_filter n f =
     (if (case (cf_short_discriminator f, cn_long_discriminator n) of
            (Some short, Some long) \<Rightarrow> ucast (drop_bit 8 long) \<noteq> short | _ \<Rightarrow> False) then False
      else if cf_commissioning_mode_only f \<and> cn_commissioning_mode n = Some 0 then False
      else wanted_value (cf_discriminator f) (cn_long_discriminator n)
         \<and> wanted_value (cf_vendor_id f) (cn_vendor_id n)
         \<and> wanted_value (cf_product_id f) (cn_product_id n)
         \<and> wanted_value (cf_device_type f) (cn_device_type n))"

text \<open>\<open>browsed\<close>: the packets the browse received, or why it could not browse; then the actor is asked.\<close>

definition discover ::
  "string + bytes list \<Rightarrow> (commissionable_filter \<Rightarrow> u32 \<Rightarrow> nat \<Rightarrow> api_error + commissionable_node list)
   \<Rightarrow> args \<Rightarrow> server \<Rightarrow> server \<times> api_result" where
  "discover browsed ask_actor a s = (s, bind_res (discovery_filter a) (\<lambda>f.
     let found = (\<lambda>ns. JArr (map commissionable_to_value ns)) in
     case browsed of
       Inl _ \<Rightarrow> map_res found (ask_actor f discovery_timeout_ms discovery_limit)
     | Inr packets \<Rightarrow> Inr (found (filter (\<lambda>n. matches_filter n f)
         (map commissionable_node_of (browse_result commissionable_service packets))))))"

subsection \<open>One attempt\<close>

record attempt =
  tr_io :: bool
  tr_commission :: "commission_target \<Rightarrow> u32 \<Rightarrow> u64 \<Rightarrow> api_error + (u64 \<times> string \<times> u8)"
  tr_now :: string
  tr_saved :: "string + unit"
  tr_fabric :: "api_error + fabric_info"
  tr_mdns :: "u64 \<Rightarrow> u64 \<Rightarrow> string list"
  tr_invoke :: invoke_op
  tr_interview :: "u64 \<Rightarrow> api_error + attributes_data"
  tr_interviewed_at :: string
  tr_interview_saved :: "string + unit"

definition commissioned_node :: "string \<Rightarrow> u64 \<Rightarrow> string \<Rightarrow> u8 \<Rightarrow> stored_node" where
  "commissioned_node now n address index =
     (stored_new (node_new n now))\<lparr>sn_ip_addresses := (if address = [] then [] else [address]),
        sn_device_fabric_index := Some index\<rparr>"

text \<open>The device is told the fabric's label; its answer is only logged.\<close>

definition first_interview :: "attempt \<Rightarrow> u64 \<Rightarrow> server \<Rightarrow> server \<times> (api_error + matter_node_data)" where
  "first_interview T n s =
     (let told = push_fabric_label (tr_invoke T) n (cd_fabric_label (cs_data (srv_config s))) in
      case tr_interview T n of
        Inr attrs \<Rightarrow> apply_interview (tr_interviewed_at T) (tr_interview_saved T) n attrs s
      | Inl _ \<Rightarrow> (s, ok_or (err_node_not_exists n) (ns_get (srv_nodes s) n)))"

definition adopt_node :: "attempt \<Rightarrow> u64 \<Rightarrow> string \<Rightarrow> u8 \<Rightarrow> server \<Rightarrow> server \<times> api_result" where
  "adopt_node T n address index s =
     (let s1 = request_save SaveAtOnce
            (with_nodes (\<lambda>ns. ns_upsert ns (commissioned_node (tr_now T) n address index)) s) in
      case tr_saved T of
        Inl e \<Rightarrow> (s1, Inl (err_sdk (''Failed to persist the new node: '' @ e)))
      | Inr _ \<Rightarrow>
          (let s2 = (if ns_ip_addresses (srv_nodes s1) n = []
                     then fst (resolve_addresses (tr_fabric T) (tr_mdns T) n s1) else s1) in
           case first_interview T n s2 of
             (s3, Inl e) \<Rightarrow> (s3, Inl e)
           | (s3, Inr d) \<Rightarrow> (publish (ev_node_added d) s3, Inr (node_to_value d))))"

definition commission :: "attempt \<Rightarrow> commission_target \<Rightarrow> u32 \<Rightarrow> server \<Rightarrow> server \<times> api_result" where
  "commission T target passcode s =
     (case allocate_node_id (tr_io T) (srv_config s) of
        (cs, Inl e) \<Rightarrow> (s\<lparr>srv_config := cs\<rparr>, Inl (err_sdk (''Failed to allocate a node id: '' @ e)))
      | (cs, Inr i) \<Rightarrow>
          (let s1 = s\<lparr>srv_config := cs\<rparr> in
           case tr_commission T target passcode i of
             Inl e \<Rightarrow> (s1, Inl e)
           | Inr (n, address, index) \<Rightarrow> adopt_node T n address index s1))"

subsection \<open>Commissioning by code and on the network\<close>

definition network_credentials_of :: "config_data \<Rightarrow> network_credentials" where
  "network_credentials_of d =
     \<lparr>nc_wifi = map_option (\<lambda>(ssid, password). \<lparr>wk_ssid = ssid, wk_password = password\<rparr>) (wifi_credentials None d),
      nc_thread = opt_bind (thread_dataset None d) (\<lambda>hex.
        opt_bind (decode hex) (\<lambda>decoded.
        opt_bind (from_hex hex) (\<lambda>dataset.
          map_option (\<lambda>ext. \<lparr>tk_dataset = dataset, tk_ext_pan_id = ext\<rparr>) (ext_pan_id_bytes decoded))))\<rparr>"

definition code_request :: "pairing_lib \<Rightarrow> args \<Rightarrow> api_error + (bool \<times> pairing_info)" where
  "code_request lib a =
     bind_res (args_req_str a ''code'') (\<lambda>code.
     bind_res (args_bool_or a ''network_only'' False) (\<lambda>network_only.
       map_res (Pair network_only) (parse_pairing_code lib code)))"

definition commission_with_code ::
  "pairing_lib \<Rightarrow> attempt \<Rightarrow> attempt \<Rightarrow> args \<Rightarrow> server \<Rightarrow> server \<times> api_result" where
  "commission_with_code lib T1 T2 a s =
     (case code_request lib a of
        Inl e \<Rightarrow> (s, Inl e)
      | Inr (network_only, pairing) \<Rightarrow>
          (let bluetooth = (\<not> network_only \<and> ri_bluetooth_enabled (srv_runtime s));
               credentials = network_credentials_of (cs_data (srv_config s))
           in case commission T1 (TargetDiscovered (pi_filter pairing) discovery_timeout_ms) (pi_passcode pairing) s of
                (s1, Inr v) \<Rightarrow> (s1, Inr v)
              | (s1, Inl e) \<Rightarrow>
                  if bluetooth
                  then commission T2 (TargetBluetooth (pi_filter pairing) bluetooth_scan_timeout_secs (Some credentials))
                         (pi_passcode pairing) s1
                  else (s1, Inl e)))"

definition network_target :: "args \<Rightarrow> api_error + commission_target" where
  "network_target a =
     bind_res (args_str a ''ip_addr'') (\<lambda>given.
       case opt_filter (\<lambda>address. address \<noteq> []) given of
         Some address \<Rightarrow> Inr (TargetAddress address)
       | None \<Rightarrow> map_res (\<lambda>f. TargetDiscovered f discovery_timeout_ms) (discovery_filter a))"

definition commission_on_network :: "attempt \<Rightarrow> args \<Rightarrow> server \<Rightarrow> server \<times> api_result" where
  "commission_on_network T a s =
     (case bind_res (args_req_u32 a ''setup_pin_code'') (\<lambda>passcode. map_res (Pair passcode) (network_target a)) of
        Inl e \<Rightarrow> (s, Inl e)
      | Inr (passcode, target) \<Rightarrow> commission T target passcode s)"

subsection \<open>The window for another controller\<close>

definition forbidden_passcodes :: "u32 list" where
  "forbidden_passcodes = [0, 11111111, 22222222, 33333333, 44444444, 55555555, 66666666, 77777777, 88888888,
     99999999, 12345678, 87654321]"

definition candidate_passcode :: "u32 \<Rightarrow> u32" where
  "candidate_passcode draw = draw mod 99999999"

definition passcode_allowed :: "u32 \<Rightarrow> bool" where
  "passcode_allowed c = (c \<noteq> 0 \<and> c \<notin> set forbidden_passcodes)"

text \<open>Draws are taken until one is allowed.\<close>

partial_function (option) random_passcode :: "(nat \<Rightarrow> u32) \<Rightarrow> nat \<Rightarrow> u32 option" where
  "random_passcode draws i =
     (let c = candidate_passcode (draws i) in if passcode_allowed c then Some c else random_passcode draws (Suc i))"

definition random_discriminator :: "u32 \<Rightarrow> u16" where
  "random_discriminator draw = ucast (and draw 0xFFF)"

record commissioning_parameters =
  cp_setup_pin_code :: u32
  cp_setup_manual_code :: string
  cp_setup_qr_code :: string

definition parameters_to_value :: "commissioning_parameters \<Rightarrow> json" where
  "parameters_to_value p = jobj [(''setup_pin_code'', jword (cp_setup_pin_code p)),
     (''setup_manual_code'', JStr (cp_setup_manual_code p)), (''setup_qr_code'', JStr (cp_setup_qr_code p))]"

record code_lib =
  kl_manual :: "u32 \<Rightarrow> u16 \<Rightarrow> string"
  kl_qr :: "u32 \<Rightarrow> u16 \<Rightarrow> u16 \<Rightarrow> u16 \<Rightarrow> string \<Rightarrow> rs_code + string"

definition pairing_codes :: "code_lib \<Rightarrow> server \<Rightarrow> u64 \<Rightarrow> u32 \<Rightarrow> u16 \<Rightarrow> api_error + commissioning_parameters" where
  "pairing_codes lib s n passcode discriminator =
     bind_res (ok_or (err_node_not_exists n) (ns_get (srv_nodes s) n)) (\<lambda>node.
       let ident = (\<lambda>path. ucast (unwrap_or (opt_bind (bt_get (nd_attributes node) path) as_u64) 0));
           serial = unwrap_or (basic_info_string node 15) []
       in map_res (\<lambda>qr. \<lparr>cp_setup_pin_code = passcode, cp_setup_manual_code = kl_manual lib passcode discriminator,
              cp_setup_qr_code = qr\<rparr>)
            (map_err (\<lambda>c. err_sdk (''Could not build the QR code: '' @ code_debug c))
              (kl_qr lib passcode discriminator (ident ''0/40/2'') (ident ''0/40/4'') serial)))"

record window_answers =
  wa_discriminator :: u32
  wa_passcodes :: "nat \<Rightarrow> u32"
  wa_salt :: bytes
  wa_verifier :: "u32 \<Rightarrow> bytes \<Rightarrow> u32 \<Rightarrow> api_error + bytes"
  wa_invoke :: invoke_op
  wa_codes :: code_lib

record window_order =
  wo_node :: u64
  wo_timeout :: u64
  wo_iterations :: u32
  wo_discriminator :: u16

definition window_order_of :: "u32 \<Rightarrow> args \<Rightarrow> server \<Rightarrow> api_error + window_order" where
  "window_order_of draw a s =
     bind_res (require_node a s) (\<lambda>n.
     bind_res (map_res (\<lambda>t. unwrap_or t default_window_secs) (args_u64 a ''timeout'')) (\<lambda>timeout.
       if \<not> (180 \<le> timeout \<and> timeout \<le> 900)
       then Inl (err_invalid_args ''timeout must be between 180 and 900 seconds'')
       else
     bind_res (map_res (\<lambda>i. unwrap_or i default_iterations) (args_u32 a ''iteration'')) (\<lambda>iterations.
     bind_res (bind_res (args_u16 a ''discriminator'') (\<lambda>given. case given of
         None \<Rightarrow> Inr (random_discriminator draw)
       | Some v \<Rightarrow> if v < 4096 then Inr v else Inl (err_invalid_args ''discriminator must be a 12-bit value''))) (\<lambda>disc.
       Inr \<lparr>wo_node = n, wo_timeout = timeout, wo_iterations = iterations, wo_discriminator = disc\<rparr>))))"

definition window_payload :: "window_order \<Rightarrow> bytes \<Rightarrow> bytes \<Rightarrow> tlv_node" where
  "window_payload w verifier salt = NStruct [(0, NU64 (wo_timeout w)), (1, NBytes verifier),
     (2, NU64 (ucast (wo_discriminator w))), (3, NU64 (ucast (wo_iterations w))), (4, NBytes salt)]"

text \<open>\<open>None\<close> while no allowed passcode has been drawn.\<close>

definition open_commissioning_window ::
  "window_answers \<Rightarrow> args \<Rightarrow> server \<Rightarrow> server \<times> api_result option" where
  "open_commissioning_window W a s = (s,
     case window_order_of (wa_discriminator W) a s of
       Inl e \<Rightarrow> Some (Inl e)
     | Inr w \<Rightarrow> map_option (\<lambda>passcode.
         bind_res (wa_verifier W passcode (wa_salt W) (wo_iterations w)) (\<lambda>verifier.
         bind_res (wa_invoke W (wo_node w) 0 administrator_commissioning_cluster open_commissioning_window_command
             (window_payload w verifier (wa_salt W)) (Some window_timed_timeout_ms) []) (\<lambda>_.
           map_res parameters_to_value
             (pairing_codes (wa_codes W) s (wo_node w) passcode (wo_discriminator w)))))
         (random_passcode (wa_passcodes W) 0))"

subsection \<open>Frames\<close>

lemma fabric_info_frame:
  "fabric_info_of asked s = (s', r) \<Longrightarrow> srv_nodes s' = srv_nodes s \<and> srv_published s' = srv_published s
     \<and> srv_config s' = srv_config s"
  by (auto simp: fabric_info_of_def split: option.splits sum.splits)

lemma server_config_frames [simp]:
  "srv_config (publish e s) = srv_config s" "srv_config (request_save q s) = srv_config s"
  "srv_config (with_nodes f s) = srv_config s" "srv_config (publish_all es s) = srv_config s"
proof -
  show publish: "srv_config (publish e s) = srv_config s" for e s by (simp add: publish_def)
  show "srv_config (publish_all es s) = srv_config s"
    unfolding publish_all_def by (induction es arbitrary: s) (simp_all add: publish)
qed (simp_all add: request_save_def with_nodes_def)

text \<open>Only the addresses of the node itself can change.\<close>

lemma resolve_frame:
  "resolve_addresses asked mdns n s = (s', r) \<Longrightarrow>
     srv_published s' = srv_published s \<and> srv_config s' = srv_config s
     \<and> (\<exists>as. srv_nodes s' = srv_nodes s \<or> srv_nodes s' = ns_set_ip_addresses (srv_nodes s) n as)"
  by (auto simp: resolve_addresses_def Let_def dest!: fabric_info_frame split: if_splits sum.splits prod.splits)

lemma set_ip_stored:
  "ns_get_stored (ns_set_ip_addresses ns n as) k =
     (if k = n then map_option (\<lambda>d. d\<lparr>sn_ip_addresses := as\<rparr>) (ns_get_stored ns n) else ns_get_stored ns k)"
  by (simp add: ns_set_ip_addresses_def ns_get_stored_def bt_get_update)

lemma interview_applied:
  assumes "apply_interview now saved n attrs s = (s', Inr d)"
  shows "srv_config s' = srv_config s
    \<and> (\<exists>diff. srv_published s' = srv_published s @ diff_events n diff \<and> df_node diff = d)
    \<and> (\<exists>node. ns_get_stored (srv_nodes s) n = Some node
        \<and> ns_get_stored (srv_nodes s') n = Some (with_data (\<lambda>_. d) node) \<and> nd_node_id d = nd_node_id (sn_data node))
    \<and> (\<forall>k. k \<noteq> n \<longrightarrow> ns_get_stored (srv_nodes s') k = ns_get_stored (srv_nodes s) k)"
  using assms
  by (auto simp: apply_interview_def ns_apply_interview_def Let_def ns_get_stored_def bt_get_update
      split: option.splits sum.splits)

lemma apply_interview_failed:
  "apply_interview now saved n attrs s = (s', Inl e) \<Longrightarrow> srv_published s' = srv_published s \<and> srv_config s' = srv_config s"
  by (auto simp: apply_interview_def Let_def split: option.splits sum.splits prod.splits)

lemma first_interview_ok:
  assumes "first_interview T n s = (s', Inr d)" and "ns_get_stored (srv_nodes s) n = Some node"
    and "nd_node_id (sn_data node) = n"
  shows "srv_config s' = srv_config s \<and> nd_node_id d = n
    \<and> ns_get_stored (srv_nodes s') n = Some (with_data (\<lambda>_. d) node)
    \<and> (\<forall>k. k \<noteq> n \<longrightarrow> ns_get_stored (srv_nodes s') k = ns_get_stored (srv_nodes s) k)
    \<and> (\<exists>before. srv_published s' = srv_published s @ before
        \<and> (before = [] \<or> (\<exists>diff. before = diff_events n diff \<and> df_node diff = d)))"
proof (cases "tr_interview T n")
  case (Inl e)
  then have "s' = s" "sn_data node = d"
    using assms by (auto simp: first_interview_def res_simps ns_get_def ns_get_stored_def)
  then show ?thesis using assms(2,3) by (auto simp: with_data_def)
next
  case (Inr attrs)
  then have "apply_interview (tr_interviewed_at T) (tr_interview_saved T) n attrs s = (s', Inr d)"
    using assms(1) by (simp add: first_interview_def)
  from interview_applied [OF this] assms(2,3) show ?thesis by auto
qed

lemma first_interview_failed:
  "first_interview T n s = (s', Inl e) \<Longrightarrow> srv_published s' = srv_published s \<and> srv_config s' = srv_config s"
  by (auto simp: first_interview_def dest: apply_interview_failed split: sum.splits)

text \<open>The node as it is adopted: stored, and with addresses once one was resolved.\<close>

definition adopted :: "attempt \<Rightarrow> u64 \<Rightarrow> string \<Rightarrow> u8 \<Rightarrow> server \<Rightarrow> server" where
  "adopted T n address index s =
     request_save SaveAtOnce (with_nodes (\<lambda>ns. ns_upsert ns (commissioned_node (tr_now T) n address index)) s)"

definition adopted_resolved :: "attempt \<Rightarrow> u64 \<Rightarrow> string \<Rightarrow> u8 \<Rightarrow> server \<Rightarrow> server" where
  "adopted_resolved T n address index s =
     (let s1 = adopted T n address index s in
      if ns_ip_addresses (srv_nodes s1) n = [] then fst (resolve_addresses (tr_fabric T) (tr_mdns T) n s1) else s1)"

lemma adopt_node_unfold:
  "adopt_node T n address index s =
     (case tr_saved T of
        Inl e \<Rightarrow> (adopted T n address index s, Inl (err_sdk (''Failed to persist the new node: '' @ e)))
      | Inr _ \<Rightarrow>
          (case first_interview T n (adopted_resolved T n address index s) of
             (s3, Inl e) \<Rightarrow> (s3, Inl e)
           | (s3, Inr d) \<Rightarrow> (publish (ev_node_added d) s3, Inr (node_to_value d))))"
  unfolding adopt_node_def adopted_def adopted_resolved_def Let_def by (rule refl)

lemma adopted_frame:
  "srv_published (adopted T n address index s) = srv_published s \<and> srv_config (adopted T n address index s) = srv_config s
   \<and> ns_get_stored (srv_nodes (adopted T n address index s)) k =
     (if k = n then Some (commissioned_node (tr_now T) n address index) else ns_get_stored (srv_nodes s) k)"
  by (simp add: adopted_def ns_upsert_def ns_get_stored_def bt_get_insert_raw commissioned_node_def stored_new_def node_new_def)

lemma adopted_resolved_frame:
  "srv_published (adopted_resolved T n address index s) = srv_published s
   \<and> srv_config (adopted_resolved T n address index s) = srv_config s
   \<and> (\<exists>as. ns_get_stored (srv_nodes (adopted_resolved T n address index s)) n =
        Some ((commissioned_node (tr_now T) n address index)\<lparr>sn_ip_addresses := as\<rparr>))
   \<and> (\<forall>k. k \<noteq> n \<longrightarrow> ns_get_stored (srv_nodes (adopted_resolved T n address index s)) k = ns_get_stored (srv_nodes s) k)"
proof -
  let ?s1 = "adopted T n address index s" and ?node = "commissioned_node (tr_now T) n address index"
  note s1 = adopted_frame [of T n address index s]
  obtain t r where r: "resolve_addresses (tr_fabric T) (tr_mdns T) n ?s1 = (t, r)" by force
  from resolve_frame [OF r] r s1 show ?thesis
    by (auto simp: adopted_resolved_def Let_def set_ip_stored intro: exI [of _ "sn_ip_addresses ?node"])
qed

subsection \<open>Properties of commissioning\<close>

lemma commission_announces_last_core:
  assumes "commission T target passcode s = (s', Inr v)"
  shows "\<exists>i n address index d before.
    allocate_node_id (tr_io T) (srv_config s) = (srv_config s', Inr i)
    \<and> tr_commission T target passcode i = Inr (n, address, index)
    \<and> ns_get (srv_nodes s') n = Some d \<and> nd_node_id d = n \<and> v = node_to_value d
    \<and> map_option sn_device_fabric_index (ns_get_stored (srv_nodes s') n) = Some (Some index)
    \<and> (\<forall>k. k \<noteq> n \<longrightarrow> ns_get_stored (srv_nodes s') k = ns_get_stored (srv_nodes s) k)
    \<and> srv_published s' = srv_published s @ before @ [ev_node_added d]
    \<and> (before = [] \<or> (\<exists>diff. before = diff_events n diff \<and> df_node diff = d))"
proof -
  obtain cs i n address index where a: "allocate_node_id (tr_io T) (srv_config s) = (cs, Inr i)"
    and c: "tr_commission T target passcode i = Inr (n, address, index)"
    and ad: "adopt_node T n address index (s\<lparr>srv_config := cs\<rparr>) = (s', Inr v)"
    using assms by (auto simp: commission_def Let_def split: sum.splits prod.splits)
  let ?s2 = "adopted_resolved T n address index (s\<lparr>srv_config := cs\<rparr>)"
    and ?node = "commissioned_node (tr_now T) n address index"
  obtain s3 d where i3: "first_interview T n ?s2 = (s3, Inr d)" and s': "s' = publish (ev_node_added d) s3"
    and v: "v = node_to_value d"
    using ad unfolding adopt_node_unfold by (auto split: sum.splits prod.splits)
  obtain as where s2: "srv_published ?s2 = srv_published s" "srv_config ?s2 = cs"
    "ns_get_stored (srv_nodes ?s2) n = Some (?node\<lparr>sn_ip_addresses := as\<rparr>)"
    "\<forall>k. k \<noteq> n \<longrightarrow> ns_get_stored (srv_nodes ?s2) k = ns_get_stored (srv_nodes s) k"
    using adopted_resolved_frame [of T n address index "s\<lparr>srv_config := cs\<rparr>"] by auto
  have "nd_node_id (sn_data (?node\<lparr>sn_ip_addresses := as\<rparr>)) = n"
    by (simp add: commissioned_node_def stored_new_def node_new_def)
  from first_interview_ok [OF i3 s2(3) this] s2 s' obtain before where f:
    "srv_config s' = cs" "nd_node_id d = n"
    "ns_get_stored (srv_nodes s') n = Some (with_data (\<lambda>_. d) (?node\<lparr>sn_ip_addresses := as\<rparr>))"
    "\<forall>k. k \<noteq> n \<longrightarrow> ns_get_stored (srv_nodes s') k = ns_get_stored (srv_nodes s) k"
    "srv_published s' = srv_published s @ before @ [ev_node_added d]"
    "before = [] \<or> (\<exists>diff. before = diff_events n diff \<and> df_node diff = d)"
    by auto
  have "ns_get (srv_nodes s') n = Some d" using f(3) by (simp add: ns_get_def ns_get_stored_def with_data_def)
  moreover have "map_option sn_device_fabric_index (ns_get_stored (srv_nodes s') n) = Some (Some index)"
    using f(3) by (simp add: with_data_def commissioned_node_def)
  ultimately show ?thesis using a c v f by blast
qed



subsection \<open>Properties of the window\<close>

lemma candidate_passcode_le: "candidate_passcode d \<le> 99999998"
proof -
  have "unat (d mod 99999999) < 99999999" by (simp add: unat_mod)
  then have "unat (d mod 99999999) \<le> unat (99999998 :: u32)" by simp
  then show ?thesis by (simp add: candidate_passcode_def word_le_nat_alt)
qed

lemma random_passcode_sound: "random_passcode draws i = Some c \<Longrightarrow> \<exists>j. i \<le> j \<and> c = candidate_passcode (draws j) \<and> passcode_allowed c"
proof (rule random_passcode.raw_induct [where P = "\<lambda>draws i c. \<exists>j. i \<le> j \<and> c = candidate_passcode (draws j) \<and> passcode_allowed c"])
  fix f :: "(nat \<Rightarrow> u32) \<Rightarrow> nat \<Rightarrow> u32 option" and draws :: "nat \<Rightarrow> u32" and i :: nat and c
  assume IH: "\<And>draws i c. f draws i = Some c \<Longrightarrow> \<exists>j. i \<le> j \<and> c = candidate_passcode (draws j) \<and> passcode_allowed c"
    and run: "(let c = candidate_passcode (draws i) in if passcode_allowed c then Some c else f draws (Suc i)) = Some c"
  show "\<exists>j. i \<le> j \<and> c = candidate_passcode (draws j) \<and> passcode_allowed c"
  proof (cases "passcode_allowed (candidate_passcode (draws i))")
    case True
    then show ?thesis using run by auto
  next
    case False
    then have "f draws (Suc i) = Some c" using run by (simp add: Let_def)
    from IH [OF this] show ?thesis by (auto dest: Suc_leD)
  qed
qed

lemma random_passcode_found:
  "passcode_allowed (candidate_passcode (draws (i + k))) \<Longrightarrow> \<exists>c. random_passcode draws i = Some c"
proof (induction k arbitrary: i)
  case 0
  then show ?case by (subst random_passcode.simps) (simp add: Let_def)
next
  case (Suc k)
  from Suc.IH [of "Suc i"] Suc.prems show ?case by (subst random_passcode.simps) (auto simp: Let_def)
qed

text \<open>Drawing a passcode ends exactly when some draw gives an allowed one, and what it returns is a valid
  setup passcode: 1 to 99999998 and none of the forbidden ones.\<close>

theorem passcode_drawn:
  "((\<exists>c. random_passcode draws 0 = Some c) \<longleftrightarrow> (\<exists>j. passcode_allowed (candidate_passcode (draws j))))
    \<and> (\<forall>c. random_passcode draws 0 = Some c \<longrightarrow> 1 \<le> c \<and> c \<le> 99999998 \<and> c \<notin> set forbidden_passcodes)"
proof (intro conjI allI impI)
  show "(\<exists>c. random_passcode draws 0 = Some c) \<longleftrightarrow> (\<exists>j. passcode_allowed (candidate_passcode (draws j)))"
    using random_passcode_sound [of draws 0] random_passcode_found [of draws 0] by fastforce
next
  fix c
  assume "random_passcode draws 0 = Some c"
  from random_passcode_sound [OF this] have c: "passcode_allowed c" "c \<le> 99999998"
    using candidate_passcode_le by auto
  then show "c \<le> 99999998" "c \<notin> set forbidden_passcodes" by (simp_all add: passcode_allowed_def)
  show "1 \<le> c" using c(1) by (simp add: passcode_allowed_def word_le_nat_alt Suc_le_eq unat_gt_0)
qed

theorem passcode_drawn_witness:
  "\<exists>c. random_passcode (\<lambda>i. if i = 0 then 99999999 else 20202021) 0 = Some c \<and> 1 \<le> c \<and> c \<le> 99999998"
proof -
  let ?draws = "\<lambda>i :: nat. if i = 0 then 99999999 else 20202021 :: u32"
  have "passcode_allowed (candidate_passcode (?draws 1))"
    by (simp add: passcode_allowed_def candidate_passcode_def forbidden_passcodes_def)
  then show ?thesis using passcode_drawn [of ?draws] by blast
qed

lemma random_discriminator_12_bit: "random_discriminator draw < 4096"
proof -
  have "and draw 0xFFF = take_bit 12 draw" by (simp add: take_bit_eq_mask mask_eq_exp_minus_1)
  then have "unat (and draw 0xFFF) < 4096"
    using take_bit_nat_less_exp [of 12 "unat draw"] by (simp add: unsigned_take_bit_eq)
  then have "unat (ucast (and draw 0xFFF) :: u16) < 4096"
    unfolding unsigned_ucast_eq by (rule le_less_trans [OF take_bit_nat_less_eq_self])
  then show ?thesis by (simp add: random_discriminator_def word_less_nat_alt)
qed

lemma window_order_ok:
  assumes "window_order_of draw a s = Inr w"
  shows "ns_contains (srv_nodes s) (wo_node w) \<and> 180 \<le> wo_timeout w \<and> wo_timeout w \<le> 900 \<and> wo_discriminator w < 4096"
  using assms random_discriminator_12_bit [of draw]
  by (auto simp: window_order_of_def require_node_def res_simps split: if_splits option.splits)


subsection \<open>The whole path to a network\<close>

lemma actor_call_commissioned:
  "actor_call K m (OpCommission t passcode i) = Inr out \<Longrightarrow> \<exists>m'. actor_commission K t passcode i m = (m', Inr out)"
  by (cases "actor_commission K t passcode i m")
    (auto simp: actor_call_def matter_call_def execute_op_def split: option.splits sum.splits)


subsection \<open>Witnesses\<close>

definition sample_attempt :: attempt where
  "sample_attempt = \<lparr>tr_io = True, tr_commission = (\<lambda>_ _ i. Inr (i, ''192.0.2.5'', 1)), tr_now = ''t'',
     tr_saved = Inr (), tr_fabric = Inl (err_sdk []), tr_mdns = (\<lambda>_ _. []),
     tr_invoke = (\<lambda>_ _ _ _ _ _ _. Inl (err_sdk [])), tr_interview = (\<lambda>n. Inl (err_node_not_exists n)),
     tr_interviewed_at = ''t'', tr_interview_saved = Inr ()\<rparr>"

definition wifi_server :: server where
  "wifi_server = server_new []
     (config_in_memory\<lparr>cs_data := config_default\<lparr>cd_wifi_ssid := Some ''net'', cd_wifi_credentials := Some ''key''\<rparr>\<rparr>)
     ((runtime_default [])\<lparr>ri_bluetooth_enabled := True\<rparr>) []"

lemma sample_allocation:
  "\<exists>cs i. allocate_node_id True (srv_config wifi_server) = (cs, Inr i)"
  by (simp add: allocate_node_id_def config_mutate_def config_save_def wifi_server_def server_new_def config_in_memory_def Let_def)

lemma sample_adoption:
  assumes "tr_commission T target passcode i = Inr (n, address, index)" and "tr_io T = True" and "tr_saved T = Inr ()"
    and "tr_interview T n = Inl (err_node_not_exists n)"
    and "allocate_node_id True (srv_config s) = (cs, Inr i)"
  shows "\<exists>s' v. commission T target passcode s = (s', Inr v)"
proof -
  let ?s2 = "adopted_resolved T n address index (s\<lparr>srv_config := cs\<rparr>)"
  from adopted_resolved_frame [of T n address index "s\<lparr>srv_config := cs\<rparr>"] obtain node where
    "ns_get_stored (srv_nodes ?s2) n = Some node" by blast
  then have "first_interview T n ?s2 = (?s2, Inr (sn_data node))"
    using assms(4) by (simp add: first_interview_def ns_get_def ns_get_stored_def ok_or_def)
  then show ?thesis using assms by (simp add: commission_def adopt_node_unfold)
qed



definition sample_window :: window_answers where
  "sample_window = \<lparr>wa_discriminator = 0, wa_passcodes = (\<lambda>_. 20202021), wa_salt = replicate 32 0,
     wa_verifier = compute_verifier toy_crypto, wa_invoke = (\<lambda>_ _ _ _ _ _ _. Inr JNull),
     wa_codes = \<lparr>kl_manual = (\<lambda>_ _. ''34970112332''), kl_qr = (\<lambda>_ _ _ _ _. Inr ''MT:'')\<rparr>\<rparr>"

definition window_server :: server where
  "window_server = server_new [(7, stored_new (node_new 7 ''t''))] config_in_memory (runtime_default []) []"



definition wifi_stack :: "(nat, nat) stack" where
  "wifi_stack = sample_stack\<lparr>sk_bluetooth := True, sk_ble_scan := (\<lambda>_ _. Inr ''C0:01''),
     sk_commissioner := (\<lambda>_. sample_commissioner\<lparr>cm_network := radio_device\<lparr>dv_features :=
       Inr \<lparr>nf_wifi = True, nf_thread = False, nf_ethernet = False, nf_debug = ''WIFI''\<rparr>\<rparr>\<rparr>)\<rparr>"

definition code_attempt :: attempt where
  "code_attempt = sample_attempt\<lparr>tr_commission := handle_commission (\<lambda>_. []) (actor_call wifi_stack sample_table)\<rparr>"

definition sample_code_lib :: pairing_lib where
  "sample_code_lib = \<lparr>pl_qr = (\<lambda>_. Inl NotFound), pl_manual = (\<lambda>_. Inr \<lparr>pi_passcode = 20202021, pi_filter = filter_default\<rparr>)\<rparr>"

lemma wifi_credentials_of_server:
  "network_credentials_of (cs_data (srv_config wifi_server))
     = \<lparr>nc_wifi = Some \<lparr>wk_ssid = ''net'', wk_password = ''key''\<rparr>, nc_thread = None\<rparr>"
  by code_simp

lemma sample_code_joined:
  "tr_commission code_attempt (TargetBluetooth filter_default 30 (Some (network_credentials_of (cs_data (srv_config wifi_server)))))
     20202021 i = Inr (i, [], 2)"
  unfolding wifi_credentials_of_server
  by (simp add: code_attempt_def handle_commission_def actor_call_def matter_call_def execute_op_def fabric_index_def
      sample_table_def actor_commission_def commission_over_ble_def wifi_stack_def sample_stack_def ble_open_def ble_scan_def
      commission_at_address_def sample_commissioner_def radio_device_def provision_network_def pase_exchange_def
      send_command_def connect_network_def run_then_def check_network_status_def commissioned_at_peer_def store_fabric_def
      persist_fabric_def plain_lib_def plain_fabric_def empty_disk_def map_prod_Some res_simps)




end
