(* ===== verification/Webrtc.thy ===== *)
theory Webrtc
  imports Interaction_Api
begin

section \<open>WebRTC signalling (\<open>api/webrtc.rs\<close>, \<open>matter/webrtc.rs\<close>)\<close>

text \<open>
  The two halves of a camera negotiation: the client's command to the camera's provider cluster, and the
  camera's invokes on the requestor cluster this server hosts, each relayed as an event. A request is
  what rs-matter's accessors give for its fields, each of which may fail to read; the subject that
  authenticated can only be matched against a node id.
\<close>

definition webrtc_provider_cluster :: u32 where "webrtc_provider_cluster = 0x0553"
definition webrtc_requestor_endpoint :: u16 where "webrtc_requestor_endpoint = 0"

definition negotiation_commands :: "string list" where
  "negotiation_commands = [''ProvideOffer'', ''SolicitOffer'']"

subsection \<open>The client's half\<close>

definition unknown_provider_command :: "string \<Rightarrow> api_error" where
  "unknown_provider_command name = err_invalid_args (''Unknown WebRTC provider command '' @ quoted name
     @ ''; expected one of '' @ join_with '', '' negotiation_commands)"

definition send_provider_command ::
  "invoke_op \<Rightarrow> (string \<Rightarrow> bytes option) \<Rightarrow> cluster_registry \<Rightarrow> args \<Rightarrow> server \<Rightarrow> server \<times> api_result" where
  "send_provider_command invoke dec reg a s = (s,
     bind_res (require_node a s) (\<lambda>n.
     bind_res (args_req_u16 a ''endpoint_id'') (\<lambda>endpoint.
     bind_res (args_req_str a ''command_name'') (\<lambda>name.
       let payload = unwrap_or (args_value a ''payload'') JNull in
       if \<not> list_ex (\<lambda>allowed. eq_ignore_ascii_case allowed name) negotiation_commands
       then Inl (unknown_provider_command name)
       else
     bind_res (ok_or (err_sdk ''This build has no metadata for the WebRTC Transport Provider cluster'')
         (cluster reg webrtc_provider_cluster)) (\<lambda>c.
     bind_res (ok_or (err_invalid_args (''The WebRTC Transport Provider cluster has no '' @ quoted name @ '' command''))
         (cluster_command c name)) (\<lambda>m.
     bind_res (command_payload_from_json dec m payload) (\<lambda>encoded.
       invoke n endpoint webrtc_provider_cluster (cm_id m) encoded None (cm_response_fields m))))))))"

subsection \<open>The camera's half\<close>

record ice_candidate_struct =
  ca_candidate :: "rs_code + string"
  ca_sdp_mid :: "rs_code + string option"
  ca_line_index :: "rs_code + u16 option"

record offer_request =
  of_session_id :: "rs_code + u16"
  of_sdp :: "rs_code + string"
  of_ice_servers :: "rs_code + (rs_code + tlv) list option"
  of_policy :: "rs_code + string option"

record answer_request =
  an_session_id :: "rs_code + u16"
  an_sdp :: "rs_code + string"

record candidates_request =
  ic_session_id :: "rs_code + u16"
  ic_candidates :: "rs_code + (rs_code + ice_candidate_struct) list"

record end_request =
  en_session_id :: "rs_code + u16"
  en_reason :: "rs_code + u8"

record invoke_context =
  vx_fabric_index :: u8
  vx_endpoint :: u16
  vx_subject :: "rs_code + (u64 \<Rightarrow> bool)"

text \<open>Every node of the table is offered to the subject; the first it matches is the caller.\<close>

definition webrtc_caller :: "invoke_context \<Rightarrow> server \<Rightarrow> u64 option" where
  "webrtc_caller x s = opt_bind (res_ok (vx_subject x)) (\<lambda>matches.
     find matches (map nd_node_id (ns_all (srv_nodes s))))"

definition callback_data :: "invoke_context \<Rightarrow> server \<Rightarrow> u16 \<Rightarrow> string \<Rightarrow> json \<Rightarrow> json" where
  "callback_data x s session kind data = jobj [(''webrtc_session_id'', jword session),
     (''node_id'', jopt (map_option ju64 (webrtc_caller x s))), (''endpoint_id'', jword (vx_endpoint x)),
     (''fabric_index'', jword (vx_fabric_index x)), (''event_type'', JStr kind), (''data'', data)]"

definition publish_signal :: "invoke_context \<Rightarrow> u16 \<Rightarrow> string \<Rightarrow> json \<Rightarrow> server \<Rightarrow> server" where
  "publish_signal x session kind data s = publish (ev_webrtc_callback (callback_data x s session kind data)) s"

definition offer_data :: "(bytes \<Rightarrow> string) \<Rightarrow> offer_request \<Rightarrow> json" where
  "offer_data enc r =
     (case of_sdp r of
        Inl _ \<Rightarrow> JNull
      | Inr sdp \<Rightarrow>
          (let servers = (case of_ice_servers r of
                 Inr (Some ss) \<Rightarrow> [(''ice_servers'', JArr (filter_map (\<lambda>e. res_ok (to_json enc e)) (filter_map res_ok ss)))]
               | _ \<Rightarrow> []);
               policy = (case of_policy r of
                 Inr (Some p) \<Rightarrow> [(''ice_transport_policy'', JStr p)]
               | _ \<Rightarrow> [])
           in jobj ((''sdp'', JStr sdp) # servers @ policy)))"

definition ice_candidate :: "ice_candidate_struct \<Rightarrow> json" where
  "ice_candidate c = jobj [(''candidate'', JStr (unwrap_or (res_ok (ca_candidate c)) [])),
     (''sdpMid'', jopt (opt_bind (res_ok (ca_sdp_mid c)) (map_option JStr))),
     (''sdpMLineIndex'', jopt (opt_bind (res_ok (ca_line_index c)) (map_option jword)))]"

definition handle_offer ::
  "(bytes \<Rightarrow> string) \<Rightarrow> invoke_context \<Rightarrow> offer_request \<Rightarrow> server \<Rightarrow> server \<times> (rs_code + unit)" where
  "handle_offer enc x r s =
     (case of_session_id r of
        Inl e \<Rightarrow> (s, Inl e)
      | Inr session \<Rightarrow> (publish_signal x session ''offer'' (offer_data enc r) s, Inr ()))"

definition handle_answer :: "invoke_context \<Rightarrow> answer_request \<Rightarrow> server \<Rightarrow> server \<times> (rs_code + unit)" where
  "handle_answer x r s =
     (case an_session_id r of
        Inl e \<Rightarrow> (s, Inl e)
      | Inr session \<Rightarrow> (publish_signal x session ''answer''
          (case an_sdp r of Inr sdp \<Rightarrow> jobj [(''sdp'', JStr sdp)] | Inl _ \<Rightarrow> JNull) s, Inr ()))"

definition handle_ice_candidates :: "invoke_context \<Rightarrow> candidates_request \<Rightarrow> server \<Rightarrow> server \<times> (rs_code + unit)" where
  "handle_ice_candidates x r s =
     (case ic_session_id r of
        Inl e \<Rightarrow> (s, Inl e)
      | Inr session \<Rightarrow> (publish_signal x session ''ice_candidates''
          (case ic_candidates r of
             Inr cs \<Rightarrow> jobj [(''ice_candidates'', JArr (filter_map (\<lambda>c. map_option ice_candidate (res_ok c)) cs))]
           | Inl _ \<Rightarrow> JNull) s, Inr ()))"

definition handle_end :: "invoke_context \<Rightarrow> end_request \<Rightarrow> server \<Rightarrow> server \<times> (rs_code + unit)" where
  "handle_end x r s =
     (case en_session_id r of
        Inl e \<Rightarrow> (s, Inl e)
      | Inr session \<Rightarrow> (publish_signal x session ''end''
          (case en_reason r of Inr reason \<Rightarrow> jobj [(''reason'', jword reason)] | Inl _ \<Rightarrow> JNull) s, Inr ()))"

text \<open>No session is tracked here, so the list of them is empty and every index is out of range.\<close>

datatype array_read = ReadAll | ReadOne u16 | ReadNone

definition current_sessions :: "array_read \<Rightarrow> rs_code + json list option" where
  "current_sessions builder =
     (case builder of
        ReadAll \<Rightarrow> Inr (Some [])
      | ReadOne _ \<Rightarrow> Inl (OtherCode ''ConstraintError'')
      | ReadNone \<Rightarrow> Inr None)"

subsection \<open>Properties\<close>

lemma webrtc_caller_known:
  "webrtc_caller x s = Some n \<Longrightarrow> \<exists>matches. vx_subject x = Inr matches \<and> matches n
     \<and> n \<in> set (map nd_node_id (ns_all (srv_nodes s)))"
  by (cases "vx_subject x") (auto simp: webrtc_caller_def res_ok_def find_Some_iff intro: nth_mem)

lemma webrtc_caller_unknown:
  "vx_subject x = Inr matches \<Longrightarrow> webrtc_caller x s = None \<longleftrightarrow> (\<forall>n \<in> set (map nd_node_id (ns_all (srv_nodes s))). \<not> matches n)"
  by (auto simp: webrtc_caller_def res_ok_def find_None_iff)

text \<open>What every step of the camera does: it is refused, with nothing changed, exactly when its session id
  cannot be read; else one event of its session goes out, and nothing but the event stream changes.\<close>

definition relayed :: "invoke_context \<Rightarrow> rs_code + u16 \<Rightarrow> string \<Rightarrow> server \<Rightarrow> server \<times> (rs_code + unit) \<Rightarrow> bool" where
  "relayed x session kind s out =
     (case session of
        Inl e \<Rightarrow> out = (s, Inl e)
      | Inr i \<Rightarrow> (\<exists>data. out = (s\<lparr>srv_published := srv_published s
          @ [ev_webrtc_callback (callback_data x s i kind data)]\<rparr>, Inr ())))"


lemma same_letters: "eq_ignore_ascii_case a b \<Longrightarrow> normalize_name a = normalize_name b"
proof -
  have letters: "map lower_char (filter is_alphanumeric s) = filter is_alphanumeric (map lower_char s)" for s
    by (induction s) auto
  show "eq_ignore_ascii_case a b \<Longrightarrow> normalize_name a = normalize_name b"
    by (simp add: normalize_name_def letters eq_ignore_ascii_case_def to_ascii_lowercase_def)
qed

lemma cluster_command_name: "cluster_command c name = Some m \<Longrightarrow> normalize_name (cm_name m) = normalize_name name"
  by (auto simp: cluster_command_def find_named_def find_Some_iff)

text \<open>A provider command changes nothing here, and what it sends is sent to a node of the table, is one of
  the two commands that start a negotiation under its name in the table of clusters, and carries a
  payload its schema resolves.\<close>

theorem only_negotiations_sent:
  assumes "send_provider_command invoke dec reg a s = (s', Inr v)"
  shows "s' = s \<and> (\<exists>n endpoint m payload.
    ns_contains (srv_nodes s) n
    \<and> normalize_name (cm_name m) \<in> {normalize_name ''ProvideOffer'', normalize_name ''SolicitOffer''}
    \<and> (\<exists>c. cluster reg webrtc_provider_cluster = Some c \<and> m \<in> set (cl_commands c))
    \<and> command_payload_from_json dec m (unwrap_or (args_value a ''payload'') JNull) = Inr payload
    \<and> invoke n endpoint webrtc_provider_cluster (cm_id m) payload None (cm_response_fields m) = Inr v)"
proof -
  have checked: "(if \<not> b then Inl e else r) = (Inr w :: api_result) \<longleftrightarrow> b \<and> r = Inr w" for b e r w by simp
  obtain n endpoint name c m payload where parts: "require_node a s = Inr n" "s' = s"
      "list_ex (\<lambda>allowed. eq_ignore_ascii_case allowed name) negotiation_commands"
      "cluster reg webrtc_provider_cluster = Some c" "cluster_command c name = Some m"
      "command_payload_from_json dec m (unwrap_or (args_value a ''payload'') JNull) = Inr payload"
      "invoke n endpoint webrtc_provider_cluster (cm_id m) payload None (cm_response_fields m) = Inr v"
    using assms unfolding send_provider_command_def bind_res_Inr Let_def prod.inject checked ok_or_Inr by blast
  have "ns_contains (srv_nodes s) n" using parts(1) by (auto simp: require_node_def res_simps split: if_splits)
  moreover have "m \<in> set (cl_commands c)"
    using parts(5) by (auto simp: cluster_command_def find_named_def find_Some_iff)
  moreover have "normalize_name (cm_name m) \<in> {normalize_name ''ProvideOffer'', normalize_name ''SolicitOffer''}"
    using parts(3) cluster_command_name [OF parts(5)] by (auto simp: negotiation_commands_def dest: same_letters)
  ultimately show ?thesis using parts by blast
qed

definition solicit_offer :: command_meta where
  "solicit_offer = \<lparr>cm_id = 0, cm_name = ''SolicitOffer'', cm_request_fields = [(''streamUsage'', 0)],
     cm_response_fields = [(0, ''webRTCSessionID'')], cm_request_kinds = []\<rparr>"

definition camera_registry :: cluster_registry where
  "camera_registry = [(0x0553, \<lparr>cl_id = 0x0553, cl_name = ''WebRTCTransportProvider'', cl_commands = [solicit_offer],
     cl_attributes = [], cl_events = [], cl_epoch = []\<rparr>)]"

definition camera_server :: server where
  "camera_server = server_new [(7, stored_new (node_new 7 ''t''))] config_in_memory (runtime_default []) []"

definition solicit_args :: args where
  "solicit_args = jobj [(''node_id'', ju64 7), (''endpoint_id'', ju64 1), (''command_name'', JStr ''solicitoffer'')]"

theorem only_negotiations_sent_witness:
  "\<exists>v. send_provider_command (\<lambda>n e c m p t ns. Inr (ju64 n)) (\<lambda>_. None) camera_registry solicit_args camera_server
      = (camera_server, Inr v)
    \<and> (\<exists>n. ns_contains (srv_nodes camera_server) n \<and> v = ju64 n)"
proof -
  have parts: "require_node solicit_args camera_server = Inr 7" "args_req_u16 solicit_args ''endpoint_id'' = Inr 1"
    "args_req_str solicit_args ''command_name'' = Inr ''solicitoffer''" "args_value solicit_args ''payload'' = None"
    by code_simp+
  have letters: "list_ex (\<lambda>allowed. eq_ignore_ascii_case allowed ''solicitoffer'') negotiation_commands"
    "normalize_name ''SolicitOffer'' = normalize_name ''solicitoffer''"
    by code_simp+
  have run: "send_provider_command (\<lambda>n e c m p t ns. Inr (ju64 n)) (\<lambda>_. None) camera_registry solicit_args camera_server
      = (camera_server, Inr (ju64 7))"
    using parts letters
    by (simp add: send_provider_command_def cluster_def camera_registry_def bt_get_def webrtc_provider_cluster_def
        cluster_command_def find_named_def solicit_offer_def command_payload_from_json_def)
  from only_negotiations_sent [OF run] run show ?thesis by auto
qed

end
