(* ===== verification/Legacy_Nodes.thy ===== *)
theory Legacy_Nodes
  imports Json Migrate_Store
begin

section \<open>The older node list (\<open>matter/nodes.rs\<close>)\<close>

text \<open>
  A list of nodes under one mutex, looked up by id, with a snapshot on disk that is written beside the
  old one and renamed over it. The snapshot is the list it parses to; what is in the temporary file
  after a failed write is not looked at by anything.
\<close>

record node_info =
  ni_node_id :: u64
  ni_date_commissioned :: string
  ni_last_interview :: "string option"
  ni_interview_version :: u64
  ni_available :: bool
  ni_is_bridge :: bool
  ni_attributes :: json
  ni_attribute_subscriptions :: "json list"
  ni_ip_addresses :: "string list"

record legacy_store =
  lg_nodes :: "node_info list"
  lg_path :: "string option"

definition legacy_new :: legacy_store where
  "legacy_new = \<lparr>lg_nodes = [], lg_path = None\<rparr>"

text \<open>\<open>disk\<close>: nothing at the path, or what reading and parsing it gave.\<close>

definition legacy_load :: "string \<Rightarrow> (err_chain + node_info list) option \<Rightarrow> err_chain + legacy_store" where
  "legacy_load path disk = map_res (\<lambda>ns. \<lparr>lg_nodes = ns, lg_path = Some path\<rparr>)
     (case disk of None \<Rightarrow> Inr [] | Some r \<Rightarrow> r)"

definition legacy_save ::
  "err_chain + unit \<Rightarrow> err_chain + unit \<Rightarrow> legacy_store \<Rightarrow> (err_chain + node_info list) option
   \<Rightarrow> (err_chain + node_info list) option \<times> (err_chain + unit)" where
  "legacy_save written renamed s disk =
     (case lg_path s of
        None \<Rightarrow> (disk, Inr ())
      | Some _ \<Rightarrow>
          (case bind_res written (\<lambda>_. renamed) of
             Inl e \<Rightarrow> (disk, Inl e)
           | Inr _ \<Rightarrow> (Some (Inr (lg_nodes s)), Inr ())))"

fun replace_first :: "node_info \<Rightarrow> node_info list \<Rightarrow> node_info list option" where
  "replace_first n [] = None"
| "replace_first n (x # xs) =
     (if ni_node_id x = ni_node_id n then Some (n # xs) else map_option ((#) x) (replace_first n xs))"

definition legacy_add_node :: "node_info \<Rightarrow> legacy_store \<Rightarrow> legacy_store" where
  "legacy_add_node n s = s\<lparr>lg_nodes :=
     (case replace_first n (lg_nodes s) of Some ns \<Rightarrow> ns | None \<Rightarrow> lg_nodes s @ [n])\<rparr>"

definition legacy_remove_node :: "u64 \<Rightarrow> legacy_store \<Rightarrow> legacy_store \<times> bool" where
  "legacy_remove_node i s =
     (let kept = filter (\<lambda>n. ni_node_id n \<noteq> i) (lg_nodes s)
      in (s\<lparr>lg_nodes := kept\<rparr>, length kept < length (lg_nodes s)))"

definition legacy_get_all :: "legacy_store \<Rightarrow> node_info list" where
  "legacy_get_all s = lg_nodes s"

definition legacy_get_all_filtered :: "bool \<Rightarrow> legacy_store \<Rightarrow> node_info list" where
  "legacy_get_all_filtered only_available s = filter (\<lambda>n. \<not> only_available \<or> ni_available n) (lg_nodes s)"

definition legacy_get :: "u64 \<Rightarrow> legacy_store \<Rightarrow> node_info option" where
  "legacy_get i s = find (\<lambda>n. ni_node_id n = i) (lg_nodes s)"

fun mark_first :: "u64 \<Rightarrow> bool \<Rightarrow> node_info list \<Rightarrow> node_info list" where
  "mark_first i b [] = []"
| "mark_first i b (x # xs) =
     (if ni_node_id x = i then x\<lparr>ni_available := b\<rparr> # xs else x # mark_first i b xs)"

definition legacy_set_available :: "u64 \<Rightarrow> bool \<Rightarrow> legacy_store \<Rightarrow> legacy_store" where
  "legacy_set_available i b s = s\<lparr>lg_nodes := mark_first i b (lg_nodes s)\<rparr>"

subsection \<open>The list as a map\<close>

text \<open>The changes of the list, and what each is on a map from ids to nodes.\<close>

datatype legacy_change = AddNode node_info | RemoveNode u64 | SetAvailable u64 bool

fun legacy_apply :: "legacy_change \<Rightarrow> legacy_store \<Rightarrow> legacy_store" where
  "legacy_apply (AddNode n) s = legacy_add_node n s"
| "legacy_apply (RemoveNode i) s = fst (legacy_remove_node i s)"
| "legacy_apply (SetAvailable i b) s = legacy_set_available i b s"

fun map_apply :: "legacy_change \<Rightarrow> (u64 \<rightharpoonup> node_info) \<Rightarrow> (u64 \<rightharpoonup> node_info)" where
  "map_apply (AddNode n) m = m(ni_node_id n \<mapsto> n)"
| "map_apply (RemoveNode i) m = m(i := None)"
| "map_apply (SetAvailable i b) m = m(i := map_option (\<lambda>n. n\<lparr>ni_available := b\<rparr>) (m i))"

abbreviation listed_node_ids :: "legacy_store \<Rightarrow> u64 list" where
  "listed_node_ids s \<equiv> map ni_node_id (lg_nodes s)"

lemma replace_first_None: "replace_first n ns = None \<longleftrightarrow> ni_node_id n \<notin> set (map ni_node_id ns)"
  by (induction ns) auto

lemma replace_first_ids: "replace_first n ns = Some ns' \<Longrightarrow> map ni_node_id ns' = map ni_node_id ns"
  by (induction ns arbitrary: ns') (auto split: if_splits)

lemma replace_first_find:
  "replace_first n ns = Some ns' \<Longrightarrow> find (\<lambda>x. ni_node_id x = i) ns' =
     (if i = ni_node_id n then Some n else find (\<lambda>x. ni_node_id x = i) ns)"
  by (induction ns arbitrary: ns') (auto split: if_splits)

lemma find_appended: "find P (xs @ ys) = opt_or (find P xs) (find P ys)"
  by (induction xs) (auto simp: opt_or_def)

lemma find_missing: "i \<notin> set (map ni_node_id ns) \<Longrightarrow> find (\<lambda>x. ni_node_id x = i) ns = None"
  by (auto simp: find_None_iff)

lemma add_node_ids:
  "listed_node_ids (legacy_add_node n s) =
     (if ni_node_id n \<in> set (listed_node_ids s) then listed_node_ids s else listed_node_ids s @ [ni_node_id n])"
  using replace_first_None [of n "lg_nodes s"]
  by (auto simp: legacy_add_node_def dest: replace_first_ids split: option.split)

lemma add_node_get: "legacy_get i (legacy_add_node n s) = (if i = ni_node_id n then Some n else legacy_get i s)"
proof (cases "replace_first n (lg_nodes s)")
  case None
  then have "find (\<lambda>x. ni_node_id x = ni_node_id n) (lg_nodes s) = None"
    by (intro find_missing) (simp only: replace_first_None [symmetric])
  with None show ?thesis by (auto simp: legacy_get_def legacy_add_node_def find_appended opt_or_def split: option.split)
next
  case (Some ns)
  then show ?thesis using replace_first_find [OF Some, of i] by (simp add: legacy_get_def legacy_add_node_def)
qed

lemma remove_node_get: "legacy_get i (fst (legacy_remove_node j s)) = (if i = j then None else legacy_get i s)"
proof -
  have kept: "find (\<lambda>x. ni_node_id x = i) (filter (\<lambda>n. ni_node_id n \<noteq> j) ns)
      = (if i = j then None else find (\<lambda>x. ni_node_id x = i) ns)" for ns
    by (induction ns) auto
  have list: "lg_nodes (fst (legacy_remove_node j s)) = filter (\<lambda>n. ni_node_id n \<noteq> j) (lg_nodes s)"
    by (simp add: legacy_remove_node_def Let_def)
  show ?thesis unfolding legacy_get_def list by (rule kept)
qed

lemma mark_first_ids [simp]: "map ni_node_id (mark_first i b ns) = map ni_node_id ns"
  by (induction ns) auto

lemma set_available_get:
  "legacy_get i (legacy_set_available j b s) =
     (if i = j then map_option (\<lambda>n. n\<lparr>ni_available := b\<rparr>) (legacy_get j s) else legacy_get i s)"
proof -
  have marked: "find (\<lambda>x. ni_node_id x = i) (mark_first j b ns) =
      (if i = j then map_option (\<lambda>n. n\<lparr>ni_available := b\<rparr>) (find (\<lambda>x. ni_node_id x = j) ns)
       else find (\<lambda>x. ni_node_id x = i) ns)" for ns
    by (induction ns) auto
  have list: "lg_nodes (legacy_set_available j b s) = mark_first j b (lg_nodes s)" by (simp add: legacy_set_available_def)
  show ?thesis unfolding legacy_get_def list by (rule marked)
qed

lemma legacy_apply_refines: "(\<lambda>i. legacy_get i (legacy_apply c s)) = map_apply c (\<lambda>i. legacy_get i s)"
  by (cases c) (auto simp: add_node_get remove_node_get set_available_get fun_eq_iff)

lemma legacy_apply_distinct: "distinct (listed_node_ids s) \<Longrightarrow> distinct (listed_node_ids (legacy_apply c s))"
proof (cases c)
  case (RemoveNode i)
  then show "distinct (listed_node_ids s) \<Longrightarrow> ?thesis" by (simp add: legacy_remove_node_def Let_def distinct_map_filter)
qed (auto simp: add_node_ids legacy_set_available_def)

lemma legacy_apply_path [simp]: "lg_path (legacy_apply c s) = lg_path s"
  by (cases c) (simp_all add: legacy_add_node_def legacy_remove_node_def legacy_set_available_def Let_def)

lemma legacy_run:
  "(\<lambda>i. legacy_get i (fold legacy_apply cs s)) = fold map_apply cs (\<lambda>i. legacy_get i s)
    \<and> (distinct (listed_node_ids s) \<longrightarrow> distinct (listed_node_ids (fold legacy_apply cs s)))
    \<and> lg_path (fold legacy_apply cs s) = lg_path s"
proof (induction cs arbitrary: s)
  case (Cons c cs)
  from Cons [of "legacy_apply c s"] show ?case by (simp add: legacy_apply_refines legacy_apply_distinct)
qed simp

text \<open>The list behaves as a map from ids to nodes under every sequence of changes, whatever snapshot it was
  loaded from; ids stay unique when the snapshot's are; removing says whether there was a node; and a
  save that succeeds is what the next load gives, one that fails leaves the snapshot as it was.\<close>

theorem legacy_store_refines_map:
  assumes "legacy_load path disk = Inr s"
  shows "(\<forall>i. legacy_get i (fold legacy_apply cs s) = fold map_apply cs (\<lambda>i. legacy_get i s) i)
    \<and> (distinct (listed_node_ids s) \<longrightarrow> distinct (listed_node_ids (fold legacy_apply cs s)))
    \<and> (snd (legacy_remove_node i s) \<longleftrightarrow> legacy_get i s \<noteq> None)
    \<and> (case legacy_save written renamed (fold legacy_apply cs s) disk of
         (disk', Inr _) \<Rightarrow> legacy_load path disk' = Inr (fold legacy_apply cs s)
       | (disk', Inl _) \<Rightarrow> disk' = disk)"
proof -
  note run = legacy_run [of cs s]
  have "snd (legacy_remove_node i s) \<longleftrightarrow> legacy_get i s \<noteq> None"
  proof -
    have "length (filter P ns) < length ns \<longleftrightarrow> (\<exists>n \<in> set ns. \<not> P n)" for P and ns :: "node_info list"
      by (induction ns) (auto simp: less_Suc_eq_le)
    then show ?thesis
      by (auto simp: legacy_remove_node_def legacy_get_def Let_def find_None_iff)
  qed
  moreover have path: "lg_path (fold legacy_apply cs s) = Some path"
    using assms run by (auto simp: legacy_load_def res_simps split: option.splits)
  moreover have "\<lparr>lg_nodes = lg_nodes t, lg_path = Some path\<rparr> = t" if "lg_path t = Some path" for t :: legacy_store
    using that by simp
  then have "case legacy_save written renamed (fold legacy_apply cs s) disk of
      (disk', Inr _) \<Rightarrow> legacy_load path disk' = Inr (fold legacy_apply cs s)
    | (disk', Inl _) \<Rightarrow> disk' = disk"
    using path by (cases "bind_res written (\<lambda>_. renamed)") (simp_all add: legacy_save_def legacy_load_def)
  moreover have "\<forall>i. legacy_get i (fold legacy_apply cs s) = fold map_apply cs (\<lambda>i. legacy_get i s) i"
    using conjunct1 [OF run] by (simp add: fun_eq_iff)
  ultimately show ?thesis using run by blast
qed

definition sample_info :: "u64 \<Rightarrow> node_info" where
  "sample_info i = \<lparr>ni_node_id = i, ni_date_commissioned = [], ni_last_interview = None, ni_interview_version = 0,
     ni_available = True, ni_is_bridge = False, ni_attributes = JNull, ni_attribute_subscriptions = [],
     ni_ip_addresses = []\<rparr>"

theorem legacy_store_refines_map_witness:
  "\<exists>s. legacy_load ''nodes.json'' (Some (Inr [sample_info 1, sample_info 2])) = Inr s
    \<and> legacy_get 1 (fold legacy_apply [SetAvailable 1 False, RemoveNode 2] s)
        = Some ((sample_info 1)\<lparr>ni_available := False\<rparr>)"
proof -
  let ?s = "\<lparr>lg_nodes = [sample_info 1, sample_info 2], lg_path = Some ''nodes.json''\<rparr>"
  have s: "legacy_load ''nodes.json'' (Some (Inr [sample_info 1, sample_info 2])) = Inr ?s"
    by (simp add: legacy_load_def)
  have get: "legacy_get 1 ?s = Some (sample_info 1)" by (simp add: legacy_get_def sample_info_def)
  from legacy_store_refines_map [OF s, where cs = "[SetAvailable 1 False, RemoveNode 2]"] s get show ?thesis by simp
qed

end
