(* ===== verification/Startup.thy ===== *)
theory Startup
  imports Controller Server_Info Ip_Text Device_Commissioning Connection
begin

section \<open>Starting the server (\<open>main.rs\<close>, the interface choice of \<open>ws/mod.rs\<close>)\<close>

text \<open>
  The command line as \<open>clap\<close> parsed it, the health probe, and the start: read the source of an import,
  open or create the fabric, carry an import over, load the nodes and the settings, and reserve the ids
  in use. What files hold, and which reads and writes succeed, is a record; the running server is the
  context it starts from.
\<close>

record program_args =
  pa_listen :: socket
  pa_storage_path :: string
  pa_matter_port :: u16
  pa_import :: "string option"
  pa_import_namespace :: "string option"
  pa_import_dry_run :: bool
  pa_log_level :: string
  pa_fabric_label :: "string option"
  pa_disable_ota :: bool
  pa_disable_thread_diagnostics :: bool
  pa_disable_bluetooth :: bool
  pa_poll_interval_secs :: u64
  pa_enable_test_net_dcl :: bool
  pa_health_check :: bool

definition program_args_default :: program_args where
  "program_args_default = \<lparr>pa_listen = \<lparr>so_ip = IpV4 [0, 0, 0, 0], so_port = 5580, so_scope = 0\<rparr>,
     pa_storage_path = ''/data'', pa_matter_port = matter_port, pa_import = None, pa_import_namespace = None,
     pa_import_dry_run = False, pa_log_level = ''info'', pa_fabric_label = None, pa_disable_ota = False,
     pa_disable_thread_diagnostics = False, pa_disable_bluetooth = False, pa_poll_interval_secs = 30,
     pa_enable_test_net_dcl = False, pa_health_check = False\<rparr>"

subsection \<open>The health probe\<close>

fun unspecified_ip :: "ip_addr \<Rightarrow> bool" where
  "unspecified_ip (IpV4 bs) = (bs = [0, 0, 0, 0])"
| "unspecified_ip (IpV6 bs) = (bs = replicate 16 0)"

definition health_target :: "socket \<Rightarrow> socket" where
  "health_target listen =
     (if unspecified_ip (so_ip listen) then \<lparr>so_ip = IpV4 [127, 0, 0, 1], so_port = so_port listen, so_scope = 0\<rparr>
      else listen)"

definition socket_text :: "socket \<Rightarrow> string" where
  "socket_text a =
     (case so_ip a of
        IpV4 _ \<Rightarrow> ip_text (so_ip a) @ '':'' @ show_u (so_port a)
      | IpV6 _ \<Rightarrow> ''['' @ ip_text (so_ip a) @ (if so_scope a = 0 then [] else ''%'' @ show_u (so_scope a))
          @ '']:'' @ show_u (so_port a))"

definition health_request :: "socket \<Rightarrow> string" where
  "health_request target = ''GET /health HTTP/1.1'' @ crlf @ ''Host: '' @ socket_text target @ crlf
     @ ''Connection: close'' @ crlf @ crlf"

text \<open>What follows the last occurrence of a separator, if there is one.\<close>

fun tail_after :: "string \<Rightarrow> string \<Rightarrow> string option" where
  "tail_after sep [] = None"
| "tail_after sep (c # s) =
     (case tail_after sep s of Some r \<Rightarrow> Some r | None \<Rightarrow> strip_prefix sep (c # s))"

definition strip_cr :: "string \<Rightarrow> string" where
  "strip_cr line = (if line \<noteq> [] \<and> last line = CHR 0x0D then butlast line else line)"

definition first_line :: "string \<Rightarrow> string" where
  "first_line s =
     (case split_once CHR 0x0A s of Some (line, _) \<Rightarrow> strip_cr line | None \<Rightarrow> s)"

definition health_verdict :: "string \<Rightarrow> err_chain + string" where
  "health_verdict response =
     (if \<not> starts_with ''HTTP/1.1 200'' response
      then Inl [''health check failed: '' @ first_line response]
      else Inr (trim (unwrap_or (tail_after (crlf @ crlf) response) response)))"

text \<open>\<open>exchange\<close>: what a connection to an address answers to a request, within the time limits.\<close>

definition health_check :: "(socket \<Rightarrow> string \<Rightarrow> err_chain + string) \<Rightarrow> socket \<Rightarrow> err_chain + string" where
  "health_check exchange listen =
     (let target = health_target listen
      in bind_res (exchange target (health_request target)) health_verdict)"

subsection \<open>Features and levels\<close>

text \<open>\<open>built\<close>: the feature is compiled in and the host is Linux.\<close>

definition bluetooth_available :: "bool \<Rightarrow> string + unit \<Rightarrow> string list list option \<Rightarrow> bool \<Rightarrow> bool" where
  "bluetooth_available built bus objects disabled =
     (if \<not> built \<or> disabled then False
      else (case ble_open bus of Inr _ \<Rightarrow> adapter_present objects | Inl _ \<Rightarrow> False))"

datatype log_setup = FromEnvironment string | Ceiling log_filter

definition init_logging :: "string option \<Rightarrow> string \<Rightarrow> log_setup" where
  "init_logging rust_log level =
     (case rust_log of Some spec \<Rightarrow> FromEnvironment spec | None \<Rightarrow> Ceiling (level_filter level))"

subsection \<open>The start\<close>

record storage_disk =
  sd_controller :: controller_disk
  sd_files :: server_files

record start_env =
  st_store_lib :: store_lib
  st_source :: "string \<Rightarrow> fs option"
  st_fabric_lib :: fabric_lib
  st_startup :: startup_env
  st_apply :: apply_env
  st_chain_debug :: "err_chain \<Rightarrow> string"
  st_nodes_load :: "err_chain option"
  st_reserve_write :: bool
  st_bluetooth_built :: bool
  st_bus :: "string + unit"
  st_objects :: "string list list option"
  st_version :: string

record server_setup =
  su_listen :: socket
  su_runtime :: runtime_info
  su_console_loglevel :: string
  su_monitor :: monitor_config

record started_server =
  sr_controller :: matter_controller
  sr_nodes :: nodes
  sr_config :: config_store
  sr_setup :: server_setup

definition read_import :: "start_env \<Rightarrow> program_args \<Rightarrow> err_chain + mj_import option" where
  "read_import E a =
     (case pa_import a of
        None \<Rightarrow> Inr None
      | Some source \<Rightarrow> map_res Some (migrate_read (st_store_lib E) source (st_source E source) (pa_import_namespace a)))"

definition no_controller :: "start_env \<Rightarrow> program_args \<Rightarrow> err_chain \<Rightarrow> err_chain" where
  "no_controller E a e = [''Could not initialize the Matter controller with storage at '' @ quoted (pa_storage_path a)
     @ '': '' @ st_chain_debug E e @ ''. That directory holds the fabric and must be writable by the user the ''
     @ ''server runs as (uid 65532 in the container image).'']"

definition server_setup_of :: "start_env \<Rightarrow> program_args \<Rightarrow> server_setup" where
  "server_setup_of E a = \<lparr>su_listen = pa_listen a,
     su_runtime = (runtime_default (st_version E))\<lparr>
       ri_bluetooth_enabled := bluetooth_available (st_bluetooth_built E) (st_bus E) (st_objects E) (pa_disable_bluetooth a),
       ri_ble_proxy_enabled := False, ri_ota_enabled := \<not> pa_disable_ota a,
       ri_thread_diagnostics_enabled := \<not> pa_disable_thread_diagnostics a,
       ri_pinned_fabric_label := pa_fabric_label a, ri_test_net_dcl := pa_enable_test_net_dcl a\<rparr>,
     su_console_loglevel = pa_log_level a,
     su_monitor = monitor_config_default\<lparr>mc_interval := unat (max (pa_poll_interval_secs a) 5)\<rparr>\<rparr>"

text \<open>The nodes and the settings belong to the fabric, so they are written only when it was adopted.\<close>

definition carry_import ::
  "start_env \<Rightarrow> program_args \<Rightarrow> matter_controller \<Rightarrow> mj_import option \<Rightarrow> server_files
   \<Rightarrow> server_files \<times> (err_chain + unit)" where
  "carry_import E a mc im files =
     (case im of
        Some m \<Rightarrow> if mc_origin mc = Imported then apply_state (st_apply E) m (pa_storage_path a) files else (files, Inr ())
      | None \<Rightarrow> (files, Inr ()))"

definition load_state :: "start_env \<Rightarrow> program_args \<Rightarrow> server_files \<Rightarrow> err_chain + nodes \<times> config_store" where
  "load_state E a files =
     (case st_nodes_load E of
        Some e \<Rightarrow> Inl e
      | None \<Rightarrow> map_res (Pair (load_nodes (sf_nodes files)))
          (map_err (\<lambda>e. [e]) (config_load (path_join (pa_storage_path a) ''config.json'') (sf_config files))))"

definition reserve_ids :: "bool \<Rightarrow> nodes \<Rightarrow> config_store \<Rightarrow> config_store \<times> (err_chain + unit)" where
  "reserve_ids io ns cs =
     (case ns_highest_node_id ns of
        None \<Rightarrow> (cs, Inr ())
      | Some highest \<Rightarrow> (case reserve_node_ids_above io highest cs of (cs', r) \<Rightarrow> (cs', map_err (\<lambda>e. [e]) r)))"

definition start_with ::
  "start_env \<Rightarrow> program_args \<Rightarrow> mj_import option \<Rightarrow> storage_disk \<Rightarrow> storage_disk \<times> (err_chain + started_server)" where
  "start_with E a im d =
     (case init_controller (st_fabric_lib E) (st_startup E) (pa_storage_path a) (map_option im_fabric im)
             (sd_controller d) of
        (kd, Inl e) \<Rightarrow> (d\<lparr>sd_controller := kd\<rparr>, Inl (no_controller E a e))
      | (kd, Inr mc) \<Rightarrow>
          (case carry_import E a mc im (sd_files d) of
             (fs, Inl e) \<Rightarrow> (\<lparr>sd_controller = kd, sd_files = fs\<rparr>, Inl e)
           | (fs, Inr _) \<Rightarrow>
               (case load_state E a fs of
                  Inl e \<Rightarrow> (\<lparr>sd_controller = kd, sd_files = fs\<rparr>, Inl e)
                | Inr (ns, cs) \<Rightarrow>
                    (case reserve_ids (st_reserve_write E) ns cs of
                       (cs', Inl e) \<Rightarrow> (\<lparr>sd_controller = kd, sd_files = fs\<rparr>, Inl e)
                     | (cs', Inr _) \<Rightarrow>
                         (\<lparr>sd_controller = kd, sd_files = fs\<lparr>sf_config := cs_disk cs'\<rparr>\<rparr>,
                          Inr \<lparr>sr_controller = mc, sr_nodes = ns, sr_config = cs',
                               sr_setup = server_setup_of E a\<rparr>)))))"

definition serve :: "start_env \<Rightarrow> program_args \<Rightarrow> storage_disk \<Rightarrow> storage_disk \<times> (err_chain + started_server)" where
  "serve E a d = (case read_import E a of Inl e \<Rightarrow> (d, Inl e) | Inr im \<Rightarrow> start_with E a im d)"

text \<open>The context \<open>ws::run\<close> builds from what was started.\<close>

definition server_of :: "started_server \<Rightarrow> server" where
  "server_of r = server_new (sr_nodes r) (sr_config r) (su_runtime (sr_setup r)) (su_console_loglevel (sr_setup r))"

datatype main_result =
    Probed string
  | Reported string
  | Running started_server

definition main ::
  "(socket \<Rightarrow> string \<Rightarrow> err_chain + string) \<Rightarrow> start_env \<Rightarrow> program_args \<Rightarrow> storage_disk
   \<Rightarrow> storage_disk \<times> (err_chain + main_result)" where
  "main exchange E a d =
     (if pa_health_check a then (d, map_res Probed (health_check exchange (pa_listen a)))
      else if pa_import_dry_run a
      then (d, case pa_import a of
          None \<Rightarrow> Inl [''--import-matterjs-dry-run needs --import-matterjs'']
        | Some source \<Rightarrow> map_res (\<lambda>im. Reported (summary im))
            (migrate_read (st_store_lib E) source (st_source E source) (pa_import_namespace a)))
      else (case serve E a d of (d', r) \<Rightarrow> (d', map_res Running r)))"

subsection \<open>The interface of mDNS\<close>

text \<open>An entry of the interface list: its address may be missing, or of another family.\<close>

record iface_entry =
  fe_name :: string
  fe_up :: bool
  fe_loopback :: bool
  fe_point_to_point :: bool
  fe_address :: "ip_addr option option"

record if_candidate =
  iv_name :: string
  iv_ipv4 :: "bytes option"
  iv_ipv6 :: "bytes option"

record mdns_interface =
  mi_name :: string
  mi_index :: u32
  mi_ipv4 :: bytes
  mi_ipv6 :: bytes

definition usable_entry :: "iface_entry \<Rightarrow> bool" where
  "usable_entry e = (fe_up e \<and> \<not> fe_loopback e \<and> \<not> fe_point_to_point e)"

fun keep_address :: "ip_addr option \<Rightarrow> if_candidate \<Rightarrow> if_candidate" where
  "keep_address (Some (IpV4 bs)) c = c\<lparr>iv_ipv4 := opt_or (iv_ipv4 c) (Some bs)\<rparr>"
| "keep_address (Some (IpV6 bs)) c = c\<lparr>iv_ipv6 := opt_or (iv_ipv6 c) (Some bs)\<rparr>"
| "keep_address None c = c"

fun at_candidate :: "string \<Rightarrow> (if_candidate \<Rightarrow> if_candidate) \<Rightarrow> if_candidate list \<Rightarrow> if_candidate list" where
  "at_candidate name f [] = [f \<lparr>iv_name = name, iv_ipv4 = None, iv_ipv6 = None\<rparr>]"
| "at_candidate name f (c # cs) = (if iv_name c = name then f c # cs else c # at_candidate name f cs)"

definition add_interface_entry :: "iface_entry \<Rightarrow> if_candidate list \<Rightarrow> if_candidate list" where
  "add_interface_entry e cs =
     (if \<not> usable_entry e then cs
      else (case fe_address e of None \<Rightarrow> cs | Some a \<Rightarrow> at_candidate (fe_name e) (keep_address a) cs))"

fun find_map :: "('a \<Rightarrow> 'b option) \<Rightarrow> 'a list \<Rightarrow> 'b option" where
  "find_map f [] = None"
| "find_map f (x # xs) = (case f x of None \<Rightarrow> find_map f xs | Some y \<Rightarrow> Some y)"

text \<open>\<open>index_of\<close>: the system's number of an interface, if it has one.\<close>

definition select_interface ::
  "(string \<Rightarrow> u32 option) \<Rightarrow> string + iface_entry list \<Rightarrow> string + mdns_interface" where
  "select_interface index_of listed = bind_res listed (\<lambda>entries.
     ok_or ''no interface is up with both an IPv4 and an IPv6 address''
       (find_map (\<lambda>c. opt_bind (iv_ipv4 c) (\<lambda>v4. map_option (\<lambda>v6.
            \<lparr>mi_name = iv_name c, mi_index = unwrap_or (index_of (iv_name c)) 0, mi_ipv4 = v4, mi_ipv6 = v6\<rparr>) (iv_ipv6 c)))
         (fold add_interface_entry entries [])))"

definition prepare_mdns :: "(string \<Rightarrow> u32 option) \<Rightarrow> string + iface_entry list \<Rightarrow> (mdns_interface \<Rightarrow> string + unit)
    \<Rightarrow> string + mdns_interface" where
  "prepare_mdns index_of listed bound =
     bind_res (map_err (\<lambda>e. ''Cannot start mDNS: '' @ e @ ''. Matter finds and reaches devices over mDNS ''
         @ ''on an IPv6-capable interface, so the server cannot run without one. In ''
         @ ''a container this usually means bridge networking '' @ em_dash @ '' run it with host ''
         @ ''networking instead.'') (select_interface index_of listed)) (\<lambda>i.
     map_res (\<lambda>_. i) (map_err (\<lambda>e. ''Cannot bind the mDNS socket on port 5353: '' @ e
         @ ''. Another mDNS responder may be holding it without SO_REUSEPORT.'') (bound i)))"

subsection \<open>Laws of the interface list\<close>

fun v4_of :: "string \<Rightarrow> iface_entry \<Rightarrow> bytes option" where
  "v4_of name e = (if usable_entry e \<and> fe_name e = name
     then (case fe_address e of Some (Some (IpV4 bs)) \<Rightarrow> Some bs | _ \<Rightarrow> None) else None)"

fun v6_of :: "string \<Rightarrow> iface_entry \<Rightarrow> bytes option" where
  "v6_of name e = (if usable_entry e \<and> fe_name e = name
     then (case fe_address e of Some (Some (IpV6 bs)) \<Rightarrow> Some bs | _ \<Rightarrow> None) else None)"

definition listed_as :: "iface_entry list \<Rightarrow> if_candidate list \<Rightarrow> bool" where
  "listed_as es cs =
     ((\<forall>c \<in> set cs. iv_ipv4 c = find_map (v4_of (iv_name c)) es \<and> iv_ipv6 c = find_map (v6_of (iv_name c)) es)
      \<and> (\<forall>n. n \<notin> iv_name ` set cs \<longrightarrow> find_map (v4_of n) es = None \<and> find_map (v6_of n) es = None)
      \<and> distinct (map iv_name cs))"

lemma find_map_append: "find_map f (xs @ ys) = opt_or (find_map f xs) (find_map f ys)"
  by (induction xs) (auto simp: opt_or_def split: option.split)

lemma find_map_Some: "find_map f xs = Some y \<Longrightarrow> \<exists>x \<in> set xs. f x = Some y"
  by (induction xs) (auto split: option.splits)

lemma find_map_None: "find_map f xs = None \<longleftrightarrow> (\<forall>x \<in> set xs. f x = None)"
  by (induction xs) (auto split: option.splits)

lemma keep_address_name [simp]: "iv_name (keep_address a c) = iv_name c"
  by (cases "(a, c)" rule: keep_address.cases) auto

lemma at_candidate_names:
  "(\<And>c. iv_name (f c) = iv_name c) \<Longrightarrow> map iv_name (at_candidate name f cs) =
     (if name \<in> set (map iv_name cs) then map iv_name cs else map iv_name cs @ [name])"
  by (induction cs) auto

lemma at_candidate_other:
  "c \<in> set (at_candidate name f cs) \<Longrightarrow> (\<And>c. iv_name (f c) = iv_name c) \<Longrightarrow> iv_name c \<noteq> name \<Longrightarrow> c \<in> set cs"
  by (induction cs) (auto split: if_splits)

lemma at_candidate_same:
  "c \<in> set (at_candidate name f cs) \<Longrightarrow> (\<And>c. iv_name (f c) = iv_name c) \<Longrightarrow> iv_name c = name \<Longrightarrow> distinct (map iv_name cs)
    \<Longrightarrow> (\<exists>b \<in> set cs. iv_name b = name \<and> c = f b)
      \<or> (name \<notin> iv_name ` set cs \<and> c = f \<lparr>iv_name = name, iv_ipv4 = None, iv_ipv6 = None\<rparr>)"
  by (induction cs) (auto split: if_splits)

lemma find_map_one: "find_map f [x] = f x"
  by (simp split: option.split)

lemma keep_address_own:
  assumes "usable_entry e" and "fe_address e = Some a"
    and "iv_ipv4 c = find_map (v4_of (fe_name e)) es" and "iv_ipv6 c = find_map (v6_of (fe_name e)) es"
  shows "find_map (v4_of (fe_name e)) (es @ [e]) = iv_ipv4 (keep_address a c)
    \<and> find_map (v6_of (fe_name e)) (es @ [e]) = iv_ipv6 (keep_address a c)"
  using assms by (cases "(a, c)" rule: keep_address.cases) (auto simp: find_map_append opt_or_def split: option.splits)

lemma listed_step:
  assumes "listed_as es cs"
  shows "listed_as (es @ [e]) (add_interface_entry e cs)"
proof (cases "usable_entry e \<and> fe_address e \<noteq> None")
  case False
  then have "v4_of n e = None" "v6_of n e = None" for n by auto
  then show ?thesis using assms False
    by (auto simp: listed_as_def add_interface_entry_def find_map_append opt_or_def split: option.splits)
next
  case True
  then obtain a where a: "fe_address e = Some a" by blast
  let ?n = "fe_name e" and ?cs = "at_candidate (fe_name e) (keep_address a) cs"
  have other: "v4_of n e = None \<and> v6_of n e = None" if "n \<noteq> ?n" for n using that by simp
  note own = keep_address_own [OF conjunct1 [OF True] a]
  have "iv_ipv4 c = find_map (v4_of (iv_name c)) (es @ [e]) \<and> iv_ipv6 c = find_map (v6_of (iv_name c)) (es @ [e])"
    if c: "c \<in> set ?cs" for c
  proof (cases "iv_name c = ?n")
    case True
    have dist: "distinct (map iv_name cs)" using assms by (simp add: listed_as_def)
    from at_candidate_same [OF c keep_address_name True dist] show ?thesis
    proof (elim disjE bexE conjE)
      fix b assume "b \<in> set cs" "iv_name b = ?n" "c = keep_address a b"
      then show ?thesis using own [of b] assms by (simp add: listed_as_def)
    next
      assume "?n \<notin> iv_name ` set cs" and new: "c = keep_address a \<lparr>iv_name = ?n, iv_ipv4 = None, iv_ipv6 = None\<rparr>"
      then show ?thesis
        using own [of "\<lparr>iv_name = ?n, iv_ipv4 = None, iv_ipv6 = None\<rparr>"] assms by (simp add: listed_as_def)
    qed
  next
    case False
    with at_candidate_other [OF c] assms other [OF False] show ?thesis
      by (auto simp: listed_as_def find_map_append opt_or_def split: option.split)
  qed
  moreover have names: "map iv_name ?cs = (if ?n \<in> set (map iv_name cs) then map iv_name cs else map iv_name cs @ [?n])"
    by (rule at_candidate_names) simp
  moreover have "find_map (v4_of n) (es @ [e]) = None \<and> find_map (v6_of n) (es @ [e]) = None" if "n \<notin> iv_name ` set ?cs" for n
  proof -
    have "iv_name ` set ?cs = insert ?n (iv_name ` set cs)"
      using arg_cong [OF names, of set] by auto
    then show ?thesis using that assms other [of n] by (auto simp: listed_as_def find_map_append opt_or_def)
  qed
  ultimately have "listed_as (es @ [e]) ?cs" using assms by (auto simp: listed_as_def)
  then show ?thesis using True a by (simp add: add_interface_entry_def)
qed

lemma listed_fold: "listed_as es (fold add_interface_entry es [])"
proof (induction es rule: rev_induct)
  case Nil
  show ?case by (simp add: listed_as_def)
next
  case (snoc e es)
  then show ?case using listed_step [of es] by simp
qed

text \<open>The interface mDNS runs on is up, neither loopback nor point to point, and is used with the first
  address of each family the system lists for it; the start is refused only when no such interface has
  an address of both families.\<close>

theorem interface_chosen:
  "case select_interface index_of (Inr es) of
     Inr i \<Rightarrow> find_map (v4_of (mi_name i)) es = Some (mi_ipv4 i) \<and> find_map (v6_of (mi_name i)) es = Some (mi_ipv6 i)
   | Inl _ \<Rightarrow> (\<forall>n. find_map (v4_of n) es = None \<or> find_map (v6_of n) es = None)"
proof -
  let ?cs = "fold add_interface_entry es []"
  let ?f = "\<lambda>c. opt_bind (iv_ipv4 c) (\<lambda>v4. map_option (\<lambda>v6.
      \<lparr>mi_name = iv_name c, mi_index = unwrap_or (index_of (iv_name c)) 0, mi_ipv4 = v4, mi_ipv6 = v6\<rparr>) (iv_ipv6 c))"
  note inv = listed_fold [of es, unfolded listed_as_def]
  have sel: "select_interface index_of (Inr es)
      = ok_or ''no interface is up with both an IPv4 and an IPv6 address'' (find_map ?f ?cs)"
    by (simp add: select_interface_def)
  show ?thesis
  proof (cases "find_map ?f ?cs")
    case None
    then have none: "iv_ipv4 c = None \<or> iv_ipv6 c = None" if "c \<in> set ?cs" for c
      using that by (cases "iv_ipv4 c"; cases "iv_ipv6 c") (fastforce simp: find_map_None)+
    have "find_map (v4_of n) es = None \<or> find_map (v6_of n) es = None" for n
    proof (cases "n \<in> iv_name ` set ?cs")
      case True
      then obtain c where c: "c \<in> set ?cs" "n = iv_name c" by blast
      show ?thesis using none [OF c(1)] inv c by auto
    qed (use inv in blast)
    then show ?thesis using None by (simp add: sel)
  next
    case (Some i)
    from find_map_Some [OF this] obtain c where c: "c \<in> set ?cs" "?f c = Some i" by blast
    then have "iv_ipv4 c = Some (mi_ipv4 i) \<and> iv_ipv6 c = Some (mi_ipv6 i) \<and> mi_name i = iv_name c"
      by (auto simp: Option.bind_eq_Some_conv)
    then show ?thesis using inv c(1) Some by (auto simp: sel)
  qed
qed

subsection \<open>Properties of a start\<close>

lemma find_last_bound:
  "sorted (xs :: u64 list) \<Longrightarrow> n \<in> set xs \<Longrightarrow> P n \<Longrightarrow> \<exists>h. find P (rev xs) = Some h \<and> n \<le> h \<and> P h"
  by (induction xs rule: rev_induct) (auto simp: sorted_append)

lemma highest_bound:
  assumes "bt_ok ns" and "ns_contains ns n" and "n < test_node_start"
  shows "\<exists>h. ns_highest_node_id ns = Some h \<and> n \<le> h \<and> h < test_node_start"
proof -
  have "sorted (bt_keys ns)" "n \<in> set (bt_keys ns)" using assms(1,2) bt_keys_sorted [of ns]
    by (simp_all add: strict_sorted_iff set_bt_keys ns_contains_def bt_contains_def)
  from find_last_bound [OF this, where P = "\<lambda>i. i < test_node_start"] assms(3) show ?thesis
    by (auto simp: ns_highest_node_id_def)
qed

lemma load_nodes_ok: "bt_ok (load_nodes disk)"
  by (simp add: load_nodes_def bt_ok_collect split: option.split)

lemma reserve_above:
  assumes "reserve_ids io ns cs = (cs', Inr ())" and "ns_highest_node_id ns = Some h" and "h < test_node_start"
  shows "h < cd_next_node_id (cs_data cs')"
proof -
  have "h < h + 1"
  proof -
    have "unat h < unat test_node_start" using assms(3) by (simp add: word_less_nat_alt)
    then have "unat (h + 1) = unat h + 1" by (intro unat_add_lem [THEN iffD1, THEN trans]) (simp_all add: test_node_start_def)
    then show ?thesis by (simp add: word_less_nat_alt)
  qed
  then show ?thesis using assms(1,2)
    by (auto simp: reserve_ids_def reserve_node_ids_above_def config_mutate_def config_save_def Let_def res_simps not_le
        split: prod.splits if_splits option.splits)
qed

lemma allocated_from_counter:
  "allocate_node_id io cs = (cs', Inr i) \<Longrightarrow> cd_next_node_id (cs_data cs) \<le> i"
  by (auto simp: allocate_node_id_def config_mutate_def config_save_def Let_def split: if_splits option.splits)

text \<open>A server that has started hands out no id of a node it knows: its counter is above every stored id of
  the fabric, however old the files are, and the counter is what the configuration file holds.\<close>

theorem start_keeps_ids_fresh:
  assumes "serve E a d = (d', Inr r)"
  shows "(\<forall>n. ns_contains (sr_nodes r) n \<longrightarrow> n < test_node_start \<longrightarrow> n < cd_next_node_id (cs_data (sr_config r)))
    \<and> (\<forall>io cs i. allocate_node_id io (sr_config r) = (cs, Inr i) \<longrightarrow> i < test_node_start \<longrightarrow> \<not> ns_contains (sr_nodes r) i)
    \<and> sf_config (sd_files d') = cs_disk (sr_config r)"
proof -
  obtain kd mc fs ns cs where run: "load_state E a fs = Inr (ns, cs)"
    "reserve_ids (st_reserve_write E) ns cs = (sr_config r, Inr ())" "sr_nodes r = ns"
    "sf_config (sd_files d') = cs_disk (sr_config r)"
    using assms by (auto simp: serve_def start_with_def split: sum.splits prod.splits)
  have ok: "bt_ok ns" using run(1) by (auto simp: load_state_def load_nodes_ok res_simps split: option.splits)
  have above: "n < cd_next_node_id (cs_data (sr_config r))" if "ns_contains ns n" "n < test_node_start" for n
  proof -
    from highest_bound [OF ok that] obtain h where h: "ns_highest_node_id ns = Some h" "n \<le> h" "h < test_node_start" by blast
    from reserve_above [OF run(2) h(1,3)] h(2) show ?thesis by (rule le_less_trans [rotated])
  qed
  moreover have "\<not> ns_contains ns i" if "allocate_node_id io (sr_config r) = (cs', Inr i)" "i < test_node_start" for io cs' i
    using above [of i] that(2) allocated_from_counter [OF that(1)] by (auto simp: not_less [symmetric])
  ultimately show ?thesis using run(3,4) by blast
qed

text \<open>C39: an import is carried over at most once. When its nodes and settings cannot be written after its fabric
  was adopted, that start fails, and every later start that succeeds runs the adopted fabric with what
  the failed one left in the files, whatever import is requested: a node file that could not be written
  stays without the imported nodes.\<close>

theorem interrupted_import_is_final:
  assumes "init_controller (st_fabric_lib E) (st_startup E) (pa_storage_path a) (Some (im_fabric im)) (sd_controller d)
      = (kd, Inr mc)" and "mc_origin mc = Imported"
    and "library_sound (st_fabric_lib E) (se_attempts (st_startup E))"
    and "apply_state (st_apply E) im (pa_storage_path a) (sd_files d) = (fs, Inl e)"
  shows "start_with E a (Some im) d = (\<lparr>sd_controller = kd, sd_files = fs\<rparr>, Inl e)
    \<and> (\<forall>E' a' d' r. serve E' a' \<lparr>sd_controller = kd, sd_files = fs\<rparr> = (d', Inr r)
        \<longrightarrow> mc_origin (sr_controller r) = Loaded \<and> sr_nodes r = load_nodes (sf_nodes fs))
    \<and> (\<not> ae_nodes_write (st_apply E) \<longrightarrow> sf_nodes fs = sf_nodes (sd_files d))"
proof (intro conjI allI impI)
  show "start_with E a (Some im) d = (\<lparr>sd_controller = kd, sd_files = fs\<rparr>, Inl e)"
    using assms by (simp add: start_with_def carry_import_def)
  show "\<not> ae_nodes_write (st_apply E) \<Longrightarrow> sf_nodes fs = sf_nodes (sd_files d)"
    using assms(4) by (auto simp: apply_state_def Let_def split: option.splits)
next
  fix E' a' d' r
  assume later: "serve E' a' \<lparr>sd_controller = kd, sd_files = fs\<rparr> = (d', Inr r)"
  have kept: "kd_fabrics kd \<noteq> []" using init_controller_stored [OF assms(1,3)] by auto
  obtain im' where im': "start_with E' a' im' \<lparr>sd_controller = kd, sd_files = fs\<rparr> = (d', Inr r)"
    using later by (auto simp: serve_def split: sum.splits)
  obtain kd' mc' where loaded: "init_controller (st_fabric_lib E') (st_startup E') (pa_storage_path a')
      (map_option im_fabric im') kd = (kd', Inr mc')" and same: "sr_controller r = mc'"
    using im' by (auto simp: start_with_def split: sum.splits prod.splits)
  have origin: "mc_origin mc' = Loaded"
    using loaded kept by (auto simp: init_controller_def res_simps split: sum.splits)
  then show "mc_origin (sr_controller r) = Loaded" by (simp add: same)
  have "carry_import E' a' mc' im' fs = (fs, Inr ())" by (simp add: carry_import_def origin split: option.split)
  then show "sr_nodes r = load_nodes (sf_nodes fs)"
    using im' loaded by (auto simp: start_with_def load_state_def res_simps split: sum.splits prod.splits option.splits)
qed

subsection \<open>Properties of the probe\<close>

lemma tail_after_plain:
  "CHR 0x0D \<notin> set s \<Longrightarrow> tail_after (CHR 0x0D # sep) s = None"
  by (induction s) auto

lemma tail_after_last:
  assumes "CHR 0x0D \<notin> set s"
  shows "tail_after (crlf @ crlf) (pre @ crlf @ crlf @ s) = Some s"
proof (induction pre)
  case Nil
  have plain: "tail_after (crlf @ crlf) s = None"
    unfolding crlf_def append_Cons append_Nil by (rule tail_after_plain [OF assms])
  have "strip_prefix (crlf @ crlf) (crlf @ s) = None" using assms by (cases s) (auto simp: crlf_def)
  then have "tail_after (crlf @ crlf) (crlf @ s) = None" using plain by (simp add: crlf_def)
  then show ?case by (simp add: crlf_def)
next
  case (Cons c pre)
  then show ?case by simp
qed

text \<open>The probe agrees with the endpoint it probes: a server that is up answers \<open>GET /health\<close> so that the probe
  succeeds and prints the answer's JSON, and answers any other method so that it fails.\<close>

theorem probe_accepts_health:
  assumes "is_health (rh_path head)" and "CHR 0x0D \<notin> set (to_text v)"
    and "v = jobj [(''status'', JStr ''ok''), (''schema_version'', juint schema_version),
                     (''nodes'', juint (ns_len (srv_nodes s)))]"
  shows "health_verdict (answer_bytes to_text (snd (serve_http dec now head peer reads s))) =
    (if eq_ignore_ascii_case (rh_method head) ''GET'' then Inr (trim (to_text v))
     else Inl [''health check failed: HTTP/1.1 405 Method Not Allowed''])"
proof (cases "eq_ignore_ascii_case (rh_method head) ''GET''")
  case True
  let ?pre = "''HTTP/1.1 '' @ show_nat 200 @ '' '' @ ''OK'' @ crlf @ ''Content-Type: application/json'' @ crlf
     @ ''Content-Length: '' @ show_nat (length (to_text v)) @ crlf @ ''Connection: close''"
  have answer: "answer_bytes to_text (snd (serve_http dec now head peer reads s)) = ?pre @ crlf @ crlf @ to_text v"
    using True assms(1,3) by (simp add: serve_http_def answer_bytes_def json_response_def)
  have "show_nat 200 = ''200''" by code_simp
  then have "starts_with ''HTTP/1.1 200'' (?pre @ crlf @ crlf @ to_text v)" by (simp add: starts_with_def)
  then show ?thesis unfolding answer using True tail_after_last [OF assms(2), of ?pre] by (simp add: health_verdict_def)
next
  case False
  then have "answer_bytes to_text (snd (serve_http dec now head peer reads s)) = method_not_allowed ''GET''"
    using assms(1) by (simp add: serve_http_def answer_bytes_def)
  moreover have "health_verdict (method_not_allowed ''GET'') = Inl [''health check failed: HTTP/1.1 405 Method Not Allowed'']"
    by code_simp
  ultimately show ?thesis using False by simp
qed

subsection \<open>Witnesses\<close>

definition adopting_lib :: fabric_lib where
  "adopting_lib = plain_lib\<lparr>fl_add := (\<lambda>_ _. Inr plain_fabric)\<rparr>"

definition start_on :: apply_env where
  "start_on = good_env\<lparr>ae_nodes_write := False\<rparr>"

definition sample_start :: start_env where
  "sample_start = \<lparr>st_store_lib = \<lparr>parse_json = (\<lambda>_. Inl []), show_float = (\<lambda>_. []), parse_f64 = (\<lambda>_. None),
       gunzip = (\<lambda>_. Inl []), utf8_error = (\<lambda>_. [])\<rparr>,
     st_source = (\<lambda>_. None), st_fabric_lib = adopting_lib, st_startup = flaky_env (Inr ()), st_apply = start_on,
     st_chain_debug = concat, st_nodes_load = None, st_reserve_write = True, st_bluetooth_built = False, st_bus = Inr (),
     st_objects = None, st_version = ''0''\<rparr>"

definition fresh_disk :: storage_disk where
  "fresh_disk = \<lparr>sd_controller = empty_disk, sd_files = no_files\<rparr>"

definition adopted_disk :: controller_disk where
  "adopted_disk = \<lparr>kd_fabrics = [plain_fabric], kd_issuer_key = Some (replicate 32 7)\<rparr>"

lemma sample_adopts:
  "init_controller (st_fabric_lib sample_start) (st_startup sample_start) path (Some small_fabric) empty_disk
     = (adopted_disk, Inr \<lparr>mc_fabrics = [plain_fabric], mc_issuer_key = replicate 32 7, mc_origin = Imported\<rparr>)"
proof -
  have installed: "install_fabric adopting_lib small_fabric [] = ([plain_fabric], Inr (replicate 32 7))"
    by (simp add: install_fabric_def adopting_lib_def plain_lib_def small_fabric_def identifiers_match_def
        plain_fabric_def carry_label_def)
  show ?thesis
    by (simp add: init_controller_def sample_start_def installed keep_fabric_def persist_fabric_def persist_issuer_key_def
        flaky_fields empty_disk_def adopted_disk_def)
qed

lemma adopted_loads:
  "init_controller (st_fabric_lib sample_start) (st_startup sample_start) path None adopted_disk
     = (adopted_disk, Inr \<lparr>mc_fabrics = [plain_fabric], mc_issuer_key = replicate 32 7, mc_origin = Loaded\<rparr>)"
  by (simp add: init_controller_def sample_start_def flaky_fields adopted_disk_def load_issuer_key_def adopting_lib_def
      plain_lib_def)

lemma reserve_ids_writes: "\<exists>cs'. reserve_ids True ns cs = (cs', Inr ())"
  by (cases "ns_highest_node_id ns"; cases "cs_path cs")
    (simp_all add: reserve_ids_def reserve_node_ids_above_def config_mutate_def config_save_def Let_def)

lemma adopted_starts:
  "\<exists>d' r. serve sample_start program_args_default \<lparr>sd_controller = adopted_disk, sd_files = files\<lparr>sf_config := None\<rparr>\<rparr> = (d', Inr r)
    \<and> sr_nodes r = load_nodes (sf_nodes files)"
proof -
  obtain cs where cs: "config_load (path_join ''/data'' ''config.json'') None = Inr cs" by (simp add: config_load_def)
  then have data: "load_state sample_start program_args_default (files\<lparr>sf_config := None\<rparr>) = Inr (load_nodes (sf_nodes files), cs)"
    by (simp add: load_state_def sample_start_def program_args_default_def)
  have "st_reserve_write sample_start" by (simp add: sample_start_def)
  then obtain cs' where "reserve_ids (st_reserve_write sample_start) (load_nodes (sf_nodes files)) cs = (cs', Inr ())"
    using reserve_ids_writes by (metis (full_types))
  moreover have "pa_import program_args_default = None" by (simp add: program_args_default_def)
  ultimately show ?thesis using adopted_loads [of "pa_storage_path program_args_default"] data
    by (simp add: serve_def read_import_def start_with_def carry_import_def)
qed

theorem start_keeps_ids_fresh_witness:
  "\<exists>d' r. serve sample_start program_args_default \<lparr>sd_controller = adopted_disk,
       sd_files = \<lparr>sf_nodes = Some [stored_new (node_new 41 ''t'')], sf_config = None\<rparr>\<rparr> = (d', Inr r)
    \<and> ns_contains (sr_nodes r) 41 \<and> 41 < cd_next_node_id (cs_data (sr_config r))"
proof -
  obtain d' r where run: "serve sample_start program_args_default \<lparr>sd_controller = adopted_disk,
       sd_files = \<lparr>sf_nodes = Some [stored_new (node_new 41 ''t'')], sf_config = None\<rparr>\<rparr> = (d', Inr r)"
    and held: "sr_nodes r = load_nodes (Some [stored_new (node_new 41 ''t'')])"
    using adopted_starts [of "\<lparr>sf_nodes = Some [stored_new (node_new 41 ''t'')], sf_config = None\<rparr>"] by auto
  moreover have "ns_contains (sr_nodes r) 41"
    by (simp add: held load_nodes_def bt_collect_def bt_extend_def stored_new_def node_new_def ns_contains_def bt_contains_def
        bt_get_def)
  ultimately show ?thesis using start_keeps_ids_fresh [OF run] by (auto simp: test_node_start_def)
qed

theorem interrupted_import_is_final_witness:
  "\<exists>fs e d' r. start_with sample_start program_args_default (Some (small_import [])) fresh_disk
        = (\<lparr>sd_controller = adopted_disk, sd_files = fs\<rparr>, Inl e)
    \<and> serve sample_start program_args_default \<lparr>sd_controller = adopted_disk, sd_files = fs\<rparr> = (d', Inr r)
    \<and> sr_nodes r = []"
proof -
  let ?path = "pa_storage_path program_args_default"
  have fabric: "im_fabric (small_import []) = small_fabric" by (simp add: small_import_def)
  have sound: "library_sound (st_fabric_lib sample_start) (se_attempts (st_startup sample_start))"
    by (auto simp: library_sound_def sample_start_def adopting_lib_def plain_lib_def)
  obtain e where failed: "apply_state (st_apply sample_start) (small_import []) ?path (sd_files fresh_disk) = (no_files, Inl e)"
    by (simp add: apply_state_def sample_start_def start_on_def good_env_def fresh_disk_def Let_def)
  have init: "init_controller (st_fabric_lib sample_start) (st_startup sample_start) ?path (Some (im_fabric (small_import [])))
      (sd_controller fresh_disk) = (adopted_disk, Inr \<lparr>mc_fabrics = [plain_fabric], mc_issuer_key = replicate 32 7, mc_origin = Imported\<rparr>)"
    using sample_adopts by (simp add: fabric fresh_disk_def)
  obtain d' r where later: "serve sample_start program_args_default \<lparr>sd_controller = adopted_disk, sd_files = no_files\<rparr> = (d', Inr r)"
    using adopted_starts [of no_files] by (auto simp: no_files_def)
  from interrupted_import_is_final [OF init _ sound failed] later show ?thesis
    by (fastforce simp: no_files_def load_nodes_def)
qed

theorem probe_accepts_health_witness:
  "health_verdict (answer_bytes (\<lambda>_. ''{}'') (snd (serve_http (\<lambda>_. None) 0
      \<lparr>rh_method = ''GET'', rh_path = ''/health'', rh_headers = [], rh_body_prefix = []\<rparr> ''p'' []
      (server_new [] config_in_memory (runtime_default []) [])))) = Inr ''{}''"
proof -
  let ?head = "\<lparr>rh_method = ''GET'', rh_path = ''/health'', rh_headers = [], rh_body_prefix = []\<rparr>"
  have facts: "trim ''{}'' = ''{}''" "eq_ignore_ascii_case ''GET'' ''GET''" by code_simp+
  have "is_health (rh_path ?head)" by (simp add: is_health_def)
  from probe_accepts_health [OF this _ refl, where to_text = "\<lambda>_. ''{}''"] facts show ?thesis by simp
qed

end
