(* ===== verification/Spec2Isabelle.thy ===== *)
theory Spec2Isabelle
  imports Private_Write Node_Persist Ota_Api Icd Connection Migrate_Model Thread_Diag Dcl Commissioning Webrtc Legacy_Nodes Startup
begin

text \<open>
  The Matter controller server of \<open>src/server\<close>, as functions and step relations.

  The program. A client opens a WebSocket (\<open>ws\<close>); each frame is a request that
  \<open>api/mod.rs\<close> routes to a handler, whose result goes back in one of two envelopes. Handlers
  work on a shared context: the node table (\<open>storage/nodes.rs\<close>), the configuration
  (\<open>storage/config.rs\<close>), the upload and image registry (\<open>api/ota.rs\<close>), the subscription
  registry (\<open>matter/subscriptions.rs\<close>), the event bus, and the Matter operations, which run in a
  thread of their own. A monitor (\<open>monitor.rs\<close>) keeps every node subscribed or polled; what a
  device reports (\<open>matter/reports.rs\<close>) is merged into the node table and published on the bus,
  and every connection that opted in forwards it to its client.

  Foundations.
  \<^item> \<open>Prelude\<close>: machine integers as words, \<open>Result\<close> as a sum, the short-circuiting
    combinators, the hint collections \<open>res_simps\<close>, \<open>str_simps\<close> and \<open>store_simps\<close>.
  \<^item> \<open>Rust_Str\<close>, \<open>Rust_Num\<close>: UTF-8 strings as bytes, trimming, case folding, parsing and
    printing of numbers, hexadecimal, each with its round trip.
  \<^item> \<open>Btree\<close>: \<open>BTreeMap\<close> as a sorted association list, and the interface \<open>keyed_store\<close> (an
    empty store, lookup, insertion, removal and the laws between them), interpreted on the map
    as \<open>bt\<close> and, in \<open>Config_Store\<close>, on the list of check-in registrations as \<open>icd\<close>.
  \<^item> \<open>Json\<close>: \<open>serde_json::Value\<close> and its accessors.

  Protocol (\<open>protocol/\<close>).
  \<^item> \<open>Errors\<close> (\<open>error.rs\<close>), \<open>Message\<close> (\<open>message.rs\<close>: requests, envelopes, typed
    arguments), \<open>Paths\<close> (\<open>paths.rs\<close>), \<open>Events\<close> (\<open>events.rs\<close>, and the bus of \<open>api/mod.rs\<close>),
    \<open>Node_Model\<close> (the node of \<open>model.rs\<close>).

  Storage (\<open>storage/\<close>).
  \<^item> \<open>Private_Write\<close>: \<open>write_private\<close> as its system calls, any of which may fail, with
    readers that look at any moment.
  \<^item> \<open>Node_Store\<close>: the node table and every operation on it; \<open>Node_Persist\<close>: saving, the
    writer thread and shutdown as a step relation.
  \<^item> \<open>Config_Store\<close>: credentials, label, counter, registrations, the file form, and runs with
    failed writes, kills and restarts; \<open>Thread_Dataset\<close>: the MeshCoP decoder.

  Server.
  \<^item> \<open>Subscriptions\<close> (\<open>matter/subscriptions.rs\<close>), \<open>Ota_Registry\<close> (\<open>api/ota.rs\<close>,
    \<open>matter/ota_provider.rs\<close>), \<open>Server_Context\<close> (\<open>api/mod.rs\<close>: the record \<open>server\<close> is the shared
    context, its list of published events and save requests what was asked of the bus and of the
    writer; label ownership, event history, routing).
  \<^item> \<open>Monitor\<close> (\<open>monitor.rs\<close>, \<open>matter/reports.rs\<close>), \<open>Http\<close> and \<open>Connection\<close> (\<open>ws/\<close>: request heads,
    the WebSocket loop, uploads), \<open>Ota_Api\<close> (update discovery and start).
  \<^item> \<open>Startup\<close> (\<open>main.rs\<close>, the interface choice of \<open>ws/mod.rs\<close>): the health probe and the sequence
    of a start over what the storage directory holds.

  Talking to devices (\<open>matter/\<close>).
  \<^item> \<open>Wire_Naming\<close>, \<open>Clusters\<close>: the spellings of names and the registry built from the bundled
    cluster table. \<open>Tlv_Json\<close>: values between TLV and JSON, by schema. \<open>Im_Client\<close>
    (\<open>interaction.rs\<close>): each transaction as a function of what happens on its exchange.
  \<^item> \<open>Device_Commissioning\<close> (\<open>commissioning.rs\<close>, \<open>spake2p_verifier.rs\<close>, \<open>ble.rs\<close>), \<open>Controller\<close>
    (\<open>controller.rs\<close>: creating, importing and resuming the fabric), \<open>Actor\<close> (\<open>actor.rs\<close>: operations,
    their handle, their dispatch, the loop as a step relation, and the access grants of
    \<open>ota_provider.rs\<close>).
  \<^item> \<open>Mdns\<close> (\<open>mdns_browser.rs\<close>), \<open>Ip_Text\<close> (printing and parsing of addresses), \<open>Dcl\<close> (\<open>dcl.rs\<close>: the
    ledger and its caches), \<open>Legacy_Nodes\<close> (\<open>nodes.rs\<close>).
  \<^item> \<open>Thread_Model\<close> (the diagnostics structures of \<open>protocol/model.rs\<close>), \<open>Otbr_Translate\<close> and
    \<open>Otbr_Client\<close> (\<open>otbr_rest.rs\<close>: both generations of the border router's API).

  Commands (\<open>api/\<close>).
  \<^item> \<open>Interaction_Api\<close>, \<open>Nodes_Api\<close>, \<open>Fabrics\<close>, \<open>Server_Info\<close>, \<open>Icd\<close> (with \<open>matter/checkin.rs\<close>),
    \<open>Commissioning\<close>, \<open>Webrtc\<close> (with \<open>matter/webrtc.rs\<close>), \<open>Topology\<close> (\<open>network.rs\<close>) and \<open>Thread_Diag\<close>
    (\<open>thread_diagnostics.rs\<close>, and the network commands over it): one definition per handler, from
    arguments and server to server and result.

  Migration (\<open>migrate/\<close>).
  \<^item> \<open>Migrate_Value\<close> (tagged values), \<open>Migrate_Store\<close> (the three storage layouts), \<open>Migrate_Model\<close>
    (fabric, nodes and settings of a namespace, and carrying them over).

  What the lemmas show. Each store has an invariant and every operation keeps it; each parser
  either accepts exactly the printed form or names the error; each step relation (an atomic write,
  the writer thread, the runs of the configuration, the actor's loop) has an
  invariant proved by rule induction and a property of all its runs (no torn file, no lost
  change, no re-issued id, no request answered twice or dropped). Optimised or layered code is
  compared with a plain reading of it: a cache with asking the ledger, a log commit with a change
  of a map, a snapshot and its log with the whole history, the older node list with a map. The
  properties that span components (a report is published exactly as it was stored, an upload stores
  only what parses, a device commissioned by code joins the network the configuration holds, a start
  hands out no id that is in use) are proved in the theory of the later component;
  what a restart followed by a commissioning leaves untouched is proved at the end of this one.

  Bounds, fuel and termination. Loops over chunks of a stream, over TLVs and over blocks of an image
  are recursive on what remains, so they need no fuel: a TLV consumes at least its header, a block
  that is not empty moves the offset towards the image's size. The decoder of stored values follows
  strings that are themselves JSON; its fuel is the length of the longest text, and
  \<open>decoding_terminates\<close> shows it is enough. Two loops may run for ever and are
  \<open>partial_function\<close>s, with the condition under which they return proved: waiting for a task of a
  border router (a clock that runs) and drawing a setup passcode (a draw that is allowed). The queue
  of a subscriber holds 256 events, the history 25, the actor's channel 8 requests, a request head
  16 KiB and one more read, an upload 64 MiB and one more read. The
  node-id counter is a 64-bit word: the runs of \<open>Config_Store\<close> stop before it is exhausted.

  Parameters. Code that is not in this repository is an argument: what the Matter operations of
  rs-matter answer (its exchanges, commissioner, fabric and access tables, pairing codes,
  certificates and cryptography), its TLV decoder, the bundled cluster and vendor tables, JSON text,
  base64, SHA-256, gunzip and UUID generation, HTTP exchanges with the ledger and with border
  routers, the packets a browse receives, the file tree an import reads, BlueZ, the clock, random
  draws, and whether a write reaches the disk. An instant is a number of seconds or milliseconds, as
  the code has it. What is assumed of such an argument is a hypothesis of the theorem, with a
  witness that shows it can hold.

  Limits of the program that are proved here. A save that fails after the flag was cleared leaves the
  change neither on disk nor pending (\<open>overlap_or_failure_loses\<close>). An upload cut short is stored if
  its header parses (\<open>truncated_upload_is_stored\<close>). An uploaded image of the requested version is
  passed over when a newer one is held (\<open>requested_local_image_ignored\<close>). A fabric whose key could
  not be written blocks every later start (\<open>lost_key_blocks_starts\<close>), an import whose files could not
  be written is never carried over (\<open>interrupted_import_is_final\<close>), a Wi-Fi credential that is refused
  strands an import (\<open>refused_credential_strands_import\<close>). A node that joined but could not be saved
  is never announced (\<open>failed_commission_outcomes\<close>). Diagnostics refreshed for a topology are never
  announced (\<open>refresh_unannounced\<close>), neighbours given by number draw no link
  (\<open>numeric_addresses_draw_no_link\<close>), a border router once without diagnostics is never probed again
  (\<open>useless_router_remembered\<close>).

  Not modelled. \<open>matter/responder.rs\<close> builds the handlers of rs-matter and runs them: it has no
  logic of its own. Of \<open>ws/mod.rs\<close>, the sockets, the accept loop and the wiring of the run are I/O,
  and the test server is for tests. Of \<open>main.rs\<close>, the command line parser, the logger and the server
  thread are libraries. Of \<open>protocol/model.rs\<close>, the structures no modelled component builds. How
  several handlers interleave inside one step of the context's locks is not modelled: a handler runs
  as one function of the server, except where a step relation says otherwise.
\<close>

section \<open>Starting and commissioning\<close>

text \<open>C40: a server that was restarted and then commissions a device overwrites no node it knows. The device is
  handed an id that no node of the table has; when it keeps that id, every node known after the start is
  stored as it was, and the announcement that ends the command is the new node's.\<close>

theorem commission_after_start_is_fresh:
  assumes "serve E a d = (d', Inr r)" and "commission T target passcode (server_of r) = (s', Inr v)"
  shows "\<exists>i n address index node before. tr_commission T target passcode i = Inr (n, address, index)
    \<and> (i < test_node_start \<longrightarrow> \<not> ns_contains (sr_nodes r) i)
    \<and> (n = i \<and> i < test_node_start \<longrightarrow> (\<forall>k. ns_contains (sr_nodes r) k
          \<longrightarrow> ns_get_stored (srv_nodes s') k = ns_get_stored (sr_nodes r) k))
    \<and> srv_published s' = before @ [ev_node_added node] \<and> nd_node_id node = n \<and> ns_get (srv_nodes s') n = Some node"
proof -
  have server: "srv_config (server_of r) = sr_config r" "srv_nodes (server_of r) = sr_nodes r" "srv_published (server_of r) = []"
    by (simp_all add: server_of_def server_new_def)
  from commission_announces_last_core [OF assms(2)] obtain i n address index node before where c:
    "allocate_node_id (tr_io T) (sr_config r) = (srv_config s', Inr i)"
    "tr_commission T target passcode i = Inr (n, address, index)" "ns_get (srv_nodes s') n = Some node" "nd_node_id node = n"
    "\<forall>k. k \<noteq> n \<longrightarrow> ns_get_stored (srv_nodes s') k = ns_get_stored (sr_nodes r) k"
    "srv_published s' = before @ [ev_node_added node]"
    unfolding server by auto
  have "i < test_node_start \<longrightarrow> \<not> ns_contains (sr_nodes r) i" using start_keeps_ids_fresh [OF assms(1)] c(1) by blast
  then show ?thesis using c by metis
qed

lemma allocation_written: "\<exists>cs' i. allocate_node_id True cs = (cs', Inr i)"
  by (cases "cs_path cs") (simp_all add: allocate_node_id_def config_mutate_def config_save_def Let_def)

theorem commission_after_start_is_fresh_witness:
  "\<exists>r s' v. sr_nodes r = load_nodes (Some [stored_new (node_new 41 ''t'')])
    \<and> commission sample_attempt (TargetAddress ''192.0.2.5'') 20202021 (server_of r) = (s', Inr v)
    \<and> (\<exists>node before. srv_published s' = before @ [ev_node_added node])"
proof -
  obtain d' r where run: "serve sample_start program_args_default \<lparr>sd_controller = adopted_disk,
       sd_files = \<lparr>sf_nodes = Some [stored_new (node_new 41 ''t'')], sf_config = None\<rparr>\<rparr> = (d', Inr r)"
    and held: "sr_nodes r = load_nodes (Some [stored_new (node_new 41 ''t'')])"
    using adopted_starts [of "\<lparr>sf_nodes = Some [stored_new (node_new 41 ''t'')], sf_config = None\<rparr>"] by auto
  obtain cs i where "allocate_node_id True (srv_config (server_of r)) = (cs, Inr i)" using allocation_written by blast
  then obtain s' v where ran: "commission sample_attempt (TargetAddress ''192.0.2.5'') 20202021 (server_of r) = (s', Inr v)"
    using sample_adoption [of sample_attempt "TargetAddress ''192.0.2.5''" 20202021 i i _ _ "server_of r" cs]
    by (auto simp: sample_attempt_def)
  from commission_after_start_is_fresh [OF run ran] ran held show ?thesis by blast
qed

end
